(* ===== verification/Prelude.thy ===== *)
theory Prelude
  imports Main "HOL-Library.Multiset" "HOL-Library.Word" "HOL-Library.Signed_Division"
    "HOL-Library.List_Lexorder" "HOL-Library.Char_ord" "HOL-Library.AList"
begin

text \<open>
  Shared vocabulary of the development: Go maps as association lists, the range of
  \<^verbatim>\<open>int64\<close>, byte strings and the string functions of the Go standard library
  the sources call (\<^verbatim>\<open>strings.TrimSpace\<close>, \<^verbatim>\<open>strings.ToUpper\<close> and
  \<^verbatim>\<open>strings.ToLower\<close> on ASCII, \<^verbatim>\<open>strconv\<close> decimal conversion),
  and the generic list lemmas the components use.

  Conventions. A Go \<^verbatim>\<open>string\<close> is a list of bytes (\<^typ>\<open>string\<close>), so
  \<^verbatim>\<open>len\<close> is \<^const>\<open>length\<close> and \<^verbatim>\<open><\<close> is the lexicographic
  byte order of \<open>List_Lexorder\<close> over \<open>Char_ord\<close>. A Go map is an association
  list with distinct keys; the order of the list is the iteration order of one
  \<^verbatim>\<open>range\<close> loop, which Go leaves open, so a statement about every list is a
  statement about every iteration order. An error result is the left summand of a sum.
\<close>

named_theorems range_simps \<open>bounds of the machine integers\<close>
named_theorems alist_simps \<open>lookup and update of association lists\<close>

subsection \<open>Machine integers\<close>

type_synonym uint64 = "64 word"

definition MinInt64 :: int where "MinInt64 = - (2 ^ 63)"
definition MaxInt64 :: int where "MaxInt64 = 2 ^ 63 - 1"
definition MaxUint64 :: uint64 where "MaxUint64 = - 1"

text \<open>The integers an \<^verbatim>\<open>int64\<close> holds, and the two's-complement wrap-around.\<close>

definition is_int64 :: "int \<Rightarrow> bool" where
  "is_int64 x \<longleftrightarrow> MinInt64 \<le> x \<and> x \<le> MaxInt64"

definition wrap_int64 :: "int \<Rightarrow> int" where
  "wrap_int64 x = sint (word_of_int x :: 64 word)"

subsection \<open>Strings\<close>

text \<open>
  The white space of \<^verbatim>\<open>unicode.IsSpace\<close>, each code point as its UTF-8 bytes:
  the ASCII spaces, U+0085, U+00A0, U+1680, U+2000 to U+200A, U+2028, U+2029, U+202F,
  U+205F and U+3000. UTF-8 is prefix- and suffix-free, so a string starts (ends) with
  such a code point exactly when it has its bytes as a prefix (suffix).
\<close>

definition space_encodings :: "string list" where
  "space_encodings =
     [[CHR 0x09], [CHR 0x0A], [CHR 0x0B], [CHR 0x0C], [CHR 0x0D], [CHR 0x20],
      [CHR 0xC2, CHR 0x85], [CHR 0xC2, CHR 0xA0], [CHR 0xE1, CHR 0x9A, CHR 0x80],
      [CHR 0xE2, CHR 0x80, CHR 0x80], [CHR 0xE2, CHR 0x80, CHR 0x81],
      [CHR 0xE2, CHR 0x80, CHR 0x82], [CHR 0xE2, CHR 0x80, CHR 0x83],
      [CHR 0xE2, CHR 0x80, CHR 0x84], [CHR 0xE2, CHR 0x80, CHR 0x85],
      [CHR 0xE2, CHR 0x80, CHR 0x86], [CHR 0xE2, CHR 0x80, CHR 0x87],
      [CHR 0xE2, CHR 0x80, CHR 0x88], [CHR 0xE2, CHR 0x80, CHR 0x89],
      [CHR 0xE2, CHR 0x80, CHR 0x8A], [CHR 0xE2, CHR 0x80, CHR 0xA8],
      [CHR 0xE2, CHR 0x80, CHR 0xA9], [CHR 0xE2, CHR 0x80, CHR 0xAF],
      [CHR 0xE2, CHR 0x81, CHR 0x9F], [CHR 0xE3, CHR 0x80, CHR 0x80]]"

definition has_prefix :: "string \<Rightarrow> string \<Rightarrow> bool" where
  "has_prefix s p \<longleftrightarrow> take (length p) s = p"

text \<open>The length of the white space a string starts with: \<open>None\<close> where it starts with none.\<close>

definition leading_space :: "string list \<Rightarrow> string \<Rightarrow> nat option" where
  "leading_space encs s = (case filter (has_prefix s) encs of [] \<Rightarrow> None | e # _ \<Rightarrow> Some (length e))"

fun drop_spaces :: "nat \<Rightarrow> string list \<Rightarrow> string \<Rightarrow> string" where
  "drop_spaces 0 encs s = s"
| "drop_spaces (Suc fuel) encs s =
     (case leading_space encs s of None \<Rightarrow> s | Some n \<Rightarrow> drop_spaces fuel encs (drop n s))"

text \<open>
  Every round of \<^const>\<open>drop_spaces\<close> removes a byte, so \<open>length s\<close> rounds are enough
  (lemma \<open>drop_spaces_done\<close>).
\<close>

definition trim_left :: "string \<Rightarrow> string" where
  "trim_left s = drop_spaces (length s) space_encodings s"

definition trim_right :: "string \<Rightarrow> string" where
  "trim_right s = rev (drop_spaces (length s) (map rev space_encodings) (rev s))"

definition TrimSpace :: "string \<Rightarrow> string" where
  "TrimSpace s = trim_right (trim_left s)"

text \<open>
  \<^verbatim>\<open>strings.ToUpper\<close> and \<^verbatim>\<open>strings.ToLower\<close> on ASCII bytes. Bytes of
  code points beyond ASCII are left alone: the sources compare the result with ASCII
  constants only, and no code point beyond ASCII other than U+017F, U+0131 and U+212A maps
  into ASCII (those three are outside the model).
\<close>

definition upper_byte :: "char \<Rightarrow> char" where
  "upper_byte c = (if CHR ''a'' \<le> c \<and> c \<le> CHR ''z'' then char_of (of_char c - (32::nat)) else c)"

definition lower_byte :: "char \<Rightarrow> char" where
  "lower_byte c = (if CHR ''A'' \<le> c \<and> c \<le> CHR ''Z'' then char_of (of_char c + (32::nat)) else c)"

definition ToUpper :: "string \<Rightarrow> string" where "ToUpper = map upper_byte"
definition ToLower :: "string \<Rightarrow> string" where "ToLower = map lower_byte"

definition is_digit :: "char \<Rightarrow> bool" where
  "is_digit c \<longleftrightarrow> CHR ''0'' \<le> c \<and> c \<le> CHR ''9''"

definition digit_val :: "char \<Rightarrow> nat" where
  "digit_val c = of_char c - 48"

definition digit_char :: "nat \<Rightarrow> char" where
  "digit_char d = char_of (48 + d)"

text \<open>\<^verbatim>\<open>strconv.FormatUint\<close> and the \<^verbatim>\<open>%d\<close> verb on a natural number.\<close>

fun format_nat :: "nat \<Rightarrow> string" where
  "format_nat n = (if n < 10 then [digit_char n] else format_nat (n div 10) @ [digit_char (n mod 10)])"

declare format_nat.simps [simp del]

definition parse_nat :: "string \<Rightarrow> nat" where
  "parse_nat s = foldl (\<lambda>n c. 10 * n + digit_val c) 0 s"

text \<open>
  \<^verbatim>\<open>strconv.ParseUint(s, 10, 64)\<close>: decimal digits only, at least one, and a value
  below \<open>2 ^ 64\<close>; \<open>None\<close> stands for its error.
\<close>

definition ParseUint64 :: "string \<Rightarrow> uint64 option" where
  "ParseUint64 s =
     (if s \<noteq> [] \<and> list_all is_digit s \<and> parse_nat s < 2 ^ 64
      then Some (of_nat (parse_nat s)) else None)"

definition FormatUint64 :: "uint64 \<Rightarrow> string" where
  "FormatUint64 v = format_nat (unat v)"

text \<open>\<^verbatim>\<open>strconv.FormatInt\<close> in base 10.\<close>

definition FormatInt :: "int \<Rightarrow> string" where
  "FormatInt n = (if n < 0 then CHR ''-'' # format_nat (nat (- n)) else format_nat (nat n))"

text \<open>\<^verbatim>\<open>strings.Join\<close>.\<close>

fun Join :: "string list \<Rightarrow> string \<Rightarrow> string" where
  "Join [] sep = []"
| "Join [x] sep = x"
| "Join (x # y # xs) sep = x @ sep @ Join (y # xs) sep"

subsection \<open>Results that may be errors\<close>

text \<open>The early return \<^verbatim>\<open>if err != nil { return ..., err }\<close>: the first error wins.\<close>

definition and_then :: "'e + 'a \<Rightarrow> ('a \<Rightarrow> 'e + 'b) \<Rightarrow> 'e + 'b" where
  "and_then r f = (case r of Inl e \<Rightarrow> Inl e | Inr a \<Rightarrow> f a)"

subsection \<open>Go maps\<close>

text \<open>
  \<open>modify_at k f m\<close> updates the value stored under \<open>k\<close> in place and leaves the
  iteration order alone: the write through the pointer that a \<^verbatim>\<open>map[K]*V\<close> holds.
\<close>

definition modify_at :: "'k \<Rightarrow> ('v \<Rightarrow> 'v) \<Rightarrow> ('k \<times> 'v) list \<Rightarrow> ('k \<times> 'v) list" where
  "modify_at k f m = map (\<lambda>(k', v). (k', if k' = k then f v else v)) m"

definition map_vals :: "('v \<Rightarrow> 'v) \<Rightarrow> ('k \<times> 'v) list \<Rightarrow> ('k \<times> 'v) list" where
  "map_vals f m = map (\<lambda>(k, v). (k, f v)) m"

subsection \<open>Lemmas on results\<close>

lemma and_then_simps [simp]: "and_then (Inl e) f = Inl e" "and_then (Inr a) f = f a"
  by (simp_all add: and_then_def)

lemma and_then_Inr_iff: "and_then r f = Inr b \<longleftrightarrow> (\<exists>a. r = Inr a \<and> f a = Inr b)"
  by (cases r) simp_all

lemma and_then_Inl_iff: "and_then r f = Inl e \<longleftrightarrow> r = Inl e \<or> (\<exists>a. r = Inr a \<and> f a = Inl e)"
  by (cases r) simp_all

subsection \<open>Lemmas on machine integers\<close>

lemma is_int64_0 [simp]: "is_int64 0"
  by (simp add: is_int64_def MinInt64_def MaxInt64_def)

lemma is_int64_min [simp]: "is_int64 MinInt64"
  by (simp add: is_int64_def MinInt64_def MaxInt64_def)

lemma is_int64_max [simp]: "is_int64 MaxInt64"
  by (simp add: is_int64_def MinInt64_def MaxInt64_def)

lemma wrap_int64_id [range_simps]: "is_int64 x \<Longrightarrow> wrap_int64 x = x"
  unfolding wrap_int64_def is_int64_def MinInt64_def MaxInt64_def
  by (simp add: sint_sbintrunc' signed_take_bit_int_eq_self)

lemma wrap_int64_range: "is_int64 (wrap_int64 x)"
  unfolding wrap_int64_def is_int64_def MinInt64_def MaxInt64_def
  using sint_ge [of "word_of_int x :: 64 word"] sint_lt [of "word_of_int x :: 64 word"]
  by simp

lemma unat_of_nat_uint64: "n < 2 ^ 64 \<Longrightarrow> unat (of_nat n :: uint64) = n"
  by (simp add: unat_of_nat take_bit_nat_eq_self)

lemma sint_of_nat_uint64: "m < 2 ^ 63 \<Longrightarrow> sint (of_nat m :: uint64) = int m"
  using sint_sbintrunc' [of "int m", where 'a = 64] by (simp add: signed_take_bit_int_eq_self)

lemma of_nat_uint64_eq_iff:
  "m < 2 ^ 64 \<Longrightarrow> n < 2 ^ 64 \<Longrightarrow> (of_nat m :: uint64) = of_nat n \<longleftrightarrow> m = n"
  by (metis unat_of_nat_uint64)

subsection \<open>Lemmas on association lists\<close>

lemma fst_modify_at [simp]: "map fst (modify_at k f m) = map fst m"
  by (induction m) (auto simp: modify_at_def)

lemma length_modify_at [simp]: "length (modify_at k f m) = length m"
  by (simp add: modify_at_def)

lemma map_of_modify_at [alist_simps]:
  "map_of (modify_at k f m) k' = (if k' = k then map_option f (map_of m k') else map_of m k')"
  by (induction m) (auto simp: modify_at_def)

lemma fst_map_vals [simp]: "map fst (map_vals f m) = map fst m"
  by (induction m) (auto simp: map_vals_def)

lemma map_of_map_vals [alist_simps]: "map_of (map_vals f m) k = map_option f (map_of m k)"
  by (induction m) (auto simp: map_vals_def)

lemma map_of_is_None_iff: "map_of m k = None \<longleftrightarrow> k \<notin> set (map fst m)"
  by (simp add: map_of_eq_None_iff)

lemma map_of_is_SomeE:
  assumes "k \<in> set (map fst m)"
  obtains v where "map_of m k = Some v"
  using assms by (metis map_of_is_None_iff not_None_eq)

lemma map_of_mset_eq:
  assumes "mset m = mset m'" and "distinct (map fst m)"
  shows "map_of m = map_of m'"
proof -
  from assms(1) have s: "set m = set m'" by (metis set_mset_mset)
  from assms have "mset (map fst m) = mset (map fst m')" by simp
  then have "distinct (map fst m')" using assms(2) by (metis mset_eq_imp_distinct_iff)
  with assms(2) s show ?thesis by (simp add: map_of_inject_set)
qed

text \<open>Two maps with the same keys in the same order agree entry by entry where their lookups do.\<close>

lemma alist_map_eq:
  assumes "distinct (map fst ts)" and "map fst us = map fst ts"
    and "\<And>k. map_option f (map_of us k) = map_option f (map_of ts k)"
  shows "map (\<lambda>(k, t). (k, f t)) us = map (\<lambda>(k, t). (k, f t)) ts"
proof (rule nth_equalityI)
  show len: "length (map (\<lambda>(k, t). (k, f t)) us) = length (map (\<lambda>(k, t). (k, f t)) ts)"
    using assms(2) by (metis length_map)
  fix i assume i: "i < length (map (\<lambda>(k, t). (k, f t)) us)"
  define k where "k = fst (ts ! i)"
  have fk: "fst (us ! i) = k" using assms(2) i len by (metis k_def length_map nth_map)
  have "map_of ts k = Some (snd (ts ! i))" using assms(1) i len by (simp add: k_def)
  moreover have "map_of us k = Some (snd (us ! i))" using assms(1,2) i fk by (metis eq_fst_iff length_map map_of_eq_Some_iff nth_mem prod.collapse)
  ultimately have "f (snd (us ! i)) = f (snd (ts ! i))" using assms(3) [of k] by simp
  then show "map (\<lambda>(k, t). (k, f t)) us ! i = map (\<lambda>(k, t). (k, f t)) ts ! i"
    using i len fk by (simp add: case_prod_beta k_def)
qed

subsection \<open>Lemmas on lists\<close>

lemma distinct_split_eq:
  assumes "distinct (xs @ k # ys)" and "xs @ k # ys = us @ k # vs"
  shows "xs = us \<and> ys = vs"
proof -
  have "distinct (us @ k # vs)" using assms by metis
  then have "k \<notin> set us" "k \<notin> set xs" "k \<notin> set ys" "k \<notin> set vs" using assms(1) by auto
  with assms(2) show ?thesis by (metis append_Cons_eq_iff)
qed

lemma sort_mset_eq: "mset xs = mset ys \<Longrightarrow> sort xs = sort (ys :: 'a :: linorder list)"
  by (metis mset_sort properties_for_sort sorted_sort)

lemma insort_key_snoc: "f x \<le> f e \<Longrightarrow> insort_key f x (ys @ [e]) = insort_key f x ys @ [e]"
  by (induction ys) auto

text \<open>An element with the greatest key comes last in the stable sort.\<close>

lemma sort_key_snoc: "(\<And>x. x \<in> set xs \<Longrightarrow> f x \<le> f e) \<Longrightarrow> sort_key f (xs @ [e]) = sort_key f xs @ [e]"
  by (induction xs) (auto simp: insort_key_snoc)

lemma length_filter_mset_eq: "mset xs = mset ys \<Longrightarrow> length (filter P xs) = length (filter P ys)"
  by (metis mset_filter size_mset)

lemma mset_concat_map_eq:
  "mset xs = mset ys \<Longrightarrow> mset (concat (map f xs)) = mset (concat (map f ys))"
  by (metis mset_concat mset_map sum_mset_sum_list map_map)

subsection \<open>Lemmas on decimal text\<close>

lemma is_digit_iff: "is_digit c \<longleftrightarrow> 48 \<le> (of_char c :: nat) \<and> (of_char c :: nat) \<le> 57"
  by (simp add: is_digit_def less_eq_char_def)

lemma digit_char_digit [simp]: "d < 10 \<Longrightarrow> is_digit (digit_char d)"
  by (simp add: is_digit_iff digit_char_def of_char_of take_bit_eq_mod)

lemma digit_val_char [simp]: "d < 10 \<Longrightarrow> digit_val (digit_char d) = d"
  by (simp add: digit_val_def digit_char_def of_char_of take_bit_eq_mod)

lemma digit_char_val [simp]: "is_digit c \<Longrightarrow> digit_char (digit_val c) = c"
  by (simp add: is_digit_iff digit_val_def digit_char_def)

lemma digit_val_less [simp]: "is_digit c \<Longrightarrow> digit_val c < 10"
  by (auto simp: is_digit_iff digit_val_def)

lemma digit_val_0_iff: "is_digit c \<Longrightarrow> digit_val c = 0 \<longleftrightarrow> c = CHR ''0''"
proof
  assume "is_digit c" and "digit_val c = 0"
  then have "of_char c = (of_char (CHR ''0'') :: nat)" by (simp add: is_digit_iff digit_val_def)
  then show "c = CHR ''0''" by (simp only: of_char_eq_iff)
qed (simp add: digit_val_def)

lemma parse_nat_Nil [simp]: "parse_nat [] = 0"
  by (simp add: parse_nat_def)

lemma parse_nat_snoc [simp]: "parse_nat (s @ [c]) = 10 * parse_nat s + digit_val c"
  by (simp add: parse_nat_def)

lemma format_nat_digits: "list_all is_digit (format_nat n)"
  by (induction n rule: format_nat.induct) (subst format_nat.simps, auto)

lemma format_nat_nonempty [simp]: "format_nat n \<noteq> []"
  by (subst format_nat.simps) simp

lemma parse_format_nat [simp]: "parse_nat (format_nat n) = n"
proof (induction n rule: format_nat.induct)
  case (1 n)
  then show ?case
    by (subst format_nat.simps) (auto simp: parse_nat_snoc [of "[]", simplified])
qed

text \<open>Decimal text without a superfluous leading zero.\<close>

definition canonical_digits :: "string \<Rightarrow> bool" where
  "canonical_digits s \<longleftrightarrow>
     s \<noteq> [] \<and> list_all is_digit s \<and> (length s > 1 \<longrightarrow> s ! 0 \<noteq> CHR ''0'')"

lemma parse_nat_pos:
  "s \<noteq> [] \<Longrightarrow> list_all is_digit s \<Longrightarrow> s ! 0 \<noteq> CHR ''0'' \<Longrightarrow> 0 < parse_nat s"
proof (induction s rule: rev_induct)
  case (snoc c s)
  show ?case
  proof (cases "s = []")
    case True
    with snoc.prems show ?thesis
      using digit_val_0_iff [of c] parse_nat_snoc [of "[]" c] by auto
  next
    case False
    with snoc show ?thesis by (auto simp: nth_append)
  qed
qed simp

lemma format_parse_nat: "canonical_digits s \<Longrightarrow> format_nat (parse_nat s) = s"
proof (induction s rule: rev_induct)
  case (snoc c s)
  then have c: "is_digit c" by (simp add: canonical_digits_def)
  show ?case
  proof (cases "s = []")
    case True
    with c show ?thesis
      using parse_nat_snoc [of "[]" c] by (subst format_nat.simps) auto
  next
    case False
    with snoc.prems have s: "canonical_digits s" "0 < parse_nat s"
      by (auto simp: canonical_digits_def nth_append intro!: parse_nat_pos)
    then have "\<not> parse_nat (s @ [c]) < 10" by simp
    then show ?thesis using snoc.IH [OF s(1)] c
      by (subst format_nat.simps) (simp add: div_mult_self1)
  qed
qed (simp add: canonical_digits_def)

lemma canonical_format_nat: "canonical_digits (format_nat n)"
proof (induction n rule: format_nat.induct)
  case (1 n)
  show ?case
  proof (cases "n < 10")
    case True
    then show ?thesis by (subst format_nat.simps) (simp add: canonical_digits_def)
  next
    case False
    have h: "format_nat n = format_nat (n div 10) @ [digit_char (n mod 10)]"
      using False by (subst format_nat.simps) simp
    from 1 False have ih: "canonical_digits (format_nat (n div 10))" by simp
    have "format_nat (n div 10) ! 0 \<noteq> CHR ''0''"
    proof
      assume z: "format_nat (n div 10) ! 0 = CHR ''0''"
      with ih have "length (format_nat (n div 10)) = 1"
        using linorder_neqE_nat by (fastforce simp: canonical_digits_def)
      then obtain x where "format_nat (n div 10) = [x]" by (metis One_nat_def length_0_conv length_Suc_conv)
      with z have "parse_nat (format_nat (n div 10)) = 0" by (simp add: parse_nat_def digit_val_def)
      with False show False by simp
    qed
    with ih show ?thesis by (auto simp: h canonical_digits_def nth_append)
  qed
qed

lemma format_nat_inj: "format_nat m = format_nat n \<Longrightarrow> m = n"
  by (metis parse_format_nat)

lemma ParseUint64_Format: "ParseUint64 (format_nat n) = (if n < 2 ^ 64 then Some (of_nat n) else None)"
  by (simp add: ParseUint64_def format_nat_digits)

lemma ParseUint64_SomeD:
  "ParseUint64 s = Some v \<Longrightarrow> s \<noteq> [] \<and> list_all is_digit s \<and> unat v = parse_nat s"
  by (auto simp: ParseUint64_def unat_of_nat take_bit_nat_eq_self split: if_splits)

lemma FormatInt_nonneg: "0 \<le> n \<Longrightarrow> FormatInt n = format_nat (nat n)"
  by (simp add: FormatInt_def)

subsection \<open>Lemmas on white space\<close>

lemma drop_spaces_id: "leading_space encs s = None \<Longrightarrow> drop_spaces n encs s = s"
  by (cases n) auto

lemma leading_space_None:
  assumes "s \<noteq> []" and "\<forall>e \<in> set encs. e \<noteq> [] \<and> hd e \<noteq> hd s"
  shows "leading_space encs s = None"
proof -
  have "\<not> has_prefix s e" if "e \<in> set encs" for e
  proof -
    from assms that have "e \<noteq> []" "hd e \<noteq> hd s" by auto
    with assms(1) show ?thesis by (cases e; cases s) (auto simp: has_prefix_def)
  qed
  then have "filter (has_prefix s) encs = []" by (simp add: filter_empty_conv)
  then show ?thesis by (simp add: leading_space_def)
qed

lemma leading_space_SomeD:
  assumes "leading_space encs s = Some n" and "[] \<notin> set encs"
  shows "0 < n \<and> n \<le> length s"
proof -
  from assms(1) obtain e es where f: "filter (has_prefix s) encs = e # es" and n: "n = length e"
    by (auto simp: leading_space_def split: list.splits)
  then have "e \<in> set (filter (has_prefix s) encs)" by simp
  then have "e \<in> set encs" "has_prefix s e" by auto
  with assms(2) n show ?thesis by (metis has_prefix_def length_greater_0_conv length_take min.cobounded1)
qed

text \<open>\<open>length s\<close> rounds reach a string that does not start with white space.\<close>

lemma drop_spaces_done:
  "[] \<notin> set encs \<Longrightarrow> length s \<le> n \<Longrightarrow>
   drop_spaces n encs s = [] \<or> leading_space encs (drop_spaces n encs s) = None"
proof (induction n arbitrary: s)
  case (Suc n)
  show ?case
  proof (cases "leading_space encs s")
    case (Some k)
    with Suc.prems have "length (drop k s) \<le> n" using leading_space_SomeD by fastforce
    with Some Suc.IH Suc.prems show ?thesis by simp
  qed simp
qed auto

definition is_token_char :: "char \<Rightarrow> bool" where
  "is_token_char c \<longleftrightarrow> 0x21 \<le> (of_char c :: nat) \<and> (of_char c :: nat) \<le> 0x7E"

lemma space_encodings_ends:
  "\<forall>e \<in> set space_encodings. e \<noteq> [] \<and> \<not> is_token_char (hd e) \<and> \<not> is_token_char (last e)"
  by (simp add: space_encodings_def is_token_char_def)

lemma TrimSpace_token:
  assumes "s \<noteq> []" and "is_token_char (hd s)" and "is_token_char (last s)"
  shows "TrimSpace s = s"
proof -
  have l: "leading_space space_encodings s = None"
    using assms space_encodings_ends by (intro leading_space_None) metis+
  have r: "leading_space (map rev space_encodings) (rev s) = None"
    using assms space_encodings_ends by (intro leading_space_None) (auto simp: hd_rev)
  show ?thesis by (simp add: TrimSpace_def trim_left_def trim_right_def drop_spaces_id l r)
qed

lemma is_token_minus [simp]: "is_token_char (CHR ''-'')"
  by (simp add: is_token_char_def)

lemma digit_is_token: "is_digit c \<Longrightarrow> is_token_char c"
  by (simp add: is_digit_iff is_token_char_def)

end
