(* ===== verification/Float64.thy ===== *)
theory Float64
  imports Prelude Complex_Main "HOL-Library.Log_Nat"
begin

text \<open>
  Go's \<^verbatim>\<open>float64\<close> arithmetic. A value is the rational number it denotes, and
  every operation rounds its exact result to 53 significant bits, half to even, as IEEE
  754 binary64 does. The exponent is unbounded: overflow to infinity, gradual underflow
  and NaN are outside the model (durations, lags, units and quantities enter the program
  as finite JSON numbers). Comparisons, negation, \<^verbatim>\<open>math.Floor\<close>,
  \<^verbatim>\<open>math.Ceil\<close>, \<^verbatim>\<open>math.Round\<close>, \<^verbatim>\<open>math.Min\<close> and the conversions of
  in-range integral values are exact.
\<close>

type_synonym float64 = rat

subsection \<open>Rounding\<close>

text \<open>Nearest integer, ties to even.\<close>

definition rne :: "rat \<Rightarrow> int" where
  "rne x = (let n = \<lfloor>x\<rfloor>; d = x - of_int n in
     if d < 1 / 2 then n else if 1 / 2 < d then n + 1 else if even n then n else n + 1)"

text \<open>The binary exponent of a positive number: \<open>2 powi ilog2 x \<le> x < 2 powi (ilog2 x + 1)\<close>.\<close>

definition ilog2 :: "rat \<Rightarrow> int" where
  "ilog2 x = (case quotient_of x of (p, q) \<Rightarrow>
     (let k = bitlen p - bitlen q in if 2 powi k \<le> x then k else k - 1))"

definition f64 :: "rat \<Rightarrow> float64" where
  "f64 x = (if x = 0 then 0
     else (let s = 2 powi (52 - ilog2 \<bar>x\<bar>) in of_int (rne (x * s)) / s))"

definition fadd :: "float64 \<Rightarrow> float64 \<Rightarrow> float64" where "fadd a b = f64 (a + b)"
definition fsub :: "float64 \<Rightarrow> float64 \<Rightarrow> float64" where "fsub a b = f64 (a - b)"
definition fmul :: "float64 \<Rightarrow> float64 \<Rightarrow> float64" where "fmul a b = f64 (a * b)"
definition fdiv :: "float64 \<Rightarrow> float64 \<Rightarrow> float64" where "fdiv a b = f64 (a / b)"

text \<open>The conversion \<^verbatim>\<open>float64(n)\<close> of an integer.\<close>

definition float_of_int :: "int \<Rightarrow> float64" where "float_of_int n = f64 (of_int n)"

text \<open>\<^verbatim>\<open>math.Round\<close>: half away from zero. \<^verbatim>\<open>math.Ceil\<close>, \<^verbatim>\<open>math.Floor\<close>.\<close>

definition math_Round :: "float64 \<Rightarrow> int" where
  "math_Round x = (if 0 \<le> x then \<lfloor>x + 1 / 2\<rfloor> else - \<lfloor>- x + 1 / 2\<rfloor>)"

definition math_Ceil :: "float64 \<Rightarrow> int" where "math_Ceil x = \<lceil>x\<rceil>"
definition math_Floor :: "float64 \<Rightarrow> int" where "math_Floor x = \<lfloor>x\<rfloor>"

text \<open>The untyped constant \<^verbatim>\<open>1e-9\<close> the scheduler and the resource checks use.\<close>

definition eps :: float64 where "eps = f64 (1 / 10 ^ 9)"

subsection \<open>Nearest integer\<close>

lemma rne_of_int [simp]: "rne (of_int n) = n"
  by (simp add: rne_def)

lemma rne_near: "\<bar>of_int (rne x) - x\<bar> \<le> 1 / 2"
proof -
  define n where "n = \<lfloor>x\<rfloor>"
  have "of_int n \<le> x" "x < of_int n + 1" unfolding n_def by linarith+
  then show ?thesis unfolding rne_def Let_def n_def [symmetric] by (auto simp: abs_le_iff)
qed

lemma rne_mono: assumes "x \<le> y" shows "rne x \<le> rne y"
proof (cases "\<lfloor>x\<rfloor> = \<lfloor>y\<rfloor>")
  case True
  with assms show ?thesis by (auto simp: rne_def Let_def)
next
  case False
  with assms have "\<lfloor>x\<rfloor> + 1 \<le> \<lfloor>y\<rfloor>" using floor_mono [OF assms] by linarith
  moreover have "rne x \<le> \<lfloor>x\<rfloor> + 1" "\<lfloor>y\<rfloor> \<le> rne y" by (auto simp: rne_def Let_def)
  ultimately show ?thesis by linarith
qed

lemma rne_minus: "rne (- x) = - rne x"
proof (cases "x \<in> \<int>")
  case True
  then obtain n where x: "x = of_int n" by (auto elim: Ints_cases)
  have "rne (of_int (- n)) = - n" by (rule rne_of_int)
  with x show ?thesis by simp
next
  case False
  have fl: "\<lfloor>- x\<rfloor> = - \<lfloor>x\<rfloor> - 1"
  proof (rule floor_unique)
    show "of_int (- \<lfloor>x\<rfloor> - 1) \<le> - x" by (simp, linarith)
    have "x \<noteq> of_int \<lfloor>x\<rfloor>" using False by (metis Ints_of_int)
    then have "of_int \<lfloor>x\<rfloor> < x" using of_int_floor_le [of x] by linarith
    then show "- x < of_int (- \<lfloor>x\<rfloor> - 1) + 1" by simp
  qed
  show ?thesis by (auto simp: rne_def Let_def fl)
qed

subsection \<open>The binary exponent\<close>

lemma powi2_le_iff [simp]: "(2::rat) powi a \<le> 2 powi b \<longleftrightarrow> a \<le> b"
  by (metis linorder_not_less one_le_numeral one_less_numeral_iff power_int_increasing
      power_int_strict_increasing semiring_norm(76) zero_less_one)

lemma powi2_less_iff [simp]: "(2::rat) powi a < 2 powi b \<longleftrightarrow> a < b"
  using powi2_le_iff [of b a] by (auto simp: not_le [symmetric])

lemma bitlen_powi:
  assumes "0 < n"
  shows "(2::rat) powi (bitlen n - 1) \<le> of_int n \<and> of_int n < (2::rat) powi bitlen n"
proof -
  have nn: "0 < bitlen n" using assms by (metis bitlen_eq_zero_iff bitlen_nonneg less_le not_le)
  have "2 ^ nat (bitlen n - 1) \<le> n \<and> n < 2 ^ nat (bitlen n)" using bitlen_bounds assms by blast
  then have "(2::rat) ^ nat (bitlen n - 1) \<le> of_int n \<and> of_int n < (2::rat) ^ nat (bitlen n)"
    by (metis of_int_le_iff of_int_less_iff of_int_numeral of_int_power)
  then show ?thesis using nn by (simp add: power_int_def)
qed

lemma ilog2_bounds:
  assumes "0 < x"
  shows "2 powi ilog2 x \<le> x \<and> x < 2 powi (ilog2 x + 1)"
proof -
  obtain p q where pq: "quotient_of x = (p, q)" by (cases "quotient_of x")
  have q: "0 < q" and xq: "x = of_int p / of_int q"
    using pq quotient_of_denom_pos quotient_of_div by blast+
  with assms have p: "0 < p" by (simp add: zero_less_divide_iff)
  define k where "k = bitlen p - bitlen q"
  have "(2::rat) powi (bitlen p - 1) / 2 powi bitlen q < of_int p / of_int q"
    using bitlen_powi [OF p] bitlen_powi [OF q] q by (intro frac_less2) auto
  then have lo: "(2::rat) powi (k - 1) < x"
    by (simp add: xq k_def power_int_diff)
  have "of_int p / of_int q < (2::rat) powi bitlen p / 2 powi (bitlen q - 1)"
    using bitlen_powi [OF p] bitlen_powi [OF q] p by (intro frac_less) auto
  moreover have "(2::rat) powi bitlen p / 2 powi (bitlen q - 1) = 2 powi (k + 1)"
    by (simp add: k_def power_int_diff power_int_add)
  ultimately have hi: "x < 2 powi (k + 1)" by (simp add: xq)
  show ?thesis
    using lo hi by (auto simp: ilog2_def pq k_def [symmetric])
qed

lemma ilog2_mono:
  assumes "0 < x" and "x \<le> y"
  shows "ilog2 x \<le> ilog2 y"
proof -
  have "(2::rat) powi ilog2 x < 2 powi (ilog2 y + 1)"
    using ilog2_bounds [of x] ilog2_bounds [of y] assms by linarith
  then have "ilog2 x < ilog2 y + 1" by simp
  then show ?thesis by simp
qed

subsection \<open>Rounding to 53 bits\<close>

lemma f64_0 [simp]: "f64 0 = 0"
  by (simp add: f64_def)

lemma f64_minus: "f64 (- x) = - f64 x"
  by (simp add: f64_def Let_def rne_minus flip: minus_mult_left)

lemma f64_pos_bounds:
  assumes "0 < x"
  shows "2 powi ilog2 x \<le> f64 x \<and> f64 x \<le> 2 powi (ilog2 x + 1)"
proof -
  define e where "e = ilog2 x"
  define s :: rat where "s = 2 powi (52 - e)"
  have s: "0 < s" by (simp add: s_def)
  have fx: "f64 x = of_int (rne (x * s)) / s"
    using assms by (simp add: f64_def Let_def s_def e_def)
  have b: "2 powi e \<le> x" "x < 2 powi (e + 1)" using ilog2_bounds [OF assms] by (auto simp: e_def)
  have lo: "2 powi e * s = of_int (2 ^ 52)" and hi: "2 powi (e + 1) * s = of_int (2 ^ 53)"
    by (simp_all add: s_def flip: power_int_add)
  have "rne (of_int (2 ^ 52)) \<le> rne (x * s)" "rne (x * s) \<le> rne (of_int (2 ^ 53))"
    using b s lo hi by (intro rne_mono, metis mult_right_mono less_imp_le)+
  then have "(2::int) ^ 52 \<le> rne (x * s)" "rne (x * s) \<le> 2 ^ 53" by (metis rne_of_int)+
  then have "2 powi e * s \<le> of_int (rne (x * s))" "of_int (rne (x * s)) \<le> 2 powi (e + 1) * s"
    unfolding lo hi by (simp_all only: of_int_le_iff)
  then show ?thesis using s by (simp add: fx e_def pos_le_divide_eq pos_divide_le_eq)
qed

lemma f64_mono_pos:
  assumes "0 < x" and "x \<le> y"
  shows "f64 x \<le> f64 y"
proof (cases "ilog2 x = ilog2 y")
  case True
  have "rne (x * 2 powi (52 - ilog2 x)) \<le> rne (y * 2 powi (52 - ilog2 x))"
    using assms by (intro rne_mono mult_right_mono) auto
  with assms True show ?thesis
    by (auto simp: f64_def Let_def intro!: divide_right_mono)
next
  case False
  with ilog2_mono [OF assms] have "ilog2 x + 1 \<le> ilog2 y" by simp
  then have "(2::rat) powi (ilog2 x + 1) \<le> 2 powi ilog2 y" by simp
  with f64_pos_bounds [of x] f64_pos_bounds [of y] assms show ?thesis by linarith
qed

lemma f64_pos: "0 < x \<Longrightarrow> 0 < f64 x"
  using f64_pos_bounds [of x] zero_less_power_int [of "2::rat" "ilog2 x"] by linarith

theorem f64_mono:
  assumes "x \<le> y"
  shows "f64 x \<le> f64 y"
proof -
  consider "0 < x" | "x \<le> 0" "0 \<le> y" | "y < 0" by linarith
  then show ?thesis
  proof cases
    case 1
    with assms show ?thesis by (intro f64_mono_pos)
  next
    case 2
    then have "f64 x \<le> 0" using f64_pos [of "- x"] by (cases "x = 0") (auto simp: f64_minus)
    moreover have "0 \<le> f64 y" using 2 f64_pos [of y] by (cases "y = 0") auto
    ultimately show ?thesis by linarith
  next
    case 3
    with assms have "f64 (- y) \<le> f64 (- x)" by (intro f64_mono_pos) auto
    then show ?thesis by (simp add: f64_minus)
  qed
qed

text \<open>Numbers with at most 53 significant bits are exact.\<close>

lemma f64_scaled:
  assumes "\<bar>n\<bar> \<le> 2 ^ 53"
  shows "f64 (of_int n * 2 powi k) = of_int n * 2 powi k"
proof (cases "n = 0")
  case False
  define x :: rat where "x = of_int n * 2 powi k"
  define e where "e = ilog2 \<bar>x\<bar>"
  have xa: "\<bar>x\<bar> = of_int \<bar>n\<bar> * 2 powi k" by (simp add: x_def abs_mult)
  have x0: "0 < \<bar>x\<bar>" using False by (simp add: xa)
  have "of_int \<bar>n\<bar> \<le> (of_int (2 ^ 53) :: rat)" using assms by (simp only: of_int_le_iff)
  then have "\<bar>x\<bar> \<le> of_int (2 ^ 53) * 2 powi k" unfolding xa by (intro mult_right_mono) auto
  also have "\<dots> = 2 powi (53 + k)" by (simp add: power_int_add)
  finally have top: "\<bar>x\<bar> \<le> 2 powi (53 + k)" .
  have low: "2 powi e \<le> \<bar>x\<bar>" using ilog2_bounds [OF x0] by (simp add: e_def)
  have "(2::rat) powi e \<le> 2 powi (53 + k)" using low top by linarith
  then have ek: "e \<le> 53 + k" by simp
  have prod: "x * 2 powi (52 - e) = of_int n * 2 powi (k + 52 - e)"
    by (simp add: x_def mult.assoc flip: power_int_add) (simp add: algebra_simps)
  have "x * 2 powi (52 - e) \<in> \<int>"
  proof (cases "e = 53 + k")
    case True
    with low top have "\<bar>x\<bar> = 2 powi (53 + k)" by simp
    then have "of_int \<bar>n\<bar> = (of_int (2 ^ 53) :: rat)" by (simp add: xa power_int_add)
    then have "\<bar>n\<bar> = 2 ^ 53" by (simp only: of_int_eq_iff)
    then have "even n" by (metis abs_if dvd_minus_iff even_power even_numeral zero_less_numeral)
    then obtain m where "n = 2 * m" by (elim evenE)
    with True show ?thesis unfolding prod by (simp add: power_int_def field_simps)
  next
    case False
    with ek have "0 \<le> k + 52 - e" by simp
    then show ?thesis unfolding prod by (simp add: power_int_def)
  qed
  then obtain m where "x * 2 powi (52 - e) = of_int m" by (auto elim: Ints_cases)
  then have "f64 x = of_int m / 2 powi (52 - e)" using x0 by (simp add: f64_def Let_def e_def)
  also have "\<dots> = x" using \<open>x * 2 powi (52 - e) = of_int m\<close> by (simp add: field_simps)
  finally show ?thesis by (simp add: x_def)
qed simp

lemma f64_of_int: "\<bar>n\<bar> \<le> 2 ^ 53 \<Longrightarrow> f64 (of_int n) = of_int n"
  using f64_scaled [of n 0] by simp

lemma f64_idem [simp]: "f64 (f64 x) = f64 x"
proof -
  have pos: "f64 (f64 x) = f64 x" if "0 < x" for x
  proof -
    define e where "e = ilog2 x"
    define n where "n = rne (x * 2 powi (52 - e))"
    have fx: "f64 x = of_int n * 2 powi (e - 52)"
      using that by (simp add: f64_def Let_def n_def e_def power_int_diff field_simps)
    have "of_int n * 2 powi (e - 52) \<le> (of_int (2 ^ 53) :: rat) * 2 powi (e - 52)"
      using f64_pos_bounds [OF that] fx by (simp add: e_def power_int_diff power_int_add field_simps)
    then have "of_int n \<le> (of_int (2 ^ 53) :: rat)" by simp
    then have "n \<le> 2 ^ 53" by (simp only: of_int_le_iff)
    moreover have "0 < of_int n * (2::rat) powi (e - 52)" using f64_pos [OF that] fx by simp
    then have "0 < n" by (metis mult_pos_pos of_int_0_less_iff zero_less_mult_pos2 zero_less_numeral zero_less_power_int)
    ultimately show ?thesis unfolding fx by (intro f64_scaled) auto
  qed
  consider "0 < x" | "x = 0" | "0 < - x" by linarith
  then show ?thesis
  proof cases
    case 3
    from pos [OF this] show ?thesis by (simp add: f64_minus)
  qed (use pos in auto)
qed

text \<open>
  Code equations for kernel evaluation: whole numbers need no rounding, and the general
  case works on the numerator and denominator with integer arithmetic only.
\<close>

definition rne_frac :: "int \<Rightarrow> int \<Rightarrow> int" where
  "rne_frac a b = (let n = a div b; r = 2 * (a - n * b) in
     if r < b then n else if b < r then n + 1 else if even n then n else n + 1)"

lemma rne_frac_eq:
  assumes "0 < b"
  shows "rne (of_int a / of_int b) = rne_frac a b"
proof -
  have fl: "\<lfloor>of_int a / of_int b :: rat\<rfloor> = a div b" by (rule floor_divide_of_int_eq)
  have d: "of_int a / of_int b - of_int (a div b) = (of_int (a - a div b * b) / of_int b :: rat)"
    using assms by (simp add: field_simps)
  have i: "((of_int m :: rat) < of_int k) = (m < k)" for m k by (rule of_int_less_iff)
  have c: "(of_int m / of_int b < (1 / 2 :: rat)) = (2 * m < b)" "((1 / 2 :: rat) < of_int m / of_int b) = (b < 2 * m)" for m
    using i [of "2 * m" b] i [of b "2 * m"] assms by (simp_all add: pos_divide_less_eq pos_less_divide_eq mult.commute)
  show ?thesis unfolding rne_def rne_frac_def Let_def fl d c by (rule refl)
qed

definition ilog2_frac :: "int \<Rightarrow> int \<Rightarrow> int" where
  "ilog2_frac p q = (let k = bitlen p - bitlen q in
     if (if 0 \<le> k then q * 2 ^ nat k \<le> p else q \<le> p * 2 ^ nat (- k)) then k else k - 1)"

lemma ilog2_frac_eq:
  assumes "quotient_of x = (p, q)"
  shows "ilog2 x = ilog2_frac p q"
proof -
  have q: "0 < q" and x: "x = of_int p / of_int q"
    using assms quotient_of_denom_pos quotient_of_div by blast+
  have i: "((of_int m :: rat) \<le> of_int n) = (m \<le> n)" for m n by (rule of_int_le_iff)
  have "(2 powi k \<le> x) = (if 0 \<le> k then q * 2 ^ nat k \<le> p else q \<le> p * 2 ^ nat (- k))" for k
  proof (cases "0 \<le> k")
    case True
    then have "(2 powi k \<le> x) = ((2::rat) ^ nat k * of_int q \<le> of_int p)"
      using q by (simp add: x power_int_def pos_le_divide_eq)
    also have "\<dots> = (2 ^ nat k * q \<le> p)" using i [of "2 ^ nat k * q" p] by simp
    finally show ?thesis using True by (simp add: mult.commute)
  next
    case False
    then have "(2 powi k \<le> x) = (of_int q \<le> of_int p * (2::rat) ^ nat (- k))"
      using q by (simp add: x power_int_def field_simps)
    also have "\<dots> = (q \<le> p * 2 ^ nat (- k))" using i [of q "p * 2 ^ nat (- k)"] by simp
    finally show ?thesis using False by simp
  qed
  then show ?thesis by (simp add: ilog2_def ilog2_frac_def assms Let_def)
qed

lemma f64_code [code]:
  "f64 x = (case quotient_of x of (p, q) \<Rightarrow>
     if q = 1 \<and> \<bar>p\<bar> \<le> 9007199254740992 then x
     else (let s = 52 - ilog2_frac \<bar>p\<bar> q in
       if 0 \<le> s then of_int (rne_frac (p * 2 ^ nat s) q) / of_int (2 ^ nat s)
       else of_int (rne_frac p (q * 2 ^ nat (- s)) * 2 ^ nat (- s))))"
proof -
  obtain p q where pq: "quotient_of x = (p, q)" by (cases "quotient_of x")
  have q: "0 < q" and x: "x = of_int p / of_int q"
    using pq quotient_of_denom_pos quotient_of_div by blast+
  show ?thesis
  proof (cases "q = 1 \<and> \<bar>p\<bar> \<le> 9007199254740992")
    case True
    then have "f64 (of_int p) = of_int p" by (intro f64_of_int) simp
    with True x show ?thesis by (simp add: pq)
  next
    case False
    have x0: "x \<noteq> 0"
    proof
      assume "x = 0"
      then have "(p, q) = (0, 1)" using pq by (metis rat_zero_code)
      with False show False by simp
    qed
    have "quotient_of \<bar>x\<bar> = (\<bar>p\<bar>, q)" by (simp add: rat_abs_code pq)
    then have lg: "ilog2 \<bar>x\<bar> = ilog2_frac \<bar>p\<bar> q" by (rule ilog2_frac_eq)
    define s where "s = 52 - ilog2_frac \<bar>p\<bar> q"
    have f: "f64 x = of_int (rne (x * 2 powi s)) / 2 powi s" using x0 by (simp add: f64_def lg s_def Let_def)
    show ?thesis
    proof (cases "0 \<le> s")
      case True
      then have "x * 2 powi s = of_int (p * 2 ^ nat s) / of_int q" by (simp add: x power_int_def)
      with True f rne_frac_eq [OF q, of "p * 2 ^ nat s"] show ?thesis
        unfolding pq prod.case if_not_P [OF False] s_def [symmetric] Let_def by (simp add: power_int_def)
    next
      case neg: False
      then have "x * 2 powi s = of_int p / of_int (q * 2 ^ nat (- s))" by (simp add: x power_int_def field_simps)
      then have "rne (x * 2 powi s) = rne_frac p (q * 2 ^ nat (- s))" using rne_frac_eq [of "q * 2 ^ nat (- s)" p] q by simp
      with f have "f64 x = of_int (rne_frac p (q * 2 ^ nat (- s))) / 2 powi s" by simp
      with neg show ?thesis
        unfolding pq prod.case if_not_P [OF False] s_def [symmetric] Let_def by (simp add: power_int_def power_one_over divide_simps)
    qed
  qed
qed

lemma eps_code [code]: "eps = 4835703278458517 / 4835703278458516698824704"
  unfolding eps_def by code_simp

lemma f64_numeral [simp]: "numeral k \<le> (2 ^ 53 :: int) \<Longrightarrow> f64 (numeral k) = numeral k"
  using f64_of_int [of "numeral k"] by simp

lemma f64_1 [simp]: "f64 1 = 1"
  using f64_of_int [of 1] by simp

lemma f64_nonneg [simp]: "0 \<le> f64 x \<longleftrightarrow> 0 \<le> x"
  using f64_mono [of 0 x] f64_pos [of "- x"] by (auto simp: f64_minus not_less [symmetric])

subsection \<open>What the clients use of the rounding\<close>

text \<open>
  The components rely on two laws of the rounding only: it is monotone, and it is exact on
  integers of at most 53 bits. Everything they need follows from these.
\<close>

locale rounding =
  fixes rnd :: "rat \<Rightarrow> rat"
  assumes mono: "x \<le> y \<Longrightarrow> rnd x \<le> rnd y"
    and exact: "\<bar>n\<bar> \<le> 2 ^ 53 \<Longrightarrow> rnd (of_int n) = of_int n"
begin

lemma le_int: "x \<le> of_int n \<Longrightarrow> \<bar>n\<bar> \<le> 2 ^ 53 \<Longrightarrow> rnd x \<le> of_int n"
  using mono [of x "of_int n"] exact [of n] by simp

lemma ge_int: "of_int n \<le> x \<Longrightarrow> \<bar>n\<bar> \<le> 2 ^ 53 \<Longrightarrow> of_int n \<le> rnd x"
  using mono [of "of_int n" x] exact [of n] by simp

lemma nonneg: "0 \<le> x \<Longrightarrow> 0 \<le> rnd x"
  using ge_int [of 0 x] by simp

lemma nonpos: "x \<le> 0 \<Longrightarrow> rnd x \<le> 0"
  using le_int [of x 0] by simp

lemma le_one: "x \<le> 1 \<Longrightarrow> rnd x \<le> 1"
  using le_int [of x 1] by simp

lemma exact_Ints: "x \<in> \<int> \<Longrightarrow> \<bar>x\<bar> \<le> 2 ^ 53 \<Longrightarrow> rnd x = x"
proof -
  assume "x \<in> \<int>" "\<bar>x\<bar> \<le> 2 ^ 53"
  then obtain n where n: "x = of_int n" by (auto elim: Ints_cases)
  with \<open>\<bar>x\<bar> \<le> 2 ^ 53\<close> have "(of_int \<bar>n\<bar> :: rat) \<le> of_int (2 ^ 53)" by simp
  then have "\<bar>n\<bar> \<le> 2 ^ 53" by (simp only: of_int_le_iff)
  with n show "rnd x = x" by (simp add: exact)
qed

end

interpretation binary64: rounding f64
  by unfold_locales (auto intro: f64_mono f64_of_int)

end
