(* ===== verification/TaskModel.thy ===== *)
theory TaskModel
  imports Float64
begin

text \<open>
  The data of the scheduling kernel (\<^verbatim>\<open>internal/kernel/scheduler.go\<close> and the
  record types of \<^verbatim>\<open>resources.go\<close> and \<^verbatim>\<open>montecarlo.go\<close>): links, tasks
  and the merge of the two ways a task names its predecessors. The string-typed enums of
  the source stay strings, since the code gives meaning to the empty and to unknown values.
\<close>

type_synonym LinkType = string

definition FinishToStart :: LinkType where "FinishToStart = ''FS''"
definition StartToStart :: LinkType where "StartToStart = ''SS''"
definition FinishToFinish :: LinkType where "FinishToFinish = ''FF''"
definition StartToFinish :: LinkType where "StartToFinish = ''SF''"

record Link =
  Pred :: string
  LType :: LinkType
  Lag :: float64

type_synonym ConstraintType = string

definition AsSoonAsPossible :: ConstraintType where "AsSoonAsPossible = ''ASAP''"
definition AsLateAsPossible :: ConstraintType where "AsLateAsPossible = ''ALAP''"
definition StartNoEarlierThan :: ConstraintType where "StartNoEarlierThan = ''SNET''"
definition FinishNoLaterThan :: ConstraintType where "FinishNoLaterThan = ''FNLT''"
definition MustFinishOn :: ConstraintType where "MustFinishOn = ''MFO''"

record WorkSegment =
  SegStart :: float64
  SegEnd :: float64

record DurationEstimate =
  Optimistic :: float64
  MostLikely :: float64
  Pessimistic :: float64
  Distribution :: string

record Assignment =
  Resource :: string
  Units :: float64
  CalendarID :: string
  SkillTags :: "string list"
  MaxUnits :: float64

record Task =
  ID :: string
  Title :: string
  Duration :: float64
  Precedents :: "string list"
  Links :: "Link list"
  Estimate :: DurationEstimate
  Constraint :: ConstraintType
  ConstraintDate :: string
  ConstraintDay :: float64
  ConstraintArmed :: bool
  ConstraintViolated :: bool
  PercentComplete :: float64
  Milestone :: bool
  ActualStart :: string
  ActualFinish :: string
  BudgetedCost :: float64
  BudgetedCostMinorUnits :: int
  ActualCost :: float64
  ActualCostMinorUnits :: int
  Assignments :: "Assignment list"
  Overallocated :: bool
  WorkDays :: "int list"
  PlannedWorkSegments :: "WorkSegment list"
  ES :: float64
  EF :: float64
  LS :: float64
  LF :: float64
  Slack :: float64
  IsCritical :: bool
  StartDate :: string
  FinishDate :: string

text \<open>
  \<^verbatim>\<open>map[string]*Task\<close>, the type every kernel entry point takes. \<open>Slack\<close> is
  the field \<^verbatim>\<open>Float\<close> and \<open>Estimate\<close> the field \<^verbatim>\<open>DurationEstimate\<close>.
\<close>

type_synonym Tasks = "(string \<times> Task) list"

text \<open>
  The precondition the kernel states for its input, "keyed by \<^verbatim>\<open>Task.ID\<close>"; the
  distinct keys are those of a Go map.
\<close>

definition wf_tasks :: "Tasks \<Rightarrow> bool" where
  "wf_tasks ts \<longleftrightarrow> distinct (map fst ts) \<and> (\<forall>(k, t) \<in> set ts. ID t = k)"

subsection \<open>Effective links\<close>

definition normalizeLink :: "Link \<Rightarrow> Link" where
  "normalizeLink l =
     (if LType l \<in> {FinishToStart, StartToStart, FinishToFinish, StartToFinish} then l
      else l\<lparr>LType := FinishToStart\<rparr>)"

definition effectiveLinks :: "Task \<Rightarrow> Link list" where
  "effectiveLinks t =
     (let typed = map normalizeLink (Links t);
          seen = map Pred typed
      in typed @ map (\<lambda>p. \<lparr>Pred = p, LType = FinishToStart, Lag = 0\<rparr>)
                     (filter (\<lambda>p. p \<notin> set seen) (Precedents t)))"

subsection \<open>A task with every field at its zero value\<close>

definition zeroTask :: Task where
  "zeroTask = \<lparr>ID = [], Title = [], Duration = 0, Precedents = [], Links = [],
     Estimate = \<lparr>Optimistic = 0, MostLikely = 0, Pessimistic = 0, Distribution = []\<rparr>,
     Constraint = [], ConstraintDate = [], ConstraintDay = 0, ConstraintArmed = False,
     ConstraintViolated = False, PercentComplete = 0, Milestone = False, ActualStart = [],
     ActualFinish = [], BudgetedCost = 0, BudgetedCostMinorUnits = 0, ActualCost = 0,
     ActualCostMinorUnits = 0, Assignments = [], Overallocated = False, WorkDays = [],
     PlannedWorkSegments = [], ES = 0, EF = 0, LS = 0, LF = 0, Slack = 0,
     IsCritical = False, StartDate = [], FinishDate = []\<rparr>"

subsection \<open>Lemmas\<close>

lemmas link_type_defs = FinishToStart_def StartToStart_def FinishToFinish_def StartToFinish_def

lemmas constraint_defs =
  AsSoonAsPossible_def AsLateAsPossible_def StartNoEarlierThan_def FinishNoLaterThan_def MustFinishOn_def

lemma normalizeLink_type:
  "LType (normalizeLink l) \<in> {FinishToStart, StartToStart, FinishToFinish, StartToFinish}"
  by (simp add: normalizeLink_def)

lemma Pred_normalizeLink [simp]: "Pred (normalizeLink l) = Pred l"
  by (simp add: normalizeLink_def)

lemma Lag_normalizeLink [simp]: "Lag (normalizeLink l) = Lag l"
  by (simp add: normalizeLink_def)

lemma Pred_effectiveLinks: "Pred ` set (effectiveLinks t) = Pred ` set (Links t) \<union> set (Precedents t)"
  by (auto simp: effectiveLinks_def Let_def image_Un image_image)

lemma effectiveLinks_cong: "Links t = Links u \<Longrightarrow> Precedents t = Precedents u \<Longrightarrow> effectiveLinks t = effectiveLinks u"
  by (simp add: effectiveLinks_def)

lemma wf_tasks_map_of: "wf_tasks ts \<Longrightarrow> map_of ts k = Some t \<Longrightarrow> ID t = k"
  by (auto simp: wf_tasks_def dest!: map_of_SomeD)

end
