(* ===== verification/TopoSort.thy ===== *)
theory TopoSort
  imports TaskModel
begin

text \<open>
  \<^verbatim>\<open>topoSort\<close> of \<^verbatim>\<open>internal/kernel/scheduler.go\<close>: Kahn's algorithm with a
  sorted ready list. The lemmas show that it returns an order exactly when the precedence
  graph has no cycle, that every task comes after its predecessors, and that the order does
  not depend on the iteration order of the task map.
\<close>

subsection \<open>Model\<close>

text \<open>The precedence edges \<open>(predecessor, successor)\<close>, one per effective link whose predecessor exists.\<close>

definition taskEdges :: "Tasks \<Rightarrow> (string \<times> string) list" where
  "taskEdges tasks =
     concat (map (\<lambda>(k, t). map (\<lambda>l. (Pred l, ID t))
                  (filter (\<lambda>l. map_of tasks (Pred l) \<noteq> None) (effectiveLinks t))) tasks)"

text \<open>\<^verbatim>\<open>indegree[t.ID]++\<close> per edge; \<^verbatim>\<open>out[l.Pred] = append(out[l.Pred], t.ID)\<close> per edge.\<close>

definition indegreeOf :: "(string \<times> string) list \<Rightarrow> string \<Rightarrow> int" where
  "indegreeOf edges = foldl (\<lambda>m (p, s). m(s := m s + 1)) (\<lambda>_. 0) edges"

definition outOf :: "(string \<times> string) list \<Rightarrow> string \<Rightarrow> string list" where
  "outOf edges = foldl (\<lambda>m (p, s). m(p := m p @ [s])) (\<lambda>_. []) edges"

text \<open>The inner loop over the sorted successors of the task just taken.\<close>

fun releaseSuccessors ::
  "(string \<Rightarrow> int) \<Rightarrow> string list \<Rightarrow> string list \<Rightarrow> (string \<Rightarrow> int) \<times> string list" where
  "releaseSuccessors indegree ready [] = (indegree, ready)"
| "releaseSuccessors indegree ready (s # ss) =
     (let indegree' = indegree(s := indegree s - 1)
      in releaseSuccessors indegree'
           (if indegree' s = 0 then sort (ready @ [s]) else ready) ss)"

lemma releaseSuccessors_measure:
  assumes "finite S" and "set ss \<subseteq> S" and "releaseSuccessors indegree ready ss = (i', r')"
  shows "length r' + (\<Sum>v\<in>S. nat (i' v)) \<le> length ready + (\<Sum>v\<in>S. nat (indegree v))"
  using assms(2,3)
proof (induction ss arbitrary: indegree ready)
  case (Cons s ss)
  let ?i = "indegree(s := indegree s - 1)"
  let ?r = "if ?i s = 0 then sort (ready @ [s]) else ready"
  have "length r' + (\<Sum>v\<in>S. nat (i' v)) \<le> length ?r + (\<Sum>v\<in>S. nat (?i v))"
    using Cons.prems by (intro Cons.IH) (simp_all only: releaseSuccessors.simps Let_def list.set insert_subset)
  also have "(\<Sum>v\<in>S. nat (?i v)) = nat (?i s) + (\<Sum>v\<in>S - {s}. nat (indegree v))"
    using assms(1) Cons.prems(1) by (simp add: sum.remove [where x = s])
  also have "length ?r + (nat (?i s) + (\<Sum>v\<in>S - {s}. nat (indegree v)))
    \<le> length ready + (nat (indegree s) + (\<Sum>v\<in>S - {s}. nat (indegree v)))" by auto
  also have "\<dots> = length ready + (\<Sum>v\<in>S. nat (indegree v))"
    using assms(1) Cons.prems(1) by (simp add: sum.remove [where x = s])
  finally show ?case by simp
qed simp

lemma outOf_eq: "outOf edges p = map snd (filter (\<lambda>e. fst e = p) edges)"
proof -
  have "foldl (\<lambda>m (p, s). m(p := m p @ [s])) m edges p = m p @ map snd (filter (\<lambda>e. fst e = p) edges)" for m
    by (induction edges arbitrary: m) auto
  then show ?thesis by (simp add: outOf_def)
qed

lemma indegreeOf_eq: "indegreeOf edges v = int (length (filter (\<lambda>e. snd e = v) edges))"
proof -
  have "foldl (\<lambda>m (p, s). m(s := m s + 1)) m edges v = m v + int (length (filter (\<lambda>e. snd e = v) edges))" for m
    by (induction edges arbitrary: m) auto
  then show ?thesis by (simp add: indegreeOf_def)
qed

text \<open>The outer loop: take the first ready task, release its successors.\<close>

function kahnLoop ::
  "(string \<times> string) list \<Rightarrow> (string \<Rightarrow> int) \<Rightarrow> string list \<Rightarrow> string list \<Rightarrow> string list" where
  "kahnLoop edges indegree [] order = order"
| "kahnLoop edges indegree (x # ready) order =
     (let (indegree', ready') = releaseSuccessors indegree ready (sort (outOf edges x))
      in kahnLoop edges indegree' ready' (order @ [x]))"
  by pat_completeness auto
termination
proof (relation "measure (\<lambda>(edges, indegree, ready, order).
    length ready + (\<Sum>v\<in>snd ` set edges. nat (indegree v)))", goal_cases)
  case (2 edges indegree x ready order p i' r')
  have "set (sort (outOf edges x)) \<subseteq> snd ` set edges" by (auto simp: outOf_eq)
  from releaseSuccessors_measure [OF _ this, of indegree ready i' r'] 2 show ?case by simp
qed simp

definition topoSort :: "Tasks \<Rightarrow> string list option" where
  "topoSort tasks =
     (let edges = taskEdges tasks;
          indegree = indegreeOf edges;
          ready = sort (filter (\<lambda>k. indegree k = 0) (map fst tasks));
          order = kahnLoop edges indegree ready []
      in if length order \<noteq> length tasks then None else Some order)"

subsection \<open>Correctness of the loop\<close>

text \<open>A list in which every element comes after all its predecessors.\<close>

definition preds_first :: "('a \<times> 'a) set \<Rightarrow> 'a list \<Rightarrow> bool" where
  "preds_first E order \<longleftrightarrow> (\<forall>xs v ys. order = xs @ v # ys \<longrightarrow> (\<forall>p. (p, v) \<in> E \<longrightarrow> p \<in> set xs))"

lemma preds_first_Nil [simp]: "preds_first E []"
  by (simp add: preds_first_def)

lemma preds_first_snoc:
  "preds_first E (order @ [x]) \<longleftrightarrow> preds_first E order \<and> (\<forall>p. (p, x) \<in> E \<longrightarrow> p \<in> set order)"
  (is "?L \<longleftrightarrow> ?R")
proof
  assume L: ?L
  show ?R
  proof
    show "preds_first E order"
      using L unfolding preds_first_def by (metis append.assoc append_Cons)
    show "\<forall>p. (p, x) \<in> E \<longrightarrow> p \<in> set order" using L unfolding preds_first_def by blast
  qed
next
  assume R: ?R
  show ?L unfolding preds_first_def
  proof (intro allI impI)
    fix xs v ys p
    assume eq: "order @ [x] = xs @ v # ys" and e: "(p, v) \<in> E"
    show "p \<in> set xs"
    proof (cases ys rule: rev_cases)
      case Nil
      with eq R e show ?thesis by auto
    next
      case (snoc zs z)
      with eq have "order = xs @ v # zs" by simp
      with R e show ?thesis unfolding preds_first_def by blast
    qed
  qed
qed

lemma releaseSuccessors_spec:
  assumes "\<forall>v \<in> set ss. int (count_list ss v) \<le> indegree v"
    and "distinct ready" and "sorted ready" and "set ss \<inter> set ready = {}"
  shows "fst (releaseSuccessors indegree ready ss) = (\<lambda>v. indegree v - int (count_list ss v))
    \<and> distinct (snd (releaseSuccessors indegree ready ss))
    \<and> sorted (snd (releaseSuccessors indegree ready ss))
    \<and> set (snd (releaseSuccessors indegree ready ss))
        = set ready \<union> {v \<in> set ss. indegree v = int (count_list ss v)}"
  using assms
proof (induction ss arbitrary: indegree ready)
  case (Cons s ss)
  let ?i = "indegree(s := indegree s - 1)"
  let ?r = "if ?i s = 0 then sort (ready @ [s]) else ready"
  have step: "releaseSuccessors indegree ready (s # ss) = releaseSuccessors ?i ?r ss"
    by (simp only: releaseSuccessors.simps Let_def)
  have one: "s \<notin> set ss" if "indegree s = 1"
    using Cons.prems(1) that by (auto simp: count_list_0_iff split: if_splits)
  have "\<forall>v \<in> set ss. int (count_list ss v) \<le> ?i v" using Cons.prems(1) by auto
  moreover have "distinct ?r" "sorted ?r" using Cons.prems by auto
  moreover have "set ss \<inter> set ?r = {}" using Cons.prems one by auto
  ultimately have ih: "fst (releaseSuccessors ?i ?r ss) = (\<lambda>v. ?i v - int (count_list ss v))
    \<and> distinct (snd (releaseSuccessors ?i ?r ss)) \<and> sorted (snd (releaseSuccessors ?i ?r ss))
    \<and> set (snd (releaseSuccessors ?i ?r ss)) = set ?r \<union> {v \<in> set ss. ?i v = int (count_list ss v)}"
    by (rule Cons.IH)
  have "(\<lambda>v. ?i v - int (count_list ss v)) = (\<lambda>v. indegree v - int (count_list (s # ss) v))" by auto
  moreover have "set ?r \<union> {v \<in> set ss. ?i v = int (count_list ss v)}
    = set ready \<union> {v \<in> set (s # ss). indegree v = int (count_list (s # ss) v)}"
    using one by (auto simp: count_list_0_iff split: if_splits)
  ultimately show ?case unfolding step using ih by simp
qed simp

definition remaining :: "('a \<times> 'a) list \<Rightarrow> 'a set \<Rightarrow> 'a \<Rightarrow> nat" where
  "remaining edges done v = length (filter (\<lambda>e. snd e = v \<and> fst e \<notin> done) edges)"

lemma remaining_0_iff: "remaining edges done v = 0 \<longleftrightarrow> (\<forall>p. (p, v) \<in> set edges \<longrightarrow> p \<in> done)"
  by (auto simp: remaining_def filter_empty_conv)

lemma remaining_insert:
  assumes "x \<notin> done"
  shows "remaining edges done v = remaining edges (insert x done) v + count_list (outOf edges x) v"
proof -
  have "count_list (map snd (filter (\<lambda>e. fst e = x) edges)) v
      = length (filter (\<lambda>e. snd e = v \<and> fst e = x) edges)"
    by (induction edges) auto
  moreover have "remaining edges done v
      = remaining edges (insert x done) v + length (filter (\<lambda>e. snd e = v \<and> fst e = x) edges)"
    using assms unfolding remaining_def by (induction edges) auto
  ultimately show ?thesis by (simp add: outOf_eq)
qed

lemma count_list_sort [simp]: "count_list (sort xs) v = count_list xs v"
  by (metis count_mset mset_sort)

text \<open>The loop invariant: who is ready, and what is already ordered.\<close>

definition kahn_inv ::
  "(string \<times> string) list \<Rightarrow> string set \<Rightarrow> (string \<Rightarrow> int) \<Rightarrow> string list \<Rightarrow> string list \<Rightarrow> bool" where
  "kahn_inv edges V indegree ready order \<longleftrightarrow>
     indegree = (\<lambda>v. int (remaining edges (set order) v))
     \<and> distinct order \<and> distinct ready \<and> sorted ready
     \<and> set order \<subseteq> V \<and> set ready = {v \<in> V. remaining edges (set order) v = 0} - set order
     \<and> preds_first (set edges) order"

lemma preds_first_closed: "preds_first E order \<Longrightarrow> v \<in> set order \<Longrightarrow> (p, v) \<in> E \<Longrightarrow> p \<in> set order"
  unfolding preds_first_def by (metis UnI1 in_set_conv_decomp set_append)

lemma kahn_inv_step:
  assumes inv: "kahn_inv edges V indegree (x # ready) order" and V: "snd ` set edges \<subseteq> V"
    and rel: "releaseSuccessors indegree ready (sort (outOf edges x)) = (i', r')"
  shows "kahn_inv edges V i' r' (order @ [x])"
proof -
  define ss where "ss = sort (outOf edges x)"
  have x: "x \<in> V" "x \<notin> set order" "remaining edges (set order) x = 0"
    and ind: "indegree = (\<lambda>v. int (remaining edges (set order) v))"
    and rdy: "x \<notin> set ready" "set ready = {v \<in> V. remaining edges (set order) v = 0} - set order - {x}"
    using inv by (auto simp: kahn_inv_def)
  have cnt: "remaining edges (set order) v = remaining edges (set (order @ [x])) v + count_list ss v" for v
    using remaining_insert [OF x(2)] by (simp add: ss_def)
  have ssV: "set ss \<subseteq> V" using V by (auto simp: ss_def outOf_eq)
  have pos: "0 < remaining edges (set order) v" if "v \<in> set ss" for v
    using cnt [of v] that count_list_0_iff [of ss v] by (metis add_gr_0 gr0I)
  have "\<forall>v \<in> set ss. int (count_list ss v) \<le> indegree v" using cnt by (simp add: ind)
  moreover have "distinct ready" "sorted ready" using inv by (auto simp: kahn_inv_def)
  moreover have "set ss \<inter> set ready = {}" using rdy(2) by (fastforce dest: pos)
  ultimately have r: "i' = (\<lambda>v. indegree v - int (count_list ss v))" "distinct r'" "sorted r'"
    "set r' = set ready \<union> {v \<in> set ss. indegree v = int (count_list ss v)}"
    using releaseSuccessors_spec [of ss indegree ready] rel by (simp_all add: ss_def)
  have i': "i' = (\<lambda>v. int (remaining edges (set (order @ [x])) v))"
    unfolding r(1) ind using cnt by (intro ext) (metis add_diff_cancel_right' of_nat_add)
  have "set r' = {v \<in> V. remaining edges (set (order @ [x])) v = 0} - set (order @ [x])"
  proof (intro set_eqI iffI)
    fix v assume "v \<in> set r'"
    then show "v \<in> {v \<in> V. remaining edges (set (order @ [x])) v = 0} - set (order @ [x])"
    proof (cases "v \<in> set ready")
      case True
      with rdy cnt [of v] show ?thesis by auto
    next
      case False
      with \<open>v \<in> set r'\<close> have v: "v \<in> set ss" "indegree v = int (count_list ss v)" using r(4) by auto
      then have "remaining edges (set (order @ [x])) v = 0" using cnt [of v] by (simp add: ind)
      moreover have "v \<noteq> x" using pos [OF v(1)] x(3) by auto
      moreover have "v \<notin> set order"
        using pos [OF v(1)] inv preds_first_closed [of "set edges" order v] remaining_0_iff [of edges "set order" v]
        unfolding kahn_inv_def by (metis less_numeral_extra(3))
      ultimately show ?thesis using v ssV by auto
    qed
  next
    fix v assume v: "v \<in> {v \<in> V. remaining edges (set (order @ [x])) v = 0} - set (order @ [x])"
    then have "remaining edges (set order) v = count_list ss v" using cnt [of v] by auto
    then show "v \<in> set r'"
      using v rdy(2) r(4) count_list_0_iff [of ss v] by (auto simp: ind)
  qed
  moreover have "preds_first (set edges) (order @ [x])"
    using inv x(3) by (auto simp: kahn_inv_def preds_first_snoc remaining_0_iff)
  ultimately show ?thesis using inv x r i' by (auto simp: kahn_inv_def)
qed

lemma kahnLoop_inv:
  assumes "kahn_inv edges V indegree ready order" and "snd ` set edges \<subseteq> V"
  shows "\<exists>indegree'. kahn_inv edges V indegree' [] (kahnLoop edges indegree ready order)"
  using assms
proof (induction edges indegree ready order rule: kahnLoop.induct)
  case (2 edges indegree x ready order)
  obtain i' r' where rel: "releaseSuccessors indegree ready (sort (outOf edges x)) = (i', r')" by fastforce
  with 2 kahn_inv_step [OF 2(2,3) rel] show ?case by simp
qed auto

lemma taskEdges_iff:
  "(p, s) \<in> set (taskEdges tasks) \<longleftrightarrow>
     (\<exists>k t l. (k, t) \<in> set tasks \<and> l \<in> set (effectiveLinks t) \<and> map_of tasks p \<noteq> None
        \<and> p = Pred l \<and> s = ID t)"
  by (fastforce simp: taskEdges_def)

lemma taskEdges_keys:
  assumes "wf_tasks tasks"
  shows "snd ` set (taskEdges tasks) \<subseteq> set (map fst tasks)"
    and "fst ` set (taskEdges tasks) \<subseteq> set (map fst tasks)"
proof -
  have "s \<in> set (map fst tasks)" if "(p, s) \<in> set (taskEdges tasks)" for p s
    using that assms by (force simp: taskEdges_iff wf_tasks_def)
  then show "snd ` set (taskEdges tasks) \<subseteq> set (map fst tasks)" by auto
  have "p \<in> set (map fst tasks)" if "(p, s) \<in> set (taskEdges tasks)" for p s
    using that map_of_is_None_iff [of tasks p] by (auto simp: taskEdges_iff)
  then show "fst ` set (taskEdges tasks) \<subseteq> set (map fst tasks)" by auto
qed

lemma topoSort_loop:
  assumes "wf_tasks tasks"
  obtains indegree order where
    "topoSort tasks = (if length order \<noteq> length tasks then None else Some order)"
    "kahn_inv (taskEdges tasks) (set (map fst tasks)) indegree [] order"
proof -
  let ?E = "taskEdges tasks" and ?V = "set (map fst tasks)"
  let ?r = "sort (filter (\<lambda>k. indegreeOf ?E k = 0) (map fst tasks))"
  have "indegreeOf ?E = (\<lambda>v. int (remaining ?E {} v))"
    by (intro ext) (simp add: indegreeOf_eq remaining_def)
  then have "kahn_inv ?E ?V (indegreeOf ?E) ?r []"
    using assms by (auto simp: kahn_inv_def wf_tasks_def)
  then obtain i' where "kahn_inv ?E ?V i' [] (kahnLoop ?E (indegreeOf ?E) ?r [])"
    using kahnLoop_inv taskEdges_keys [OF assms] by blast
  then show ?thesis using that by (simp add: topoSort_def Let_def)
qed

lemma preds_first_index:
  assumes "preds_first E order" and "distinct order" and "(a, b) \<in> E\<^sup>+" and "b \<in> set order"
  shows "\<exists>xs ys. order = xs @ b # ys \<and> a \<in> set xs"
  using assms(3,4)
proof (induction rule: trancl_induct)
  case (base b)
  then show ?case using assms(1) unfolding preds_first_def by (metis in_set_conv_decomp)
next
  case (step b c)
  then obtain us vs where c: "order = us @ c # vs" "b \<in> set us"
    using assms(1) unfolding preds_first_def by (metis in_set_conv_decomp)
  with step.IH obtain xs ys where b: "order = xs @ b # ys" "a \<in> set xs" by auto
  have "a \<in> set us"
  proof -
    from c(2) obtain u1 u2 where "us = u1 @ b # u2" by (metis in_set_conv_decomp)
    with c b(1) have "xs @ b # ys = u1 @ b # (u2 @ c # vs)" by simp
    then have "u1 = xs" using distinct_split_eq assms(2) b(1) by metis
    with b(2) \<open>us = u1 @ b # u2\<close> show ?thesis by simp
  qed
  with c show ?case by blast
qed

lemma preds_first_acyclic:
  assumes "preds_first E order" and "distinct order" and "snd ` E \<subseteq> set order"
  shows "acyclic E"
proof (rule acyclicI, intro allI notI)
  fix v assume c: "(v, v) \<in> E\<^sup>+"
  then obtain w where "(w, v) \<in> E" by (meson tranclD2)
  with assms(3) have "v \<in> set order" by force
  from preds_first_index [OF assms(1,2) c this] obtain xs ys where "order = xs @ v # ys" "v \<in> set xs" by blast
  with assms(2) show False by auto
qed

lemma topoSort_Some:
  assumes "wf_tasks tasks" and "topoSort tasks = Some order"
  shows "distinct order \<and> set order = set (map fst tasks) \<and> preds_first (set (taskEdges tasks)) order"
proof -
  from assms(1) obtain indegree order' where
    "topoSort tasks = (if length order' \<noteq> length tasks then None else Some order')"
    and inv: "kahn_inv (taskEdges tasks) (set (map fst tasks)) indegree [] order'"
    by (rule topoSort_loop)
  with assms(2) have o: "order' = order" "length order = length tasks" by (auto split: if_splits)
  have "card (set order) = card (set (map fst tasks))"
    using inv o assms(1) by (metis distinct_card kahn_inv_def length_map wf_tasks_def)
  then have "set order = set (map fst tasks)"
    using inv o by (intro card_subset_eq) (auto simp: kahn_inv_def)
  then show ?thesis using inv o by (simp add: kahn_inv_def)
qed

lemma topoSort_None:
  assumes "wf_tasks tasks" and "topoSort tasks = None"
  shows "\<not> acyclic (set (taskEdges tasks))"
proof
  let ?E = "taskEdges tasks"
  assume "acyclic (set ?E)"
  then have wf: "wf (set ?E)" by (simp add: finite_acyclic_wf)
  from assms(1) obtain indegree order where
    "topoSort tasks = (if length order \<noteq> length tasks then None else Some order)"
    and inv: "kahn_inv ?E (set (map fst tasks)) indegree [] order"
    by (rule topoSort_loop)
  with assms(2) have len: "length order \<noteq> length tasks" by (auto split: if_splits)
  let ?R = "set (map fst tasks) - set order"
  have "?R \<noteq> {}"
  proof
    assume "?R = {}"
    with inv have "set order = set (map fst tasks)" by (auto simp: kahn_inv_def)
    with inv assms(1) len show False
      by (metis distinct_card kahn_inv_def length_map wf_tasks_def)
  qed
  then obtain v where v: "v \<in> ?R" "\<And>p. (p, v) \<in> set ?E \<Longrightarrow> p \<notin> ?R"
    using wfE_min [OF wf, of _ ?R] by blast
  have "remaining ?E (set order) v \<noteq> 0" using inv v(1) by (auto simp: kahn_inv_def)
  then obtain p where "(p, v) \<in> set ?E" "p \<notin> set order" by (auto simp: remaining_0_iff)
  with v taskEdges_keys(2) [OF assms(1)] show False by force
qed

subsection \<open>The contract the schedule passes rely on\<close>

locale topological_sorter =
  fixes sorter :: "Tasks \<Rightarrow> string list option"
  assumes sorter_Some: "wf_tasks tasks \<Longrightarrow> sorter tasks = Some order \<Longrightarrow>
      distinct order \<and> set order = set (map fst tasks) \<and> preds_first (set (taskEdges tasks)) order"
    and sorter_None: "wf_tasks tasks \<Longrightarrow> sorter tasks = None \<Longrightarrow> \<not> acyclic (set (taskEdges tasks))"
begin

lemma fails_iff_cycle:
  assumes "wf_tasks tasks"
  shows "sorter tasks = None \<longleftrightarrow> \<not> acyclic (set (taskEdges tasks))"
proof (cases "sorter tasks")
  case None
  with sorter_None [OF assms] show ?thesis by simp
next
  case (Some order)
  with sorter_Some [OF assms] taskEdges_keys(1) [OF assms] have "acyclic (set (taskEdges tasks))"
    by (metis preds_first_acyclic)
  with Some show ?thesis by simp
qed

text \<open>When a task is reached, every predecessor of it has been, and no successor has.\<close>

lemma pred_done:
  assumes "wf_tasks tasks" and "sorter tasks = Some (xs @ k # ys)" and "map_of tasks k = Some t"
    and "l \<in> set (effectiveLinks t)" and "map_of tasks (Pred l) \<noteq> None"
  shows "Pred l \<in> set xs"
proof -
  have "ID t = k" using wf_tasks_map_of assms by blast
  with assms have "(Pred l, k) \<in> set (taskEdges tasks)"
    by (auto simp: taskEdges_iff dest: map_of_SomeD)
  with sorter_Some [OF assms(1,2)] show ?thesis unfolding preds_first_def by blast
qed

lemma succ_pending:
  assumes "wf_tasks tasks" and "sorter tasks = Some (xs @ k # ys)" and "map_of tasks s = Some u"
    and "l \<in> set (effectiveLinks u)" and "Pred l = k" and "map_of tasks k \<noteq> None"
  shows "s \<in> set ys"
proof -
  have "s \<in> set (xs @ k # ys)"
    using sorter_Some [OF assms(1,2)] assms(3) map_of_is_None_iff [of tasks s] by (metis option.discI)
  then obtain us vs where d: "xs @ k # ys = us @ s # vs" by (metis in_set_conv_decomp)
  with pred_done [OF assms(1) _ assms(3,4)] assms have "k \<in> set us" by auto
  then obtain u1 u2 where "us = u1 @ k # u2" by (metis in_set_conv_decomp)
  with d have "xs @ k # ys = u1 @ k # (u2 @ s # vs)" by simp
  then have "ys = u2 @ s # vs" using distinct_split_eq sorter_Some [OF assms(1,2)] by metis
  then show ?thesis by simp
qed

end

interpretation kahn: topological_sorter topoSort
  by unfold_locales (use topoSort_Some topoSort_None in blast)+

subsection \<open>Independence of the map's iteration order\<close>

lemma kahnLoop_cong:
  assumes "\<And>x. sort (outOf edges x) = sort (outOf edges' x)"
  shows "kahnLoop edges indegree ready order = kahnLoop edges' indegree ready order"
  using assms
proof (induction edges indegree ready order rule: kahnLoop.induct)
  case (2 edges indegree x ready order)
  obtain i' r' where rel: "releaseSuccessors indegree ready (sort (outOf edges x)) = (i', r')" by fastforce
  with 2 show ?case by simp
qed simp

lemma taskEdges_mset:
  assumes "mset tasks = mset tasks'" and "distinct (map fst tasks)"
  shows "mset (taskEdges tasks) = mset (taskEdges tasks')"
  unfolding taskEdges_def map_of_mset_eq [OF assms] by (rule mset_concat_map_eq [OF assms(1)])

lemma outOf_mset: "mset edges = mset edges' \<Longrightarrow> sort (outOf edges x) = sort (outOf edges' x)"
  unfolding outOf_eq by (rule sort_mset_eq) (simp add: mset_filter)

subsection \<open>Properties\<close>

text \<open>
  C3. \<^const>\<open>topoSort\<close> fails exactly when the precedence graph of the task map has a
  cycle. Otherwise it returns every task once, each after all its existing predecessors.
\<close>

theorem topoSort_correct:
  assumes "wf_tasks tasks"
  shows "case topoSort tasks of
      None \<Rightarrow> \<not> acyclic (set (taskEdges tasks))
    | Some order \<Rightarrow> acyclic (set (taskEdges tasks)) \<and> distinct order \<and> set order = set (map fst tasks)
        \<and> (\<forall>xs k ys t l. order = xs @ k # ys \<and> map_of tasks k = Some t \<and> l \<in> set (effectiveLinks t)
             \<and> map_of tasks (Pred l) \<noteq> None \<longrightarrow> Pred l \<in> set xs)"
proof (cases "topoSort tasks")
  case None
  then show ?thesis using kahn.fails_iff_cycle [OF assms] by simp
next
  case (Some order)
  then have "acyclic (set (taskEdges tasks))" using kahn.fails_iff_cycle [OF assms] by simp
  moreover have "Pred l \<in> set xs"
    if "order = xs @ k # ys" "map_of tasks k = Some t" "l \<in> set (effectiveLinks t)" "map_of tasks (Pred l) \<noteq> None"
    for xs k ys t l
    using kahn.pred_done [OF assms, of xs k ys t l] that Some by simp
  ultimately show ?thesis using Some kahn.sorter_Some [OF assms Some] by auto
qed

definition chain_tasks :: Tasks where
  "chain_tasks = [(''b'', zeroTask\<lparr>ID := ''b'', Duration := 3, Precedents := [''a'']\<rparr>),
                  (''a'', zeroTask\<lparr>ID := ''a'', Duration := 2\<rparr>)]"

theorem topoSort_correct_witness:
  "wf_tasks chain_tasks \<and> topoSort chain_tasks = Some [''a'', ''b''] \<and> acyclic (set (taskEdges chain_tasks))"
proof -
  have h: "wf_tasks chain_tasks" by (simp add: wf_tasks_def chain_tasks_def)
  have e: "topoSort chain_tasks = Some [''a'', ''b'']" by code_simp
  show ?thesis using topoSort_correct [OF h] h e by simp
qed

text \<open>
  The order does not depend on the iteration order of the task map: any two lists of
  the same entries give the same result, so repeated runs are reproducible.
\<close>

theorem topoSort_deterministic:
  assumes "distinct (map fst tasks)" and "mset tasks = mset tasks'"
  shows "topoSort tasks = topoSort tasks'"
proof -
  note E = taskEdges_mset [OF assms(2,1)]
  have i: "indegreeOf (taskEdges tasks) = indegreeOf (taskEdges tasks')"
    by (intro ext) (simp add: indegreeOf_eq length_filter_mset_eq [OF E])
  have "sort (filter (\<lambda>k. indegreeOf (taskEdges tasks') k = 0) (map fst tasks))
      = sort (filter (\<lambda>k. indegreeOf (taskEdges tasks') k = 0) (map fst tasks'))"
    using assms(2) by (intro sort_mset_eq) (simp add: mset_filter)
  moreover have "length tasks = length tasks'" using assms(2) by (metis size_mset)
  ultimately show ?thesis
    unfolding topoSort_def Let_def i kahnLoop_cong [OF outOf_mset [OF E]] by simp
qed

theorem topoSort_deterministic_witness:
  "distinct (map fst chain_tasks) \<and> mset chain_tasks = mset (rev chain_tasks) \<and>
   topoSort (rev chain_tasks) = Some [''a'', ''b'']"
proof -
  have h: "distinct (map fst chain_tasks)" "mset chain_tasks = mset (rev chain_tasks)"
    by (simp_all add: chain_tasks_def)
  have e: "topoSort chain_tasks = Some [''a'', ''b'']" by code_simp
  show ?thesis using topoSort_deterministic [OF h] h e by simp
qed

end
