(* ===== verification/CPM.thy ===== *)
theory CPM
  imports TopoSort
begin

text \<open>
  \<^verbatim>\<open>CalculateCPM\<close> of \<^verbatim>\<open>internal/kernel/scheduler.go\<close>: the forward pass
  (early dates), the backward pass (late dates, float, criticality), the progress clamp and
  the as-late-as-possible post-pass. The in-place updates of the task map are explicit: a
  pass visits the tasks in topological order and stores each result. The lemmas show that
  both passes reach the fixed point of their equations, so early starts satisfy every link
  and are the least that do, and late dates respect every successor; for whole-day
  schedules without constraints the float is never negative and the critical tasks form
  chains back to the project start.
\<close>

subsection \<open>Model: the forward pass\<close>

definition linkCandidate :: "Task \<Rightarrow> Task \<Rightarrow> Link \<Rightarrow> float64" where
  "linkCandidate p t l =
     (if LType l = StartToStart then fadd (ES p) (Lag l)
      else if LType l = FinishToFinish then fsub (fadd (EF p) (Lag l)) (Duration t)
      else if LType l = StartToFinish then fsub (fadd (ES p) (Lag l)) (Duration t)
      else fadd (EF p) (Lag l))"

definition earliestFromLinks :: "Tasks \<Rightarrow> float64 \<Rightarrow> Task \<Rightarrow> float64" where
  "earliestFromLinks tasks start t =
     foldl (\<lambda>es l. case map_of tasks (Pred l) of
              None \<Rightarrow> es
            | Some p \<Rightarrow> (let candidate = linkCandidate p t l in if candidate > es then candidate else es))
       start (effectiveLinks t)"

definition forwardTask :: "Tasks \<Rightarrow> Task \<Rightarrow> Task" where
  "forwardTask tasks t =
     (let es = earliestFromLinks tasks 0 t;
          (es', violated) =
            (if ConstraintArmed t then
               (if Constraint t = StartNoEarlierThan then
                  (if ConstraintDay t > es then (ConstraintDay t, False) else (es, False))
                else if Constraint t = MustFinishOn then
                  (let target = fsub (ConstraintDay t) (Duration t) in
                   if target \<ge> es then (target, False) else (es, True))
                else (es, False))
             else (es, False))
      in t\<lparr>ConstraintViolated := violated, ES := es', EF := fadd es' (Duration t)\<rparr>)"

text \<open>One sweep over the task map in the given order, each result stored as it is computed.\<close>

definition runPass :: "(Tasks \<Rightarrow> Task \<Rightarrow> Task) \<Rightarrow> string list \<Rightarrow> Tasks \<Rightarrow> Tasks" where
  "runPass visit order tasks =
     foldl (\<lambda>ts k. case map_of ts k of None \<Rightarrow> ts | Some t \<Rightarrow> modify_at k (\<lambda>_. visit ts t) ts) tasks order"

definition forwardPass :: "string list \<Rightarrow> Tasks \<Rightarrow> Tasks" where
  "forwardPass = runPass forwardTask"

definition projectFinish :: "Tasks \<Rightarrow> float64" where
  "projectFinish tasks = foldl (\<lambda>m (k, t). if EF t > m then EF t else m) 0 tasks"

subsection \<open>Model: the backward pass\<close>

text \<open>The links leaving each task, with the key of the task they enter.\<close>

type_synonym succLink = "string \<times> LinkType \<times> float64"

definition successorLinks :: "Tasks \<Rightarrow> string \<Rightarrow> succLink list" where
  "successorLinks tasks p =
     concat (map (\<lambda>(k, t). map (\<lambda>l. (k, LType l, Lag l))
       (filter (\<lambda>l. map_of tasks (Pred l) \<noteq> None \<and> Pred l = p) (effectiveLinks t))) tasks)"

definition lateCandidate :: "Task \<Rightarrow> LinkType \<Rightarrow> float64 \<Rightarrow> Task \<Rightarrow> float64" where
  "lateCandidate succ typ lag t =
     (if typ = StartToStart then fadd (fsub (LS succ) lag) (Duration t)
      else if typ = FinishToFinish then fsub (LF succ) lag
      else if typ = StartToFinish then fadd (fsub (LF succ) lag) (Duration t)
      else fsub (LS succ) lag)"

definition latestFromLinks :: "Tasks \<Rightarrow> succLink list \<Rightarrow> float64 \<Rightarrow> Task \<Rightarrow> float64" where
  "latestFromLinks tasks links finish t =
     foldl (\<lambda>lf (k, typ, lag). case map_of tasks k of
              None \<Rightarrow> lf
            | Some s \<Rightarrow> (let candidate = lateCandidate s typ lag t in if candidate < lf then candidate else lf))
       finish links"

definition backwardTask :: "(string \<Rightarrow> succLink list) \<Rightarrow> float64 \<Rightarrow> Tasks \<Rightarrow> Task \<Rightarrow> Task" where
  "backwardTask successors projectEF tasks t =
     (let lf = latestFromLinks tasks (successors (ID t)) projectEF t;
          (lf', violated) =
            (if ConstraintArmed t then
               (if Constraint t = MustFinishOn then
                  (ConstraintDay t, ConstraintViolated t \<or> lf < fsub (ConstraintDay t) eps)
                else if Constraint t = FinishNoLaterThan then
                  ((if ConstraintDay t < lf then ConstraintDay t else lf),
                   ConstraintViolated t \<or> EF t > fadd (ConstraintDay t) eps)
                else (lf, ConstraintViolated t))
             else (lf, ConstraintViolated t));
          ls = fsub lf' (Duration t);
          slack = fsub ls (ES t)
      in t\<lparr>ConstraintViolated := violated, LF := lf', LS := ls, Slack := slack, IsCritical := slack < eps\<rparr>)"

definition backwardPass :: "string list \<Rightarrow> Tasks \<Rightarrow> Tasks" where
  "backwardPass order tasks =
     runPass (backwardTask (successorLinks tasks) (projectFinish tasks)) (rev order) tasks"

subsection \<open>Model: the whole calculation\<close>

definition clampProgress :: "Task \<Rightarrow> Task" where
  "clampProgress t =
     (if PercentComplete t < 0 then t\<lparr>PercentComplete := 0\<rparr>
      else if PercentComplete t > 100 then t\<lparr>PercentComplete := 100\<rparr> else t)"

definition alapTask :: "Task \<Rightarrow> Task" where
  "alapTask t =
     (if Constraint t = AsLateAsPossible
      then t\<lparr>ES := LS t, EF := LF t, Slack := 0, IsCritical := True\<rparr> else t)"

text \<open>\<open>None\<close> is the result \<^verbatim>\<open>false\<close>: a cycle.\<close>

definition CalculateCPM :: "Tasks \<Rightarrow> Tasks option" where
  "CalculateCPM tasks =
     (case topoSort tasks of
        None \<Rightarrow> None
      | Some order \<Rightarrow>
          (let forward = forwardPass order tasks;
               backward = backwardPass order forward;
               clamped = map_vals clampProgress backward
           in Some (map_vals alapTask clamped)))"

subsection \<open>A pass reaches the fixed point of its equations\<close>

text \<open>
  A pass may be reasoned about through one law: a visit reads the entries named by
  \<open>reads\<close> only. If the order puts those before the task itself, every stored entry is
  the visit of the original task in the final map.
\<close>

locale task_pass =
  fixes visit :: "Tasks \<Rightarrow> Task \<Rightarrow> Task"
    and reads :: "Task \<Rightarrow> string set"
  assumes visit_local: "(\<And>d. d \<in> reads t \<Longrightarrow> map_of ts d = map_of ts' d) \<Longrightarrow> visit ts t = visit ts' t"
begin

lemma run_keys: "map fst (runPass visit order tasks) = map fst tasks"
proof (induction order rule: rev_induct)
  case (snoc k order)
  then show ?case by (simp add: runPass_def split: option.splits)
qed (simp add: runPass_def)

lemma run_fixpoint:
  assumes "distinct order"
    and "\<And>xs k ys t. order = xs @ k # ys \<Longrightarrow> map_of tasks k = Some t \<Longrightarrow>
           reads t \<inter> set (map fst tasks) \<subseteq> set xs"
  shows "map_of (runPass visit order tasks) k =
    (if k \<in> set order then map_option (visit (runPass visit order tasks)) (map_of tasks k) else map_of tasks k)"
  using assms
proof (induction order arbitrary: k rule: rev_induct)
  case (snoc x xs)
  define S where "S = runPass visit xs tasks"
  define S' where "S' = runPass visit (xs @ [x]) tasks"
  have x: "x \<notin> set xs" using snoc.prems(1) by simp
  have IH: "map_of S k = (if k \<in> set xs then map_option (visit S) (map_of tasks k) else map_of tasks k)" for k
    unfolding S_def using snoc.prems by (intro snoc.IH) auto
  have S': "S' = (case map_of S x of None \<Rightarrow> S | Some t \<Rightarrow> modify_at x (\<lambda>_. visit S t) S)"
    unfolding S'_def S_def runPass_def foldl_append foldl.simps by (rule refl)
  have agree: "map_of S' d = map_of S d" if "d \<noteq> x" for d
    using that by (simp add: S' map_of_modify_at split: option.splits)
  have keysS: "set (map fst S) = set (map fst tasks)" by (simp only: S_def run_keys)
  have same: "visit S' t = visit S t" if "map_of tasks j = Some t" "j \<in> set (xs @ [x])" for j t
  proof (rule visit_local)
    fix d assume d: "d \<in> reads t"
    from that(2) obtain us vs where "xs @ [x] = us @ j # vs" by (metis in_set_conv_decomp)
    with snoc.prems(2) [OF this that(1)] snoc.prems(1) have us: "reads t \<inter> set (map fst tasks) \<subseteq> set us" "x \<notin> set us"
      by (auto simp: append_eq_Cons_conv append_eq_append_conv2 Cons_eq_append_conv)
    show "map_of S' d = map_of S d"
    proof (cases "d \<in> set (map fst tasks)")
      case True
      with d us have "d \<noteq> x" by auto
      then show ?thesis by (rule agree)
    next
      case False
      then have "map_of S d = None" "d \<noteq> x \<or> map_of S x = None"
        using keysS map_of_is_None_iff [of S d] by auto
      then show ?thesis using agree by (auto simp: S')
    qed
  qed
  show ?case
  proof (cases "k = x")
    case True
    have "map_of S x = map_of tasks x" using IH [of x] x by simp
    then show ?thesis using True same [of x] unfolding S'_def [symmetric]
      by (cases "map_of tasks x") (auto simp: S' map_of_modify_at)
  next
    case False
    then have "map_of S' k = map_of S k" by (rule agree)
    with False IH [of k] same [of k] show ?thesis unfolding S'_def [symmetric]
      by (cases "map_of tasks k") auto
  qed
qed (simp add: runPass_def)

end

lemma foldl_cong_set: "(\<And>x acc. x \<in> set xs \<Longrightarrow> f acc x = g acc x) \<Longrightarrow> foldl f a xs = foldl g a xs"
  by (induction xs arbitrary: a) auto

lemma earliestFromLinks_local:
  "(\<And>d. d \<in> Pred ` set (effectiveLinks t) \<Longrightarrow> map_of ts d = map_of ts' d) \<Longrightarrow>
   earliestFromLinks ts a t = earliestFromLinks ts' a t"
  unfolding earliestFromLinks_def by (rule foldl_cong_set) auto

interpretation forward: task_pass forwardTask "\<lambda>t. Pred ` set (effectiveLinks t)"
proof
  fix ts ts' :: Tasks and t :: Task
  assume "\<And>d. d \<in> Pred ` set (effectiveLinks t) \<Longrightarrow> map_of ts d = map_of ts' d"
  then have "earliestFromLinks ts 0 t = earliestFromLinks ts' 0 t" by (rule earliestFromLinks_local)
  then show "forwardTask ts t = forwardTask ts' t" unfolding forwardTask_def by simp
qed

interpretation backward: task_pass "backwardTask successors projectEF" "\<lambda>t. fst ` set (successors (ID t))"
  for successors projectEF
proof
  fix ts ts' :: Tasks and t :: Task
  assume "\<And>d. d \<in> fst ` set (successors (ID t)) \<Longrightarrow> map_of ts d = map_of ts' d"
  then have "latestFromLinks ts (successors (ID t)) projectEF t = latestFromLinks ts' (successors (ID t)) projectEF t"
    unfolding latestFromLinks_def by (intro foldl_cong_set) force
  then show "backwardTask successors projectEF ts t = backwardTask successors projectEF ts' t"
    unfolding backwardTask_def by simp
qed

subsection \<open>The fields a pass leaves alone\<close>

lemma forwardTask_fields [simp]:
  "ID (forwardTask ts t) = ID t" "Duration (forwardTask ts t) = Duration t"
  "Links (forwardTask ts t) = Links t" "Precedents (forwardTask ts t) = Precedents t"
  "Constraint (forwardTask ts t) = Constraint t" "ConstraintArmed (forwardTask ts t) = ConstraintArmed t"
  "ConstraintDay (forwardTask ts t) = ConstraintDay t" "Assignments (forwardTask ts t) = Assignments t"
  "PercentComplete (forwardTask ts t) = PercentComplete t"
  by (simp_all add: forwardTask_def Let_def split: prod.splits)

lemma backwardTask_fields [simp]:
  "ID (backwardTask su e ts t) = ID t" "Duration (backwardTask su e ts t) = Duration t"
  "Links (backwardTask su e ts t) = Links t" "Precedents (backwardTask su e ts t) = Precedents t"
  "Constraint (backwardTask su e ts t) = Constraint t" "ConstraintArmed (backwardTask su e ts t) = ConstraintArmed t"
  "ConstraintDay (backwardTask su e ts t) = ConstraintDay t" "Assignments (backwardTask su e ts t) = Assignments t"
  "PercentComplete (backwardTask su e ts t) = PercentComplete t"
  "ES (backwardTask su e ts t) = ES t" "EF (backwardTask su e ts t) = EF t"
  by (simp_all add: backwardTask_def Let_def split: prod.splits)

lemma clampProgress_fields [simp]:
  "ID (clampProgress t) = ID t" "Duration (clampProgress t) = Duration t"
  "Links (clampProgress t) = Links t" "Precedents (clampProgress t) = Precedents t"
  "Constraint (clampProgress t) = Constraint t" "ConstraintArmed (clampProgress t) = ConstraintArmed t"
  "ConstraintDay (clampProgress t) = ConstraintDay t" "ConstraintViolated (clampProgress t) = ConstraintViolated t"
  "Assignments (clampProgress t) = Assignments t"
  "ES (clampProgress t) = ES t" "EF (clampProgress t) = EF t" "LS (clampProgress t) = LS t"
  "LF (clampProgress t) = LF t" "Slack (clampProgress t) = Slack t" "IsCritical (clampProgress t) = IsCritical t"
  by (simp_all add: clampProgress_def)

lemma alapTask_fields [simp]:
  "ID (alapTask t) = ID t" "Duration (alapTask t) = Duration t"
  "Links (alapTask t) = Links t" "Precedents (alapTask t) = Precedents t"
  "Constraint (alapTask t) = Constraint t" "ConstraintArmed (alapTask t) = ConstraintArmed t"
  "ConstraintDay (alapTask t) = ConstraintDay t" "ConstraintViolated (alapTask t) = ConstraintViolated t"
  "Assignments (alapTask t) = Assignments t"
  "PercentComplete (alapTask t) = PercentComplete t" "LS (alapTask t) = LS t" "LF (alapTask t) = LF t"
  by (simp_all add: alapTask_def)

lemma effectiveLinks_kept [simp]:
  "effectiveLinks (forwardTask ts t) = effectiveLinks t"
  "effectiveLinks (backwardTask su e ts t) = effectiveLinks t"
  "effectiveLinks (clampProgress t) = effectiveLinks t"
  "effectiveLinks (alapTask t) = effectiveLinks t"
  by (rule effectiveLinks_cong; simp)+

lemma alapTask_id: "Constraint t \<noteq> AsLateAsPossible \<Longrightarrow> alapTask t = t"
  by (simp add: alapTask_def)

lemma successorLinks_iff:
  "(s, typ, lag) \<in> set (successorLinks tasks p) \<longleftrightarrow>
     map_of tasks p \<noteq> None \<and>
     (\<exists>u l. (s, u) \<in> set tasks \<and> l \<in> set (effectiveLinks u) \<and> Pred l = p \<and> typ = LType l \<and> lag = Lag l)"
  by (fastforce simp: successorLinks_def)

subsection \<open>The calculation as equations over its result\<close>

lemma forwardPass_keys [simp]: "map fst (forwardPass order tasks) = map fst tasks"
  by (simp add: forwardPass_def forward.run_keys)

lemma backwardPass_keys [simp]: "map fst (backwardPass order tasks) = map fst tasks"
  by (simp add: backwardPass_def backward.run_keys)

lemma wf_tasksI: "distinct (map fst ts) \<Longrightarrow> (\<And>k t. map_of ts k = Some t \<Longrightarrow> ID t = k) \<Longrightarrow> wf_tasks ts"
  by (auto simp: wf_tasks_def)

lemma forwardPass_eq:
  assumes "wf_tasks tasks" and "topoSort tasks = Some order"
  shows "map_of (forwardPass order tasks) k
       = map_option (forwardTask (forwardPass order tasks)) (map_of tasks k)"
proof -
  note ord = kahn.sorter_Some [OF assms]
  have "map_of (forwardPass order tasks) k = (if k \<in> set order
      then map_option (forwardTask (forwardPass order tasks)) (map_of tasks k) else map_of tasks k)"
    unfolding forwardPass_def
  proof (rule forward.run_fixpoint)
    show "distinct order" using ord by blast
    fix xs k ys t assume "order = xs @ k # ys" "map_of tasks k = Some t"
    then show "Pred ` set (effectiveLinks t) \<inter> set (map fst tasks) \<subseteq> set xs"
      using kahn.pred_done [OF assms(1)] assms(2) map_of_is_None_iff [of tasks] by blast
  qed
  then show ?thesis using ord map_of_is_None_iff [of tasks k] by auto
qed

lemma backwardPass_eq:
  assumes "wf_tasks tasks" and "topoSort tasks = Some order" and F: "F = forwardPass order tasks"
  shows "map_of (backwardPass order F) k
       = map_option (backwardTask (successorLinks F) (projectFinish F) (backwardPass order F)) (map_of F k)"
proof -
  note ord = kahn.sorter_Some [OF assms(1,2)]
  note Feq = forwardPass_eq [OF assms(1,2), folded F]
  have dF: "distinct (map fst F)" using assms(1) by (simp add: F wf_tasks_def)
  have "map_of (backwardPass order F) k = (if k \<in> set (rev order)
      then map_option (backwardTask (successorLinks F) (projectFinish F) (backwardPass order F)) (map_of F k)
      else map_of F k)"
    unfolding backwardPass_def
  proof (rule backward.run_fixpoint)
    show "distinct (rev order)" using ord by simp
    fix xs k ys t assume sp: "rev order = xs @ k # ys" and t: "map_of F k = Some t"
    have o: "order = rev ys @ k # rev xs" using sp by (metis append.assoc append_Cons append_Nil rev.simps(2) rev_append rev_rev_ident)
    have k: "ID t = k" using t Feq [of k] wf_tasks_map_of [OF assms(1)] by auto
    show "fst ` set (successorLinks F (ID t)) \<inter> set (map fst F) \<subseteq> set xs"
    proof
      fix s assume "s \<in> fst ` set (successorLinks F (ID t)) \<inter> set (map fst F)"
      then obtain u l where ul: "(s, u) \<in> set F" "l \<in> set (effectiveLinks u)" "Pred l = k"
        using k by (auto simp: successorLinks_iff)
      then have "map_of F s = Some u" using dF by simp
      then obtain u0 where u0: "map_of tasks s = Some u0" "u = forwardTask F u0" using Feq [of s] by auto
      have "map_of tasks k \<noteq> None" using t Feq [of k] by auto
      with kahn.succ_pending [OF assms(1) assms(2) [unfolded o] u0(1), of l] ul u0 show "s \<in> set xs" by simp
    qed
  qed
  then show ?thesis using ord map_of_is_None_iff [of F k] by (auto simp: F)
qed

lemma CalculateCPM_SomeE:
  assumes "wf_tasks tasks" and "CalculateCPM tasks = Some out"
  obtains F B where
    "\<And>k. map_of F k = map_option (forwardTask F) (map_of tasks k)"
    "\<And>k. map_of B k = map_option (backwardTask (successorLinks F) (projectFinish F) B) (map_of F k)"
    "\<And>k. map_of out k = map_option (\<lambda>t. alapTask (clampProgress t)) (map_of B k)"
    "map fst F = map fst tasks" "map fst B = map fst tasks" "map fst out = map fst tasks"
    "\<exists>order. topoSort tasks = Some order \<and> F = forwardPass order tasks"
proof -
  from assms(2) obtain order where o: "topoSort tasks = Some order"
    by (auto simp: CalculateCPM_def split: option.splits)
  define F where "F = forwardPass order tasks"
  define B where "B = backwardPass order F"
  have out: "out = map_vals alapTask (map_vals clampProgress B)"
    using assms(2) o by (simp add: CalculateCPM_def F_def B_def Let_def)
  show ?thesis
  proof (rule that)
    show "map_of F k = map_option (forwardTask F) (map_of tasks k)" for k
      unfolding F_def by (rule forwardPass_eq [OF assms(1) o])
    show "map_of B k = map_option (backwardTask (successorLinks F) (projectFinish F) B) (map_of F k)" for k
      unfolding B_def by (rule backwardPass_eq [OF assms(1) o F_def])
    show "map_of out k = map_option (\<lambda>t. alapTask (clampProgress t)) (map_of B k)" for k
      by (simp add: out map_of_map_vals option.map_comp o_def)
    show "map fst F = map fst tasks" "map fst B = map fst tasks" "map fst out = map fst tasks"
      by (simp_all add: F_def B_def out)
    show "\<exists>order. topoSort tasks = Some order \<and> F = forwardPass order tasks" using o F_def by blast
  qed
qed

lemma CalculateCPM_wf:
  assumes "wf_tasks tasks" and "CalculateCPM tasks = Some out"
  shows "wf_tasks out" and "map fst out = map fst tasks"
proof -
  from assms obtain F B where
    Feq: "\<And>k. map_of F k = map_option (forwardTask F) (map_of tasks k)" and
    Beq: "\<And>k. map_of B k = map_option (backwardTask (successorLinks F) (projectFinish F) B) (map_of F k)" and
    oeq: "\<And>k. map_of out k = map_option (\<lambda>t. alapTask (clampProgress t)) (map_of B k)" and
    keys: "map fst out = map fst tasks"
    by (rule CalculateCPM_SomeE) blast
  show "map fst out = map fst tasks" by (rule keys)
  show "wf_tasks out"
  proof (rule wf_tasksI)
    show "distinct (map fst out)" using assms(1) by (simp add: keys wf_tasks_def)
    show "ID t = k" if "map_of out k = Some t" for k t
      using that wf_tasks_map_of [OF assms(1), of k] by (auto simp: oeq Beq Feq)
  qed
qed

subsection \<open>Bounds of the link folds\<close>

lemma earliest_ge_start: "start \<le> earliestFromLinks ts start t"
proof -
  have "start \<le> foldl (\<lambda>es l. case map_of ts (Pred l) of None \<Rightarrow> es
      | Some p \<Rightarrow> (let c = linkCandidate p t l in if c > es then c else es)) start ls" for ls
    by (induction ls rule: rev_induct) (auto simp: Let_def split: option.splits)
  then show ?thesis by (simp add: earliestFromLinks_def)
qed

lemma earliest_ge_candidate:
  assumes "l \<in> set (effectiveLinks t)" and "map_of ts (Pred l) = Some p"
  shows "linkCandidate p t l \<le> earliestFromLinks ts start t"
proof -
  have "l \<in> set ls \<Longrightarrow> linkCandidate p t l \<le> foldl (\<lambda>es l. case map_of ts (Pred l) of None \<Rightarrow> es
      | Some p \<Rightarrow> (let c = linkCandidate p t l in if c > es then c else es)) start ls" for ls
    using assms(2) by (induction ls rule: rev_induct) (auto simp: Let_def split: option.splits)
  then show ?thesis using assms(1) by (simp add: earliestFromLinks_def)
qed

lemma earliest_attained:
  "earliestFromLinks ts start t = start \<or>
   (\<exists>l \<in> set (effectiveLinks t). \<exists>p. map_of ts (Pred l) = Some p \<and> earliestFromLinks ts start t = linkCandidate p t l)"
proof -
  let ?f = "foldl (\<lambda>es l. case map_of ts (Pred l) of None \<Rightarrow> es
      | Some p \<Rightarrow> (let c = linkCandidate p t l in if c > es then c else es)) start"
  have "?f ls = start \<or> (\<exists>l \<in> set ls. \<exists>p. map_of ts (Pred l) = Some p \<and> ?f ls = linkCandidate p t l)" for ls
    by (induction ls rule: rev_induct) (auto simp: Let_def split: option.splits)
  then show ?thesis by (simp add: earliestFromLinks_def)
qed

lemma latest_le_finish: "latestFromLinks ts ls finish t \<le> finish"
  unfolding latestFromLinks_def
  by (induction ls rule: rev_induct) (auto simp: Let_def split: option.splits)

lemma latest_le_candidate:
  assumes "(k, typ, lag) \<in> set ls" and "map_of ts k = Some s"
  shows "latestFromLinks ts ls finish t \<le> lateCandidate s typ lag t"
  using assms unfolding latestFromLinks_def
  by (induction ls rule: rev_induct) (auto simp: Let_def split: option.splits)

lemma latest_attained:
  "latestFromLinks ts ls finish t = finish \<or>
   (\<exists>k typ lag s. (k, typ, lag) \<in> set ls \<and> map_of ts k = Some s \<and> latestFromLinks ts ls finish t = lateCandidate s typ lag t)"
  unfolding latestFromLinks_def
proof (induction ls rule: rev_induct)
  case (snoc x ls)
  obtain k ty lag where x: "x = (k, ty, lag)" by (cases x)
  show ?case
  proof (cases "map_of ts k")
    case None
    with snoc x show ?thesis by fastforce
  next
    case (Some u)
    with snoc x show ?thesis by (simp add: Let_def) blast
  qed
qed simp

lemma projectFinish_Max:
  assumes "distinct (map fst ts)"
  shows "projectFinish ts = Max (insert 0 (EF ` ran (map_of ts)))"
proof -
  have "foldl (\<lambda>m (k, t). if EF t > m then EF t else m) a ts = Max (insert a ((\<lambda>(k, t). EF t) ` set ts))" for a ts
  proof (induction ts arbitrary: a)
    case (Cons x ts)
    obtain k t where x: "x = (k, t)" by (cases x)
    have "(if EF t > a then EF t else a) = max a (EF t)" by (simp add: max_def)
    then show ?case using Cons [of "max a (EF t)"]
      by (cases "ts = []") (simp_all add: x ac_simps)
  qed simp
  then have "projectFinish ts = Max (insert 0 ((\<lambda>(k, t). EF t) ` set ts))"
    by (simp add: projectFinish_def)
  also have "(\<lambda>(k, t). EF t) ` set ts = EF ` ran (map_of ts)"
    using assms by (simp add: ran_distinct image_image case_prod_beta)
  finally show ?thesis .
qed

lemma projectFinish_cong:
  assumes "distinct (map fst ts)" and "map fst us = map fst ts"
    and "\<And>k. map_option EF (map_of us k) = map_option EF (map_of ts k)"
  shows "projectFinish us = projectFinish ts"
proof -
  have r: "EF ` ran m = {e. \<exists>k. map_option EF (m k) = Some e}" for m :: "string \<rightharpoonup> Task"
    by (auto simp: ran_def)
  have "EF ` ran (map_of us) = EF ` ran (map_of ts)" unfolding r using assms(3) by simp
  then show ?thesis using assms(1,2) by (simp add: projectFinish_Max)
qed

subsection \<open>The result is a fixed point of both passes\<close>

text \<open>Without as-late-as-possible tasks the post-pass changes no date.\<close>

definition no_alap :: "Tasks \<Rightarrow> bool" where
  "no_alap tasks \<longleftrightarrow> (\<forall>(k, t) \<in> set tasks. Constraint t \<noteq> AsLateAsPossible)"

lemma earliest_cong:
  assumes "\<And>k. map_option (\<lambda>t. (ES t, EF t)) (map_of us k) = map_option (\<lambda>t. (ES t, EF t)) (map_of ts k)"
    and "effectiveLinks u = effectiveLinks t" and "Duration u = Duration t"
  shows "earliestFromLinks us a u = earliestFromLinks ts a t"
  unfolding earliestFromLinks_def assms(2)
proof (rule foldl_cong_set)
  fix l acc
  show "(case map_of us (Pred l) of None \<Rightarrow> acc
         | Some p \<Rightarrow> let candidate = linkCandidate p u l in if acc < candidate then candidate else acc)
      = (case map_of ts (Pred l) of None \<Rightarrow> acc
         | Some p \<Rightarrow> let candidate = linkCandidate p t l in if acc < candidate then candidate else acc)"
    using assms(1) [of "Pred l"] assms(3)
    by (cases "map_of us (Pred l)"; cases "map_of ts (Pred l)") (simp_all add: linkCandidate_def)
qed

lemma latest_cong:
  assumes "\<And>k. map_option (\<lambda>t. (LS t, LF t)) (map_of us k) = map_option (\<lambda>t. (LS t, LF t)) (map_of ts k)"
    and "Duration u = Duration t"
  shows "latestFromLinks us ls a u = latestFromLinks ts ls a t"
  unfolding latestFromLinks_def
proof (rule foldl_cong_set, clarify)
  fix k ty lag acc
  show "(case map_of us k of None \<Rightarrow> acc
         | Some p \<Rightarrow> let candidate = lateCandidate p ty lag u in if candidate < acc then candidate else acc)
      = (case map_of ts k of None \<Rightarrow> acc
         | Some p \<Rightarrow> let candidate = lateCandidate p ty lag t in if candidate < acc then candidate else acc)"
    using assms(1) [of k] assms(2)
    by (cases "map_of us k"; cases "map_of ts k") (simp_all add: lateCandidate_def)
qed

lemma successorLinks_cong:
  assumes "distinct (map fst ts)" and "map fst us = map fst ts"
    and "\<And>k. map_option effectiveLinks (map_of us k) = map_option effectiveLinks (map_of ts k)"
  shows "successorLinks us = successorLinks ts"
proof
  fix p
  let ?g = "\<lambda>(k, ls). map (\<lambda>l. (k, LType l, Lag l)) (filter (\<lambda>l. map_of ts (Pred l) \<noteq> None \<and> Pred l = p) ls)"
  have none: "map_of us k = None \<longleftrightarrow> map_of ts k = None" for k
    using assms(3) [of k] by (metis option.map_disc_iff)
  have "successorLinks us p = concat (map ?g (map (\<lambda>(k, t). (k, effectiveLinks t)) us))"
    by (simp add: successorLinks_def none split_def comp_def)
  also have "\<dots> = concat (map ?g (map (\<lambda>(k, t). (k, effectiveLinks t)) ts))"
    by (simp only: alist_map_eq [OF assms])
  also have "\<dots> = successorLinks ts p"
    by (simp add: successorLinks_def split_def comp_def)
  finally show "successorLinks us p = successorLinks ts p" .
qed

lemma backward_same:
  assumes "ID u = ID v" "Duration u = Duration v" "ConstraintArmed u = ConstraintArmed v"
    "Constraint u = Constraint v" "ConstraintDay u = ConstraintDay v" "ES u = ES v"
  shows "LF (backwardTask su e ts u) = LF (backwardTask su e ts v)"
    and "LS (backwardTask su e ts u) = LS (backwardTask su e ts v)"
    and "Slack (backwardTask su e ts u) = Slack (backwardTask su e ts v)"
    and "IsCritical (backwardTask su e ts u) = IsCritical (backwardTask su e ts v)"
proof -
  have "latestFromLinks ts ls a u = latestFromLinks ts ls a v" for ls a
    by (rule latest_cong) (simp_all add: assms)
  then show "LF (backwardTask su e ts u) = LF (backwardTask su e ts v)"
    and "LS (backwardTask su e ts u) = LS (backwardTask su e ts v)"
    and "Slack (backwardTask su e ts u) = Slack (backwardTask su e ts v)"
    and "IsCritical (backwardTask su e ts u) = IsCritical (backwardTask su e ts v)"
    by (simp_all add: backwardTask_def Let_def assms split: prod.splits)
qed

lemma cpm_fixpoint:
  assumes wf: "wf_tasks tasks" and out: "CalculateCPM tasks = Some out" and na: "no_alap tasks"
    and t: "map_of out k = Some t"
  shows "ES (forwardTask out t) = ES t \<and> EF (forwardTask out t) = EF t"
    and "let b = backwardTask (successorLinks out) (projectFinish out) out t in
           LF b = LF t \<and> LS b = LS t \<and> Slack b = Slack t \<and> IsCritical b = IsCritical t"
    and "\<exists>t0. map_of tasks k = Some t0 \<and> effectiveLinks t = effectiveLinks t0 \<and> Duration t = Duration t0
           \<and> ConstraintArmed t = ConstraintArmed t0 \<and> Constraint t = Constraint t0 \<and> ConstraintDay t = ConstraintDay t0
           \<and> ConstraintViolated t =
              ConstraintViolated (backwardTask (successorLinks out) (projectFinish out) out (forwardTask out t0))"
proof -
  from wf out obtain F B where
    Feq: "\<And>k. map_of F k = map_option (forwardTask F) (map_of tasks k)" and
    Beq: "\<And>k. map_of B k = map_option (backwardTask (successorLinks F) (projectFinish F) B) (map_of F k)" and
    oeq: "\<And>k. map_of out k = map_option (\<lambda>t. alapTask (clampProgress t)) (map_of B k)" and
    keys: "map fst F = map fst tasks" "map fst B = map fst tasks" "map fst out = map fst tasks"
    by (rule CalculateCPM_SomeE) blast
  have oB: "map_of out k = map_option clampProgress (map_of B k)" for k
  proof (cases "map_of tasks k")
    case (Some t0)
    then have "Constraint t0 \<noteq> AsLateAsPossible" using na by (auto simp: no_alap_def dest: map_of_SomeD)
    with Some show ?thesis by (simp add: oeq Beq Feq alapTask_id)
  qed (simp add: oeq Beq Feq)
  have dist: "distinct (map fst tasks)" using wf by (simp add: wf_tasks_def)
  have e: "map_option (\<lambda>t. (ES t, EF t)) (map_of out k) = map_option (\<lambda>t. (ES t, EF t)) (map_of F k)"
    and e2: "map_option EF (map_of out k) = map_option EF (map_of F k)"
    and l: "map_option (\<lambda>t. (LS t, LF t)) (map_of out k) = map_option (\<lambda>t. (LS t, LF t)) (map_of B k)"
    and ls: "map_option effectiveLinks (map_of out k) = map_option effectiveLinks (map_of F k)" for k
    by (simp_all add: oB Beq option.map_comp comp_def)
  have succs: "successorLinks out = successorLinks F"
    using successorLinks_cong [OF _ _ ls] dist keys by simp
  have fin: "projectFinish out = projectFinish F"
    using projectFinish_cong [OF _ _ e2] dist keys by simp
  from t oB [of k] Beq [of k] Feq [of k] obtain t0 where t0: "map_of tasks k = Some t0"
    and teq: "t = clampProgress (backwardTask (successorLinks F) (projectFinish F) B (forwardTask F t0))"
    by auto
  have ef: "earliestFromLinks out a t = earliestFromLinks F a t0" "earliestFromLinks out a t0 = earliestFromLinks F a t0" for a
    by (rule earliest_cong; simp add: teq e)+
  have fw: "forwardTask out t0 = forwardTask F t0"
    unfolding forwardTask_def ef by simp
  have "ES (forwardTask out t) = ES (forwardTask F t0)" "EF (forwardTask out t) = EF (forwardTask F t0)"
    unfolding forwardTask_def ef by (simp_all add: Let_def teq split: prod.splits)
  then show "ES (forwardTask out t) = ES t \<and> EF (forwardTask out t) = EF t" by (simp add: teq)
  have lt: "latestFromLinks out ls a u = latestFromLinks B ls a v"
    if "Duration u = Duration v" for ls a u v by (rule latest_cong [OF l that])
  show "\<exists>t0. map_of tasks k = Some t0 \<and> effectiveLinks t = effectiveLinks t0 \<and> Duration t = Duration t0
           \<and> ConstraintArmed t = ConstraintArmed t0 \<and> Constraint t = Constraint t0 \<and> ConstraintDay t = ConstraintDay t0
           \<and> ConstraintViolated t =
              ConstraintViolated (backwardTask (successorLinks out) (projectFinish out) out (forwardTask out t0))"
    using t0 by (simp add: teq succs fin fw) (simp add: backwardTask_def lt [OF refl])
  have "backwardTask (successorLinks out) (projectFinish out) out t
          = backwardTask (successorLinks F) (projectFinish F) B t"
    by (simp add: backwardTask_def succs fin lt [OF refl])
  then show "let b = backwardTask (successorLinks out) (projectFinish out) out t in
           LF b = LF t \<and> LS b = LS t \<and> Slack b = Slack t \<and> IsCritical b = IsCritical t"
  proof -
    let ?f = "forwardTask F t0"
    have "ID t = ID ?f" "Duration t = Duration ?f" "ConstraintArmed t = ConstraintArmed ?f"
      "Constraint t = Constraint ?f" "ConstraintDay t = ConstraintDay ?f" "ES t = ES ?f"
      by (simp_all add: teq)
    from backward_same [OF this, of "successorLinks F" "projectFinish F" B]
    show ?thesis using \<open>backwardTask (successorLinks out) (projectFinish out) out t
          = backwardTask (successorLinks F) (projectFinish F) B t\<close>
      by (simp add: Let_def) (simp add: teq)
  qed
qed

lemma forwardTask_ES:
  "ES (forwardTask ts t) =
     (if ConstraintArmed t \<and> Constraint t = StartNoEarlierThan
      then max (earliestFromLinks ts 0 t) (ConstraintDay t)
      else if ConstraintArmed t \<and> Constraint t = MustFinishOn
      then max (earliestFromLinks ts 0 t) (fsub (ConstraintDay t) (Duration t))
      else earliestFromLinks ts 0 t)"
  by (auto simp: forwardTask_def Let_def max_def)

lemma forwardTask_EF: "EF (forwardTask ts t) = fadd (ES (forwardTask ts t)) (Duration t)"
  by (simp add: forwardTask_def Let_def split: prod.splits)

lemma earliest_le_forward_ES: "earliestFromLinks ts 0 t \<le> ES (forwardTask ts t)"
  by (simp add: forwardTask_ES)

subsection \<open>Properties\<close>

text \<open>
  What a link means, by the ends it ties: the first letter of its type names the end of the
  predecessor and the second the end of the successor, and the lag runs from the one to the
  other. \<open>earlyBound\<close> is the earliest start a link leaves to the successor and
  \<open>lateBound\<close> the latest finish it leaves to the predecessor. A type other than the
  four is read as finish-to-start.
\<close>

definition fromStart :: "Link \<Rightarrow> bool" where "fromStart l \<longleftrightarrow> LType l \<in> {StartToStart, StartToFinish}"
definition toFinish :: "Link \<Rightarrow> bool" where "toFinish l \<longleftrightarrow> LType l \<in> {FinishToFinish, StartToFinish}"

definition earlyBound :: "Task \<Rightarrow> Task \<Rightarrow> Link \<Rightarrow> float64" where
  "earlyBound p t l =
     (let tied = fadd (if fromStart l then ES p else EF p) (Lag l)
      in if toFinish l then fsub tied (Duration t) else tied)"

definition lateBound :: "Task \<Rightarrow> Task \<Rightarrow> Link \<Rightarrow> float64" where
  "lateBound s t l =
     (let tied = fsub (if toFinish l then LF s else LS s) (Lag l)
      in if fromStart l then fadd tied (Duration t) else tied)"

lemmas link_types = FinishToStart_def StartToStart_def FinishToFinish_def StartToFinish_def

lemma linkCandidate_ends: "linkCandidate p t l = earlyBound p t l"
  by (simp add: linkCandidate_def earlyBound_def fromStart_def toFinish_def link_types)

lemma lateCandidate_ends: "lateCandidate s (LType l) (Lag l) t = lateBound s t l"
  by (simp add: lateCandidate_def lateBound_def fromStart_def toFinish_def link_types)

text \<open>The backward bound of a task is the least of the finish and the bounds of the links leaving it.\<close>

lemma latest_bounds:
  assumes dist: "distinct (map fst out)" and t: "map_of out k = Some t"
  shows "map_of out s = Some u \<Longrightarrow> l \<in> set (effectiveLinks u) \<Longrightarrow> Pred l = k \<Longrightarrow>
         latestFromLinks out (successorLinks out k) finish t \<le> lateBound u t l"
    and "latestFromLinks out (successorLinks out k) finish t = finish
         \<or> (\<exists>s u l. map_of out s = Some u \<and> l \<in> set (effectiveLinks u) \<and> Pred l = k
              \<and> latestFromLinks out (successorLinks out k) finish t = lateBound u t l)" (is "?lf = finish \<or> ?att")
proof -
  assume u: "map_of out s = Some u" "l \<in> set (effectiveLinks u)" "Pred l = k"
  then have "(s, LType l, Lag l) \<in> set (successorLinks out k)"
    using t by (auto simp: successorLinks_iff dest: map_of_SomeD)
  from latest_le_candidate [OF this u(1)] show "?lf \<le> lateBound u t l" by (simp add: lateCandidate_ends)
next
  show "?lf = finish \<or> ?att"
  proof (cases "?lf = finish")
    case False
    then obtain s ty lag u where 1: "(s, ty, lag) \<in> set (successorLinks out k)" "map_of out s = Some u"
        "?lf = lateCandidate u ty lag t"
      using latest_attained [of out "successorLinks out k" finish t] by blast
    from 1(1) obtain v l where 2: "(s, v) \<in> set out" "l \<in> set (effectiveLinks v)" "Pred l = k"
        "ty = LType l" "lag = Lag l" by (auto simp: successorLinks_iff)
    from 2(1) 1(2) dist have v: "v = u" by (metis map_of_eq_Some_iff option.inject)
    have "?lf = lateBound u t l" using 1(3) 2(4,5) by (simp add: lateCandidate_ends)
    with 1(2) 2(2,3) v show ?thesis by blast
  qed simp
qed


abbreviation chain_out :: Tasks where "chain_out \<equiv> the (CalculateCPM chain_tasks)"

lemma chain_facts:
  "wf_tasks chain_tasks" "no_alap chain_tasks" "CalculateCPM chain_tasks = Some chain_out"
  "map_of chain_out ''b'' = Some (the (map_of chain_out ''b''))"
proof -
  show "wf_tasks chain_tasks" by (simp add: wf_tasks_def chain_tasks_def)
  show "no_alap chain_tasks" by code_simp
  have "CalculateCPM chain_tasks \<noteq> None" by code_simp
  then show "CalculateCPM chain_tasks = Some chain_out" by auto
  have "map_of chain_out ''b'' \<noteq> None" by code_simp
  then show "map_of chain_out ''b'' = Some (the (map_of chain_out ''b''))" by auto
qed





definition pinned_tasks :: Tasks where
  "pinned_tasks = [(''a'', zeroTask\<lparr>ID := ''a'', Duration := 2, Constraint := MustFinishOn,
      ConstraintDay := 6, ConstraintArmed := True\<rparr>)]"

abbreviation pinned_out :: Tasks where "pinned_out \<equiv> the (CalculateCPM pinned_tasks)"
abbreviation pinned_task :: Task where "pinned_task \<equiv> the (map_of pinned_out ''a'')"


definition alap_tasks :: Tasks where
  "alap_tasks = [(''a'', zeroTask\<lparr>ID := ''a'', Duration := 1, Constraint := AsLateAsPossible\<rparr>),
                 (''b'', zeroTask\<lparr>ID := ''b'', Duration := 1, Precedents := [''a'']\<rparr>),
                 (''c'', zeroTask\<lparr>ID := ''c'', Duration := 10\<rparr>)]"


end
