(* ===== verification/CriticalPath.thy ===== *)
theory CriticalPath
  imports CPM
begin

text \<open>
  The critical path of a network planned in whole days. Where durations and lags are whole
  numbers and no date constraint is armed, the double arithmetic of
  \<^verbatim>\<open>CalculateCPM\<close> is exact as long as the total work fits 50 bits; then no task has
  negative float, a task is critical exactly when its float is zero, and the critical tasks
  form chains from the project start to the project finish.
\<close>

subsection \<open>Networks in whole days\<close>

definition is_whole :: "float64 \<Rightarrow> bool" where
  "is_whole x \<longleftrightarrow> of_int \<lfloor>x\<rfloor> = x"

definition plain_days :: "Tasks \<Rightarrow> bool" where
  "plain_days tasks \<longleftrightarrow> (\<forall>(k, t) \<in> set tasks. \<not> ConstraintArmed t \<and> Constraint t \<noteq> AsLateAsPossible
     \<and> is_whole (Duration t) \<and> 0 \<le> Duration t \<and> (\<forall>l \<in> set (effectiveLinks t). is_whole (Lag l)))"

definition taskLoad :: "Task \<Rightarrow> float64" where
  "taskLoad t = Duration t + sum_list (map (\<lambda>l. \<bar>Lag l\<bar>) (effectiveLinks t))"

definition workload :: "Tasks \<Rightarrow> float64" where
  "workload tasks = sum_list (map (\<lambda>(k, t). taskLoad t) tasks)"

lemma is_whole_Ints: "is_whole x \<longleftrightarrow> x \<in> \<int>"
  unfolding is_whole_def by (metis Ints_cases Ints_of_int floor_of_int)

lemma fadd_whole: "x \<in> \<int> \<Longrightarrow> y \<in> \<int> \<Longrightarrow> \<bar>x + y\<bar> \<le> 2 ^ 53 \<Longrightarrow> fadd x y = x + y"
  unfolding fadd_def by (rule binary64.exact_Ints) auto

lemma fsub_whole: "x \<in> \<int> \<Longrightarrow> y \<in> \<int> \<Longrightarrow> \<bar>x - y\<bar> \<le> 2 ^ 53 \<Longrightarrow> fsub x y = x - y"
  unfolding fsub_def by (rule binary64.exact_Ints) auto

lemma lag_sum_nonneg: "0 \<le> sum_list (map (\<lambda>l. \<bar>Lag l\<bar>) ls)"
  by (induction ls) simp_all

lemma lag_le_sum: "l \<in> set ls \<Longrightarrow> \<bar>Lag l\<bar> \<le> sum_list (map (\<lambda>l. \<bar>Lag l\<bar>) ls)"
proof (induction ls)
  case (Cons x ls)
  then show ?case using lag_sum_nonneg [of ls] abs_ge_zero [of "Lag x"] by (auto simp del: abs_ge_zero)
qed simp

lemma Lag_le_taskLoad: "l \<in> set (effectiveLinks t) \<Longrightarrow> Duration t + \<bar>Lag l\<bar> \<le> taskLoad t"
  using lag_le_sum unfolding taskLoad_def by simp

lemma Duration_le_taskLoad: "Duration t \<le> taskLoad t"
  using lag_sum_nonneg unfolding taskLoad_def by simp

lemma taskLoad_nonneg: "0 \<le> Duration t \<Longrightarrow> 0 \<le> taskLoad t"
  using Duration_le_taskLoad [of t] by linarith

lemma sum_list_mset_eq: "mset xs = mset ys \<Longrightarrow> sum_list (map f xs) = (sum_list (map f ys) :: rat)"
  by (metis mset_map sum_mset_sum_list)

lemma workload_keys:
  assumes "distinct (map fst ts)" and "distinct ks" and "set ks = set (map fst ts)"
  shows "sum_list (map (\<lambda>k. taskLoad (the (map_of ts k))) ks) = workload ts"
proof -
  have "mset ks = mset (map fst ts)"
    using set_eq_iff_mset_eq_distinct [OF assms(2,1)] assms(3) by (simp only: simp_thms)
  then have "sum_list (map (\<lambda>k. taskLoad (the (map_of ts k))) ks)
      = sum_list (map (\<lambda>k. taskLoad (the (map_of ts k))) (map fst ts))"
    by (intro sum_list_mset_eq) simp
  also have "map (\<lambda>k. taskLoad (the (map_of ts k))) (map fst ts) = map (\<lambda>(k, t). taskLoad t) ts"
    using assms(1) by (auto simp: map_eq_conv)
  finally show ?thesis by (simp add: workload_def)
qed

subsection \<open>The candidates, exactly\<close>

text \<open>What a link asks of early dates, in exact arithmetic.\<close>

definition linkBound :: "Task \<Rightarrow> Task \<Rightarrow> Link \<Rightarrow> rat" where
  "linkBound p t l =
     (if LType l = StartToStart then ES p + Lag l
      else if LType l = FinishToFinish then EF p + Lag l - Duration t
      else if LType l = StartToFinish then ES p + Lag l - Duration t
      else EF p + Lag l)"

lemma linkCandidate_exact:
  assumes "ES p \<in> \<int>" "EF p \<in> \<int>" "Lag l \<in> \<int>" "Duration t \<in> \<int>"
    and "\<bar>ES p\<bar> \<le> 2 ^ 51" "\<bar>EF p\<bar> \<le> 2 ^ 51" "\<bar>Lag l\<bar> \<le> 2 ^ 51" "\<bar>Duration t\<bar> \<le> 2 ^ 51"
  shows "linkCandidate p t l = linkBound p t l"
proof -
  have b: "\<bar>x\<bar> \<le> 2 ^ 51 \<Longrightarrow> \<bar>y\<bar> \<le> 2 ^ 51 \<Longrightarrow> \<bar>x + y\<bar> \<le> 2 ^ 53" for x y :: rat unfolding abs_le_iff by simp
  have c: "\<bar>x\<bar> \<le> 2 ^ 51 \<Longrightarrow> \<bar>y\<bar> \<le> 2 ^ 51 \<Longrightarrow> \<bar>z\<bar> \<le> 2 ^ 51 \<Longrightarrow> \<bar>x + y - z\<bar> \<le> 2 ^ 53" for x y z :: rat unfolding abs_le_iff by simp
  show ?thesis using assms
    by (simp add: linkCandidate_def linkBound_def fadd_whole fsub_whole b c)
qed

lemma lateCandidate_exact:
  assumes "LS u \<in> \<int>" "LF u \<in> \<int>" "lag \<in> \<int>" "Duration t \<in> \<int>"
    and "\<bar>LS u\<bar> \<le> 2 ^ 51" "\<bar>LF u\<bar> \<le> 2 ^ 51" "\<bar>lag\<bar> \<le> 2 ^ 51" "\<bar>Duration t\<bar> \<le> 2 ^ 51"
  shows "lateCandidate u typ lag t =
     (if typ = StartToStart then LS u - lag + Duration t
      else if typ = FinishToFinish then LF u - lag
      else if typ = StartToFinish then LF u - lag + Duration t
      else LS u - lag)"
proof -
  have b: "\<bar>x\<bar> \<le> 2 ^ 51 \<Longrightarrow> \<bar>y\<bar> \<le> 2 ^ 51 \<Longrightarrow> \<bar>x - y\<bar> \<le> 2 ^ 53" for x y :: rat unfolding abs_le_iff by simp
  have c: "\<bar>x\<bar> \<le> 2 ^ 51 \<Longrightarrow> \<bar>y\<bar> \<le> 2 ^ 51 \<Longrightarrow> \<bar>z\<bar> \<le> 2 ^ 51 \<Longrightarrow> \<bar>x - y + z\<bar> \<le> 2 ^ 53" for x y z :: rat unfolding abs_le_iff by simp
  show ?thesis using assms
    by (simp add: lateCandidate_def fadd_whole fsub_whole b c)
qed

subsection \<open>The result of a plain network as equations\<close>

text \<open>The facts of a calculated plain network the two inductions below use.\<close>

definition plain_result :: "string list \<Rightarrow> Tasks \<Rightarrow> bool" where
  "plain_result order out \<longleftrightarrow>
     distinct (map fst out) \<and> distinct order \<and> set order = set (map fst out) \<and> workload out \<le> 2 ^ 50
     \<and> (\<forall>xs k ys t l. order = xs @ k # ys \<and> map_of out k = Some t \<and> l \<in> set (effectiveLinks t)
          \<and> map_of out (Pred l) \<noteq> None \<longrightarrow> Pred l \<in> set xs)
     \<and> (\<forall>k t. map_of out k = Some t \<longrightarrow>
          ID t = k \<and> Duration t \<in> \<int> \<and> 0 \<le> Duration t \<and> (\<forall>l \<in> set (effectiveLinks t). Lag l \<in> \<int>)
          \<and> ES t = earliestFromLinks out 0 t \<and> EF t = fadd (ES t) (Duration t)
          \<and> LF t = latestFromLinks out (successorLinks out k) (projectFinish out) t
          \<and> LS t = fsub (LF t) (Duration t) \<and> Slack t = fsub (LS t) (ES t) \<and> (IsCritical t \<longleftrightarrow> Slack t < eps))"

lemma plain_result_CPM:
  assumes wf: "wf_tasks tasks" and pd: "plain_days tasks" and w: "workload tasks \<le> 2 ^ 50"
    and out: "CalculateCPM tasks = Some out"
  obtains order where "plain_result order out"
proof -
  have na: "no_alap tasks" using pd by (fastforce simp: plain_days_def no_alap_def)
  obtain order where o: "topoSort tasks = Some order"
    using out by (auto simp: CalculateCPM_def split: option.splits)
  note ord = kahn.sorter_Some [OF wf o] and wfo = CalculateCPM_wf [OF wf out]
  have same: "\<exists>t0. map_of tasks k = Some t0 \<and> effectiveLinks t = effectiveLinks t0 \<and> Duration t = Duration t0
      \<and> ConstraintArmed t = ConstraintArmed t0 \<and> Constraint t = Constraint t0"
    if "map_of out k = Some t" for k t using cpm_fixpoint(3) [OF wf out na that] by blast
  have dist: "distinct (map fst tasks)" using wf by (simp add: wf_tasks_def)
  have dom: "map_of out k = None \<longleftrightarrow> map_of tasks k = None" for k
    using wfo(2) by (simp add: map_of_is_None_iff)
  have "map_option taskLoad (map_of out k) = map_option taskLoad (map_of tasks k)" for k
    using same [of k] dom [of k] by (cases "map_of out k") (auto simp: taskLoad_def)
  then have "map (\<lambda>(k, t). (k, taskLoad t)) out = map (\<lambda>(k, t). (k, taskLoad t)) tasks"
    by (intro alist_map_eq dist wfo(2))
  then have "map (\<lambda>(k, t). taskLoad t) out = map (\<lambda>(k, t). taskLoad t) tasks"
    by (drule_tac f = "map snd" in arg_cong) (simp add: comp_def split_def)
  then have A: "workload out \<le> 2 ^ 50" using w by (simp add: workload_def)
  have Bp: "Pred l \<in> set xs" if "order = xs @ k # ys" "map_of out k = Some t"
      "l \<in> set (effectiveLinks t)" "map_of out (Pred l) \<noteq> None" for xs k ys t l
    using kahn.pred_done [OF wf, of xs k ys _ l] that o same [of k t] dom by auto
  have C: "ID t = k \<and> Duration t \<in> \<int> \<and> 0 \<le> Duration t \<and> (\<forall>l \<in> set (effectiveLinks t). Lag l \<in> \<int>)
          \<and> ES t = earliestFromLinks out 0 t \<and> EF t = fadd (ES t) (Duration t)
          \<and> LF t = latestFromLinks out (successorLinks out k) (projectFinish out) t
          \<and> LS t = fsub (LF t) (Duration t) \<and> Slack t = fsub (LS t) (ES t) \<and> (IsCritical t \<longleftrightarrow> Slack t < eps)"
    if t: "map_of out k = Some t" for k t
  proof -
    obtain t0 where t0: "map_of tasks k = Some t0" "effectiveLinks t = effectiveLinks t0" "Duration t = Duration t0"
      "ConstraintArmed t = ConstraintArmed t0" "Constraint t = Constraint t0" using same [OF t] by blast
    have p: "\<not> ConstraintArmed t" "Duration t \<in> \<int>" "0 \<le> Duration t" "\<forall>l \<in> set (effectiveLinks t). Lag l \<in> \<int>"
      using pd map_of_SomeD [OF t0(1)] t0 by (fastforce simp: plain_days_def is_whole_Ints)+
    have i: "ID t = k" by (rule wf_tasks_map_of [OF wfo(1) t])
    have e: "ES t = earliestFromLinks out 0 t" "EF t = fadd (ES t) (Duration t)"
      using cpm_fixpoint(1) [OF wf out na t] forwardTask_ES [of out t] forwardTask_EF [of out t] p(1) by auto
    have l: "LF t = latestFromLinks out (successorLinks out k) (projectFinish out) t"
      "LS t = fsub (LF t) (Duration t)" "Slack t = fsub (LS t) (ES t)" "IsCritical t \<longleftrightarrow> Slack t < eps"
      using cpm_fixpoint(2) [OF wf out na t] p(1) by (auto simp: backwardTask_def Let_def i)
    show ?thesis using p i e l by blast
  qed
  have "plain_result order out"
    unfolding plain_result_def
    by (intro conjI allI impI; (elim conjE)?) (use A Bp C ord dist wfo(2) in \<open>simp; fail | blast\<close>)+
  then show thesis by (rule that)
qed

subsection \<open>Early dates are whole and bounded\<close>

lemma plain_result_entry:
  assumes "plain_result order out" and "map_of out k = Some t"
  shows "ID t = k" "Duration t \<in> \<int>" "0 \<le> Duration t" "\<forall>l \<in> set (effectiveLinks t). Lag l \<in> \<int>"
    "ES t = earliestFromLinks out 0 t" "EF t = fadd (ES t) (Duration t)"
    "LF t = latestFromLinks out (successorLinks out k) (projectFinish out) t"
    "LS t = fsub (LF t) (Duration t)" "Slack t = fsub (LS t) (ES t)" "IsCritical t \<longleftrightarrow> Slack t < eps"
  using assms unfolding plain_result_def by blast+

lemma plain_load_nonneg:
  assumes "plain_result order out" and "set ks \<subseteq> set order"
  shows "0 \<le> sum_list (map (\<lambda>k. taskLoad (the (map_of out k))) ks)"
proof (rule sum_list_nonneg, clarsimp)
  fix k assume "k \<in> set ks"
  then have "k \<in> set (map fst out)" using assms unfolding plain_result_def by blast
  then obtain t where "map_of out k = Some t" using map_of_is_None_iff [of out k] by auto
  then show "0 \<le> taskLoad (the (map_of out k))"
    using plain_result_entry(3) [OF assms(1)] taskLoad_nonneg by simp
qed

lemma plain_result_load:
  assumes "plain_result order out" and "order = xs @ ys"
  shows "sum_list (map (\<lambda>k. taskLoad (the (map_of out k))) xs) \<le> 2 ^ 50"
proof -
  have d: "distinct (map fst out)" "distinct order" "set order = set (map fst out)" "workload out \<le> 2 ^ 50"
    using assms(1) unfolding plain_result_def by blast+
  have "0 \<le> sum_list (map (\<lambda>k. taskLoad (the (map_of out k))) ys)"
    using assms by (intro plain_load_nonneg) auto
  moreover have "sum_list (map (\<lambda>k. taskLoad (the (map_of out k))) (xs @ ys)) = workload out"
    using workload_keys d(1-3) assms(2) by blast
  ultimately show ?thesis using d(4) by simp
qed

lemma plain_task_bounds:
  assumes pr: "plain_result order out" and t: "map_of out k = Some t"
  shows "Duration t \<le> 2 ^ 50" and "l \<in> set (effectiveLinks t) \<Longrightarrow> \<bar>Lag l\<bar> \<le> 2 ^ 50"
proof -
  have "k \<in> set order" using pr t map_of_is_None_iff [of out k] unfolding plain_result_def by auto
  then obtain xs ys where o: "order = xs @ k # ys" by (metis in_set_conv_decomp)
  have "0 \<le> sum_list (map (\<lambda>k. taskLoad (the (map_of out k))) xs)"
    using pr o by (intro plain_load_nonneg) auto
  then have w: "taskLoad t \<le> 2 ^ 50" using plain_result_load [OF pr, of "xs @ [k]" ys] o t by simp
  show "Duration t \<le> 2 ^ 50" using w Duration_le_taskLoad [of t] by (rule order_trans [rotated])
  show "\<bar>Lag l\<bar> \<le> 2 ^ 50" if "l \<in> set (effectiveLinks t)"
    using w Lag_le_taskLoad [OF that] plain_result_entry(3) [OF pr t] by simp
qed

lemma early_whole_prefix:
  assumes pr: "plain_result order out"
  shows "order = xs @ ys \<Longrightarrow> k \<in> set xs \<Longrightarrow> map_of out k = Some t \<Longrightarrow>
    ES t \<in> \<int> \<and> EF t = ES t + Duration t \<and> 0 \<le> ES t
    \<and> EF t \<le> sum_list (map (\<lambda>k. taskLoad (the (map_of out k))) xs)"
proof (induction xs arbitrary: ys k t rule: rev_induct)
  case (snoc x xs)
  let ?W = "\<lambda>xs. sum_list (map (\<lambda>k. taskLoad (the (map_of out k))) xs)"
  show ?case
  proof (cases "k \<in> set xs")
    case True
    have IH: "ES t \<in> \<int> \<and> EF t = ES t + Duration t \<and> 0 \<le> ES t \<and> EF t \<le> ?W xs"
      using snoc.IH [of "x # ys" k t] snoc.prems True by simp
    have "0 \<le> taskLoad (the (map_of out x))"
      using plain_load_nonneg [OF pr, of "[x]"] snoc.prems(1) by simp
    with IH show ?thesis by simp
  next
    case False
    with snoc.prems have kx: "k = x" by simp
    note e = plain_result_entry [OF pr snoc.prems(3)] and b = plain_task_bounds [OF pr snoc.prems(3)]
    have W0: "?W (xs @ [x]) = ?W xs + taskLoad t" using kx snoc.prems(3) by simp
    have Wb: "?W (xs @ [x]) \<le> 2 ^ 50" using plain_result_load [OF pr, of "xs @ [x]" ys] snoc.prems(1) by simp
    have Wxs: "?W xs \<le> 2 ^ 50" using plain_result_load [OF pr, of xs "x # ys"] snoc.prems(1) by simp
    have cand: "linkCandidate p t l \<in> \<int> \<and> linkCandidate p t l + Duration t \<le> ?W xs + taskLoad t"
      if l: "l \<in> set (effectiveLinks t)" and p: "map_of out (Pred l) = Some p" for l p
    proof -
      have "Pred l \<in> set xs" using pr l p snoc.prems kx unfolding plain_result_def by auto
      then have P: "ES p \<in> \<int>" "EF p = ES p + Duration p" "0 \<le> ES p" "EF p \<le> ?W xs"
        using snoc.IH [of "x # ys" "Pred l" p] snoc.prems p by auto
      note pe = plain_result_entry [OF pr p]
      have L: "Lag l \<in> \<int>" "\<bar>Lag l\<bar> \<le> 2 ^ 50" "Duration t + \<bar>Lag l\<bar> \<le> taskLoad t"
        using e(4) l b(2) Lag_le_taskLoad by blast+
      have "linkCandidate p t l = linkBound p t l"
        using P L pe(2,3) e(2,3) b(1) Wxs by (intro linkCandidate_exact) (auto simp: abs_if)
      moreover have "linkBound p t l \<in> \<int>" using P(1,2) pe(2) L(1) e(2) by (simp add: linkBound_def)
      moreover have "linkBound p t l + Duration t \<le> ?W xs + taskLoad t"
        using P L(3) pe(3) e(3) by (auto simp: linkBound_def)
      ultimately show ?thesis by simp
    qed
    have W: "0 \<le> ?W xs" using snoc.prems(1) by (intro plain_load_nonneg [OF pr]) auto
    have es: "ES t \<in> \<int> \<and> ES t + Duration t \<le> ?W xs + taskLoad t"
      using earliest_attained [of out 0 t] cand W Duration_le_taskLoad [of t] e(5) by auto
    moreover have "0 \<le> ES t" using earliest_ge_start [of 0 out t] e(5) by simp
    moreover have "EF t = ES t + Duration t"
      using calculation e(2,3,6) Wb W0 by (simp add: fadd_whole abs_if)
    ultimately show ?thesis using W0 by simp
  qed
qed simp

lemma early_whole:
  assumes pr: "plain_result order out" and t: "map_of out k = Some t"
  shows "ES t \<in> \<int>" "EF t = ES t + Duration t" "0 \<le> ES t" "ES t \<le> EF t" "EF t \<in> \<int>" "EF t \<le> 2 ^ 50"
proof -
  have "k \<in> set order" using pr t map_of_is_None_iff [of out k] unfolding plain_result_def by auto
  then show 1: "ES t \<in> \<int>" "EF t = ES t + Duration t" "0 \<le> ES t" "EF t \<le> 2 ^ 50"
    using early_whole_prefix [OF pr, of order "[]" k t] t plain_result_load [OF pr, of order "[]"] by auto
  show "ES t \<le> EF t" "EF t \<in> \<int>" using 1 plain_result_entry(2,3) [OF pr t] by simp_all
qed

lemma linkBound_le_ES:
  assumes pr: "plain_result order out" and t: "map_of out k = Some t"
    and l: "l \<in> set (effectiveLinks t)" and p: "map_of out (Pred l) = Some p"
  shows "linkCandidate p t l = linkBound p t l" and "linkBound p t l \<le> ES t"
proof -
  show 1: "linkCandidate p t l = linkBound p t l"
  proof (rule linkCandidate_exact)
    note w = early_whole [OF pr p] and e = plain_result_entry [OF pr t] and b = plain_task_bounds [OF pr t]
    show "ES p \<in> \<int>" "EF p \<in> \<int>" "Lag l \<in> \<int>" "Duration t \<in> \<int>" using w e(2,4) l by blast+
    show "\<bar>ES p\<bar> \<le> 2 ^ 51" "\<bar>EF p\<bar> \<le> 2 ^ 51" using w(3,4,6) by simp_all
    show "\<bar>Lag l\<bar> \<le> 2 ^ 51" using b(2) [OF l] by simp
    show "\<bar>Duration t\<bar> \<le> 2 ^ 51" using e(3) b(1) by simp
  qed
  show "linkBound p t l \<le> ES t"
    using earliest_ge_candidate [OF l p, of 0] plain_result_entry(5) [OF pr t] 1 by simp
qed

subsection \<open>Late dates are whole and not before the early ones\<close>

lemma projectFinish_plain:
  assumes pr: "plain_result order out"
  shows "projectFinish out \<in> \<int>" "0 \<le> projectFinish out" "projectFinish out \<le> 2 ^ 50"
    and "map_of out k = Some t \<Longrightarrow> EF t \<le> projectFinish out"
    and "projectFinish out = 0 \<or> (\<exists>k t. map_of out k = Some t \<and> EF t = projectFinish out)"
proof -
  let ?S = "insert 0 (EF ` ran (map_of out))"
  have M: "projectFinish out = Max ?S"
    using pr projectFinish_Max unfolding plain_result_def by blast
  have fin: "finite ?S" by (simp add: finite_ran finite_dom_map_of)
  have mem: "Max ?S \<in> ?S" by (rule Max_in) (use fin in auto)
  then show att: "projectFinish out = 0 \<or> (\<exists>k t. map_of out k = Some t \<and> EF t = projectFinish out)"
    unfolding M [symmetric] by (force simp: ran_def)
  show "EF t \<le> projectFinish out" if "map_of out k = Some t"
    unfolding M using fin that by (intro Max_ge) (auto simp: ran_def)
  show "0 \<le> projectFinish out" unfolding M using fin by (intro Max_ge) auto
  show "projectFinish out \<in> \<int>" "projectFinish out \<le> 2 ^ 50"
    using att early_whole(5,6) [OF pr] by (metis Ints_0 zero_le_numeral zero_le_power)+
qed

lemma plain_succ_pending:
  assumes pr: "plain_result order out" and o: "order = xs @ k # ys" and u: "map_of out s = Some u"
    and l: "l \<in> set (effectiveLinks u)" "Pred l = k"
  shows "s \<in> set ys"
proof -
  have d: "distinct order" "set order = set (map fst out)" using pr unfolding plain_result_def by blast+
  have "s \<in> set order" using d(2) u map_of_is_None_iff [of out s] by auto
  then obtain us vs where s: "order = us @ s # vs" by (metis in_set_conv_decomp)
  have "map_of out k \<noteq> None" using d(2) o map_of_is_None_iff [of out k] by auto
  with s u l pr have "k \<in> set us" unfolding plain_result_def by blast
  then obtain u1 u2 where "us = u1 @ k # u2" by (metis in_set_conv_decomp)
  with s o d(1) have "ys = u2 @ s # vs" using distinct_split_eq [of xs k ys u1 "u2 @ s # vs"] by simp
  then show ?thesis by simp
qed

lemma late_whole_suffix:
  assumes pr: "plain_result order out"
  shows "order = xs @ ys \<Longrightarrow> k \<in> set ys \<Longrightarrow> map_of out k = Some t \<Longrightarrow>
    LF t \<in> \<int> \<and> LS t = LF t - Duration t \<and> EF t \<le> LF t \<and> LF t \<le> projectFinish out"
proof (induction ys arbitrary: xs k t)
  case (Cons y ys)
  show ?case
  proof (cases "k \<in> set ys")
    case True
    then show ?thesis using Cons.IH [of "xs @ [y]" k t] Cons.prems by simp
  next
    case False
    with Cons.prems have ky: "k = y" by simp
    note e = plain_result_entry [OF pr Cons.prems(3)] and ew = early_whole [OF pr Cons.prems(3)]
      and b = plain_task_bounds [OF pr Cons.prems(3)] and pf = projectFinish_plain [OF pr]
    have cand: "lateCandidate u (LType l) (Lag l) t \<in> \<int> \<and> EF t \<le> lateCandidate u (LType l) (Lag l) t"
      if u: "map_of out s = Some u" and l: "l \<in> set (effectiveLinks u)" "Pred l = k" for s u l
    proof -
      have "s \<in> set ys" using plain_succ_pending [OF pr _ u l(1)] l Cons.prems(1) ky by simp
      then have U: "LF u \<in> \<int>" "LS u = LF u - Duration u" "EF u \<le> LF u" "LF u \<le> projectFinish out"
        using Cons.IH [of "xs @ [y]" s u] Cons.prems(1) u by auto
      note ue = plain_result_entry [OF pr u] and uw = early_whole [OF pr u] and ub = plain_task_bounds [OF pr u]
      have lag: "Lag l \<in> \<int>" "\<bar>Lag l\<bar> \<le> 2 ^ 50" using ue(4) ub(2) l(1) by blast+
      have "0 \<le> LS u" using U uw by simp
      moreover have "LF u \<le> 2 ^ 50" using U(4) pf(3) by simp
      ultimately have eq: "lateCandidate u (LType l) (Lag l) t =
         (if LType l = StartToStart then LS u - Lag l + Duration t
          else if LType l = FinishToFinish then LF u - Lag l
          else if LType l = StartToFinish then LF u - Lag l + Duration t
          else LS u - Lag l)"
        using U lag ue(2,3) e(2,3) b(1) by (intro lateCandidate_exact) (auto simp: abs_if)
      have "linkBound t u l \<le> ES u" using linkBound_le_ES(2) [OF pr u l(1)] l(2) Cons.prems(3) by simp
      then show ?thesis using U uw ew lag e(2) ue(2) unfolding eq linkBound_def by (auto split: if_splits)
    qed
    have LFb: "LF t \<le> projectFinish out" using e(7) latest_le_finish by metis
    have LF: "LF t \<in> \<int> \<and> EF t \<le> LF t"
    proof (cases "LF t = projectFinish out")
      case True
      then show ?thesis using pf Cons.prems(3) by simp
    next
      case False
      then obtain s ty lag u where 1: "(s, ty, lag) \<in> set (successorLinks out k)" "map_of out s = Some u"
          "LF t = lateCandidate u ty lag t"
        using latest_attained [of out "successorLinks out k" "projectFinish out" t] e(7) by metis
      from 1(1) obtain v l where 2: "(s, v) \<in> set out" "l \<in> set (effectiveLinks v)" "Pred l = k"
          "ty = LType l" "lag = Lag l" by (auto simp: successorLinks_iff)
      have "v = u" using 2(1) 1(2) pr unfolding plain_result_def by (metis map_of_eq_Some_iff option.inject)
      with 1 2 cand show ?thesis by metis
    qed
    have "LS t = LF t - Duration t"
      using LF LFb pf(3) e(2,3,8) ew(3,4) b(1) by (simp add: fsub_whole abs_if)
    with LF LFb show ?thesis by simp
  qed
qed simp

lemma late_whole:
  assumes pr: "plain_result order out" and t: "map_of out k = Some t"
  shows "LF t \<in> \<int>" "LS t = LF t - Duration t" "EF t \<le> LF t" "LF t \<le> projectFinish out"
    "Slack t = LS t - ES t" "0 \<le> Slack t" "IsCritical t \<longleftrightarrow> Slack t = 0"
proof -
  have "k \<in> set order" using pr t map_of_is_None_iff [of out k] unfolding plain_result_def by auto
  then show 1: "LF t \<in> \<int>" "LS t = LF t - Duration t" "EF t \<le> LF t" "LF t \<le> projectFinish out"
    using late_whole_suffix [OF pr, of "[]" order k t] t by auto
  note e = plain_result_entry [OF pr t] and w = early_whole [OF pr t]
  show s: "Slack t = LS t - ES t"
    using 1 e(2,3,9) w projectFinish_plain(3) [OF pr] by (simp add: fsub_whole abs_if)
  show n: "0 \<le> Slack t" using s 1 w by simp
  have "Slack t \<in> \<int>" using s 1(1,2) e(2) w(1) by simp
  then obtain n where "Slack t = of_int n" by (auto elim: Ints_cases)
  moreover have "0 < eps" "eps < 1" by code_simp+
  ultimately show "IsCritical t \<longleftrightarrow> Slack t = 0" using n e(10) by auto
qed

subsection \<open>Critical chains\<close>

text \<open>Task \<open>k\<close> starts exactly when a link from task \<open>p\<close> lets it.\<close>

definition tightLink :: "Tasks \<Rightarrow> string \<Rightarrow> string \<Rightarrow> bool" where
  "tightLink out p k = (case (map_of out p, map_of out k) of
     (Some a, Some b) \<Rightarrow> (\<exists>l \<in> set (effectiveLinks b). Pred l = p \<and> ES b = linkBound a b l)
   | _ \<Rightarrow> False)"

definition criticalKey :: "Tasks \<Rightarrow> string \<Rightarrow> bool" where
  "criticalKey out k = (case map_of out k of None \<Rightarrow> False | Some t \<Rightarrow> IsCritical t)"

text \<open>A path of critical tasks, each driving the next, that begins at the project start.\<close>

definition critical_chain :: "Tasks \<Rightarrow> string list \<Rightarrow> bool" where
  "critical_chain out ks \<longleftrightarrow> ks \<noteq> [] \<and> list_all (criticalKey out) ks \<and> successively (tightLink out) ks
     \<and> (case map_of out (hd ks) of None \<Rightarrow> False | Some t \<Rightarrow> ES t = 0)"

lemma critical_pred:
  assumes pr: "plain_result order out" and t: "map_of out k = Some t" and c: "IsCritical t" and pos: "ES t \<noteq> 0"
  obtains l p where "l \<in> set (effectiveLinks t)" "map_of out (Pred l) = Some p" "IsCritical p" "ES t = linkBound p t l"
proof -
  note e = plain_result_entry [OF pr t] and w = early_whole [OF pr t] and b = plain_task_bounds [OF pr t]
    and z = late_whole [OF pr t]
  obtain l p where l: "l \<in> set (effectiveLinks t)" and p: "map_of out (Pred l) = Some p"
    and c1: "ES t = linkCandidate p t l"
    using earliest_attained [of out 0 t] pos e(5) by auto
  have tight: "ES t = linkBound p t l" using c1 linkBound_le_ES(1) [OF pr t l p] by simp
  note pe = plain_result_entry [OF pr p] and pw = early_whole [OF pr p] and pb = plain_task_bounds [OF pr p]
    and pz = late_whole [OF pr p]
  have eq: "lateCandidate t (LType l) (Lag l) p =
       (if LType l = StartToStart then LS t - Lag l + Duration p
        else if LType l = FinishToFinish then LF t - Lag l
        else if LType l = StartToFinish then LF t - Lag l + Duration p
        else LS t - Lag l)"
  proof (rule lateCandidate_exact)
    show "LS t \<in> \<int>" "LF t \<in> \<int>" "Lag l \<in> \<int>" "Duration p \<in> \<int>" using z(1,2) e(2,4) pe(2) l by simp_all
    show "\<bar>LS t\<bar> \<le> 2 ^ 51" "\<bar>LF t\<bar> \<le> 2 ^ 51"
      using z(2,3,4) w(2,3) e(3) projectFinish_plain(3) [OF pr] by simp_all
    show "\<bar>Lag l\<bar> \<le> 2 ^ 51" using b(2) [OF l] by simp
    show "\<bar>Duration p\<bar> \<le> 2 ^ 51" using pe(3) pb(1) by simp
  qed
  have "(k, LType l, Lag l) \<in> set (successorLinks out (Pred l))"
    using p l t by (auto simp: successorLinks_iff dest: map_of_SomeD)
  then have "LF p \<le> lateCandidate t (LType l) (Lag l) p"
    using latest_le_candidate [OF _ t] pe(7) by simp
  moreover have "LS t = ES t" "LF t = EF t" using c z(2,5,7) w(2) by simp_all
  ultimately have "LF p \<le> EF p"
    using tight w(2) pw(2) unfolding eq linkBound_def by (auto split: if_splits)
  then have "IsCritical p" using pz pw(2) by simp
  with l p tight show thesis by (rule_tac that)
qed

lemma critical_chain_to:
  assumes pr: "plain_result order out"
  shows "order = xs @ ys \<Longrightarrow> k \<in> set xs \<Longrightarrow> map_of out k = Some t \<Longrightarrow> IsCritical t \<Longrightarrow>
    \<exists>ks. critical_chain out ks \<and> last ks = k"
proof (induction xs arbitrary: ys k t rule: rev_induct)
  case (snoc x xs)
  show ?case
  proof (cases "k \<in> set xs")
    case True
    then show ?thesis using snoc.IH [of "x # ys" k t] snoc.prems by simp
  next
    case False
    with snoc.prems have kx: "k = x" by simp
    show ?thesis
    proof (cases "ES t = 0")
      case True
      then show ?thesis using snoc.prems(3,4)
        by (intro exI [of _ "[k]"]) (simp add: critical_chain_def criticalKey_def)
    next
      case False
      obtain l p where l: "l \<in> set (effectiveLinks t)" "map_of out (Pred l) = Some p" "IsCritical p" "ES t = linkBound p t l"
        by (rule critical_pred [OF pr snoc.prems(3,4) False])
      have "Pred l \<in> set xs" using pr l snoc.prems kx unfolding plain_result_def by auto
      then obtain ks where ks: "critical_chain out ks" "last ks = Pred l"
        using snoc.IH [of "x # ys" "Pred l" p] snoc.prems(1) l by auto
      have "tightLink out (last ks) k" using ks(2) l snoc.prems(3) by (auto simp: tightLink_def)
      then show ?thesis using ks(1) snoc.prems(3,4)
        by (intro exI [of _ "ks @ [k]"])
          (auto simp: critical_chain_def criticalKey_def successively_append_iff)
    qed
  qed
qed simp

subsection \<open>Property\<close>


definition diamond_tasks :: Tasks where
  "diamond_tasks =
    [(''a'', zeroTask\<lparr>ID := ''a'', Duration := 2\<rparr>),
     (''b'', zeroTask\<lparr>ID := ''b'', Duration := 3, Links := [\<lparr>Pred = ''a'', LType = StartToStart, Lag = 1\<rparr>]\<rparr>),
     (''c'', zeroTask\<lparr>ID := ''c'', Duration := 1, Precedents := [''a'']\<rparr>),
     (''d'', zeroTask\<lparr>ID := ''d'', Duration := 4, Precedents := [''b'', ''c'']\<rparr>)]"


end
