(* ===== verification/Money.thy ===== *)
theory Money
  imports Float64
begin

text \<open>
  Exact monetary arithmetic: \<^verbatim>\<open>internal/money/money.go\<close>. An amount is a signed
  number of minor units, an \<^verbatim>\<open>int64\<close>; sums and rate-times-quantity products are
  computed over \<^verbatim>\<open>big.Int\<close> and \<^verbatim>\<open>big.Rat\<close> (here \<^typ>\<open>int\<close> and
  \<^typ>\<open>rat\<close>) and checked or saturated once at the end. The lemmas show the decimal
  round trip, that the parser accepts canonical spellings only, that rounding is half away
  from zero, and that totals do not depend on the order of their terms.
\<close>

record Amount =
  MinorUnits :: int

definition MinorUnitsPerMajor :: int where "MinorUnitsPerMajor = 100"

datatype money_error =
    AmountRequired
  | SurroundingWhitespace
  | NotTwoDecimals
  | LeadingZeroes
  | NotANumber
  | NegativeZero
  | ErrOverflow

text \<open>The type invariant: what \<^verbatim>\<open>Amount.MinorUnits int64\<close> can hold.\<close>

definition Amount_ok :: "Amount \<Rightarrow> bool" where
  "Amount_ok a \<longleftrightarrow> is_int64 (MinorUnits a)"

subsection \<open>Decimal text\<close>

text \<open>\<^verbatim>\<open>strings.Split(v, ".")\<close>: the parts between the separators, at least one.\<close>

fun split_on :: "char \<Rightarrow> string \<Rightarrow> string list" where
  "split_on c [] = [[]]"
| "split_on c (x # xs) =
     (if x = c then [] # split_on c xs
      else (case split_on c xs of [] \<Rightarrow> [[x]] | p # ps \<Rightarrow> (x # p) # ps))"

definition ParseDecimal :: "string \<Rightarrow> money_error + Amount" where
  "ParseDecimal v0 =
     (if v0 = [] then Inl AmountRequired
      else if TrimSpace v0 \<noteq> v0 then Inl SurroundingWhitespace
      else
        (let negative = has_prefix v0 ''-'';
             v = (if negative then drop 1 v0 else v0);
             parts = split_on (CHR ''.'') v;
             p0 = parts ! 0
         in if length parts > 2 \<or> p0 = [] \<or> (length parts = 2 \<and> (parts ! 1 = [] \<or> length (parts ! 1) > 2))
            then Inl NotTwoDecimals
            else if length p0 > 1 \<and> p0 ! 0 = CHR ''0'' then Inl LeadingZeroes
            else
              (case ParseUint64 p0 of None \<Rightarrow> Inl NotANumber
               | Some whole \<Rightarrow>
                 (case (if length parts = 2
                        then ParseUint64 (if length (parts ! 1) = 1 then parts ! 1 @ ''0'' else parts ! 1)
                        else Some 0)
                  of None \<Rightarrow> Inl NotANumber
                  | Some fraction \<Rightarrow>
                    (let limit = (if negative then 2 ^ 63 - 1 + 1 else 2 ^ 63 - 1 :: uint64) in
                     if whole > (limit - fraction) div 100 then Inl ErrOverflow
                     else
                       (let minor = whole * 100 + fraction in
                        if minor = 0 \<and> negative then Inl NegativeZero
                        else if negative then
                          (if minor = 2 ^ 63 - 1 + 1 then Inr \<lparr>MinorUnits = MinInt64\<rparr>
                           else Inr \<lparr>MinorUnits = wrap_int64 (- sint minor)\<rparr>)
                        else Inr \<lparr>MinorUnits = sint minor\<rparr>))))))"

text \<open>The verb \<^verbatim>\<open>%02d\<close> on a non-negative number.\<close>

definition pad2 :: "nat \<Rightarrow> string" where
  "pad2 n = (if n < 10 then CHR ''0'' # format_nat n else format_nat n)"

definition Decimal :: "Amount \<Rightarrow> string" where
  "Decimal a =
     (let n = MinorUnits a in
      if n < 0
      then ''-'' @ FormatInt (- (n sdiv MinorUnitsPerMajor)) @ ''.'' @ pad2 (nat (- (n smod MinorUnitsPerMajor)))
      else FormatInt (n sdiv MinorUnitsPerMajor) @ ''.'' @ pad2 (nat (n smod MinorUnitsPerMajor)))"

text \<open>\<^verbatim>\<open>strings.EqualFold\<close> against \<^verbatim>\<open>"JPY"\<close>: J, P and Y fold with their ASCII lower case only.\<close>

definition WholeUnitCurrency :: "string \<Rightarrow> bool" where
  "WholeUnitCurrency code \<longleftrightarrow> ToUpper (TrimSpace code) = ''JPY''"

definition DecimalFor :: "Amount \<Rightarrow> string \<Rightarrow> string" where
  "DecimalFor a currency =
     (if WholeUnitCurrency currency \<and> MinorUnits a smod MinorUnitsPerMajor = 0
      then FormatInt (MinorUnits a sdiv MinorUnitsPerMajor)
      else Decimal a)"

subsection \<open>Floating-point boundary\<close>

definition FromMajorFloat :: "float64 \<Rightarrow> Amount" where
  "FromMajorFloat v =
     (let scaled = math_Round (fmul v (float_of_int MinorUnitsPerMajor)) in
      if float_of_int MaxInt64 \<le> of_int scaled then \<lparr>MinorUnits = MaxInt64\<rparr>
      else if of_int scaled \<le> float_of_int MinInt64 then \<lparr>MinorUnits = MinInt64\<rparr>
      else \<lparr>MinorUnits = scaled\<rparr>)"

definition MajorFloat :: "Amount \<Rightarrow> float64" where
  "MajorFloat a = fdiv (float_of_int (MinorUnits a)) (float_of_int MinorUnitsPerMajor)"

definition Positive :: "Amount \<Rightarrow> bool" where
  "Positive a \<longleftrightarrow> MinorUnits a > 0"

subsection \<open>Exact totals\<close>

record Accumulator =
  acc_total :: int

definition newAccumulator :: Accumulator where
  "newAccumulator = \<lparr>acc_total = 0\<rparr>"

definition Accumulator_Add :: "Accumulator \<Rightarrow> Amount \<Rightarrow> Accumulator" where
  "Accumulator_Add acc a = acc\<lparr>acc_total := acc_total acc + MinorUnits a\<rparr>"

definition Accumulator_Sub :: "Accumulator \<Rightarrow> Amount \<Rightarrow> Accumulator" where
  "Accumulator_Sub acc a = acc\<lparr>acc_total := acc_total acc - MinorUnits a\<rparr>"

definition amountFromBigInt :: "int \<Rightarrow> money_error + Amount" where
  "amountFromBigInt value = (if \<not> is_int64 value then Inl ErrOverflow else Inr \<lparr>MinorUnits = value\<rparr>)"

definition Accumulator_Amount :: "Accumulator \<Rightarrow> money_error + Amount" where
  "Accumulator_Amount acc = amountFromBigInt (acc_total acc)"

definition Amount_Add :: "Amount \<Rightarrow> Amount \<Rightarrow> money_error + Amount" where
  "Amount_Add a b = Accumulator_Amount (Accumulator_Add (Accumulator_Add newAccumulator a) b)"

definition Amount_Sub :: "Amount \<Rightarrow> Amount \<Rightarrow> money_error + Amount" where
  "Amount_Sub a b = Accumulator_Amount (Accumulator_Sub (Accumulator_Add newAccumulator a) b)"

subsection \<open>Products and rounding\<close>

definition roundedRat :: "rat \<Rightarrow> int" where
  "roundedRat r =
     (case quotient_of r of (n, d) \<Rightarrow>
        (let q = n sdiv d; rm = n smod d in
         if rm = 0 then q
         else if \<bar>rm\<bar> * 2 \<ge> d then (if r \<ge> 0 then q + 1 else q - 1)
         else q))"

definition saturatingInt64 :: "int \<Rightarrow> int" where
  "saturatingInt64 q =
     (if \<not> is_int64 q then (if q < 0 then MinInt64 else MaxInt64) else q)"

definition roundRat :: "rat \<Rightarrow> int" where
  "roundRat r = saturatingInt64 (roundedRat r)"

definition RateTimesQuantity :: "Amount \<Rightarrow> float64 \<Rightarrow> Amount" where
  "RateTimesQuantity rate quantity =
     (if MinorUnits rate = 0 \<or> quantity \<le> 0 then \<lparr>MinorUnits = 0\<rparr>
      else \<lparr>MinorUnits = roundRat (of_int (MinorUnits rate) * quantity)\<rparr>)"

definition ScaleByRatioChecked :: "Amount \<Rightarrow> int \<Rightarrow> int \<Rightarrow> money_error + Amount" where
  "ScaleByRatioChecked amount numerator denominator =
     (if MinorUnits amount = 0 \<or> numerator = 0 \<or> denominator = 0 then Inr \<lparr>MinorUnits = 0\<rparr>
      else amountFromBigInt
             (roundedRat (of_int (MinorUnits amount) * (of_int numerator / of_int denominator))))"

subsection \<open>Decimal text: lemmas\<close>

lemma split_on_nonempty [simp]: "split_on c s \<noteq> []"
  by (induction s) (auto split: list.splits)

lemma split_on_none: "c \<notin> set p \<Longrightarrow> split_on c p = [p]"
  by (induction p) auto

lemma split_on_first: "c \<notin> set p \<Longrightarrow> split_on c (p @ c # r) = p # split_on c r"
  by (induction p) auto

lemma split_on_Join: "Join (split_on c s) [c] = s"
proof (induction s)
  case (Cons x s)
  show ?case
    using Cons by (cases "split_on c s"; cases "tl (split_on c s)") (auto split: list.splits)
qed simp

lemma digits_no_sep: "list_all is_digit p \<Longrightarrow> \<not> is_digit c \<Longrightarrow> c \<notin> set p"
  by (auto simp: list_all_iff)

lemma not_digit_seps [simp]: "\<not> is_digit (CHR ''.'')" "\<not> is_digit (CHR ''-'')"
  by (simp_all add: is_digit_def)

text \<open>What the parser returns once the digits are read: the specification over \<^typ>\<open>nat\<close>.\<close>

definition decimal_result :: "bool \<Rightarrow> nat \<Rightarrow> nat \<Rightarrow> money_error + Amount" where
  "decimal_result negative whole fraction =
     (let m = 100 * whole + fraction in
      if m > (if negative then 2 ^ 63 else 2 ^ 63 - 1) then Inl ErrOverflow
      else if m = 0 \<and> negative then Inl NegativeZero
      else Inr \<lparr>MinorUnits = (if negative then - int m else int m)\<rparr>)"

lemma over_limit_iff:
  assumes "W < 2 ^ 64" and "F < 100" and "99 \<le> L" and "L < 2 ^ 64"
  shows "(of_nat W :: uint64) > (of_nat L - of_nat F) div 100 \<longleftrightarrow> L < 100 * W + F"
proof -
  have "unat ((of_nat L :: uint64) - of_nat F) = L - F"
    using assms by (subst unat_sub) (simp_all add: unat_of_nat_uint64 word_le_nat_alt)
  then have "unat (((of_nat L :: uint64) - of_nat F) div 100) = (L - F) div 100"
    by (simp add: unat_div)
  then show ?thesis using assms by (simp add: word_less_nat_alt unat_of_nat_uint64) linarith
qed

lemma word_tail:
  assumes W: "W < 2 ^ 64" and F: "F < 100"
  shows "(let limit = (if negative then 2 ^ 63 - 1 + 1 else 2 ^ 63 - 1 :: uint64);
              whole = of_nat W; fraction = of_nat F in
          if whole > (limit - fraction) div 100 then Inl ErrOverflow
          else (let minor = whole * 100 + fraction in
                if minor = 0 \<and> negative then Inl NegativeZero
                else if negative then
                  (if minor = 2 ^ 63 - 1 + 1 then Inr \<lparr>MinorUnits = MinInt64\<rparr>
                   else Inr \<lparr>MinorUnits = wrap_int64 (- sint minor)\<rparr>)
                else Inr \<lparr>MinorUnits = sint minor\<rparr>))
         = decimal_result negative W F"
proof -
  define m where "m = 100 * W + F"
  have lim: "(2 ^ 63 - 1 + 1 :: uint64) = of_nat (2 ^ 63)" "(2 ^ 63 - 1 :: uint64) = of_nat (2 ^ 63 - 1)"
    by simp_all
  have minor: "(of_nat W :: uint64) * 100 + of_nat F = of_nat m"
    by (simp add: m_def mult.commute)
  note cmp = of_nat_uint64_eq_iff [of m]
  have over: "(of_nat W :: uint64) > (of_nat L - of_nat F) div 100 \<longleftrightarrow> L < m"
    if "99 \<le> L" "L < 2 ^ 64" for L using over_limit_iff [OF W F that] by (simp add: m_def)
  show ?thesis
  proof (cases negative)
    case True
    consider "2 ^ 63 < m" | "m = 2 ^ 63" | "m = 0" | "0 < m" "m < 2 ^ 63" by linarith
    then show ?thesis
    proof cases
      case 1
      with True over [of "2 ^ 63"] show ?thesis
        by (simp add: lim decimal_result_def Let_def flip: m_def)
    next
      case 2
      with True over [of "2 ^ 63"] cmp [of 0] cmp [of "2 ^ 63"] show ?thesis
        by (simp add: lim decimal_result_def Let_def minor MinInt64_def flip: m_def)
    next
      case 3
      with True over [of "2 ^ 63"] show ?thesis
        by (simp add: lim decimal_result_def Let_def minor flip: m_def)
    next
      case 4
      then have "is_int64 (- int m)" by (simp add: is_int64_def MinInt64_def MaxInt64_def)
      with 4 True over [of "2 ^ 63"] cmp [of 0] cmp [of "2 ^ 63"] show ?thesis
        by (simp add: lim decimal_result_def Let_def minor sint_of_nat_uint64 wrap_int64_id flip: m_def)
    qed
  next
    case False
    then show ?thesis
      using over [of "2 ^ 63 - 1"]
      by (auto simp: lim decimal_result_def Let_def minor sint_of_nat_uint64 simp flip: m_def)
  qed
qed

text \<open>The text of an amount of \<open>W\<close> major and \<open>F\<close> minor units.\<close>

lemma Decimal_form:
  assumes "F < 100" and "negative \<Longrightarrow> 0 < 100 * W + F"
  shows "Decimal \<lparr>MinorUnits = (if negative then - int (100 * W + F) else int (100 * W + F))\<rparr>
       = (if negative then ''-'' else []) @ format_nat W @ ''.'' @ pad2 F"
proof -
  define m where "m = 100 * W + F"
  have q: "int m sdiv 100 = int W" and r: "int m smod 100 = int F"
    using assms(1) by (auto simp: m_def signed_divide_int_def signed_modulo_int_def sgn_if)
  show ?thesis
  proof (cases negative)
    case True
    with assms(2) have "0 < m" by (simp add: m_def)
    with True q r show ?thesis
      by (simp add: Decimal_def Let_def MinorUnitsPerMajor_def FormatInt_def flip: m_def)
  next
    case False
    with q r show ?thesis
      by (simp add: Decimal_def Let_def MinorUnitsPerMajor_def FormatInt_def flip: m_def)
  qed
qed

lemma pad2_digits: "F < 100 \<Longrightarrow> list_all is_digit (pad2 F) \<and> length (pad2 F) = 2 \<and> parse_nat (pad2 F) = F"
proof -
  assume F: "F < 100"
  have one: "format_nat n = [digit_char n]" if "n < 10" for n
    using that by (subst format_nat.simps) simp
  have "format_nat F = [digit_char (F div 10), digit_char (F mod 10)]" if "\<not> F < 10"
    using that F by (subst format_nat.simps) (simp add: one)
  moreover have "parse_nat [c, d] = 10 * digit_val c + digit_val d" for c d
    by (simp add: parse_nat_def)
  moreover have "is_digit (CHR ''0'')" "digit_val (CHR ''0'') = 0"
    by (simp_all add: is_digit_def digit_val_def)
  ultimately show ?thesis using F by (simp add: pad2_def one)
qed

lemma pad2_parse: "is_digit c \<Longrightarrow> is_digit d \<Longrightarrow> pad2 (parse_nat [c, d]) = [c, d]"
proof -
  assume c: "is_digit c" and d: "is_digit d"
  have p: "parse_nat [c, d] = 10 * digit_val c + digit_val d" by (simp add: parse_nat_def)
  have one: "format_nat n = [digit_char n]" if "n < 10" for n
    using that by (subst format_nat.simps) simp
  show ?thesis
  proof (cases "digit_val c = 0")
    case True
    with c have "c = CHR ''0''" by (simp add: digit_val_0_iff)
    moreover from True have "parse_nat [c, d] = digit_val d" by (simp add: p)
    ultimately show ?thesis using d by (simp add: pad2_def one)
  next
    case False
    then show ?thesis using c d
      by (simp add: p pad2_def) (subst format_nat.simps, simp add: one)
  qed
qed

text \<open>The parser on the text of its own digits.\<close>

lemma ParseDecimal_digits:
  assumes "canonical_digits p" and "list_all is_digit f" and "length f = 2" and "parse_nat p < 2 ^ 64"
  shows "ParseDecimal ((if negative then ''-'' else []) @ p @ ''.'' @ f)
       = decimal_result negative (parse_nat p) (parse_nat f)"
proof -
  let ?v = "(if negative then ''-'' else []) @ p @ ''.'' @ f"
  from assms(1) have p: "p \<noteq> []" "list_all is_digit p" "length p > 1 \<longrightarrow> p ! 0 \<noteq> CHR ''0''"
    by (auto simp: canonical_digits_def)
  from p(1,2) have hd_p: "is_digit (hd p)" by (cases p) auto
  then have hd_p': "hd p \<noteq> CHR ''-''" by (metis not_digit_seps(2))
  from assms(2,3) have f: "f \<noteq> []" by auto
  with assms(2) have "is_digit (last f)" by (simp add: list_all_iff)
  note f = f this
  have trim: "TrimSpace ?v = ?v"
    using p f hd_p by (intro TrimSpace_token) (auto simp: digit_is_token)
  have sp: "split_on (CHR ''.'') (p @ CHR ''.'' # f) = [p, f]"
    using p(2) assms(2) by (simp add: split_on_first split_on_none digits_no_sep)
  have up: "ParseUint64 p = Some (of_nat (parse_nat p))"
    using p assms(4) by (simp add: ParseUint64_def)
  have f100: "parse_nat f < 100"
    using assms(2,3) by (auto simp: parse_nat_def length_Suc_conv numeral_2_eq_2 dest!: digit_val_less)
  then have uf: "ParseUint64 f = Some (of_nat (parse_nat f))"
    using assms f by (simp add: ParseUint64_def)
  have neg: "has_prefix ?v ''-'' = negative" "(if negative then drop 1 ?v else ?v) = p @ CHR ''.'' # f"
    using p(1) hd_p' by (cases p; auto simp: has_prefix_def)+
  have "ParseDecimal ?v =
    (let limit = (if negative then 2 ^ 63 - 1 + 1 else 2 ^ 63 - 1 :: uint64);
              whole = of_nat (parse_nat p); fraction = of_nat (parse_nat f) in
          if whole > (limit - fraction) div 100 then Inl ErrOverflow
          else (let minor = whole * 100 + fraction in
                if minor = 0 \<and> negative then Inl NegativeZero
                else if negative then
                  (if minor = 2 ^ 63 - 1 + 1 then Inr \<lparr>MinorUnits = MinInt64\<rparr>
                   else Inr \<lparr>MinorUnits = wrap_int64 (- sint minor)\<rparr>)
                else Inr \<lparr>MinorUnits = sint minor\<rparr>))"
    using p assms(3) f(1) unfolding ParseDecimal_def trim neg Let_def sp by (simp add: up uf)
  then show ?thesis by (simp only: word_tail [OF assms(4) f100])
qed

lemma Amount_decimal_cases:
  assumes "Amount_ok a"
  obtains W F negative where "F < 100" "negative \<longrightarrow> 0 < 100 * W + F"
    "a = \<lparr>MinorUnits = (if negative then - int (100 * W + F) else int (100 * W + F))\<rparr>"
    "100 * W + F \<le> (if negative then 2 ^ 63 else 2 ^ 63 - 1)"
proof (rule that)
  define n where "n = nat \<bar>MinorUnits a\<bar>"
  show "n mod 100 < 100" by simp
  have m: "100 * (n div 100) + n mod 100 = n" by simp
  show "MinorUnits a < 0 \<longrightarrow> 0 < 100 * (n div 100) + n mod 100" unfolding m n_def by simp
  show "a = \<lparr>MinorUnits = (if MinorUnits a < 0 then - int (100 * (n div 100) + n mod 100)
            else int (100 * (n div 100) + n mod 100))\<rparr>"
    unfolding m n_def by (cases a) simp
  show "100 * (n div 100) + n mod 100 \<le> (if MinorUnits a < 0 then 2 ^ 63 else 2 ^ 63 - 1)"
    unfolding m n_def using assms
    by (auto simp: Amount_ok_def is_int64_def MinInt64_def MaxInt64_def)
qed

lemma ParseDecimal_of_Decimal:
  assumes "Amount_ok a"
  shows "ParseDecimal (Decimal a) = Inr a"
proof -
  from assms obtain W F negative where 1: "F < 100" "negative \<longrightarrow> 0 < 100 * W + F"
    "a = \<lparr>MinorUnits = (if negative then - int (100 * W + F) else int (100 * W + F))\<rparr>"
    and 2: "100 * W + F \<le> (if negative then 2 ^ 63 else 2 ^ 63 - 1)"
    by (rule Amount_decimal_cases)
  have W: "W < 2 ^ 64" using 2 by (auto split: if_splits)
  have "ParseDecimal (Decimal a)
      = ParseDecimal ((if negative then ''-'' else []) @ format_nat W @ ''.'' @ pad2 F)"
    using 1 Decimal_form [of F negative W] by simp
  also have "\<dots> = decimal_result negative W F"
    using W ParseDecimal_digits [OF canonical_format_nat, of "pad2 F" W negative] pad2_digits [OF 1(1)] by simp
  also have "\<dots> = Inr a" using 1 2 by (auto simp: decimal_result_def Let_def)
  finally show ?thesis .
qed

text \<open>Every text the parser accepts is the canonical text, or that text without trailing zeroes.\<close>

lemma ParseDecimal_parts:
  assumes "ParseDecimal s = Inr a"
  obtains negative p f where "canonical_digits p" "list_all is_digit f" "length f = 2"
    "parse_nat p < 2 ^ 64" "decimal_result negative (parse_nat p) (parse_nat f) = Inr a"
    "\<exists>suffix \<in> {[], ''0'', ''.00''}. s @ suffix = (if negative then ''-'' else []) @ p @ ''.'' @ f"
proof -
  define negative where "negative = has_prefix s ''-''"
  define v where "v = (if negative then drop 1 s else s)"
  define parts where "parts = split_on (CHR ''.'') v"
  define f where "f = (if length parts = 2 then (if length (parts ! 1) = 1 then parts ! 1 @ ''0'' else parts ! 1) else ''00'')"
  have s: "s = (if negative then ''-'' else []) @ v"
    by (cases s) (auto simp: negative_def v_def has_prefix_def)
  have ne: "s \<noteq> []" and tr: "TrimSpace s = s"
    using assms by (auto simp: ParseDecimal_def split: if_splits)
  have j: "Join parts ''.'' = v" by (simp add: parts_def split_on_Join)
  note ok = assms [unfolded ParseDecimal_def Let_def, folded negative_def, folded v_def, folded parts_def]
  have guards: "\<not> (length parts > 2 \<or> parts ! 0 = [] \<or> (length parts = 2 \<and> (parts ! 1 = [] \<or> length (parts ! 1) > 2)))"
    "\<not> (length (parts ! 0) > 1 \<and> parts ! 0 ! 0 = CHR ''0'')"
    using ok ne tr by (auto split: if_splits)
  have "ParseUint64 ''00'' = Some 0" by (simp add: ParseUint64_def is_digit_def parse_nat_def digit_val_def)
  then have frac_eq: "(if length parts = 2
          then ParseUint64 (if length (parts ! 1) = 1 then parts ! 1 @ ''0'' else parts ! 1)
          else Some 0) = ParseUint64 f" by (simp add: f_def)
  obtain W where W: "ParseUint64 (parts ! 0) = Some W" using ok ne tr guards by (auto split: option.splits)
  obtain F where F: "ParseUint64 f = Some F"
    using ok ne tr guards W unfolding frac_eq by (auto split: option.splits)
  have pl: "length parts = 1 \<or> length parts = 2"
    using guards(1) split_on_nonempty [of "CHR ''.''" v]
    by (metis One_nat_def Suc_lessI length_greater_0_conv not_less_eq numeral_2_eq_2 parts_def)
  have f2: "length f = 2" using guards(1) pl
    by (auto simp: f_def) (metis One_nat_def Suc_lessI length_greater_0_conv numeral_2_eq_2)
  have Wn: "W = of_nat (parse_nat (parts ! 0))" "parse_nat (parts ! 0) < 2 ^ 64"
    and Fn: "F = of_nat (parse_nat f)" using W F by (auto simp: ParseUint64_def split: if_splits)
  have fd: "list_all is_digit f" and pd: "canonical_digits (parts ! 0)"
    using ParseUint64_SomeD [OF F] ParseUint64_SomeD [OF W] guards by (auto simp: canonical_digits_def)
  have f100: "parse_nat f < 100"
    using fd f2 by (auto simp: parse_nat_def length_Suc_conv numeral_2_eq_2 dest!: digit_val_less)
  have tr': "\<not> TrimSpace s \<noteq> s" using tr by simp
  note ok' = ok [unfolded frac_eq if_not_P [OF ne] if_not_P [OF tr'] if_not_P [OF guards(1)]
    if_not_P [OF guards(2)] W F option.case]
  have res: "decimal_result negative (parse_nat (parts ! 0)) (parse_nat f) = Inr a"
    unfolding word_tail [OF Wn(2) f100, of negative, unfolded Let_def, symmetric]
    using ok' by (simp only: Wn(1) [symmetric] Fn [symmetric])
  have "\<exists>suffix \<in> {[], ''0'', ''.00''}. v @ suffix = parts ! 0 @ ''.'' @ f"
    using pl j by (auto simp: f_def length_Suc_conv numeral_2_eq_2)
  then have "\<exists>suffix \<in> {[], ''0'', ''.00''}. s @ suffix = (if negative then ''-'' else []) @ parts ! 0 @ ''.'' @ f"
    by (subst s) auto
  with that [OF pd fd f2 Wn(2) res] show ?thesis by blast
qed

lemma ParseDecimal_canonical_text:
  assumes "ParseDecimal s = Inr a"
  shows "Amount_ok a \<and> (\<exists>suffix \<in> {[], ''0'', ''.00''}. s @ suffix = Decimal a)"
proof -
  from assms obtain negative p f where 1: "canonical_digits p" "list_all is_digit f" "length f = 2"
      "decimal_result negative (parse_nat p) (parse_nat f) = Inr a"
    and 2: "\<exists>suffix \<in> {[], ''0'', ''.00''}. s @ suffix = (if negative then ''-'' else []) @ p @ ''.'' @ f"
    by (rule ParseDecimal_parts)
  from 1(2,3) obtain c d where f: "f = [c, d]" "is_digit c" "is_digit d"
    by (auto simp: length_Suc_conv numeral_2_eq_2)
  then have f100: "parse_nat f < 100"
    by (auto simp: parse_nat_def dest!: digit_val_less)
  have a: "a = \<lparr>MinorUnits = (if negative then - int (100 * parse_nat p + parse_nat f) else int (100 * parse_nat p + parse_nat f))\<rparr>"
    and r: "Amount_ok a" "negative \<Longrightarrow> 0 < 100 * parse_nat p + parse_nat f"
    using 1(4) by (auto simp: decimal_result_def Let_def Amount_ok_def is_int64_def MinInt64_def MaxInt64_def split: if_splits)
  have "Decimal a = (if negative then ''-'' else []) @ p @ ''.'' @ f"
    using Decimal_form [OF f100 r(2)] f by (simp only: a format_parse_nat [OF 1(1)] pad2_parse)
  with 2 r show ?thesis by simp
qed

text \<open>The parser on a whole number, and the whole-unit text of an amount.\<close>

lemma ParseDecimal_whole:
  assumes "canonical_digits p" and "parse_nat p < 2 ^ 64"
  shows "ParseDecimal ((if negative then ''-'' else []) @ p) = decimal_result negative (parse_nat p) 0"
proof -
  let ?v = "(if negative then ''-'' else []) @ p"
  from assms(1) have p: "p \<noteq> []" "list_all is_digit p" "length p > 1 \<longrightarrow> p ! 0 \<noteq> CHR ''0''"
    by (auto simp: canonical_digits_def)
  from p(1,2) have hd_p: "is_digit (hd p)" "is_digit (last p)" by (auto simp: list_all_iff)
  then have hd_p': "hd p \<noteq> CHR ''-''" by (metis not_digit_seps(2))
  have trim: "TrimSpace ?v = ?v" using p hd_p by (intro TrimSpace_token) (auto simp: digit_is_token)
  have sp: "split_on (CHR ''.'') p = [p]" using p(2) by (simp add: split_on_none digits_no_sep)
  have up: "ParseUint64 p = Some (of_nat (parse_nat p))" using p assms(2) by (simp add: ParseUint64_def)
  have neg: "has_prefix ?v ''-'' = negative" "(if negative then drop 1 ?v else ?v) = p"
    using p(1) hd_p' by (cases p; auto simp: has_prefix_def)+
  have "ParseDecimal ?v =
    (let limit = (if negative then 2 ^ 63 - 1 + 1 else 2 ^ 63 - 1 :: uint64);
              whole = of_nat (parse_nat p); fraction = of_nat 0 in
          if whole > (limit - fraction) div 100 then Inl ErrOverflow
          else (let minor = whole * 100 + fraction in
                if minor = 0 \<and> negative then Inl NegativeZero
                else if negative then
                  (if minor = 2 ^ 63 - 1 + 1 then Inr \<lparr>MinorUnits = MinInt64\<rparr>
                   else Inr \<lparr>MinorUnits = wrap_int64 (- sint minor)\<rparr>)
                else Inr \<lparr>MinorUnits = sint minor\<rparr>))"
    using p unfolding ParseDecimal_def trim neg Let_def sp by (simp add: up)
  also have "\<dots> = decimal_result negative (parse_nat p) 0" by (rule word_tail [OF assms(2)]) simp
  finally show ?thesis .
qed

lemma FormatInt_whole:
  assumes "F < 100" and "negative \<longrightarrow> 0 < 100 * W + F"
    and "(if negative then - int (100 * W + F) else int (100 * W + F)) smod MinorUnitsPerMajor = 0"
  shows "F = 0 \<and> FormatInt ((if negative then - int (100 * W + F) else int (100 * W + F)) sdiv MinorUnitsPerMajor)
    = (if negative then ''-'' else []) @ format_nat W"
proof -
  define m where "m = 100 * W + F"
  have q: "int m sdiv 100 = int W" "(- int m) sdiv 100 = - int W" and r: "int m smod 100 = int F" "(- int m) smod 100 = - int F"
    using assms(1) by (auto simp: m_def signed_divide_int_def signed_modulo_int_def sgn_if)
  have F: "F = 0" using assms(3) r by (auto simp: MinorUnitsPerMajor_def simp flip: m_def split: if_splits)
  with assms(2) have "negative \<Longrightarrow> 0 < W" by simp
  then have "FormatInt ((if negative then - int m else int m) sdiv 100) = (if negative then ''-'' else []) @ format_nat W"
    using q by (simp add: FormatInt_def)
  then show ?thesis using F by (simp only: m_def MinorUnitsPerMajor_def)
qed

lemma ParseDecimal_DecimalFor:
  assumes "Amount_ok a"
  shows "ParseDecimal (DecimalFor a currency) = Inr a"
proof (cases "WholeUnitCurrency currency \<and> MinorUnits a smod MinorUnitsPerMajor = 0")
  case True
  from assms obtain W F negative where 1: "F < 100" "negative \<longrightarrow> 0 < 100 * W + F"
    "a = \<lparr>MinorUnits = (if negative then - int (100 * W + F) else int (100 * W + F))\<rparr>"
    and 2: "100 * W + F \<le> (if negative then 2 ^ 63 else 2 ^ 63 - 1)"
    by (rule Amount_decimal_cases)
  have W: "W < 2 ^ 64" using 2 by (auto split: if_splits)
  have "MinorUnits a = (if negative then - int (100 * W + F) else int (100 * W + F))" using 1(3) by simp
  with FormatInt_whole [OF 1(1,2)] True
  have F: "F = 0" and shown: "DecimalFor a currency = (if negative then ''-'' else []) @ format_nat W" by (simp_all add: DecimalFor_def)
  have "ParseDecimal (DecimalFor a currency) = decimal_result negative W 0"
    unfolding shown using W ParseDecimal_whole [OF canonical_format_nat, of W negative] by simp
  also have "\<dots> = Inr a" using 1 2 F by (auto simp: decimal_result_def Let_def)
  finally show ?thesis .
next
  case False
  then show ?thesis using ParseDecimal_of_Decimal [OF assms] by (auto simp: DecimalFor_def)
qed

subsection \<open>Rounding: lemmas\<close>

lemma roundedRat_nonneg:
  assumes "0 \<le> r"
  shows "roundedRat r = \<lfloor>r + 1 / 2\<rfloor>"
proof -
  obtain n d where nd: "quotient_of r = (n, d)" by (cases "quotient_of r")
  have d: "0 < d" and r: "r = of_int n / of_int d"
    using nd quotient_of_denom_pos quotient_of_div by blast+
  with assms have n: "0 \<le> n" by (simp add: zero_le_divide_iff)
  define q m where "q = n div d" and "m = n mod d"
  have dm: "n = q * d + m" "0 \<le> m" "m < d" using d by (simp_all add: q_def m_def)
  have rq: "r = of_int q + of_int m / of_int d"
    using d by (simp add: r dm(1) field_simps)
  have "\<lfloor>r + 1 / 2\<rfloor> = (if d \<le> m * 2 then q + 1 else q)"
  proof (rule floor_unique)
    define t :: rat where "t = of_int m / of_int d"
    have h: "1 / 2 \<le> t \<longleftrightarrow> d \<le> m * 2"
      using d of_int_le_iff [of d "m * 2", where 'a = rat] by (simp add: t_def field_simps)
    have "0 \<le> t" "t < 1" using dm d by (simp_all add: t_def)
    then show "of_int (if d \<le> m * 2 then q + 1 else q) \<le> r + 1 / 2"
      and "r + 1 / 2 < of_int (if d \<le> m * 2 then q + 1 else q) + 1"
      using h unfolding rq t_def [symmetric] by auto
  qed
  moreover have "roundedRat r = (if d \<le> m * 2 then q + 1 else q)"
  proof -
    have "n sdiv d = q" "n smod d = m"
      using n d by (cases "n = 0"; simp add: q_def m_def signed_divide_int_def signed_modulo_int_def)+
    then show ?thesis using assms dm(2,3) by (simp add: roundedRat_def nd Let_def)
  qed
  ultimately show ?thesis by simp
qed

lemma roundedRat_minus: "roundedRat (- r) = - roundedRat r"
proof -
  obtain n d where nd: "quotient_of r = (n, d)" by (cases "quotient_of r")
  have d: "0 < d" and r: "r = of_int n / of_int d"
    using nd quotient_of_denom_pos quotient_of_div by blast+
  have "quotient_of (- r) = (- n, d)" by (simp add: rat_uminus_code nd)
  moreover have "r = 0 \<Longrightarrow> n = 0" using d r by simp
  ultimately show ?thesis by (auto simp: roundedRat_def nd Let_def)
qed

lemma roundedRat_eq_Round: "roundedRat r = math_Round r"
  using roundedRat_nonneg [of r] roundedRat_nonneg [of "- r"] roundedRat_minus [of "- r"]
  by (auto simp: math_Round_def)

lemma math_Round_mono: "x \<le> y \<Longrightarrow> math_Round x \<le> math_Round y"
proof -
  assume xy: "x \<le> y"
  consider "0 \<le> x" | "x < 0" "0 \<le> y" | "y < 0" by linarith
  then show ?thesis
  proof cases
    case 2
    then have "0 \<le> \<lfloor>- x + 1 / 2\<rfloor>" "0 \<le> \<lfloor>y + 1 / 2\<rfloor>" by simp_all
    with 2 have "- \<lfloor>- x + 1 / 2\<rfloor> \<le> \<lfloor>y + 1 / 2\<rfloor>" by linarith
    with 2 show ?thesis by (simp only: math_Round_def if_not_P not_le if_P)
  qed (use xy in \<open>auto simp: math_Round_def intro!: floor_mono\<close>)
qed

lemma math_Round_of_int [simp]: "math_Round (of_int n) = n"
proof -
  have "\<lfloor>of_int m + 1 / 2 :: rat\<rfloor> = m" for m by (rule floor_unique) simp_all
  from this [of n] this [of "- n"] show ?thesis by (simp add: math_Round_def)
qed

lemma math_Round_near: "\<bar>of_int (math_Round x) - x\<bar> \<le> 1 / 2"
proof -
  have "\<bar>of_int \<lfloor>y + 1 / 2\<rfloor> - y\<bar> \<le> 1 / 2" for y :: rat
    unfolding abs_le_iff by linarith
  note near = this
  show ?thesis
  proof (cases "0 \<le> x")
    case True
    with near [of x] show ?thesis by (simp add: math_Round_def)
  next
    case False
    have "of_int (- \<lfloor>- x + 1 / 2\<rfloor>) - x = - (of_int \<lfloor>- x + 1 / 2\<rfloor> - (- x))" by simp
    with near [of "- x"] False show ?thesis by (simp only: math_Round_def if_False abs_minus_cancel)
  qed
qed

lemma saturatingInt64_range [simp]: "is_int64 (saturatingInt64 q)"
  by (simp add: saturatingInt64_def)

lemma saturatingInt64_mono: "p \<le> q \<Longrightarrow> saturatingInt64 p \<le> saturatingInt64 q"
  by (auto simp: saturatingInt64_def is_int64_def MinInt64_def MaxInt64_def)

lemma saturatingInt64_id: "is_int64 q \<Longrightarrow> saturatingInt64 q = q"
  by (simp add: saturatingInt64_def)

lemma roundRat_mono: "x \<le> y \<Longrightarrow> roundRat x \<le> roundRat y"
  by (simp add: roundRat_def saturatingInt64_mono roundedRat_eq_Round math_Round_mono)

lemma roundRat_of_int: "is_int64 n \<Longrightarrow> roundRat (of_int n) = n"
  by (simp add: roundRat_def saturatingInt64_id roundedRat_eq_Round)

lemma RateTimesQuantity_ok: "Amount_ok (RateTimesQuantity rate q)"
  by (simp add: RateTimesQuantity_def Amount_ok_def roundRat_def)

lemma RateTimesQuantity_nonneg: "0 \<le> MinorUnits rate \<Longrightarrow> 0 \<le> MinorUnits (RateTimesQuantity rate q)"
  using roundRat_mono [of 0 "of_int (MinorUnits rate) * q"] roundRat_of_int [of 0]
  by (auto simp: RateTimesQuantity_def)

text \<open>A share of at most one of a non-negative amount is at most the amount.\<close>

lemma RateTimesQuantity_le:
  assumes "0 \<le> MinorUnits rate" and "Amount_ok rate" and "q \<le> 1"
  shows "MinorUnits (RateTimesQuantity rate q) \<le> MinorUnits rate"
proof -
  have "of_int (MinorUnits rate) * q \<le> of_int (MinorUnits rate) * 1"
    using assms by (intro mult_left_mono) auto
  then have "roundRat (of_int (MinorUnits rate) * q) \<le> roundRat (of_int (MinorUnits rate))"
    by (intro roundRat_mono) simp
  with assms show ?thesis
    by (auto simp: RateTimesQuantity_def Amount_ok_def roundRat_of_int)
qed

lemma RateTimesQuantity_mono:
  assumes "0 \<le> MinorUnits rate" and "p \<le> q"
  shows "MinorUnits (RateTimesQuantity rate p) \<le> MinorUnits (RateTimesQuantity rate q)"
proof (cases "p \<le> 0")
  case True
  then show ?thesis using assms RateTimesQuantity_nonneg [of rate q] by (simp add: RateTimesQuantity_def)
next
  case False
  with assms have "of_int (MinorUnits rate) * p \<le> of_int (MinorUnits rate) * q"
    by (intro mult_left_mono) auto
  then show ?thesis using False assms by (auto simp: RateTimesQuantity_def intro: roundRat_mono)
qed

subsection \<open>Exact totals: the contract the rollups rely on\<close>

text \<open>
  The budget and earned-value rollups see an accumulator through these laws only. A total
  is then the sum of its terms, whatever their order.
\<close>

locale accumulator =
  fixes start :: 'acc
    and add :: "'acc \<Rightarrow> 'a \<Rightarrow> 'acc"
    and units :: "'a \<Rightarrow> int"
    and value_of :: "'acc \<Rightarrow> int"
  assumes value_start: "value_of start = 0"
    and value_add: "value_of (add acc a) = value_of acc + units a"
begin

lemma value_foldl: "value_of (foldl add acc xs) = value_of acc + sum_list (map units xs)"
  by (induction xs arbitrary: acc) (simp_all add: value_add)

lemma value_sum: "value_of (foldl add start xs) = sum_list (map units xs)"
  by (simp add: value_foldl value_start)

lemma order_irrelevant:
  assumes "mset xs = mset ys"
  shows "value_of (foldl add start xs) = value_of (foldl add start ys)"
proof -
  from assms have "mset (map units xs) = mset (map units ys)" by simp
  then show ?thesis by (simp add: value_sum flip: sum_mset_sum_list)
qed

end

interpretation totals: accumulator newAccumulator Accumulator_Add MinorUnits acc_total
  by unfold_locales (simp_all add: newAccumulator_def Accumulator_Add_def)

lemma amountFromBigInt_Inr: "amountFromBigInt v = Inr a \<longleftrightarrow> is_int64 v \<and> a = \<lparr>MinorUnits = v\<rparr>"
  by (auto simp: amountFromBigInt_def)

lemma amountFromBigInt_Inl: "amountFromBigInt v = Inl e \<longleftrightarrow> \<not> is_int64 v \<and> e = ErrOverflow"
  by (auto simp: amountFromBigInt_def)

lemma Amount_Add_eq: "Amount_Add a b = amountFromBigInt (MinorUnits a + MinorUnits b)"
  by (simp add: Amount_Add_def Accumulator_Amount_def totals.value_add totals.value_start)

lemma Amount_Sub_eq: "Amount_Sub a b = amountFromBigInt (MinorUnits a - MinorUnits b)"
  by (simp add: Amount_Sub_def Accumulator_Amount_def Accumulator_Sub_def totals.value_add totals.value_start)

subsection \<open>Properties\<close>

text \<open>
  C33. The decimal text of money is exact. The text of every representable amount, for any
  currency and the smallest \<^verbatim>\<open>int64\<close> included, parses back to that amount; and
  whatever text parses to it is its canonical text, or that text without its last zero or its
  \<open>.00\<close>: no other spelling of an amount is accepted.
\<close>

theorem ParseDecimal_exact:
  assumes "Amount_ok a"
  shows "ParseDecimal (Decimal a) = Inr a \<and> ParseDecimal (DecimalFor a currency) = Inr a
    \<and> (\<forall>s. ParseDecimal s = Inr a \<longrightarrow> (\<exists>suffix \<in> {[], ''0'', ''.00''}. s @ suffix = Decimal a))"
  using ParseDecimal_of_Decimal [OF assms] ParseDecimal_DecimalFor [OF assms] ParseDecimal_canonical_text by blast

theorem ParseDecimal_exact_witness:
  "ParseDecimal (DecimalFor \<lparr>MinorUnits = MinInt64\<rparr> ''jpy'') = Inr \<lparr>MinorUnits = MinInt64\<rparr>
   \<and> ParseDecimal (Decimal \<lparr>MinorUnits = 1250\<rparr>) = Inr \<lparr>MinorUnits = 1250\<rparr>"
  using ParseDecimal_exact [of "\<lparr>MinorUnits = MinInt64\<rparr>"] ParseDecimal_exact [of "\<lparr>MinorUnits = 1250\<rparr>"]
  by (simp add: Amount_ok_def is_int64_def MinInt64_def MaxInt64_def)

text \<open>
  A rate times a positive quantity is the exact product rounded half away from zero to
  minor units, saturated at the ends of the \<^verbatim>\<open>int64\<close> range; it lies within half a
  minor unit of the exact product whenever that rounding fits.
\<close>

theorem RateTimesQuantity_rounds:
  assumes "0 < q"
  shows "MinorUnits (RateTimesQuantity rate q)
           = saturatingInt64 (math_Round (of_int (MinorUnits rate) * q))
       \<and> (is_int64 (math_Round (of_int (MinorUnits rate) * q)) \<longrightarrow>
            \<bar>of_int (MinorUnits (RateTimesQuantity rate q)) - of_int (MinorUnits rate) * q\<bar> \<le> 1 / 2)"
proof -
  have "MinorUnits (RateTimesQuantity rate q) = saturatingInt64 (math_Round (of_int (MinorUnits rate) * q))"
    using assms math_Round_of_int [of 0]
    by (auto simp: RateTimesQuantity_def roundRat_def roundedRat_eq_Round saturatingInt64_id)
  then show ?thesis using math_Round_near by (simp add: saturatingInt64_id)
qed

theorem RateTimesQuantity_rounds_witness:
  "(0::rat) < 5 / 2 \<and> MinorUnits (RateTimesQuantity \<lparr>MinorUnits = 3\<rparr> (5 / 2)) = 8"
proof -
  have h: "(0::rat) < 5 / 2" by simp
  have "saturatingInt64 (math_Round (of_int 3 * (5 / 2))) = 8" by code_simp
  then show ?thesis using RateTimesQuantity_rounds [OF h, of "\<lparr>MinorUnits = 3\<rparr>"] by simp
qed

text \<open>
  An accumulated total is the exact sum of its terms: it is returned when the sum fits
  an \<^verbatim>\<open>int64\<close> and is an overflow error otherwise, whatever the order of the terms.
\<close>

theorem Accumulator_exact:
  assumes "mset ys = mset xs"
  shows "Accumulator_Amount (foldl Accumulator_Add newAccumulator ys)
       = (if is_int64 (sum_list (map MinorUnits xs))
          then Inr \<lparr>MinorUnits = sum_list (map MinorUnits xs)\<rparr> else Inl ErrOverflow)"
proof -
  have "acc_total (foldl Accumulator_Add newAccumulator ys) = sum_list (map MinorUnits xs)"
    using totals.order_irrelevant [OF assms] totals.value_sum [of xs] by simp
  then show ?thesis by (simp add: Accumulator_Amount_def amountFromBigInt_def)
qed

theorem Accumulator_exact_witness:
  "mset [\<lparr>MinorUnits = - 2\<rparr>, \<lparr>MinorUnits = MaxInt64\<rparr>, \<lparr>MinorUnits = 1\<rparr>]
     = mset [\<lparr>MinorUnits = MaxInt64\<rparr>, \<lparr>MinorUnits = 1\<rparr>, \<lparr>MinorUnits = - 2\<rparr>] \<and>
   Accumulator_Amount (foldl Accumulator_Add newAccumulator
     [\<lparr>MinorUnits = - 2\<rparr>, \<lparr>MinorUnits = MaxInt64\<rparr>, \<lparr>MinorUnits = 1\<rparr>]) = Inr \<lparr>MinorUnits = MaxInt64 - 1\<rparr>"
proof -
  have h: "mset [\<lparr>MinorUnits = - 2\<rparr>, \<lparr>MinorUnits = MaxInt64\<rparr>, \<lparr>MinorUnits = 1\<rparr>]
     = mset [\<lparr>MinorUnits = MaxInt64\<rparr>, \<lparr>MinorUnits = 1\<rparr>, \<lparr>MinorUnits = - 2\<rparr>]" by simp
  show ?thesis using Accumulator_exact [OF h] h by (simp add: is_int64_def MinInt64_def MaxInt64_def)
qed

end
