(* ===== verification/Budget.thy ===== *)
theory Budget
  imports Money
begin

text \<open>
  The cost rollup of \<^verbatim>\<open>internal/budget/budget.go\<close>: vendor contract values and
  labour (work-item points times the assignee's hourly rate) folded into one summary, in
  total and by stakeholder category. The lemmas reduce the accumulators and lookup tables
  to the list of cost lines they stand for; the properties give the summary and every
  error in terms of these lines, and show that the category guard at the end of
  \<^verbatim>\<open>Compute\<close> is never taken.
\<close>

subsection \<open>Model: records\<close>

record Project =
  proj_ID :: string
  proj_Name :: string
  proj_Description :: string
  proj_Status :: string
  proj_Phase :: string
  proj_StartDate :: string
  proj_EndDate :: string
  proj_Budget :: float64
  proj_BudgetMinorUnits :: int
  proj_CurrencyCode :: string
  proj_Owner :: string
  proj_Industry :: string
  proj_SubCategory :: string
  proj_Methodology :: string
  proj_CountryCode :: string
  proj_TimeZone :: string
  proj_CreatedAt :: string
  proj_UpdatedAt :: string

record Stakeholder =
  sh_ID :: string
  sh_ProjectID :: string
  sh_Name :: string
  sh_Role :: string
  sh_Organisation :: string
  sh_Email :: string
  sh_Phone :: string
  sh_Category :: string
  sh_HourlyRate :: float64
  sh_HourlyRateMinorUnits :: int
  sh_ContractValue :: float64
  sh_ContractValueMinorUnits :: int
  sh_Availability :: float64
  sh_Notes :: string
  sh_CreatedAt :: string
  sh_UpdatedAt :: string

text \<open>The fields of \<^verbatim>\<open>agile.WorkItem\<close> the rollup reads.\<close>

record WorkItem =
  wi_ID :: string
  wi_Points :: float64
  wi_Assignee :: string

record Summary =
  sum_Budget :: float64
  sum_ContractValue :: float64
  sum_LabourEstimate :: float64
  sum_Committed :: float64
  sum_Remaining :: float64
  sum_BudgetMinorUnits :: int
  sum_ContractValueMinorUnits :: int
  sum_LabourEstimateMinorUnits :: int
  sum_CommittedMinorUnits :: int
  sum_RemainingMinorUnits :: int
  sum_ByCategoryMinorUnits :: "(string \<times> int) list"
  sum_ByCategory :: "(string \<times> float64) list"

text \<open>The wrapped \<^verbatim>\<open>money.ErrOverflow\<close>, by the label of its wrapping.\<close>

datatype budget_error =
    ContractValueOverflow
  | LabourEstimateOverflow
  | CommittedOverflow
  | RemainingOverflow
  | CategoryOverflow string

subsection \<open>Model: inputs\<close>

definition amountFromProject :: "Project \<Rightarrow> Amount" where
  "amountFromProject p =
     (if proj_BudgetMinorUnits p \<noteq> 0 \<or> proj_Budget p = 0 then \<lparr>MinorUnits = proj_BudgetMinorUnits p\<rparr>
      else FromMajorFloat (proj_Budget p))"

definition amountFromHourlyRate :: "Stakeholder \<Rightarrow> Amount" where
  "amountFromHourlyRate s =
     (if sh_HourlyRateMinorUnits s \<noteq> 0 \<or> sh_HourlyRate s = 0 then \<lparr>MinorUnits = sh_HourlyRateMinorUnits s\<rparr>
      else FromMajorFloat (sh_HourlyRate s))"

definition amountFromContractValue :: "Stakeholder \<Rightarrow> Amount" where
  "amountFromContractValue s =
     (if sh_ContractValueMinorUnits s \<noteq> 0 \<or> sh_ContractValue s = 0 then \<lparr>MinorUnits = sh_ContractValueMinorUnits s\<rparr>
      else FromMajorFloat (sh_ContractValue s))"

definition lower :: "string \<Rightarrow> string" where
  "lower s = map lower_byte s"

type_synonym CategoryTotals = "(string \<times> Accumulator) list"

definition addCategory :: "CategoryTotals \<Rightarrow> string \<Rightarrow> Amount \<Rightarrow> CategoryTotals" where
  "addCategory totals cat amount =
     (case map_of totals cat of
        None \<Rightarrow> totals @ [(cat, Accumulator_Add newAccumulator amount)]
      | Some tot \<Rightarrow> modify_at cat (\<lambda>_. Accumulator_Add tot amount) totals)"

definition accumulatedAmount :: "budget_error \<Rightarrow> Accumulator \<Rightarrow> budget_error + Amount" where
  "accumulatedAmount label tot =
     (case Accumulator_Amount tot of Inl _ \<Rightarrow> Inl label | Inr amount \<Rightarrow> Inr amount)"

subsection \<open>Model: the rollup\<close>

definition contractRollup :: "Stakeholder list \<Rightarrow> Accumulator \<times> CategoryTotals" where
  "contractRollup stakeholders =
     foldl (\<lambda>(contracts, byCategory) s.
         (let contract = amountFromContractValue s in
          if Positive contract
          then (Accumulator_Add contracts contract, addCategory byCategory (sh_Category s) contract)
          else (contracts, byCategory)))
       (newAccumulator, []) stakeholders"

definition rateTables :: "Stakeholder list \<Rightarrow> (string \<rightharpoonup> Amount) \<times> (string \<rightharpoonup> string)" where
  "rateTables stakeholders =
     foldl (\<lambda>(rateByName, catByName) s.
         (let rate = amountFromHourlyRate s in
          if Positive rate
          then (rateByName(lower (sh_Name s) \<mapsto> rate), catByName(lower (sh_Name s) \<mapsto> sh_Category s))
          else (rateByName, catByName)))
       (Map.empty, Map.empty) stakeholders"

definition labourStep ::
  "(string \<rightharpoonup> Amount) \<times> (string \<rightharpoonup> string) \<Rightarrow> Accumulator \<times> CategoryTotals \<Rightarrow> WorkItem \<Rightarrow> Accumulator \<times> CategoryTotals"
where
  "labourStep tables acc wi =
     (case (tables, acc) of ((rateByName, catByName), (labour, byCategory)) \<Rightarrow>
        (if wi_Assignee wi = [] \<or> wi_Points wi \<le> 0 then (labour, byCategory)
         else
           (case rateByName (lower (wi_Assignee wi)) of
              None \<Rightarrow> (labour, byCategory)
            | Some rate \<Rightarrow>
                (let cost = RateTimesQuantity rate (wi_Points wi);
                     cat = (case catByName (lower (wi_Assignee wi)) of None \<Rightarrow> [] | Some c \<Rightarrow> c)
                 in (Accumulator_Add labour cost,
                     if cat \<noteq> [] then addCategory byCategory cat cost else byCategory)))))"

fun categoryAmounts :: "CategoryTotals \<Rightarrow> budget_error + (string \<times> Amount) list" where
  "categoryAmounts [] = Inr []"
| "categoryAmounts ((cat, tot) # rest) =
     (case accumulatedAmount (CategoryOverflow cat) tot of
        Inl e \<Rightarrow> Inl e
      | Inr amount \<Rightarrow> (case categoryAmounts rest of Inl e \<Rightarrow> Inl e | Inr amounts \<Rightarrow> Inr ((cat, amount) # amounts)))"

definition Compute :: "Project \<Rightarrow> Stakeholder list \<Rightarrow> WorkItem list \<Rightarrow> budget_error + Summary" where
  "Compute project stakeholders workItems =
     (let budget = amountFromProject project;
          (contracts, byCategory0) = contractRollup stakeholders;
          (labour, byCategory) = foldl (labourStep (rateTables stakeholders)) (newAccumulator, byCategory0) workItems
      in case accumulatedAmount ContractValueOverflow contracts of Inl e \<Rightarrow> Inl e | Inr contractValue \<Rightarrow>
         (case accumulatedAmount LabourEstimateOverflow labour of Inl e \<Rightarrow> Inl e | Inr labourEstimate \<Rightarrow>
         (case Amount_Add contractValue labourEstimate of Inl _ \<Rightarrow> Inl CommittedOverflow | Inr committed \<Rightarrow>
         (case Amount_Sub budget committed of Inl _ \<Rightarrow> Inl RemainingOverflow | Inr remaining \<Rightarrow>
         (case categoryAmounts byCategory of Inl e \<Rightarrow> Inl e | Inr amounts \<Rightarrow>
            Inr \<lparr>sum_Budget = MajorFloat budget, sum_ContractValue = MajorFloat contractValue,
                 sum_LabourEstimate = MajorFloat labourEstimate, sum_Committed = MajorFloat committed,
                 sum_Remaining = MajorFloat remaining,
                 sum_BudgetMinorUnits = MinorUnits budget,
                 sum_ContractValueMinorUnits = MinorUnits contractValue,
                 sum_LabourEstimateMinorUnits = MinorUnits labourEstimate,
                 sum_CommittedMinorUnits = MinorUnits committed,
                 sum_RemainingMinorUnits = MinorUnits remaining,
                 sum_ByCategoryMinorUnits = map (\<lambda>(c, a). (c, MinorUnits a)) amounts,
                 sum_ByCategory = map (\<lambda>(c, a). (c, MajorFloat a)) amounts\<rparr>)))))"

subsection \<open>Cost lines\<close>

text \<open>
  What the rollup charges, line by line, with the category of each line. The rate of an
  assignee is that of the last stakeholder of that name, up to ASCII case, who has one.
\<close>

definition contractLines :: "Stakeholder list \<Rightarrow> (string \<times> int) list" where
  "contractLines stakeholders =
     map (\<lambda>s. (sh_Category s, MinorUnits (amountFromContractValue s)))
       (filter (\<lambda>s. Positive (amountFromContractValue s)) stakeholders)"

definition rateHolder :: "Stakeholder list \<Rightarrow> string \<Rightarrow> Stakeholder option" where
  "rateHolder stakeholders assignee =
     find (\<lambda>s. Positive (amountFromHourlyRate s) \<and> lower (sh_Name s) = lower assignee) (rev stakeholders)"

definition labourLine :: "Stakeholder list \<Rightarrow> WorkItem \<Rightarrow> (string \<times> int) list" where
  "labourLine stakeholders wi =
     (if wi_Assignee wi = [] \<or> wi_Points wi \<le> 0 then []
      else case rateHolder stakeholders (wi_Assignee wi) of
             None \<Rightarrow> []
           | Some s \<Rightarrow> [(sh_Category s, MinorUnits (RateTimesQuantity (amountFromHourlyRate s) (wi_Points wi)))])"

definition labourLines :: "Stakeholder list \<Rightarrow> WorkItem list \<Rightarrow> (string \<times> int) list" where
  "labourLines stakeholders workItems = concat (map (labourLine stakeholders) workItems)"

definition lineTotal :: "(string \<times> int) list \<Rightarrow> int" where
  "lineTotal ls = sum_list (map snd ls)"

definition categoryTotal :: "(string \<times> int) list \<Rightarrow> string \<Rightarrow> int" where
  "categoryTotal ls c = lineTotal (filter (\<lambda>l. fst l = c) ls)"

text \<open>Contract lines are broken down under any category, labour under a non-empty one only.\<close>

definition categoryLines :: "Stakeholder list \<Rightarrow> WorkItem list \<Rightarrow> (string \<times> int) list" where
  "categoryLines stakeholders workItems =
     contractLines stakeholders @ filter (\<lambda>l. fst l \<noteq> []) (labourLines stakeholders workItems)"

subsection \<open>The category table stands for its lines\<close>

definition represents :: "CategoryTotals \<Rightarrow> (string \<times> int) list \<Rightarrow> bool" where
  "represents m ls \<longleftrightarrow> distinct (map fst m) \<and>
     (\<forall>c. map_of m c = (if c \<in> fst ` set ls then Some \<lparr>acc_total = categoryTotal ls c\<rparr> else None))"

lemma lineTotal_append [simp]: "lineTotal (xs @ ys) = lineTotal xs + lineTotal ys"
  by (simp add: lineTotal_def)

lemma lineTotal_Nil [simp]: "lineTotal [] = 0" and lineTotal_single [simp]: "lineTotal [(c, n)] = n"
  by (simp_all add: lineTotal_def)

lemma categoryTotal_append [simp]: "categoryTotal (xs @ ys) c = categoryTotal xs c + categoryTotal ys c"
  by (simp add: categoryTotal_def)

lemma categoryTotal_single: "categoryTotal [(c, n)] k = (if k = c then n else 0)"
  by (simp add: categoryTotal_def)

lemma categoryTotal_absent: "c \<notin> fst ` set ls \<Longrightarrow> categoryTotal ls c = 0"
  by (induction ls) (auto simp: categoryTotal_def lineTotal_def)

lemma represents_Nil [simp]: "represents [] []"
  by (simp add: represents_def)

lemma represents_add:
  assumes "represents m ls"
  shows "represents (addCategory m c a) (ls @ [(c, MinorUnits a)])"
proof (cases "map_of m c")
  case None
  then have "c \<notin> fst ` set ls" "c \<notin> fst ` set m" "distinct (map fst m)"
    using assms map_of_is_None_iff [of m c] by (auto simp: represents_def split: if_splits)
  with None assms show ?thesis
    by (auto simp: represents_def addCategory_def map_add_def categoryTotal_single categoryTotal_absent
        Accumulator_Add_def newAccumulator_def split: option.splits)
next
  case (Some t)
  then have "c \<in> fst ` set ls" "t = \<lparr>acc_total = categoryTotal ls c\<rparr>"
    using assms by (auto simp: represents_def split: if_splits)
  with Some assms show ?thesis
    by (auto simp: represents_def addCategory_def map_of_modify_at categoryTotal_single Accumulator_Add_def)
qed

lemma contractRollup_lines:
  "contractRollup ss = (acc, m) \<Longrightarrow> acc_total acc = lineTotal (contractLines ss) \<and> represents m (contractLines ss)"
proof (induction ss arbitrary: acc m rule: rev_induct)
  case Nil
  then show ?case by (auto simp: contractRollup_def contractLines_def newAccumulator_def)
next
  case (snoc s ss)
  obtain a0 m0 where r: "contractRollup ss = (a0, m0)" by fastforce
  with snoc.IH have IH: "acc_total a0 = lineTotal (contractLines ss)" "represents m0 (contractLines ss)" by blast+
  have st: "(acc, m) = (if Positive (amountFromContractValue s)
      then (Accumulator_Add a0 (amountFromContractValue s), addCategory m0 (sh_Category s) (amountFromContractValue s))
      else (a0, m0))"
    using snoc.prems r by (simp add: contractRollup_def Let_def split: if_splits)
  have ln: "contractLines (ss @ [s]) = contractLines ss @
      (if Positive (amountFromContractValue s) then [(sh_Category s, MinorUnits (amountFromContractValue s))] else [])"
    by (simp add: contractLines_def)
  show ?case using st IH represents_add [OF IH(2)] by (auto simp: ln Accumulator_Add_def split: if_splits)
qed

lemma rateTables_lookup:
  "fst (rateTables ss) (lower n) = map_option amountFromHourlyRate (rateHolder ss n)
   \<and> snd (rateTables ss) (lower n) = map_option sh_Category (rateHolder ss n)"
proof (induction ss rule: rev_induct)
  case Nil
  then show ?case by (simp add: rateTables_def rateHolder_def)
next
  case (snoc s ss)
  obtain r c where rc: "rateTables ss = (r, c)" by fastforce
  have "rateTables (ss @ [s]) = (if Positive (amountFromHourlyRate s)
      then (r(lower (sh_Name s) \<mapsto> amountFromHourlyRate s), c(lower (sh_Name s) \<mapsto> sh_Category s)) else (r, c))"
    using rc by (simp add: rateTables_def Let_def)
  moreover have "rateHolder (ss @ [s]) n =
      (if Positive (amountFromHourlyRate s) \<and> lower (sh_Name s) = lower n then Some s else rateHolder ss n)"
    by (simp add: rateHolder_def)
  ultimately show ?case using snoc rc by simp
qed

lemma rateHolder_SomeD: "rateHolder ss n = Some s \<Longrightarrow> s \<in> set ss \<and> Positive (amountFromHourlyRate s)"
  by (auto simp: rateHolder_def find_Some_iff) (metis nth_mem set_rev length_rev)

lemma labourStep_lines:
  assumes "labourStep (rateTables ss) (acc, m) wi = (acc', m')" and "represents m ls"
  shows "acc_total acc' = acc_total acc + lineTotal (labourLine ss wi)
    \<and> represents m' (ls @ filter (\<lambda>l. fst l \<noteq> []) (labourLine ss wi))"
proof (cases "wi_Assignee wi = [] \<or> wi_Points wi \<le> 0 \<or> rateHolder ss (wi_Assignee wi) = None")
  case True
  then have "labourLine ss wi = []" by (auto simp: labourLine_def)
  moreover have "acc' = acc \<and> m' = m"
    using True assms(1) rateTables_lookup [of ss "wi_Assignee wi"]
    by (auto simp: labourStep_def split_beta split: if_splits)
  ultimately show ?thesis using assms(2) by simp
next
  case False
  then obtain s where s: "rateHolder ss (wi_Assignee wi) = Some s" by blast
  let ?cost = "RateTimesQuantity (amountFromHourlyRate s) (wi_Points wi)"
  have "labourLine ss wi = [(sh_Category s, MinorUnits ?cost)]" using False s by (simp add: labourLine_def)
  moreover have "acc' = Accumulator_Add acc ?cost"
    "m' = (if sh_Category s \<noteq> [] then addCategory m (sh_Category s) ?cost else m)"
    using False s assms(1) rateTables_lookup [of ss "wi_Assignee wi"]
    by (auto simp: labourStep_def split_beta Let_def)
  ultimately show ?thesis using assms(2) represents_add [OF assms(2)] by (simp add: Accumulator_Add_def)
qed

lemma labour_lines:
  assumes "foldl (labourStep (rateTables ss)) (acc, m) ws = (acc', m')" and "represents m ls"
  shows "acc_total acc' = acc_total acc + lineTotal (labourLines ss ws)
    \<and> represents m' (ls @ filter (\<lambda>l. fst l \<noteq> []) (labourLines ss ws))"
  using assms
proof (induction ws arbitrary: acc m ls)
  case (Cons w ws)
  obtain a1 m1 where 1: "labourStep (rateTables ss) (acc, m) w = (a1, m1)" by fastforce
  with labourStep_lines [OF 1 Cons.prems(2)] Cons.prems(1)
    Cons.IH [of a1 m1 "ls @ filter (\<lambda>l. fst l \<noteq> []) (labourLine ss w)"]
  show ?case by (simp add: labourLines_def)
qed (simp add: labourLines_def)

subsection \<open>Subtotals of non-negative lines\<close>

lemma lineTotal_nonneg: "\<forall>l \<in> set ls. 0 \<le> snd l \<Longrightarrow> 0 \<le> lineTotal ls"
  by (induction ls) (auto simp: lineTotal_def)

lemma lineTotal_filter_le: "\<forall>l \<in> set ls. 0 \<le> snd l \<Longrightarrow> lineTotal (filter P ls) \<le> lineTotal ls"
  by (induction ls) (auto simp: lineTotal_def)

lemma contractLines_nonneg: "l \<in> set (contractLines ss) \<Longrightarrow> 0 \<le> snd l"
  by (auto simp: contractLines_def Positive_def)

lemma labourLine_nonneg: "l \<in> set (labourLine ss wi) \<Longrightarrow> 0 \<le> snd l"
proof (cases "rateHolder ss (wi_Assignee wi)")
  case (Some s)
  then have "0 \<le> MinorUnits (amountFromHourlyRate s)" using rateHolder_SomeD by (fastforce simp: Positive_def)
  moreover assume "l \<in> set (labourLine ss wi)"
  ultimately show ?thesis using Some RateTimesQuantity_nonneg by (auto simp: labourLine_def split: if_splits)
qed (auto simp: labourLine_def split: if_splits)

lemma labourLines_nonneg: "l \<in> set (labourLines ss ws) \<Longrightarrow> 0 \<le> snd l"
  unfolding labourLines_def set_concat set_map by (elim UN_E imageE) (metis labourLine_nonneg)

lemma categoryAmounts_ok:
  "(\<forall>(c, t) \<in> set m. is_int64 (acc_total t)) \<Longrightarrow>
   categoryAmounts m = Inr (map (\<lambda>(c, t). (c, \<lparr>MinorUnits = acc_total t\<rparr>)) m)"
  by (induction m rule: categoryAmounts.induct)
    (auto simp: accumulatedAmount_def Accumulator_Amount_def amountFromBigInt_def)

lemma lineTotal_split: "lineTotal (filter P ls) + lineTotal (filter (\<lambda>l. \<not> P l) ls) = lineTotal ls"
  by (induction ls) (auto simp: lineTotal_def)

lemma sum_categoryTotal: "finite K \<Longrightarrow> fst ` set ls \<subseteq> K \<Longrightarrow> (\<Sum>k\<in>K. categoryTotal ls k) = lineTotal ls"
proof (induction ls)
  case (Cons x ls)
  have "categoryTotal (x # ls) k = (if k = fst x then snd x else 0) + categoryTotal ls k" for k
    by (simp add: categoryTotal_def lineTotal_def)
  then have "(\<Sum>k\<in>K. categoryTotal (x # ls) k) = (\<Sum>k\<in>K. if k = fst x then snd x else 0) + (\<Sum>k\<in>K. categoryTotal ls k)"
    by (simp add: sum.distrib)
  then show ?case using Cons by (simp add: lineTotal_def)
qed (simp add: categoryTotal_def)

lemma represents_total:
  assumes "represents m ls"
  shows "sum_list (map (\<lambda>x. acc_total (snd x)) m) = lineTotal ls"
proof -
  have d: "distinct (map fst m)" using assms by (simp add: represents_def)
  have v: "acc_total (snd x) = categoryTotal ls (fst x)" if "x \<in> set m" for x
  proof -
    have "map_of m (fst x) = Some (snd x)" using d that by (simp add: map_of_eq_Some_iff)
    then show ?thesis using assms unfolding represents_def by (metis Accumulator.select_convs(1) option.discI option.inject)
  qed
  have "sum_list (map (\<lambda>x. acc_total (snd x)) m) = sum_list (map (categoryTotal ls) (map fst m))"
    using v by (simp add: comp_def cong: map_cong)
  also have "\<dots> = (\<Sum>k\<in>set (map fst m). categoryTotal ls k)"
    using d by (rule sum_list_distinct_conv_sum_set)
  also have "\<dots> = lineTotal ls"
  proof (rule sum_categoryTotal)
    show "fst ` set ls \<subseteq> set (map fst m)"
      using assms map_of_is_None_iff [of m] unfolding represents_def by (metis option.discI subsetI)
  qed simp
  finally show ?thesis .
qed

lemma categoryTotal_int64:
  assumes "is_int64 (lineTotal (contractLines ss) + lineTotal (labourLines ss ws))"
  shows "is_int64 (categoryTotal (categoryLines ss ws) c)"
proof -
  have n: "\<forall>l \<in> set (categoryLines ss ws). 0 \<le> snd l"
    using contractLines_nonneg labourLines_nonneg by (auto simp: categoryLines_def)
  have "categoryTotal (categoryLines ss ws) c \<le> lineTotal (categoryLines ss ws)"
    unfolding categoryTotal_def by (rule lineTotal_filter_le [OF n])
  also have "\<dots> \<le> lineTotal (contractLines ss) + lineTotal (labourLines ss ws)"
    using lineTotal_filter_le [of "labourLines ss ws"] labourLines_nonneg by (simp add: categoryLines_def)
  finally have "categoryTotal (categoryLines ss ws) c \<le> MaxInt64" using assms by (simp add: is_int64_def)
  moreover have "0 \<le> categoryTotal (categoryLines ss ws) c"
    unfolding categoryTotal_def using n by (intro lineTotal_nonneg) auto
  ultimately show ?thesis by (simp add: is_int64_def MinInt64_def)
qed

text \<open>The result of \<open>Compute\<close> over the cost lines and the category table.\<close>

definition rollupResult :: "int \<Rightarrow> int \<Rightarrow> int \<Rightarrow> CategoryTotals \<Rightarrow> budget_error + Summary" where
  "rollupResult b c l m =
     (let M = (\<lambda>n. MajorFloat \<lparr>MinorUnits = n\<rparr>) in
      if \<not> is_int64 c then Inl ContractValueOverflow
      else if \<not> is_int64 l then Inl LabourEstimateOverflow
      else if \<not> is_int64 (c + l) then Inl CommittedOverflow
      else if \<not> is_int64 (b - (c + l)) then Inl RemainingOverflow
      else Inr \<lparr>sum_Budget = M b, sum_ContractValue = M c, sum_LabourEstimate = M l,
                sum_Committed = M (c + l), sum_Remaining = M (b - (c + l)),
                sum_BudgetMinorUnits = b, sum_ContractValueMinorUnits = c, sum_LabourEstimateMinorUnits = l,
                sum_CommittedMinorUnits = c + l, sum_RemainingMinorUnits = b - (c + l),
                sum_ByCategoryMinorUnits = map (\<lambda>(k, t). (k, acc_total t)) m,
                sum_ByCategory = map (\<lambda>(k, t). (k, M (acc_total t))) m\<rparr>)"

lemma Compute_lines:
  obtains m where "represents m (categoryLines ss ws)"
    "Compute p ss ws = rollupResult (MinorUnits (amountFromProject p)) (lineTotal (contractLines ss))
       (lineTotal (labourLines ss ws)) m"
proof -
  obtain contracts m0 where 1: "contractRollup ss = (contracts, m0)" by fastforce
  obtain labour m where 2: "foldl (labourStep (rateTables ss)) (newAccumulator, m0) ws = (labour, m)" by fastforce
  note c = contractRollup_lines [OF 1] and l = labour_lines [OF 2 conjunct2 [OF contractRollup_lines [OF 1]]]
  have rep: "represents m (categoryLines ss ws)" using l by (simp add: categoryLines_def)
  have cats: "categoryAmounts m = Inr (map (\<lambda>(c, t). (c, \<lparr>MinorUnits = acc_total t\<rparr>)) m)"
    if "is_int64 (lineTotal (contractLines ss) + lineTotal (labourLines ss ws))"
  proof (rule categoryAmounts_ok, clarify)
    fix k t assume "(k, t) \<in> set m"
    then have "map_of m k = Some t" using rep unfolding represents_def by (metis map_of_eq_Some_iff)
    then have "acc_total t = categoryTotal (categoryLines ss ws) k"
      using rep unfolding represents_def by (metis Accumulator.select_convs(1) option.discI option.inject)
    then show "is_int64 (acc_total t)" using categoryTotal_int64 [OF that] by simp
  qed
  have cl: "acc_total contracts = lineTotal (contractLines ss)" "acc_total labour = lineTotal (labourLines ss ws)"
    using c l by (simp_all add: newAccumulator_def)
  show thesis
    by (rule that [OF rep])
      (use cats in \<open>simp add: Compute_def rollupResult_def 1 2 Let_def accumulatedAmount_def Accumulator_Amount_def
         amountFromBigInt_def Amount_Add_eq Amount_Sub_eq cl comp_def split_def MajorFloat_def\<close>)
qed

subsection \<open>Properties\<close>

text \<open>
  C24. The rollup is exact. Contract value, labour estimate, commitment and remaining budget
  are the exact sums of the cost lines; each error is returned exactly when the sum it
  names does not fit \<^verbatim>\<open>int64\<close>, the first one in the order of the checks; and the
  per-category error is never returned.
\<close>

theorem budget_rollup:
  "case Compute p ss ws of
     Inl e \<Rightarrow>
       (let b = MinorUnits (amountFromProject p); c = lineTotal (contractLines ss); l = lineTotal (labourLines ss ws) in
        e = (if \<not> is_int64 c then ContractValueOverflow else if \<not> is_int64 l then LabourEstimateOverflow
             else if \<not> is_int64 (c + l) then CommittedOverflow else RemainingOverflow)
        \<and> \<not> (is_int64 c \<and> is_int64 l \<and> is_int64 (c + l) \<and> is_int64 (b - (c + l))))
   | Inr s \<Rightarrow>
       sum_BudgetMinorUnits s = MinorUnits (amountFromProject p)
       \<and> sum_ContractValueMinorUnits s = lineTotal (contractLines ss)
       \<and> sum_LabourEstimateMinorUnits s = lineTotal (labourLines ss ws)
       \<and> sum_CommittedMinorUnits s = sum_ContractValueMinorUnits s + sum_LabourEstimateMinorUnits s
       \<and> sum_RemainingMinorUnits s = sum_BudgetMinorUnits s - sum_CommittedMinorUnits s
       \<and> is_int64 (sum_CommittedMinorUnits s) \<and> is_int64 (sum_RemainingMinorUnits s)
       \<and> sum_Remaining s = MajorFloat \<lparr>MinorUnits = sum_RemainingMinorUnits s\<rparr>"
proof -
  obtain m where "Compute p ss ws = rollupResult (MinorUnits (amountFromProject p)) (lineTotal (contractLines ss))
      (lineTotal (labourLines ss ws)) m" by (rule Compute_lines)
  then show ?thesis by (simp add: rollupResult_def Let_def)
qed

text \<open>
  The breakdown accounts for the commitment: each category that has a cost line is
  listed once with the exact total of its lines, no other is listed, and the listed totals
  together with the labour of stakeholders without a category add up to the commitment.
\<close>

theorem budget_categories:
  assumes "Compute p ss ws = Inr s"
  shows "distinct (map fst (sum_ByCategoryMinorUnits s))
    \<and> (\<forall>k. map_of (sum_ByCategoryMinorUnits s) k =
          (if k \<in> fst ` set (categoryLines ss ws) then Some (categoryTotal (categoryLines ss ws) k) else None))
    \<and> sum_list (map snd (sum_ByCategoryMinorUnits s)) + categoryTotal (labourLines ss ws) []
        = sum_CommittedMinorUnits s"
proof -
  obtain m where rep: "represents m (categoryLines ss ws)"
    and eq: "Compute p ss ws = rollupResult (MinorUnits (amountFromProject p)) (lineTotal (contractLines ss))
      (lineTotal (labourLines ss ws)) m" by (rule Compute_lines)
  have bc: "sum_ByCategoryMinorUnits s = map (\<lambda>(k, t). (k, acc_total t)) m"
    and com: "sum_CommittedMinorUnits s = lineTotal (contractLines ss) + lineTotal (labourLines ss ws)"
    using assms unfolding eq by (auto simp: rollupResult_def Let_def split: if_splits)
  have fst: "map fst (sum_ByCategoryMinorUnits s) = map fst m" by (simp add: bc split_def comp_def)
  have look: "map_of (sum_ByCategoryMinorUnits s) k = map_option acc_total (map_of m k)" for k
    unfolding bc by (induction m) auto
  have "sum_list (map snd (sum_ByCategoryMinorUnits s)) = lineTotal (categoryLines ss ws)"
    using represents_total [OF rep] by (simp add: bc split_def comp_def)
  moreover have "lineTotal (categoryLines ss ws) + categoryTotal (labourLines ss ws) [] = sum_CommittedMinorUnits s"
    using lineTotal_split [of "\<lambda>l. fst l \<noteq> []" "labourLines ss ws"]
    by (simp add: com categoryLines_def categoryTotal_def)
  ultimately show ?thesis using rep by (simp add: fst look represents_def)
qed

definition sample_project :: Project where
  "sample_project = \<lparr>proj_ID = ''p'', proj_Name = [], proj_Description = [], proj_Status = [], proj_Phase = [],
     proj_StartDate = [], proj_EndDate = [], proj_Budget = 0, proj_BudgetMinorUnits = 100000,
     proj_CurrencyCode = ''USD'', proj_Owner = [], proj_Industry = [], proj_SubCategory = [],
     proj_Methodology = [], proj_CountryCode = [], proj_TimeZone = [], proj_CreatedAt = [], proj_UpdatedAt = []\<rparr>"

definition sample_stakeholders :: "Stakeholder list" where
  "sample_stakeholders = [\<lparr>sh_ID = ''s'', sh_ProjectID = ''p'', sh_Name = ''Ann'', sh_Role = [], sh_Organisation = [],
     sh_Email = [], sh_Phone = [], sh_Category = ''vendor'', sh_HourlyRate = 0, sh_HourlyRateMinorUnits = 2500,
     sh_ContractValue = 0, sh_ContractValueMinorUnits = 40000, sh_Availability = 1, sh_Notes = [],
     sh_CreatedAt = [], sh_UpdatedAt = []\<rparr>]"

definition sample_items :: "WorkItem list" where
  "sample_items = [\<lparr>wi_ID = ''w'', wi_Points = 4, wi_Assignee = ''ann''\<rparr>]"

theorem budget_categories_witness:
  "\<exists>s. Compute sample_project sample_stakeholders sample_items = Inr s
     \<and> map_of (sum_ByCategoryMinorUnits s) ''vendor'' = Some 50000
     \<and> sum_list (map snd (sum_ByCategoryMinorUnits s)) = sum_CommittedMinorUnits s"
proof -
  obtain s where s: "Compute sample_project sample_stakeholders sample_items = Inr s"
  proof -
    have "\<not> isl (Compute sample_project sample_stakeholders sample_items)" by code_simp
    then show thesis using that by (cases "Compute sample_project sample_stakeholders sample_items") auto
  qed
  have l: "categoryLines sample_stakeholders sample_items = [(''vendor'', 40000), (''vendor'', 10000)]"
    "labourLines sample_stakeholders sample_items = [(''vendor'', 10000)]" by code_simp+
  show ?thesis using s budget_categories [OF s]
    by (intro exI [of _ s]) (auto simp: l categoryTotal_def lineTotal_def)
qed

end
