(* ===== verification/EVM.thy ===== *)
theory EVM
  imports TaskModel Money
begin

text \<open>
  Earned value: \<^verbatim>\<open>internal/kernel/evm.go\<close>. Budget, planned value, earned value
  and actual cost of every task, accumulated exactly, and the indicators derived from the
  totals. The lemmas show that the planned fraction of a task stays between zero and one
  and grows with the status day, split tasks included, and that the two ends of the
  variance at completion never differ in sign.
\<close>

subsection \<open>Model: records\<close>

record TaskEV =
  ev_TaskID :: string
  ev_Title :: string
  ev_BAC :: float64
  ev_PV :: float64
  ev_EV :: float64
  ev_AC :: float64
  ev_BACMinorUnits :: int
  ev_PVMinorUnits :: int
  ev_EVMinorUnits :: int
  ev_ACMinorUnits :: int

record EVMetrics =
  evm_AsOfDay :: float64
  evm_BAC :: float64
  evm_PV :: float64
  evm_EV :: float64
  evm_AC :: float64
  evm_BACMinorUnits :: int
  evm_PVMinorUnits :: int
  evm_EVMinorUnits :: int
  evm_ACMinorUnits :: int
  evm_SV :: float64
  evm_CV :: float64
  evm_SPI :: float64
  evm_CPI :: float64
  evm_EAC :: float64
  evm_ETC :: float64
  evm_VAC :: float64
  evm_SVMinorUnits :: int
  evm_CVMinorUnits :: int
  evm_EACMinorUnits :: int
  evm_ETCMinorUnits :: int
  evm_VACMinorUnits :: int
  evm_Tasks :: "TaskEV list"

text \<open>An error wraps \<^verbatim>\<open>money.ErrOverflow\<close> under the label of the figure.\<close>

datatype evm_error = EvmOverflow string

subsection \<open>Model: one task\<close>

definition accumulatedMinorUnits :: "string \<Rightarrow> Accumulator \<Rightarrow> evm_error + int" where
  "accumulatedMinorUnits label tot =
     (case Accumulator_Amount tot of Inl _ \<Rightarrow> Inl (EvmOverflow label) | Inr amount \<Rightarrow> Inr (MinorUnits amount))"

definition subtractMinorUnits :: "string \<Rightarrow> int \<Rightarrow> int \<Rightarrow> evm_error + int" where
  "subtractMinorUnits label left right =
     (case Amount_Sub \<lparr>MinorUnits = left\<rparr> \<lparr>MinorUnits = right\<rparr> of
        Inl _ \<Rightarrow> Inl (EvmOverflow label) | Inr amount \<Rightarrow> Inr (MinorUnits amount))"

definition taskBudgetAmount :: "Task \<Rightarrow> Amount" where
  "taskBudgetAmount t =
     (if BudgetedCostMinorUnits t \<noteq> 0 \<or> BudgetedCost t = 0 then \<lparr>MinorUnits = BudgetedCostMinorUnits t\<rparr>
      else FromMajorFloat (BudgetedCost t))"

definition taskActualAmount :: "Task \<Rightarrow> Amount" where
  "taskActualAmount t =
     (if ActualCostMinorUnits t \<noteq> 0 \<or> ActualCost t = 0 then \<lparr>MinorUnits = ActualCostMinorUnits t\<rparr>
      else FromMajorFloat (ActualCost t))"

text \<open>
  The loop of \<^verbatim>\<open>splitPlannedFraction\<close>: \<open>prev\<close> is \<^verbatim>\<open>previousEnd\<close>, absent in
  the first round (\<^verbatim>\<open>i > 0\<close>). The NaN and infinity tests have no counterpart among
  rational values.
\<close>

fun splitLoop :: "float64 \<Rightarrow> float64 option \<Rightarrow> float64 \<Rightarrow> float64 \<Rightarrow> WorkSegment list \<Rightarrow> (float64 \<times> float64) option" where
  "splitLoop elapsed prev completed tot [] = Some (completed, tot)"
| "splitLoop elapsed prev completed tot (s # segments) =
     (if SegStart s < 0 \<or> SegEnd s \<le> SegStart s
         \<or> (case prev of None \<Rightarrow> False | Some previousEnd \<Rightarrow> SegStart s < previousEnd)
      then None
      else
        (let width = fsub (SegEnd s) (SegStart s);
             completed' = (if elapsed > SegStart s
               then fadd completed (fsub (min elapsed (SegEnd s)) (SegStart s)) else completed)
         in splitLoop elapsed (Some (SegEnd s)) completed' (fadd tot width) segments))"

definition splitPlannedFraction :: "WorkSegment list \<Rightarrow> float64 \<Rightarrow> float64 option" where
  "splitPlannedFraction segments elapsed =
     (if segments = [] then None
      else case splitLoop elapsed None 0 0 segments of
        None \<Rightarrow> None
      | Some (completed, tot) \<Rightarrow>
          (if tot \<le> 0 then None
           else if completed \<le> 0 then Some 0
           else if completed \<ge> tot then Some 1
           else Some (fdiv completed tot)))"

definition plannedFraction :: "Task \<Rightarrow> float64 \<Rightarrow> float64" where
  "plannedFraction t asOfDay =
     (if Duration t \<le> 0 then (if asOfDay \<ge> ES t then 1 else 0)
      else
        (case splitPlannedFraction (PlannedWorkSegments t) (fsub asOfDay (ES t)) of
           Some f \<Rightarrow> f
         | None \<Rightarrow>
             (let f = fdiv (fsub asOfDay (ES t)) (Duration t) in
              if f < 0 then 0 else if f > 1 then 1 else f)))"

subsection \<open>Model: the project\<close>

definition taskPlannedValue :: "float64 \<Rightarrow> Task \<Rightarrow> Amount" where
  "taskPlannedValue asOfDay t = RateTimesQuantity (taskBudgetAmount t) (plannedFraction t asOfDay)"

definition taskEarnedValue :: "Task \<Rightarrow> Amount" where
  "taskEarnedValue t = RateTimesQuantity (taskBudgetAmount t) (fdiv (PercentComplete t) 100)"

definition taskEV :: "float64 \<Rightarrow> Task \<Rightarrow> TaskEV" where
  "taskEV asOfDay t =
     (let bac = taskBudgetAmount t; ac = taskActualAmount t;
          pv = taskPlannedValue asOfDay t; ev = taskEarnedValue t
      in \<lparr>ev_TaskID = ID t, ev_Title = Title t,
          ev_BAC = MajorFloat bac, ev_PV = MajorFloat pv, ev_EV = MajorFloat ev, ev_AC = MajorFloat ac,
          ev_BACMinorUnits = MinorUnits bac, ev_PVMinorUnits = MinorUnits pv,
          ev_EVMinorUnits = MinorUnits ev, ev_ACMinorUnits = MinorUnits ac\<rparr>)"

definition ComputeEVM :: "Tasks \<Rightarrow> float64 \<Rightarrow> evm_error + EVMetrics" where
  "ComputeEVM tasks asOfDay =
     (let ts = map snd tasks;
          bacTotal = foldl Accumulator_Add newAccumulator (map taskBudgetAmount ts);
          pvTotal = foldl Accumulator_Add newAccumulator (map (taskPlannedValue asOfDay) ts);
          evTotal = foldl Accumulator_Add newAccumulator (map taskEarnedValue ts);
          acTotal = foldl Accumulator_Add newAccumulator (map taskActualAmount ts);
          rows = sort_key ev_TaskID (map (taskEV asOfDay) ts);
          major = (\<lambda>n. MajorFloat \<lparr>MinorUnits = n\<rparr>)
      in and_then (accumulatedMinorUnits ''BAC'' bacTotal) (\<lambda>bac.
         and_then (accumulatedMinorUnits ''PV'' pvTotal) (\<lambda>pv.
         and_then (accumulatedMinorUnits ''EV'' evTotal) (\<lambda>ev.
         and_then (accumulatedMinorUnits ''AC'' acTotal) (\<lambda>ac.
         and_then (subtractMinorUnits ''SV'' ev pv) (\<lambda>sv.
         and_then (subtractMinorUnits ''CV'' ev ac) (\<lambda>cv.
         and_then
           (if ev > 0 \<and> ac > 0
            then (case ScaleByRatioChecked \<lparr>MinorUnits = bac\<rparr> ac ev of
                    Inl _ \<Rightarrow> Inl (EvmOverflow ''EAC'') | Inr eac \<Rightarrow> Inr (MinorUnits eac))
            else Inr bac) (\<lambda>eac.
         and_then (subtractMinorUnits ''ETC'' eac ac) (\<lambda>etc.
         and_then (subtractMinorUnits ''VAC'' bac eac) (\<lambda>vac.
           Inr \<lparr>evm_AsOfDay = asOfDay,
                evm_BAC = major bac, evm_PV = major pv, evm_EV = major ev, evm_AC = major ac,
                evm_BACMinorUnits = bac, evm_PVMinorUnits = pv, evm_EVMinorUnits = ev, evm_ACMinorUnits = ac,
                evm_SV = major sv, evm_CV = major cv,
                evm_SPI = (if pv > 0 then fdiv (float_of_int ev) (float_of_int pv) else 0),
                evm_CPI = (if ac > 0 then fdiv (float_of_int ev) (float_of_int ac) else 0),
                evm_EAC = major eac, evm_ETC = major etc, evm_VAC = major vac,
                evm_SVMinorUnits = sv, evm_CVMinorUnits = cv, evm_EACMinorUnits = eac,
                evm_ETCMinorUnits = etc, evm_VACMinorUnits = vac,
                evm_Tasks = rows\<rparr>))))))))))"

subsection \<open>The planned fraction\<close>

text \<open>
  Two runs of the segment loop at different status days accept the same segments and the
  same total, and the later one has completed at least as much.
\<close>

lemma splitLoop_mono:
  assumes "x \<le> y" and "c \<le> d" and "f64 c = c"
    and "splitLoop x prev c w segs = Some (c', w')"
  shows "\<exists>d'. splitLoop y prev d w segs = Some (d', w') \<and> c' \<le> d'"
  using assms(2-4)
proof (induction segs arbitrary: prev c d w)
  case (Cons s segs)
  let ?step = "\<lambda>x c. if x > SegStart s then fadd c (fsub (min x (SegEnd s)) (SegStart s)) else c"
  have ok: "\<not> (SegStart s < 0 \<or> SegEnd s \<le> SegStart s
         \<or> (case prev of None \<Rightarrow> False | Some previousEnd \<Rightarrow> SegStart s < previousEnd))"
    using Cons.prems(3) by (auto split: if_splits)
  have le: "?step x c \<le> ?step y d"
  proof (cases "x > SegStart s")
    case True
    have "fsub (min x (SegEnd s)) (SegStart s) \<le> fsub (min y (SegEnd s)) (SegStart s)"
      unfolding fsub_def using assms(1) by (intro f64_mono diff_right_mono) auto
    with True assms(1) Cons.prems(1) show ?thesis by (auto simp: fadd_def intro!: f64_mono)
  next
    case False
    have "c \<le> fadd d (fsub (min y (SegEnd s)) (SegStart s))" if "y > SegStart s"
    proof -
      have "0 \<le> fsub (min y (SegEnd s)) (SegStart s)"
        unfolding fsub_def using that ok by (intro binary64.nonneg) (auto simp: min_def)
      then have "f64 c \<le> fadd d (fsub (min y (SegEnd s)) (SegStart s))"
        unfolding fadd_def using Cons.prems(1) by (intro f64_mono) simp
      with Cons.prems(2) show ?thesis by simp
    qed
    with False Cons.prems(1) show ?thesis by auto
  qed
  have "f64 (?step x c) = ?step x c" using Cons.prems(2) by (simp add: fadd_def)
  from Cons.IH [OF le this, of "Some (SegEnd s)" "fadd w (fsub (SegEnd s) (SegStart s))"] Cons.prems(3) ok
  show ?case by (simp add: Let_def)
qed auto

lemma splitPlannedFraction_range:
  assumes "splitPlannedFraction segs e = Some f"
  shows "0 \<le> f \<and> f \<le> 1"
proof -
  have "0 \<le> fdiv c w \<and> fdiv c w \<le> 1" if "\<not> c \<le> 0" "\<not> w \<le> c" for c w :: rat
    unfolding fdiv_def using that by (intro conjI binary64.nonneg binary64.le_one) auto
  then show ?thesis using assms
    by (auto simp: splitPlannedFraction_def split: if_splits option.splits prod.splits)
qed

lemma splitPlannedFraction_mono:
  assumes "x \<le> y" and "splitPlannedFraction segs x = Some f"
  shows "\<exists>g. splitPlannedFraction segs y = Some g \<and> f \<le> g"
proof -
  have ne: "segs \<noteq> []" using assms(2) by (auto simp: splitPlannedFraction_def)
  obtain c w where cw: "splitLoop x None 0 0 segs = Some (c, w)" "\<not> w \<le> 0"
    using assms(2) by (auto simp: splitPlannedFraction_def split: option.splits if_splits)
  obtain d where d: "splitLoop y None 0 0 segs = Some (d, w)" "c \<le> d"
    using splitLoop_mono [OF assms(1) _ _ cw(1), of 0] by auto
  have "fdiv c w \<le> fdiv d w" "c < w \<Longrightarrow> fdiv c w \<le> 1" "0 < d \<Longrightarrow> 0 \<le> fdiv d w"
    unfolding fdiv_def using d(2) cw(2)
    by (intro f64_mono divide_right_mono binary64.nonneg binary64.le_one, simp_all)+
  then show ?thesis using assms(2) ne cw d
    by (auto simp: splitPlannedFraction_def split: if_splits)
qed

lemma splitPlannedFraction_None:
  assumes "splitPlannedFraction segs x = None"
  shows "splitPlannedFraction segs y = None"
proof (rule ccontr)
  assume "splitPlannedFraction segs y \<noteq> None"
  then obtain g where g: "splitPlannedFraction segs y = Some g" by auto
  obtain c w where cw: "splitLoop y None 0 0 segs = Some (c, w)" "\<not> w \<le> 0" and ne: "segs \<noteq> []"
    using g by (auto simp: splitPlannedFraction_def split: option.splits if_splits)
  have "\<exists>d. splitLoop x None 0 0 segs = Some (d, w)"
  proof (cases "x \<le> y")
    case True
    show ?thesis
    proof (cases "splitLoop x None 0 0 segs")
      case None
      have "splitLoop x p a b segs = None \<longleftrightarrow> splitLoop y p a' b segs = None" for p a a' b
        by (induction segs arbitrary: p a a' b) (simp_all add: Let_def)
      with None cw show ?thesis by (metis option.discI)
    next
      case (Some r)
      obtain a v where "r = (a, v)" by fastforce
      with splitLoop_mono [OF True _ _ Some [unfolded \<open>r = (a, v)\<close>], of 0] Some cw show ?thesis by auto
    qed
  next
    case False
    then show ?thesis using splitLoop_mono [OF _ _ _ cw(1), of x 0] by auto
  qed
  then show False using assms cw(2) ne by (auto simp: splitPlannedFraction_def split: if_splits)
qed

lemma plannedFraction_range: "0 \<le> plannedFraction t d \<and> plannedFraction t d \<le> 1"
  using splitPlannedFraction_range
  by (auto simp: plannedFraction_def Let_def split: option.splits)

lemma plannedFraction_mono:
  assumes "x \<le> y"
  shows "plannedFraction t x \<le> plannedFraction t y"
proof (cases "Duration t \<le> 0")
  case False
  let ?ex = "fsub x (ES t)" and ?ey = "fsub y (ES t)"
  have e: "?ex \<le> ?ey" unfolding fsub_def using assms by (intro f64_mono) simp
  show ?thesis
  proof (cases "splitPlannedFraction (PlannedWorkSegments t) ?ex")
    case None
    have "fdiv ?ex (Duration t) \<le> fdiv ?ey (Duration t)"
      unfolding fdiv_def using e False by (intro f64_mono divide_right_mono) auto
    then show ?thesis using None splitPlannedFraction_None [OF None, of ?ey] False
      by (simp add: plannedFraction_def Let_def)
  next
    case (Some f)
    with splitPlannedFraction_mono [OF e Some] False show ?thesis by (auto simp: plannedFraction_def)
  qed
qed (use assms in \<open>auto simp: plannedFraction_def\<close>)

subsection \<open>Totals and derived figures\<close>

lemma accumulatedMinorUnits_eq:
  "accumulatedMinorUnits label (foldl Accumulator_Add newAccumulator xs) =
     (let n = sum_list (map MinorUnits xs) in if is_int64 n then Inr n else Inl (EvmOverflow label))"
  by (simp add: accumulatedMinorUnits_def Accumulator_Amount_def amountFromBigInt_def totals.value_sum Let_def)

lemma subtractMinorUnits_eq:
  "subtractMinorUnits label a b = (if is_int64 (a - b) then Inr (a - b) else Inl (EvmOverflow label))"
  by (simp add: subtractMinorUnits_def Amount_Sub_eq amountFromBigInt_def)

lemma ScaleByRatioChecked_eq:
  "ScaleByRatioChecked \<lparr>MinorUnits = n\<rparr> a b =
     (let r = (if b = 0 then 0 else math_Round (of_int n * of_int a / of_int b)) in
      if is_int64 r then Inr \<lparr>MinorUnits = r\<rparr> else Inl ErrOverflow)"
  using math_Round_of_int [of 0]
  by (auto simp: ScaleByRatioChecked_def amountFromBigInt_def roundedRat_eq_Round Let_def)

text \<open>Scaling by a positive ratio keeps the sign, so a number and its scaling never lie a full range apart.\<close>

lemma scaled_difference:
  assumes "is_int64 n" and "0 < a" and "0 < b" and "is_int64 (math_Round (of_int n * of_int a / of_int b))"
  shows "is_int64 (n - math_Round (of_int n * of_int a / of_int b))"
proof -
  let ?r = "math_Round (of_int n * of_int a / of_int b)"
  have "0 \<le> n \<Longrightarrow> 0 \<le> ?r"
    using math_Round_mono [of 0 "of_int n * of_int a / of_int b"] math_Round_of_int [of 0] assms(2,3) by simp
  moreover have "n < 0 \<Longrightarrow> ?r \<le> 0"
    using math_Round_mono [of "of_int n * of_int a / of_int b" 0] math_Round_of_int [of 0] assms(2,3)
    by (simp add: divide_le_0_iff mult_le_0_iff)
  ultimately show ?thesis using assms(1,4) by (simp add: is_int64_def MinInt64_def MaxInt64_def) linarith
qed

definition estimateAtCompletion :: "int \<Rightarrow> int \<Rightarrow> int \<Rightarrow> int" where
  "estimateAtCompletion bac ev ac = (if 0 < ev \<and> 0 < ac then math_Round (of_int bac * of_int ac / of_int ev) else bac)"

lemma variance_at_completion:
  assumes "is_int64 bac" and "is_int64 (estimateAtCompletion bac ev ac)"
  shows "is_int64 (bac - estimateAtCompletion bac ev ac)"
  using assms scaled_difference [of bac ac ev] by (auto simp: estimateAtCompletion_def)

subsection \<open>Properties\<close>

text \<open>
  C25. The project figures are exact. With the totals of budget, planned value, earned value
  and actual cost over all tasks, the variances are their differences and the estimate at
  completion is budget times actual cost over earned value, rounded half away from zero
  (the budget itself while nothing is earned or spent). The first figure that does not fit
  \<^verbatim>\<open>int64\<close> is reported, and the variance at completion never is: that guard is
  unreachable. Task rows come out sorted by identifier.
\<close>

theorem evm_exact:
  "let total = (\<lambda>f. sum_list (map (\<lambda>(k, t). MinorUnits (f t)) tasks));
       bac = total taskBudgetAmount; pv = total (taskPlannedValue asOfDay);
       ev = total taskEarnedValue; ac = total taskActualAmount; eac = estimateAtCompletion bac ev ac;
       figures = [(''BAC'', bac), (''PV'', pv), (''EV'', ev), (''AC'', ac), (''SV'', ev - pv),
                  (''CV'', ev - ac), (''EAC'', eac), (''ETC'', eac - ac)]
   in case ComputeEVM tasks asOfDay of
        Inl e \<Rightarrow> (\<exists>label. map EvmOverflow (map fst (filter (\<lambda>(l, n). \<not> is_int64 n) figures)) = e # label)
      | Inr m \<Rightarrow> list_all (\<lambda>(l, n). is_int64 n) figures
          \<and> evm_BACMinorUnits m = bac \<and> evm_PVMinorUnits m = pv \<and> evm_EVMinorUnits m = ev
          \<and> evm_ACMinorUnits m = ac \<and> evm_SVMinorUnits m = ev - pv \<and> evm_CVMinorUnits m = ev - ac
          \<and> evm_EACMinorUnits m = eac \<and> evm_ETCMinorUnits m = eac - ac
          \<and> evm_VACMinorUnits m = bac - eac \<and> is_int64 (evm_VACMinorUnits m)
          \<and> sorted (map ev_TaskID (evm_Tasks m))
          \<and> mset (evm_Tasks m) = mset (map (\<lambda>(k, t). taskEV asOfDay t) tasks)"
proof -
  define total where "total = (\<lambda>f :: Task \<Rightarrow> Amount. sum_list (map (\<lambda>(k, t). MinorUnits (f t)) tasks))"
  define bac where "bac = total taskBudgetAmount"
  define pv where "pv = total (taskPlannedValue asOfDay)"
  define ev where "ev = total taskEarnedValue"
  define ac where "ac = total taskActualAmount"
  define eac where "eac = estimateAtCompletion bac ev ac"
  note defs = bac_def [symmetric] pv_def [symmetric] ev_def [symmetric] ac_def [symmetric] eac_def [symmetric]
  have tot: "sum_list (map MinorUnits (map f (map snd tasks))) = total f" for f
    by (simp add: total_def comp_def split_def)
  have acc: "accumulatedMinorUnits l (foldl Accumulator_Add newAccumulator (map f (map snd tasks))) =
      (if is_int64 (total f) then Inr (total f) else Inl (EvmOverflow l))" for f l
    unfolding accumulatedMinorUnits_eq tot by (simp add: Let_def)
  have eacv: "(if ev > 0 \<and> ac > 0
            then (case ScaleByRatioChecked \<lparr>MinorUnits = bac\<rparr> ac ev of
                    Inl _ \<Rightarrow> Inl (EvmOverflow ''EAC'') | Inr eac \<Rightarrow> Inr (MinorUnits eac))
            else Inr bac) = (if is_int64 eac then Inr eac else Inl (EvmOverflow ''EAC''))" if "is_int64 bac"
    using that by (auto simp: eac_def estimateAtCompletion_def ScaleByRatioChecked_eq Let_def)
  have vac: "is_int64 (bac - eac)" if "is_int64 bac" "is_int64 eac"
    using variance_at_completion that by (simp add: eac_def)
  show ?thesis
    unfolding ComputeEVM_def Let_def acc subtractMinorUnits_eq total_def [symmetric] defs
    using vac eacv by (simp add: comp_def split_def)
qed

text \<open>
  A task's planned value moves with the calendar and stays within its budget: for a
  task whose budget is not negative, the planned fraction lies between zero and one, and a
  later status day never plans less value. Split tasks are no exception. Earned value stays
  within the budget as long as the progress lies between 0 and 100 percent.
\<close>

theorem evm_planned_value:
  assumes "0 \<le> MinorUnits (taskBudgetAmount t)" and "Amount_ok (taskBudgetAmount t)" and "x \<le> y"
    and "0 \<le> PercentComplete t" and "PercentComplete t \<le> 100"
  shows "0 \<le> MinorUnits (taskPlannedValue x t)
    \<and> MinorUnits (taskPlannedValue x t) \<le> MinorUnits (taskPlannedValue y t)
    \<and> MinorUnits (taskPlannedValue y t) \<le> MinorUnits (taskBudgetAmount t)
    \<and> 0 \<le> MinorUnits (taskEarnedValue t) \<and> MinorUnits (taskEarnedValue t) \<le> MinorUnits (taskBudgetAmount t)"
proof -
  have "fdiv (PercentComplete t) 100 \<le> 1" unfolding fdiv_def using assms(5) by (intro binary64.le_one) simp
  then show ?thesis unfolding taskPlannedValue_def taskEarnedValue_def
    using assms(1,2) plannedFraction_mono [OF assms(3), of t] plannedFraction_range [of t y]
    by (intro conjI RateTimesQuantity_nonneg RateTimesQuantity_mono RateTimesQuantity_le) simp_all
qed

definition split_task :: Task where
  "split_task = zeroTask\<lparr>ID := ''a'', Duration := 4, BudgetedCostMinorUnits := 1000, PercentComplete := 50,
     PlannedWorkSegments := [\<lparr>SegStart = 0, SegEnd = 2\<rparr>, \<lparr>SegStart = 5, SegEnd = 7\<rparr>]\<rparr>"

theorem evm_planned_value_witness:
  "0 \<le> MinorUnits (taskBudgetAmount split_task) \<and> Amount_ok (taskBudgetAmount split_task)
   \<and> MinorUnits (taskPlannedValue 2 split_task) = 500
   \<and> MinorUnits (taskPlannedValue 2 split_task) \<le> MinorUnits (taskPlannedValue 6 split_task)
   \<and> MinorUnits (taskEarnedValue split_task) \<le> MinorUnits (taskBudgetAmount split_task)"
proof -
  have 1: "0 \<le> MinorUnits (taskBudgetAmount split_task)" "Amount_ok (taskBudgetAmount split_task)"
    "0 \<le> PercentComplete split_task" "PercentComplete split_task \<le> 100"
    "MinorUnits (taskPlannedValue 2 split_task) = 500"
    by code_simp+
  have "(2::rat) \<le> 6" by simp
  from evm_planned_value [OF 1(1,2) this 1(3,4)] 1 show ?thesis by simp
qed

text \<open>
  The report does not depend on the iteration order of the task map.
\<close>

theorem evm_deterministic:
  assumes "wf_tasks tasks" and "mset tasks' = mset tasks"
  shows "ComputeEVM tasks' asOfDay = ComputeEVM tasks asOfDay"
proof -
  have tot: "sum_list (map MinorUnits (map f (map snd tasks'))) = sum_list (map MinorUnits (map f (map snd tasks)))" for f
    using assms(2) by (metis mset_map sum_mset_sum_list)
  have same: "b = b'" if "(a, b) \<in> set tasks" "(a', b') \<in> set tasks" "ID b = ID b'" for a b a' b'
  proof -
    have "a = ID b" "a' = ID b'" using assms(1) that by (auto simp: wf_tasks_def)
    with that show ?thesis using assms(1) eq_key_imp_eq_value [of tasks a b b'] by (simp add: wf_tasks_def)
  qed
  have inj: "inj_on ev_TaskID (set (map (taskEV asOfDay) (map snd tasks)))"
  proof (intro inj_onI)
    fix r r'
    assume r: "r \<in> set (map (taskEV asOfDay) (map snd tasks))" "r' \<in> set (map (taskEV asOfDay) (map snd tasks))"
      and id: "ev_TaskID r = ev_TaskID r'"
    from r obtain a b a' b' where m: "(a, b) \<in> set tasks" "(a', b') \<in> set tasks"
        "r = taskEV asOfDay b" "r' = taskEV asOfDay b'" by auto
    then have "ID b = ID b'" using id by (simp add: taskEV_def Let_def)
    with m same show "r = r'" by metis
  qed
  have "set tasks' = set tasks" using assms(2) by (metis set_mset_mset)
  then have sets: "set (map (taskEV asOfDay) (map snd tasks')) = set (map (taskEV asOfDay) (map snd tasks))" by simp
  have rows: "sort_key ev_TaskID (map (taskEV asOfDay) (map snd tasks'))
      = sort_key ev_TaskID (map (taskEV asOfDay) (map snd tasks))"
    by (rule sort_key_inj_key_eq) (use assms(2) inj sets in \<open>simp_all only: mset_map mset_sort sorted_sort_key\<close>)
  show ?thesis unfolding ComputeEVM_def Let_def accumulatedMinorUnits_eq tot rows ..
qed

theorem evm_deterministic_witness:
  "wf_tasks [(''a'', split_task), (''b'', split_task\<lparr>ID := ''b''\<rparr>)]
   \<and> ComputeEVM [(''b'', split_task\<lparr>ID := ''b''\<rparr>), (''a'', split_task)] 3
     = ComputeEVM [(''a'', split_task), (''b'', split_task\<lparr>ID := ''b''\<rparr>)] 3"
proof -
  have "wf_tasks [(''a'', split_task), (''b'', split_task\<lparr>ID := ''b''\<rparr>)]"
    by (simp add: wf_tasks_def split_task_def)
  moreover have "mset [(''b'', split_task\<lparr>ID := ''b''\<rparr>), (''a'', split_task)]
      = mset [(''a'', split_task), (''b'', split_task\<lparr>ID := ''b''\<rparr>)]" by simp
  ultimately show ?thesis using evm_deterministic by blast
qed

end
