(* ===== verification/Dates.thy ===== *)
theory Dates
  imports Prelude
begin

text \<open>
  What the kernel uses of Go's \<^verbatim>\<open>time\<close> package: calendar dates, read as midnight
  UTC (the project start and every constraint date come from \<^verbatim>\<open>time.Parse\<close> with the
  layout \<^verbatim>\<open>2006-01-02\<close>), \<^verbatim>\<open>AddDate(0, 0, 1)\<close>, \<^verbatim>\<open>Before\<close>,
  \<^verbatim>\<open>Format\<close> and \<^verbatim>\<open>Parse\<close>. Dates are linearly ordered, the next day is
  the least later date, and text and dates round-trip.
\<close>

datatype Date = Date (d_year: int) (d_month: int) (d_day: int)

instantiation Date :: linorder
begin

definition less_Date :: "Date \<Rightarrow> Date \<Rightarrow> bool" where
  "less_Date a b \<longleftrightarrow> d_year a < d_year b \<or> d_year a = d_year b \<and> (d_month a < d_month b \<or> d_month a = d_month b \<and> d_day a < d_day b)"

definition less_eq_Date :: "Date \<Rightarrow> Date \<Rightarrow> bool" where
  "less_eq_Date a b \<longleftrightarrow> d_year a < d_year b \<or> d_year a = d_year b \<and> (d_month a < d_month b \<or> d_month a = d_month b \<and> d_day a \<le> d_day b)"

instance
  by standard (auto simp: less_Date_def less_eq_Date_def intro: Date.expand)

end

subsection \<open>The calendar\<close>

definition is_leap :: "int \<Rightarrow> bool" where
  "is_leap y \<longleftrightarrow> y mod 4 = 0 \<and> (y mod 100 \<noteq> 0 \<or> y mod 400 = 0)"

definition daysIn :: "int \<Rightarrow> int \<Rightarrow> int" where
  "daysIn m y = (if m = 2 then (if is_leap y then 29 else 28)
                 else if m \<in> {4, 6, 9, 11} then 30 else 31)"

definition valid_date :: "Date \<Rightarrow> bool" where
  "valid_date d \<longleftrightarrow> 1 \<le> d_month d \<and> d_month d \<le> 12 \<and> 1 \<le> d_day d \<and> d_day d \<le> daysIn (d_month d) (d_year d)"

text \<open>\<^verbatim>\<open>AddDate(0, 0, 1)\<close>.\<close>

definition nextDay :: "Date \<Rightarrow> Date" where
  "nextDay d =
     (if d_day d < daysIn (d_month d) (d_year d) then Date (d_year d) (d_month d) (d_day d + 1)
      else if d_month d < 12 then Date (d_year d) (d_month d + 1) 1
      else Date (d_year d + 1) 1 1)"

subsection \<open>Text\<close>

definition pad :: "nat \<Rightarrow> string \<Rightarrow> string" where
  "pad w s = replicate (w - length s) (CHR ''0'') @ s"

text \<open>\<^verbatim>\<open>Format(DateLayout)\<close>, for years that are not negative.\<close>

definition FormatDate :: "Date \<Rightarrow> string" where
  "FormatDate d = pad 4 (format_nat (nat (d_year d))) @ ''-'' @ pad 2 (format_nat (nat (d_month d)))
     @ ''-'' @ pad 2 (format_nat (nat (d_day d)))"

text \<open>
  \<^verbatim>\<open>time.Parse(DateLayout, s)\<close>: four digits, two digits and two digits separated by
  hyphens and nothing else, a month from 1 to 12 and a day the month has.
\<close>

definition ParseDate :: "string \<Rightarrow> Date option" where
  "ParseDate s =
     (if length s = 10 \<and> s ! 4 = CHR ''-'' \<and> s ! 7 = CHR ''-''
         \<and> list_all is_digit (take 4 s) \<and> list_all is_digit (take 2 (drop 5 s)) \<and> list_all is_digit (drop 8 s)
      then (let d = Date (int (parse_nat (take 4 s))) (int (parse_nat (take 2 (drop 5 s)))) (int (parse_nat (drop 8 s)))
            in if valid_date d then Some d else None)
      else None)"

subsection \<open>Lemmas\<close>

lemma daysIn_bounds: "28 \<le> daysIn m y \<and> daysIn m y \<le> 31"
  by (simp add: daysIn_def)

lemma valid_nextDay [simp]: "valid_date d \<Longrightarrow> valid_date (nextDay d)"
  using daysIn_bounds [of "d_month d + 1" "d_year d"] daysIn_bounds [of 1 "d_year d + 1"]
  by (auto simp: valid_date_def nextDay_def)

lemma nextDay_greater: "valid_date d \<Longrightarrow> d < nextDay d"
  by (auto simp: nextDay_def less_Date_def valid_date_def)

text \<open>No date lies strictly between a day and the next.\<close>

lemma nextDay_least: "valid_date d \<Longrightarrow> valid_date e \<Longrightarrow> d < e \<Longrightarrow> nextDay d \<le> e"
  by (auto simp: nextDay_def less_Date_def less_eq_Date_def valid_date_def)

lemma is_digit_0 [simp]: "is_digit (CHR ''0'')"
  by (simp add: is_digit_def)

lemma digit_val_zero [simp]: "digit_val (CHR ''0'') = 0"
  by (simp add: digit_val_def)

lemma parse_nat_zeros: "parse_nat (replicate n (CHR ''0'') @ s) = parse_nat s"
proof -
  have "foldl (\<lambda>n c. 10 * n + digit_val c) 0 (replicate n (CHR ''0'')) = 0" by (induction n) simp_all
  then show ?thesis by (simp add: parse_nat_def)
qed

lemma parse_pad [simp]: "parse_nat (pad w (format_nat n)) = n"
  by (simp add: pad_def parse_nat_zeros)

lemma pad_digits: "list_all is_digit (pad w (format_nat n))"
  using format_nat_digits [of n] by (auto simp: pad_def list_all_iff)

lemma length_format_nat: "0 < w \<Longrightarrow> n < 10 ^ w \<Longrightarrow> length (format_nat n) \<le> w"
proof (induction n arbitrary: w rule: format_nat.induct)
  case (1 n)
  show ?case
  proof (cases "n < 10")
    case True
    with 1(2) show ?thesis by (simp add: format_nat.simps [of n])
  next
    case False
    then obtain v where v: "w = Suc v" "0 < v" using 1(2,3) by (cases w; cases "w - 1") auto
    then have "n div 10 < 10 ^ v" using 1(3) by (simp add: div_less_iff_less_mult mult.commute)
    with 1(1) [OF False v(2)] False v show ?thesis by (simp add: format_nat.simps [of n])
  qed
qed

lemma length_pad: "0 < w \<Longrightarrow> n < 10 ^ w \<Longrightarrow> length (pad w (format_nat n)) = w"
  using length_format_nat [of w n] by (simp add: pad_def)

lemma FormatDate_parts:
  assumes "valid_date d" and "0 \<le> d_year d" and "d_year d \<le> 9999"
  shows "length (pad 4 (format_nat (nat (d_year d)))) = 4"
    "length (pad 2 (format_nat (nat (d_month d)))) = 2" "length (pad 2 (format_nat (nat (d_day d)))) = 2"
proof -
  have "nat (d_year d) < 10 ^ 4" "nat (d_month d) < 10 ^ 2" "nat (d_day d) < 10 ^ 2"
    using assms daysIn_bounds [of "d_month d" "d_year d"] by (auto simp: valid_date_def)
  then show "length (pad 4 (format_nat (nat (d_year d)))) = 4"
    "length (pad 2 (format_nat (nat (d_month d)))) = 2" "length (pad 2 (format_nat (nat (d_day d)))) = 2"
    by (simp_all add: length_pad)
qed

lemma ParseDate_Format:
  assumes "valid_date d" and "0 \<le> d_year d" and "d_year d \<le> 9999"
  shows "ParseDate (FormatDate d) = Some d"
proof -
  note len = FormatDate_parts [OF assms]
  have "1 \<le> d_month d" "1 \<le> d_day d" using assms(1) by (auto simp: valid_date_def)
  then show ?thesis using assms(1,2) len pad_digits
    by (simp add: ParseDate_def FormatDate_def Let_def nth_append)
qed

lemma parse_nat_less: "list_all is_digit s \<Longrightarrow> parse_nat s < 10 ^ length s"
proof (induction s rule: rev_induct)
  case (snoc c s)
  then have "parse_nat s < 10 ^ length s" "digit_val c < 10" by simp_all
  then show ?case by simp
qed simp

lemma ParseDate_valid: "ParseDate s = Some d \<Longrightarrow> valid_date d \<and> 0 \<le> d_year d \<and> d_year d \<le> 9999"
  using parse_nat_less [of "take 4 s"] by (auto simp: ParseDate_def Let_def split: if_splits)

end
