(* ===== verification/Anchor.thy ===== *)
theory Anchor
  imports Dates TaskModel
begin

text \<open>
  From working-day offsets to calendar dates and back:
  \<^verbatim>\<open>internal/kernel/anchor.go\<close>, and the comparison with a baseline of
  \<^verbatim>\<open>internal/kernel/baseline.go\<close>. The working calendar is the injected predicate
  the source takes. The lemmas show that the walk visits exactly the working days in order,
  that no date is read outside the table, and that \<^verbatim>\<open>DayOffset\<close> inverts the walk.
\<close>

type_synonym WorkdayFunc = "Date \<Rightarrow> bool"

definition maxNonWorkdayRun :: nat where "maxNonWorkdayRun = 366"

subsection \<open>Model: offsets\<close>

definition startOffset :: "Task \<Rightarrow> int" where
  "startOffset t = (let s = math_Round (ES t) in if s < 0 then 0 else s)"

definition finishOffset :: "Task \<Rightarrow> int" where
  "finishOffset t = (let s = startOffset t; f = math_Ceil (EF t) - 1 in if f < s then s else f)"

subsection \<open>Model: the walk\<close>

text \<open>The loop \<^verbatim>\<open>for !isWorkday(d) && run < maxNonWorkdayRun\<close>, with the rounds it has left.\<close>

fun skipLoop :: "WorkdayFunc \<Rightarrow> nat \<Rightarrow> Date \<Rightarrow> Date" where
  "skipLoop isWorkday 0 d = d"
| "skipLoop isWorkday (Suc run) d = (if isWorkday d then d else skipLoop isWorkday run (nextDay d))"

definition skipNonWorkdays :: "WorkdayFunc \<Rightarrow> Date \<Rightarrow> Date" where
  "skipNonWorkdays isWorkday d = skipLoop isWorkday maxNonWorkdayRun d"

text \<open>\<open>walkDates\<close> continues the table from its last date for the given number of entries.\<close>

fun walkDates :: "WorkdayFunc \<Rightarrow> nat \<Rightarrow> Date \<Rightarrow> Date list" where
  "walkDates isWorkday 0 d = [d]"
| "walkDates isWorkday (Suc n) d = d # walkDates isWorkday n (skipNonWorkdays isWorkday (nextDay d))"

definition effectiveWorkday :: "WorkdayFunc option \<Rightarrow> WorkdayFunc" where
  "effectiveWorkday isWorkday = (case isWorkday of None \<Rightarrow> (\<lambda>_. True) | Some f \<Rightarrow> f)"

definition maxFinishOffset :: "Tasks \<Rightarrow> int" where
  "maxFinishOffset tasks = foldl (\<lambda>m (k, t). let f = finishOffset t in if f > m then f else m) 0 tasks"

text \<open>\<^verbatim>\<open>dates[i]\<close>; \<open>None\<close> is the panic of an index out of range.\<close>

definition dateAt :: "Date list \<Rightarrow> int \<Rightarrow> Date option" where
  "dateAt dates i = (if 0 \<le> i \<and> i < int (length dates) then Some (dates ! nat i) else None)"

definition anchorTask :: "Date list \<Rightarrow> Task \<Rightarrow> Task option" where
  "anchorTask dates t =
     (case (dateAt dates (startOffset t), dateAt dates (finishOffset t)) of
        (Some s, Some f) \<Rightarrow> Some (t\<lparr>StartDate := FormatDate s, FinishDate := FormatDate f\<rparr>)
      | _ \<Rightarrow> None)"

fun anchorTasks :: "Date list \<Rightarrow> Tasks \<Rightarrow> Tasks option" where
  "anchorTasks dates [] = Some []"
| "anchorTasks dates ((k, t) # ts) =
     (case anchorTask dates t of None \<Rightarrow> None
      | Some t' \<Rightarrow> (case anchorTasks dates ts of None \<Rightarrow> None | Some ts' \<Rightarrow> Some ((k, t') # ts')))"

definition AnchorSchedule :: "Tasks \<Rightarrow> Date \<Rightarrow> WorkdayFunc option \<Rightarrow> Tasks option" where
  "AnchorSchedule tasks projectStart isWorkday0 =
     (if tasks = [] then Some []
      else
        (let isWorkday = effectiveWorkday isWorkday0;
             maxOffset = maxFinishOffset tasks;
             dates = walkDates isWorkday (nat maxOffset) (skipNonWorkdays isWorkday projectStart)
         in anchorTasks dates tasks))"

subsection \<open>Model: from a date to an offset\<close>

fun dayOffsetLoop :: "WorkdayFunc \<Rightarrow> Date \<Rightarrow> nat \<Rightarrow> Date \<Rightarrow> int \<Rightarrow> float64 option" where
  "dayOffsetLoop isWorkday date 0 d offset = None"
| "dayOffsetLoop isWorkday date (Suc i) d offset =
     (if \<not> d < date then Some (float_of_int offset)
      else dayOffsetLoop isWorkday date i (skipNonWorkdays isWorkday (nextDay d)) (offset + 1))"

definition DayOffset :: "Date \<Rightarrow> Date \<Rightarrow> WorkdayFunc option \<Rightarrow> float64 option" where
  "DayOffset projectStart date isWorkday0 =
     (let isWorkday = effectiveWorkday isWorkday0 in
      dayOffsetLoop isWorkday date 100000 (skipNonWorkdays isWorkday projectStart) 0)"

definition applyConstraintDate :: "Date \<Rightarrow> WorkdayFunc option \<Rightarrow> Task \<Rightarrow> Task" where
  "applyConstraintDate projectStart isWorkday t0 =
     (let t = t0\<lparr>ConstraintArmed := False\<rparr> in
      if Constraint t \<notin> {StartNoEarlierThan, FinishNoLaterThan, MustFinishOn} then t
      else case ParseDate (ConstraintDate t) of
        None \<Rightarrow> t
      | Some date \<Rightarrow>
          (case DayOffset projectStart date isWorkday of
             None \<Rightarrow> t
           | Some day \<Rightarrow>
               (let day' = (if Constraint t = FinishNoLaterThan \<or> Constraint t = MustFinishOn then fadd day 1 else day)
                in t\<lparr>ConstraintDay := day', ConstraintArmed := True\<rparr>)))"

definition ApplyConstraintDates :: "Tasks \<Rightarrow> Date \<Rightarrow> WorkdayFunc option \<Rightarrow> Tasks" where
  "ApplyConstraintDates tasks projectStart isWorkday = map_vals (applyConstraintDate projectStart isWorkday) tasks"

subsection \<open>Model: comparison with a baseline\<close>

record ScheduleVariance =
  sv_TaskID :: string
  sv_BaselineStart :: string
  sv_BaselineFinish :: string
  sv_StartVarDays :: float64
  sv_FinishVarDays :: float64

definition CompareSchedules :: "Tasks \<Rightarrow> Tasks \<Rightarrow> (string \<times> ScheduleVariance) list" where
  "CompareSchedules current baseline =
     List.map_filter (\<lambda>(id, cur). case map_of baseline id of
         None \<Rightarrow> None
       | Some base \<Rightarrow> Some (id, \<lparr>sv_TaskID = id, sv_BaselineStart = StartDate base, sv_BaselineFinish = FinishDate base,
           sv_StartVarDays = fsub (ES cur) (ES base), sv_FinishVarDays = fsub (EF cur) (EF base)\<rparr>)) current"

subsection \<open>The working days as a sequence\<close>

text \<open>The \<open>n\<close>-th working day on or after the start, the specification of both directions.\<close>

fun workdayAt :: "WorkdayFunc \<Rightarrow> Date \<Rightarrow> nat \<Rightarrow> Date" where
  "workdayAt isWorkday start 0 = skipNonWorkdays isWorkday start"
| "workdayAt isWorkday start (Suc n) = skipNonWorkdays isWorkday (nextDay (workdayAt isWorkday start n))"

lemma walkDates_length [simp]: "length (walkDates w n d) = Suc n"
  by (induction n arbitrary: d) simp_all

lemma walkDates_nth: "i \<le> n \<Longrightarrow> walkDates w n (workdayAt w start k) ! i = workdayAt w start (k + i)"
proof (induction n arbitrary: k i)
  case (Suc n)
  show ?case
  proof (cases i)
    case (Suc j)
    with Suc.IH [of j "Suc k"] Suc.prems show ?thesis by simp
  qed simp
qed simp

lemma skipLoop_valid: "valid_date d \<Longrightarrow> valid_date (skipLoop w n d) \<and> d \<le> skipLoop w n d"
proof (induction n arbitrary: d)
  case (Suc n)
  have "valid_date (nextDay d)" "d < nextDay d" using Suc.prems nextDay_greater by auto
  with Suc.IH [of "nextDay d"] show ?case using Suc.prems by (auto intro: order.trans less_imp_le)
qed simp

lemma skipLoop_none_between: "valid_date d \<Longrightarrow> valid_date e \<Longrightarrow> d \<le> e \<Longrightarrow> e < skipLoop w n d \<Longrightarrow> \<not> w e"
proof (induction n arbitrary: d)
  case (Suc n)
  show ?case
  proof (cases "w d")
    case False
    show ?thesis
    proof (cases "d = e")
      case True
      with False show ?thesis by simp
    next
      case ne: False
      with Suc.prems have "nextDay d \<le> e" by (intro nextDay_least) auto
      with Suc.IH [of "nextDay d"] Suc.prems False show ?thesis by simp
    qed
  qed (use Suc.prems in auto)
qed auto

lemma workdayAt_valid: "valid_date start \<Longrightarrow> valid_date (workdayAt w start n)"
  by (induction n) (simp_all add: skipNonWorkdays_def skipLoop_valid)

lemma workdayAt_Suc: "valid_date start \<Longrightarrow> workdayAt w start n < workdayAt w start (Suc n)"
  using skipLoop_valid [of "nextDay (workdayAt w start n)"] nextDay_greater [OF workdayAt_valid [of start w n]]
    workdayAt_valid [of start w n]
  by (simp add: skipNonWorkdays_def) (meson less_le_trans)

lemma workdayAt_mono: "valid_date start \<Longrightarrow> m \<le> n \<Longrightarrow> workdayAt w start m \<le> workdayAt w start n"
  by (rule lift_Suc_mono_le) (auto intro: less_imp_le workdayAt_Suc simp del: workdayAt.simps)

lemma workdayAt_strict: "valid_date start \<Longrightarrow> m < n \<Longrightarrow> workdayAt w start m < workdayAt w start n"
  by (rule lift_Suc_mono_less) (auto intro: workdayAt_Suc simp del: workdayAt.simps)

text \<open>
  A calendar that works at least one day in any 366: then the walk lands on working days
  only, and no working day is skipped.
\<close>

definition works_within_year :: "WorkdayFunc \<Rightarrow> bool" where
  "works_within_year w \<longleftrightarrow> (\<forall>d. valid_date d \<longrightarrow> (\<exists>n \<le> maxNonWorkdayRun. w ((nextDay ^^ n) d)))"

lemma skipLoop_lands: "w ((nextDay ^^ n) d) \<Longrightarrow> n \<le> m \<Longrightarrow> w (skipLoop w m d)"
proof (induction m arbitrary: d n)
  case (Suc m)
  show ?case
  proof (cases "w d")
    case False
    with Suc.prems obtain k where k: "n = Suc k" by (cases n) auto
    then have "w ((nextDay ^^ k) (nextDay d))" using Suc.prems(1) by (simp add: funpow_swap1)
    with Suc.IH [of k "nextDay d"] Suc.prems(2) k False show ?thesis by simp
  qed simp
qed simp

lemma workdayAt_works: "works_within_year w \<Longrightarrow> valid_date start \<Longrightarrow> w (workdayAt w start n)"
proof (cases n)
  case 0
  assume "works_within_year w" "valid_date start"
  with 0 show ?thesis unfolding works_within_year_def by (auto simp: skipNonWorkdays_def intro: skipLoop_lands)
next
  case (Suc m)
  assume "works_within_year w" "valid_date start"
  then have "valid_date (nextDay (workdayAt w start m))" by (simp add: workdayAt_valid)
  with \<open>works_within_year w\<close> Suc show ?thesis
    unfolding works_within_year_def by (auto simp: skipNonWorkdays_def intro: skipLoop_lands)
qed

lemma workdayAt_consecutive:
  assumes "valid_date start" and "valid_date e" and "workdayAt w start n < e" and "e < workdayAt w start (Suc n)"
  shows "\<not> w e"
proof (rule skipLoop_none_between)
  have v: "valid_date (workdayAt w start n)" using assms(1) by (rule workdayAt_valid)
  then show "valid_date (nextDay (workdayAt w start n))" by simp
  show "nextDay (workdayAt w start n) \<le> e" using v assms(2,3) by (rule nextDay_least)
  show "e < skipLoop w maxNonWorkdayRun (nextDay (workdayAt w start n))"
    using assms(4) by (simp add: skipNonWorkdays_def)
qed (rule assms(2))

subsection \<open>The date table is never read out of range\<close>

lemma startOffset_nonneg: "0 \<le> startOffset t"
  by (simp add: startOffset_def Let_def)

lemma start_le_finish: "startOffset t \<le> finishOffset t"
  by (simp add: finishOffset_def Let_def)

lemma finish_le_max: "(k, t) \<in> set tasks \<Longrightarrow> finishOffset t \<le> maxFinishOffset tasks"
proof -
  assume "(k, t) \<in> set tasks"
  then have "finishOffset t \<le> foldl (\<lambda>m (k, t). let f = finishOffset t in if f > m then f else m) a tasks" for a
  proof (induction tasks arbitrary: a rule: rev_induct)
    case (snoc x xs)
    then show ?case by (fastforce simp: Let_def split: prod.splits)
  qed simp
  then show ?thesis by (simp add: maxFinishOffset_def)
qed

definition anchored :: "WorkdayFunc \<Rightarrow> Date \<Rightarrow> Task \<Rightarrow> Task" where
  "anchored w start t = t\<lparr>StartDate := FormatDate (workdayAt w start (nat (startOffset t))),
     FinishDate := FormatDate (workdayAt w start (nat (finishOffset t)))\<rparr>"

lemma AnchorSchedule_eq: "AnchorSchedule tasks start w = Some (map_vals (anchored (effectiveWorkday w) start) tasks)"
proof (cases "tasks = []")
  case False
  let ?w = "effectiveWorkday w" and ?m = "maxFinishOffset tasks"
  let ?dates = "walkDates ?w (nat ?m) (skipNonWorkdays ?w start)"
  have at: "dateAt ?dates i = Some (workdayAt ?w start (nat i))" if "0 \<le> i" "i \<le> ?m" for i
    using that walkDates_nth [of "nat i" "nat ?m" ?w start 0] by (simp add: dateAt_def)
  have one: "anchorTask ?dates t = Some (anchored ?w start t)" if "finishOffset t \<le> ?m" for t
    using that at [of "startOffset t"] at [of "finishOffset t"] startOffset_nonneg [of t] start_le_finish [of t]
    by (simp add: anchorTask_def anchored_def)
  have "anchorTasks ?dates ts = Some (map_vals (anchored ?w start) ts)"
    if "\<And>k t. (k, t) \<in> set ts \<Longrightarrow> finishOffset t \<le> ?m" for ts
    using that
  proof (induction ts)
    case (Cons x ts)
    obtain k t where x: "x = (k, t)" by fastforce
    have "finishOffset t \<le> ?m" using Cons.prems [of k t] by (simp add: x)
    moreover have "anchorTasks ?dates ts = Some (map_vals (anchored ?w start) ts)"
      by (rule Cons.IH) (use Cons.prems in auto)
    ultimately show ?case by (simp add: x map_vals_def one)
  qed (simp add: map_vals_def)
  then show ?thesis using False finish_le_max by (simp add: AnchorSchedule_def Let_def)
qed (simp add: AnchorSchedule_def map_vals_def)

subsection \<open>Offsets of dates\<close>

lemma dayOffsetLoop_Some:
  "dayOffsetLoop w date fuel (workdayAt w start k) (int k) = Some x \<longleftrightarrow>
     (\<exists>n. k \<le> n \<and> n < k + fuel \<and> x = float_of_int (int n) \<and> date \<le> workdayAt w start n
        \<and> (\<forall>m. k \<le> m \<and> m < n \<longrightarrow> workdayAt w start m < date))"
proof (induction fuel arbitrary: k)
  case (Suc fuel)
  show ?case
  proof (cases "workdayAt w start k < date")
    case True
    have "dayOffsetLoop w date (Suc fuel) (workdayAt w start k) (int k)
        = dayOffsetLoop w date fuel (workdayAt w start (Suc k)) (int (Suc k))"
      using True by (simp add: algebra_simps)
    moreover have "(\<exists>n. Suc k \<le> n \<and> n < Suc k + fuel \<and> x = float_of_int (int n) \<and> date \<le> workdayAt w start n
        \<and> (\<forall>m. Suc k \<le> m \<and> m < n \<longrightarrow> workdayAt w start m < date))
      \<longleftrightarrow> (\<exists>n. k \<le> n \<and> n < k + Suc fuel \<and> x = float_of_int (int n) \<and> date \<le> workdayAt w start n
        \<and> (\<forall>m. k \<le> m \<and> m < n \<longrightarrow> workdayAt w start m < date))" (is "?L \<longleftrightarrow> ?R")
    proof
      show "?L \<Longrightarrow> ?R" using True by (elim exE) (metis add_Suc_right add_Suc Suc_leD le_antisym not_less_eq_eq)
      show "?R \<Longrightarrow> ?L" using True by (elim exE) (metis add_Suc_right add_Suc le_eq_less_or_eq linorder_not_less not_less_eq_eq Suc_leI Suc_leD)
    qed
    ultimately show ?thesis using Suc.IH [of "Suc k"] by (simp only:)
  next
    case False
    then show ?thesis by (auto intro: exI [of _ k] dest: spec [of _ k] simp: le_less)
  qed
qed auto

lemma float_of_int_small: "n < 100000 \<Longrightarrow> float_of_int (int n) = of_nat n"
  unfolding float_of_int_def by (subst binary64.exact) auto

lemma DayOffset_iff:
  "DayOffset start date w = Some x \<longleftrightarrow>
     (\<exists>n. n < 100000 \<and> x = of_nat n \<and> date \<le> workdayAt (effectiveWorkday w) start n
        \<and> (\<forall>m. m < n \<longrightarrow> workdayAt (effectiveWorkday w) start m < date))"
  unfolding DayOffset_def Let_def
  using dayOffsetLoop_Some [of "effectiveWorkday w" date 100000 start 0 x] float_of_int_small by auto

subsection \<open>Properties\<close>

text \<open>
  C27. Anchoring never reads outside its date table. Every task receives the text of the
  working day at its start offset and of the working day at its finish offset, in that
  order; both are working days, no working day between the project start and a task's dates
  is left out of the count, nothing else of the task changes, and while the years have four
  digits the texts parse back to these dates.
\<close>

theorem anchor_dates:
  assumes "valid_date start" and "works_within_year (effectiveWorkday w)" and "map_of tasks k = Some t"
  shows "\<exists>out s f. AnchorSchedule tasks start w = Some out \<and> map fst out = map fst tasks
    \<and> map_of out k = Some (t\<lparr>StartDate := FormatDate s, FinishDate := FormatDate f\<rparr>)
    \<and> s = workdayAt (effectiveWorkday w) start (nat (startOffset t))
    \<and> f = workdayAt (effectiveWorkday w) start (nat (finishOffset t))
    \<and> s \<le> f \<and> effectiveWorkday w s \<and> effectiveWorkday w f
    \<and> (\<forall>n e. valid_date e \<and> workdayAt (effectiveWorkday w) start n < e
         \<and> e < workdayAt (effectiveWorkday w) start (Suc n) \<longrightarrow> \<not> effectiveWorkday w e)
    \<and> (0 \<le> d_year f \<and> d_year f \<le> 9999 \<longrightarrow> ParseDate (FormatDate f) = Some f)"
proof (intro exI conjI)
  let ?w = "effectiveWorkday w"
  let ?f = "workdayAt ?w start (nat (finishOffset t))"
  show "AnchorSchedule tasks start w = Some (map_vals (anchored ?w start) tasks)" by (rule AnchorSchedule_eq)
  show "map_of (map_vals (anchored ?w start) tasks) k
      = Some (t\<lparr>StartDate := FormatDate (workdayAt ?w start (nat (startOffset t))), FinishDate := FormatDate ?f\<rparr>)"
    using assms(3) by (simp add: map_of_map_vals anchored_def)
  show "workdayAt ?w start (nat (startOffset t)) \<le> ?f"
    using assms(1) start_le_finish [of t] by (intro workdayAt_mono) auto
  show "?w (workdayAt ?w start (nat (startOffset t)))" "?w ?f" by (rule workdayAt_works [OF assms(2,1)])+
  show "\<forall>n e. valid_date e \<and> workdayAt ?w start n < e \<and> e < workdayAt ?w start (Suc n) \<longrightarrow> \<not> ?w e"
    using workdayAt_consecutive [OF assms(1)] by blast
  show "0 \<le> d_year ?f \<and> d_year ?f \<le> 9999 \<longrightarrow> ParseDate (FormatDate ?f) = Some ?f"
    using ParseDate_Format workdayAt_valid [OF assms(1)] by blast
qed simp_all

lemma always_works: "works_within_year (\<lambda>_. True)"
  by (auto simp: works_within_year_def)

definition anchor_task :: Task where
  "anchor_task = zeroTask\<lparr>ID := ''a'', Duration := 2, ES := 1, EF := 3\<rparr>"

theorem anchor_dates_witness:
  "valid_date (Date 2026 12 30) \<and> works_within_year (effectiveWorkday None)
   \<and> (\<exists>out. AnchorSchedule [(''a'', anchor_task)] (Date 2026 12 30) None = Some out
        \<and> map_of out ''a'' = Some (anchor_task\<lparr>StartDate := ''2026-12-31'', FinishDate := ''2027-01-01''\<rparr>))"
proof -
  have v: "valid_date (Date 2026 12 30)" by code_simp
  have y: "works_within_year (effectiveWorkday None)" using always_works by (simp add: effectiveWorkday_def)
  have m: "map_of [(''a'', anchor_task)] ''a'' = Some anchor_task" by simp
  have d: "FormatDate (workdayAt (effectiveWorkday None) (Date 2026 12 30) (nat (startOffset anchor_task))) = ''2026-12-31''"
    "FormatDate (workdayAt (effectiveWorkday None) (Date 2026 12 30) (nat (finishOffset anchor_task))) = ''2027-01-01''"
    by code_simp+
  from anchor_dates [OF v y m] obtain out where "AnchorSchedule [(''a'', anchor_task)] (Date 2026 12 30) None = Some out"
    "map_of out ''a'' = Some (anchor_task\<lparr>StartDate := ''2026-12-31'', FinishDate := ''2027-01-01''\<rparr>)"
    using d by metis
  with v y show ?thesis by blast
qed

text \<open>
  \<^const>\<open>DayOffset\<close> is the inverse of the anchoring: the working day at offset
  \<open>n\<close> has offset \<open>n\<close>, for every offset below the limit of 100000; and any other date
  has the offset of the first working day that is not before it.
\<close>

theorem dayoffset_inverse:
  assumes "valid_date start" and "n < 100000"
  shows "DayOffset start (workdayAt (effectiveWorkday w) start n) w = Some (of_nat n)
    \<and> (\<forall>date. date \<le> workdayAt (effectiveWorkday w) start n \<and> (n = 0 \<or> workdayAt (effectiveWorkday w) start (n - 1) < date)
         \<longleftrightarrow> DayOffset start date w = Some (of_nat n))"
proof -
  let ?at = "workdayAt (effectiveWorkday w) start"
  have least: "(\<forall>m. m < n \<longrightarrow> ?at m < date) \<longleftrightarrow> n = 0 \<or> ?at (n - 1) < date" for date
  proof (cases n)
    case (Suc k)
    have "?at m < date" if "?at k < date" "m < n" for m
      using that Suc workdayAt_mono [OF assms(1), of m k] by (meson le_less_trans less_Suc_eq_le)
    with Suc show ?thesis by auto
  qed simp
  have iff: "DayOffset start date w = Some (of_nat n) \<longleftrightarrow> date \<le> ?at n \<and> (n = 0 \<or> ?at (n - 1) < date)" for date
    unfolding DayOffset_iff least [symmetric] using assms(2) by auto
  moreover have "DayOffset start (?at n) w = Some (of_nat n)"
    unfolding iff using workdayAt_strict [OF assms(1), of "n - 1" n "effectiveWorkday w"] by (cases n) auto
  ultimately show ?thesis by blast
qed

theorem dayoffset_inverse_witness:
  "valid_date (Date 2026 12 30) \<and> DayOffset (Date 2026 12 30) (Date 2027 1 1) None = Some 2"
proof -
  have v: "valid_date (Date 2026 12 30)" by code_simp
  have d: "workdayAt (effectiveWorkday None) (Date 2026 12 30) 2 = Date 2027 1 1" by code_simp
  have "(2::nat) < 100000" by simp
  from dayoffset_inverse [OF v this, of None] v show ?thesis by (simp add: d)
qed

text \<open>
  A comparison with a baseline reports exactly the tasks present in both schedules,
  each once, with the slip of its start and finish and the baseline's dates.
\<close>

theorem compare_schedules:
  "map_of (CompareSchedules current baseline) k =
     (case (map_of current k, map_of baseline k) of
        (Some c, Some b) \<Rightarrow> Some \<lparr>sv_TaskID = k, sv_BaselineStart = StartDate b, sv_BaselineFinish = FinishDate b,
           sv_StartVarDays = fsub (ES c) (ES b), sv_FinishVarDays = fsub (EF c) (EF b)\<rparr>
      | _ \<Rightarrow> None)"
  unfolding CompareSchedules_def
  by (induction current) (auto simp: List.map_filter_def split: option.splits)

end
