(* ===== verification/Resources.thy ===== *)
theory Resources
  imports TaskModel
begin

text \<open>
  Resource demand and capacity: the first half of \<^verbatim>\<open>internal/kernel/resources.go\<close>.
  Assignments, capacity plans with calendars, the per-day usage profiles, and the detection
  of overallocations with its participant index (a sweep over enter and leave events with a
  swap-remove set). The lemmas show that the sweep reports exactly the participants a scan
  of every task would, and that none of its array accesses is out of range.
\<close>

subsection \<open>Model: capacity\<close>

definition effectiveUnits :: "Assignment \<Rightarrow> float64" where
  "effectiveUnits a =
     (let units = (if Units a \<le> 0 then 1 else Units a) in
      if MaxUnits a > 0 \<and> units > MaxUnits a then MaxUnits a else units)"

record ResourceCalendar =
  cal_ID :: string
  cal_Resource :: string
  cal_DefaultCapacity :: float64
  cal_Overrides :: "(int \<times> float64) list"
  cal_WeeklyCapacity :: "(int \<times> float64) list"
  cal_Notes :: "(int \<times> string) list"
  cal_SkillTags :: "string list"
  cal_Metadata :: "(string \<times> string) list"

record ResourceCapacityPlan =
  plan_DefaultCapacity :: float64
  plan_Capacities :: "(string \<times> float64) list"
  plan_Calendars :: "(string \<times> ResourceCalendar) list"

definition capacityPlanFromMap :: "(string \<times> float64) list \<Rightarrow> ResourceCapacityPlan" where
  "capacityPlanFromMap capacities =
     \<lparr>plan_DefaultCapacity = 1, plan_Capacities = capacities, plan_Calendars = []\<rparr>"

definition baseCapacity :: "ResourceCapacityPlan \<Rightarrow> string \<Rightarrow> float64" where
  "baseCapacity p resource =
     (let defaultCapacity = (if plan_DefaultCapacity p \<le> 0 then 1 else plan_DefaultCapacity p) in
      case map_of (plan_Capacities p) resource of
        None \<Rightarrow> defaultCapacity
      | Some c \<Rightarrow> (if c > 0 then c else defaultCapacity))"

definition capacityFromCalendar :: "ResourceCapacityPlan \<Rightarrow> ResourceCalendar \<Rightarrow> float64 \<Rightarrow> int \<Rightarrow> float64" where
  "capacityFromCalendar p cal fallback day =
     (let c0 = (if cal_DefaultCapacity cal > 0 then cal_DefaultCapacity cal else fallback);
          weekday0 = day smod 7;
          weekday = (if weekday0 < 0 then weekday0 + 7 else weekday0);
          c1 = (case map_of (cal_WeeklyCapacity cal) weekday of
                  None \<Rightarrow> c0 | Some c \<Rightarrow> (if c \<ge> 0 then c else c0))
      in case map_of (cal_Overrides cal) day of None \<Rightarrow> c1 | Some c \<Rightarrow> (if c \<ge> 0 then c else c1))"

definition capacityFor :: "ResourceCapacityPlan \<Rightarrow> string \<Rightarrow> int \<Rightarrow> float64" where
  "capacityFor p resource day =
     (let capacity = baseCapacity p resource in
      case map_of (plan_Calendars p) resource of
        None \<Rightarrow> capacity | Some cal \<Rightarrow> capacityFromCalendar p cal capacity day)"

definition capacityForAssignment :: "ResourceCapacityPlan \<Rightarrow> Assignment \<Rightarrow> int \<Rightarrow> float64" where
  "capacityForAssignment p a day =
     (let capacity = baseCapacity p (Resource a) in
      if CalendarID a \<noteq> [] then
        (case map_of (plan_Calendars p) (CalendarID a) of
           None \<Rightarrow> capacityFor p (Resource a) day
         | Some cal \<Rightarrow> capacityFromCalendar p cal capacity day)
      else capacityFor p (Resource a) day)"

subsection \<open>Model: occupied days and usage\<close>

text \<open>\<open>None\<close> when the task occupies no day.\<close>

definition taskSpan :: "Task \<Rightarrow> (int \<times> int) option" where
  "taskSpan t =
     (if Duration t \<le> 0 then None
      else (let firstDay = math_Round (ES t); lastDay = math_Ceil (EF t) - 1 in
            Some (firstDay, if lastDay < firstDay then firstDay else lastDay)))"

definition occupiedDays :: "Task \<Rightarrow> int list" where
  "occupiedDays t =
     (if WorkDays t \<noteq> [] then WorkDays t
      else case taskSpan t of None \<Rightarrow> [] | Some (firstDay, lastDay) \<Rightarrow> [firstDay..lastDay])"

type_synonym Profiles = "(string \<times> float64 list) list"

definition usageHorizon :: "Tasks \<Rightarrow> int" where
  "usageHorizon tasks = foldl (\<lambda>h (k, t). case taskSpan t of
       None \<Rightarrow> h | Some (firstDay, lastDay) \<Rightarrow> (if lastDay + 1 > h then lastDay + 1 else h)) 0 tasks"

text \<open>\<^verbatim>\<open>profile[d] += units\<close> on the days of the list that lie inside the profile.\<close>

definition addUnits :: "float64 \<Rightarrow> int list \<Rightarrow> float64 list \<Rightarrow> float64 list" where
  "addUnits units days profile =
     foldl (\<lambda>p d. if d \<ge> 0 \<and> d < int (length p) then p[nat d := fadd (p ! nat d) units] else p) profile days"

definition addAssignment :: "int \<Rightarrow> int list \<Rightarrow> Profiles \<Rightarrow> Assignment \<Rightarrow> Profiles" where
  "addAssignment horizon od usage a =
     (if Resource a = [] then usage
      else case map_of usage (Resource a) of
             None \<Rightarrow> usage @ [(Resource a, addUnits (effectiveUnits a) od (replicate (nat horizon) 0))]
           | Some profile \<Rightarrow> modify_at (Resource a) (\<lambda>p. addUnits (effectiveUnits a) od p) usage)"

definition addTask :: "int \<Rightarrow> Profiles \<Rightarrow> Task \<Rightarrow> Profiles" where
  "addTask horizon usage t =
     (let od = occupiedDays t in
      if od = [] then usage else foldl (addAssignment horizon od) usage (Assignments t))"

definition ResourceUsage :: "Tasks \<Rightarrow> Profiles" where
  "ResourceUsage tasks = foldl (addTask (usageHorizon tasks)) [] (map snd tasks)"

definition ResourceCapacityProfiles :: "ResourceCapacityPlan \<Rightarrow> string list \<Rightarrow> int \<Rightarrow> Profiles" where
  "ResourceCapacityProfiles plan resources horizon =
     (if horizon \<le> 0 \<or> resources = [] then []
      else
        (let ordered = sort (rev (foldl (\<lambda>acc r. if r = [] \<or> r \<in> set acc then acc else r # acc) [] resources))
         in map (\<lambda>r. (r, map (\<lambda>day. capacityFor plan r day) [0..horizon - 1])) ordered))"

subsection \<open>Model: participant index\<close>

record Overallocation =
  oa_Resource :: string
  oa_Day :: int
  oa_Demand :: float64
  oa_Capacity :: float64
  oa_TaskIDs :: "string list"

text \<open>An entry is a key of the task map with its task, a run a half-open day range of an entry.\<close>

type_synonym Entries = "(string \<times> Task) list"

definition overallocationEntries :: "Tasks \<Rightarrow> Entries" where
  "overallocationEntries tasks = sort_key (\<lambda>(key, t). ID t) (sort_key fst tasks)"

record Run =
  run_start :: int
  run_end :: int
  run_entry :: nat

text \<open>The merge of sorted split days into runs that neither overlap nor touch.\<close>

definition mergeDay :: "(int \<times> int) list \<Rightarrow> int \<Rightarrow> (int \<times> int) list" where
  "mergeDay runs d =
     (if runs \<noteq> [] \<and> d \<le> snd (last runs)
      then butlast runs @ [(fst (last runs), max (snd (last runs)) (d + 1))]
      else runs @ [(d, d + 1)])"

definition occupiedRuns :: "Task \<Rightarrow> int \<Rightarrow> (int \<times> int) list" where
  "occupiedRuns t limit =
     (if WorkDays t = [] then
        (case taskSpan t of
           None \<Rightarrow> []
         | Some (firstDay, lastDay) \<Rightarrow>
             (let s = max firstDay 0; e = min (lastDay + 1) limit in
              if s \<ge> e then [] else [(s, e)]))
      else foldl mergeDay [] (sort (filter (\<lambda>d. d \<ge> 0 \<and> d < limit) (WorkDays t))))"

text \<open>The runs stored under one resource, in entry order. An entry counts once per resource.\<close>

definition membershipRuns :: "Entries \<Rightarrow> Profiles \<Rightarrow> string \<Rightarrow> Run list" where
  "membershipRuns entries usage r =
     (case map_of usage r of
        None \<Rightarrow> []
      | Some profile \<Rightarrow>
          concat (map (\<lambda>(i, key, t).
             if r \<in> set (map Resource (Assignments t))
             then map (\<lambda>(s, e). \<lparr>run_start = s, run_end = e, run_entry = i\<rparr>) (occupiedRuns t (int (length profile)))
             else []) (List.enumerate 0 entries)))"

record Event =
  oe_day :: int
  oe_entry :: nat
  oe_enter :: bool

record Members =
  m_events :: "Event list"
  m_next :: nat
  m_active :: "nat list"
  m_pos :: "int list"

definition newOverallocationMembers :: "nat \<Rightarrow> Members" where
  "newOverallocationMembers entries =
     \<lparr>m_events = [], m_next = 0, m_active = [], m_pos = replicate entries (- 1)\<rparr>"

definition runEvents :: "Run list \<Rightarrow> Event list" where
  "runEvents runs = concat (map (\<lambda>r.
     [\<lparr>oe_day = run_start r, oe_entry = run_entry r, oe_enter = True\<rparr>,
      \<lparr>oe_day = run_end r, oe_entry = run_entry r, oe_enter = False\<rparr>]) runs)"

definition members_start :: "Run list \<Rightarrow> Members \<Rightarrow> Members" where
  "members_start runs m =
     \<lparr>m_events = sort_key oe_day (runEvents runs), m_next = 0, m_active = [],
      m_pos = foldl (\<lambda>pos e. pos[e := - 1]) (m_pos m) (m_active m)\<rparr>"

text \<open>One round of \<^verbatim>\<open>advanceTo\<close>; \<open>None\<close> is the panic of an index out of range.\<close>

definition applyEvent :: "Event \<Rightarrow> Members \<Rightarrow> Members option" where
  "applyEvent ev m =
     (if \<not> oe_entry ev < length (m_pos m) then None
      else if oe_enter ev then
        Some (m\<lparr>m_pos := (m_pos m)[oe_entry ev := int (length (m_active m))],
                m_active := m_active m @ [oe_entry ev]\<rparr>)
      else
        (let i = m_pos m ! oe_entry ev in
         if m_active m = [] \<or> i < 0 \<or> i \<ge> int (length (m_active m)) \<or> \<not> last (m_active m) < length (m_pos m) then None
         else
           (let lastEntry = last (m_active m);
                active' = (m_active m)[nat i := lastEntry];
                pos' = (m_pos m)[lastEntry := i]
            in Some (m\<lparr>m_active := butlast active', m_pos := pos'[oe_entry ev := - 1]\<rparr>))))"

text \<open>The loop, over the events not yet applied.\<close>

fun applyUpTo :: "int \<Rightarrow> Event list \<Rightarrow> Members \<Rightarrow> Members option" where
  "applyUpTo day [] m = Some m"
| "applyUpTo day (ev # evs) m =
     (if oe_day ev \<le> day then
        (case applyEvent ev m of
           None \<Rightarrow> None
         | Some m' \<Rightarrow> applyUpTo day evs (m'\<lparr>m_next := Suc (m_next m')\<rparr>))
      else Some m)"

definition advanceTo :: "int \<Rightarrow> Members \<Rightarrow> Members option" where
  "advanceTo day m = applyUpTo day (drop (m_next m) (m_events m)) m"

definition members_sorted :: "Members \<Rightarrow> nat list" where
  "members_sorted m = sort (m_active m)"

subsection \<open>Model: detection\<close>

text \<open>The inner loop over the days of one profile; the second result collects the flagged entries.\<close>

fun detectDays ::
  "ResourceCapacityPlan \<Rightarrow> Entries \<Rightarrow> string \<Rightarrow> int \<Rightarrow> float64 list \<Rightarrow> Members
   \<Rightarrow> (Overallocation list \<times> nat list \<times> Members) option"
where
  "detectDays plan entries r day [] m = Some ([], [], m)"
| "detectDays plan entries r day (demand # rest) m =
     (case advanceTo day m of
        None \<Rightarrow> None
      | Some m' \<Rightarrow>
          (let capacity = capacityFor plan r day in
           case detectDays plan entries r (day + 1) rest m' of
             None \<Rightarrow> None
           | Some (out, flagged, m'') \<Rightarrow>
               (if demand \<le> fadd capacity eps then Some (out, flagged, m'')
                else
                  (let is = members_sorted m';
                       breach = \<lparr>oa_Resource = r, oa_Day = day, oa_Demand = demand, oa_Capacity = capacity,
                                 oa_TaskIDs = map (\<lambda>i. ID (snd (entries ! i))) is\<rparr>
                   in Some (breach # out, is @ flagged, m'')))))"

fun detectResources ::
  "ResourceCapacityPlan \<Rightarrow> Entries \<Rightarrow> Profiles \<Rightarrow> string list \<Rightarrow> Members
   \<Rightarrow> (Overallocation list \<times> nat list) option"
where
  "detectResources plan entries usage [] m = Some ([], [])"
| "detectResources plan entries usage (r # rs) m =
     (let profile = (case map_of usage r of None \<Rightarrow> [] | Some p \<Rightarrow> p) in
      case detectDays plan entries r 0 profile (members_start (membershipRuns entries usage r) m) of
        None \<Rightarrow> None
      | Some (out, flagged, m') \<Rightarrow>
          (case detectResources plan entries usage rs m' of
             None \<Rightarrow> None
           | Some (out', flagged') \<Rightarrow> Some (out @ out', flagged @ flagged')))"

definition DetectOverallocationsWithPlan :: "Tasks \<Rightarrow> ResourceCapacityPlan \<Rightarrow> (Tasks \<times> Overallocation list) option" where
  "DetectOverallocationsWithPlan tasks0 plan =
     (let tasks = map_vals (\<lambda>t. t\<lparr>Overallocated := False\<rparr>) tasks0;
          usage = ResourceUsage tasks;
          entries = overallocationEntries tasks;
          resources = sort (map fst usage)
      in case detectResources plan entries usage resources (newOverallocationMembers (length entries)) of
           None \<Rightarrow> None
         | Some (out, flagged) \<Rightarrow>
             Some (map (\<lambda>(k, t). (k, if k \<in> (\<lambda>i. fst (entries ! i)) ` set flagged
                                       then t\<lparr>Overallocated := True\<rparr> else t)) tasks, out))"

definition DetectOverallocations :: "Tasks \<Rightarrow> (string \<times> float64) list \<Rightarrow> (Tasks \<times> Overallocation list) option" where
  "DetectOverallocations tasks capacities = DetectOverallocationsWithPlan tasks (capacityPlanFromMap capacities)"

subsection \<open>Runs of occupied days\<close>

definition separated :: "(int \<times> int) list \<Rightarrow> bool" where
  "separated runs \<longleftrightarrow> sorted_wrt (\<lambda>a b. snd a < fst b) runs \<and> (\<forall>r \<in> set runs. fst r < snd r)"

definition covers :: "(int \<times> int) list \<Rightarrow> int \<Rightarrow> bool" where
  "covers runs d \<longleftrightarrow> (\<exists>r \<in> set runs. fst r \<le> d \<and> d < snd r)"

lemma mergeDays:
  assumes "sorted days"
  shows "separated (foldl mergeDay [] days) \<and> (\<forall>d. covers (foldl mergeDay [] days) d \<longleftrightarrow> d \<in> set days)
    \<and> (days \<noteq> [] \<longrightarrow> foldl mergeDay [] days \<noteq> [] \<and> snd (last (foldl mergeDay [] days)) = last days + 1)"
  using assms
proof (induction days rule: rev_induct)
  case (snoc d days)
  define runs where "runs = foldl mergeDay [] days"
  have srt: "sorted days" and dmax: "\<And>x. x \<in> set days \<Longrightarrow> x \<le> d" using snoc.prems by (auto simp: sorted_append)
  have IH: "separated runs" "\<And>x. covers runs x \<longleftrightarrow> x \<in> set days"
    "days \<noteq> [] \<Longrightarrow> runs \<noteq> [] \<and> snd (last runs) = last days + 1"
    using snoc.IH [OF srt] by (auto simp: runs_def)
  show ?case
  proof (cases "days = []")
    case True
    then show ?thesis by (auto simp: mergeDay_def separated_def covers_def)
  next
    case False
    then obtain rs a b where r: "runs = rs @ [(a, b)]" and b: "b = last days + 1"
      using IH(3) by (cases runs rule: rev_cases) auto
    have ld: "last days \<le> d" "last days \<in> set days" using False dmax by auto
    have sep: "separated rs" "a < b" "\<And>x. x \<in> set rs \<Longrightarrow> snd x < a"
      using IH(1) by (auto simp: r separated_def sorted_wrt_append)
    have cov: "x \<in> set days \<longleftrightarrow> covers rs x \<or> a \<le> x \<and> x < b" for x
      using IH(2) [of x] by (auto simp: r covers_def)
    show ?thesis
    proof (cases "d \<le> b")
      case True
      then have m: "foldl mergeDay [] (days @ [d]) = rs @ [(a, d + 1)]"
        using ld b by (simp add: runs_def [symmetric] r mergeDay_def max_def)
      have "separated (rs @ [(a, d + 1)])" using sep ld b by (auto simp: separated_def sorted_wrt_append)
      moreover have "covers (rs @ [(a, d + 1)]) x \<longleftrightarrow> x \<in> set (days @ [d])" for x
        using cov [of x] cov [of d] sep(2) ld b True dmax [of x] by (auto simp: covers_def)
      ultimately show ?thesis unfolding m by simp
    next
      case far: False
      then have m: "foldl mergeDay [] (days @ [d]) = runs @ [(d, d + 1)]"
        by (simp add: runs_def [symmetric] r mergeDay_def)
      have "snd x < d" if "x \<in> set rs" for x using sep(3) [OF that] sep(2) far by linarith
      then have "separated (runs @ [(d, d + 1)])"
        using IH(1) far sep by (auto simp: r separated_def sorted_wrt_append)
      moreover have "covers (runs @ [(d, d + 1)]) x \<longleftrightarrow> x \<in> set (days @ [d])" for x
        using IH(2) [of x] by (auto simp: covers_def)
      ultimately show ?thesis unfolding m by simp
    qed
  qed
qed (simp add: separated_def covers_def)

lemma occupiedRuns_separated: "separated (occupiedRuns t limit)"
  using mergeDays [OF sorted_sort]
  by (auto simp: occupiedRuns_def Let_def separated_def split: option.splits)

lemma occupiedRuns_covers: "covers (occupiedRuns t limit) d \<longleftrightarrow> d \<in> set (occupiedDays t) \<and> 0 \<le> d \<and> d < limit"
proof (cases "WorkDays t = []")
  case True
  show ?thesis
  proof (cases "taskSpan t")
    case (Some ab)
    obtain a b where "ab = (a, b)" by fastforce
    with True Some have "occupiedDays t = [a..b]"
      "occupiedRuns t limit = (if max a 0 \<ge> min (b + 1) limit then [] else [(max a 0, min (b + 1) limit)])"
      by (simp_all add: occupiedDays_def occupiedRuns_def Let_def)
    then show ?thesis by (auto simp: covers_def)
  qed (use True in \<open>simp add: occupiedRuns_def occupiedDays_def covers_def\<close>)
next
  case False
  then show ?thesis
    using mergeDays [OF sorted_sort, of "filter (\<lambda>d. d \<ge> 0 \<and> d < limit) (WorkDays t)"]
    by (auto simp: occupiedRuns_def occupiedDays_def)
qed

text \<open>How many boundaries of separated runs lie at or before a day decides whether it is covered.\<close>

lemma boundaries_parity:
  assumes "separated runs"
  shows "odd (length (filter (\<lambda>b. b \<le> d) (concat (map (\<lambda>r. [fst r, snd r]) runs)))) \<longleftrightarrow> covers runs d"
  using assms
proof (induction runs)
  case (Cons r runs)
  have sep: "separated runs" "fst r < snd r" and after: "\<And>x. x \<in> set runs \<Longrightarrow> snd r < fst x \<and> fst x < snd x"
    using Cons.prems by (auto simp: separated_def)
  have "filter (\<lambda>b. b \<le> d) (concat (map (\<lambda>r. [fst r, snd r]) runs)) = [] \<and> \<not> covers runs d" if "d < snd r"
    using after that by (fastforce simp: filter_empty_conv covers_def)
  then show ?case using Cons.IH [OF sep(1)] sep(2) by (auto simp: covers_def)
qed (simp add: covers_def)

subsection \<open>The swap-remove set\<close>

definition members_ok :: "nat \<Rightarrow> Members \<Rightarrow> bool" where
  "members_ok n m \<longleftrightarrow> length (m_pos m) = n \<and> distinct (m_active m) \<and> set (m_active m) \<subseteq> {..<n}
     \<and> (\<forall>j < length (m_active m). m_pos m ! (m_active m ! j) = int j)
     \<and> (\<forall>e < n. e \<notin> set (m_active m) \<longrightarrow> m_pos m ! e = - 1)"

lemma applyEvent_enter:
  assumes "members_ok n m" and "oe_enter ev" and "oe_entry ev < n" and "oe_entry ev \<notin> set (m_active m)"
  shows "\<exists>m'. applyEvent ev m = Some m' \<and> members_ok n m' \<and> set (m_active m') = insert (oe_entry ev) (set (m_active m))
    \<and> m_events m' = m_events m \<and> m_next m' = m_next m"
proof -
  have "m_active m ! j \<noteq> oe_entry ev" if "j < length (m_active m)" for j using that assms(4) nth_mem by metis
  then show ?thesis using assms
    by (auto simp: applyEvent_def members_ok_def nth_append nth_list_update less_Suc_eq subset_iff)
qed

lemma applyEvent_leave:
  assumes ok: "members_ok n m" and ev: "\<not> oe_enter ev" and e: "oe_entry ev \<in> set (m_active m)"
  shows "\<exists>m'. applyEvent ev m = Some m' \<and> members_ok n m' \<and> set (m_active m') = set (m_active m) - {oe_entry ev}
    \<and> m_events m' = m_events m \<and> m_next m' = m_next m"
proof -
  define A where "A = m_active m"
  define x where "x = oe_entry ev"
  obtain i where i: "i < length A" "A ! i = x" using e by (auto simp: A_def x_def in_set_conv_nth)
  obtain B l where B: "A = B @ [l]" using i by (cases A rule: rev_cases) auto
  have facts: "length (m_pos m) = n" "distinct A" "set A \<subseteq> {..<n}"
    "\<And>j. j < length A \<Longrightarrow> m_pos m ! (A ! j) = int j" "\<And>e. e < n \<Longrightarrow> e \<notin> set A \<Longrightarrow> m_pos m ! e = - 1"
    using ok by (auto simp: members_ok_def A_def)
  have pi: "m_pos m ! x = int i" using facts(4) [OF i(1)] i(2) by simp
  have ln: "l < n" "x < n" using facts(3) B i nth_mem [OF i(1)] by auto
  define B' where "B' = butlast (A[i := l])"
  have B'2: "B' = (if i < length B then B[i := l] else B)"
    using i(1) by (auto simp: B'_def B list_update_append butlast_append)
  have nth: "B' ! j = (if j = i then l else B ! j)" if "j < length B" for j
    using that by (auto simp: B'2 nth_list_update)
  have inB: "i < length B \<longleftrightarrow> x \<noteq> l"
    using i facts(2) B by (auto simp: nth_append less_Suc_eq split: if_splits)
  define m' where "m' = m\<lparr>m_active := B', m_pos := (m_pos m)[l := int i, x := - 1]\<rparr>"
  have app: "applyEvent ev m = Some m'"
    using ev e pi ln facts(1) i(1) B
    by (auto simp: applyEvent_def m'_def B'_def Let_def A_def [symmetric] x_def [symmetric])
  have dist: "distinct B'" "set B' = set A - {x}"
  proof -
    have db: "distinct B" "l \<notin> set B" using facts(2) B by auto
    show "distinct B'" using db by (auto simp: B'2 distinct_list_update)
    show "set B' = set A - {x}"
    proof (cases "i < length B")
      case True
      then have "x = B ! i" using i(2) B by (simp add: nth_append)
      with True db show ?thesis by (auto simp: B'2 set_update_distinct B)
    next
      case False
      then show ?thesis using inB db B by (auto simp: B'2)
    qed
  qed
  have lenB': "length B' = length B" by (simp add: B'2)
  have pos: "m_pos m' ! (B' ! j) = int j" if "j < length B'" for j
  proof -
    have jn: "B' ! j \<noteq> x" using dist(2) nth_mem [OF that] by auto
    show ?thesis
    proof (cases "j = i")
      case True
      then show ?thesis using jn that ln facts(1) nth [of j] lenB' by (simp add: m'_def)
    next
      case False
      then have "B' ! j = A ! j" using that nth [of j] lenB' B by (simp add: nth_append)
      moreover have "A ! j \<noteq> l"
        using that lenB' B facts(2) by (auto simp: nth_append distinct_append)
      ultimately show ?thesis using jn that facts(4) [of j] lenB' B by (simp add: m'_def)
    qed
  qed
  have out: "m_pos m' ! e = - 1" if "e < n" "e \<notin> set B'" for e
    using that dist(2) facts(1) facts(5) [of e] B inB ln by (auto simp: m'_def nth_list_update)
  have "members_ok n m'"
    unfolding members_ok_def using dist facts(1,3) pos out by (auto simp: m'_def)
  then show ?thesis using app dist(2) by (auto simp: m'_def A_def x_def)
qed

subsection \<open>The sweep\<close>

text \<open>The events of each entry alternate between entering and leaving.\<close>

definition alternating :: "nat \<Rightarrow> Event list \<Rightarrow> bool" where
  "alternating n evs \<longleftrightarrow> (\<forall>ev \<in> set evs. oe_entry ev < n) \<and>
     (\<forall>i j. j < length (filter (\<lambda>e. oe_entry e = i) evs) \<longrightarrow>
        (oe_enter (filter (\<lambda>e. oe_entry e = i) evs ! j) \<longleftrightarrow> even j))"

definition present :: "Event list \<Rightarrow> nat set" where
  "present P = {i. odd (length (filter (\<lambda>e. oe_entry e = i) P))}"

lemma present_snoc: "present (P @ [ev]) = (if oe_entry ev \<in> present P then present P - {oe_entry ev} else insert (oe_entry ev) (present P))"
  by (auto simp: present_def)

lemma alternating_next:
  assumes "alternating n (P @ ev # rest)"
  shows "oe_entry ev < n" and "oe_enter ev \<longleftrightarrow> oe_entry ev \<notin> present P"
proof -
  show "oe_entry ev < n" using assms by (simp add: alternating_def)
  let ?f = "filter (\<lambda>e. oe_entry e = oe_entry ev)"
  have "\<forall>j < length (?f (P @ ev # rest)). oe_enter (?f (P @ ev # rest) ! j) \<longleftrightarrow> even j"
    using assms unfolding alternating_def by blast
  from spec [OF this, of "length (?f P)"]
  have "oe_enter (?f (P @ ev # rest) ! length (?f P)) \<longleftrightarrow> even (length (?f P))" by simp
  then show "oe_enter ev \<longleftrightarrow> oe_entry ev \<notin> present P" by (simp add: present_def nth_append)
qed

lemma applyUpTo_state:
  assumes "alternating n (P @ rest)" and "members_ok n m" and "set (m_active m) = present P" and "m_next m = length P"
  shows "\<exists>m'. applyUpTo day rest m = Some m' \<and> members_ok n m'
    \<and> set (m_active m') = present (P @ takeWhile (\<lambda>e. oe_day e \<le> day) rest)
    \<and> m_next m' = length (P @ takeWhile (\<lambda>e. oe_day e \<le> day) rest) \<and> m_events m' = m_events m"
  using assms
proof (induction rest arbitrary: P m)
  case (Cons ev rest)
  show ?case
  proof (cases "oe_day ev \<le> day")
    case True
    note nx = alternating_next [OF Cons.prems(1)]
    obtain m1 where m1: "applyEvent ev m = Some m1" "members_ok n m1" "set (m_active m1) = present (P @ [ev])"
        "m_events m1 = m_events m" "m_next m1 = m_next m"
    proof (cases "oe_enter ev")
      case True
      with applyEvent_enter [OF Cons.prems(2) True nx(1)] nx Cons.prems(3) that show thesis
        by (auto simp: present_snoc)
    next
      case False
      with applyEvent_leave [OF Cons.prems(2) False] nx Cons.prems(3) that show thesis
        by (auto simp: present_snoc)
    qed
    have "alternating n ((P @ [ev]) @ rest)" using Cons.prems(1) by simp
    moreover have "members_ok n (m1\<lparr>m_next := Suc (m_next m1)\<rparr>)" using m1(2) by (simp add: members_ok_def)
    ultimately show ?thesis
      using Cons.IH [of "P @ [ev]" "m1\<lparr>m_next := Suc (m_next m1)\<rparr>"] m1 True Cons.prems(4) by simp
  qed (use Cons.prems in auto)
qed auto

text \<open>The tracker has applied exactly some events up to a day.\<close>

definition swept :: "nat \<Rightarrow> Event list \<Rightarrow> int \<Rightarrow> Members \<Rightarrow> bool" where
  "swept n evs day m \<longleftrightarrow> members_ok n m \<and> m_events m = evs \<and>
     (\<exists>P rest. evs = P @ rest \<and> (\<forall>e \<in> set P. oe_day e \<le> day) \<and> m_next m = length P \<and> set (m_active m) = present P)"

lemma takeWhile_sorted_filter:
  "sorted (map oe_day evs) \<Longrightarrow> takeWhile (\<lambda>e. oe_day e \<le> day) evs = filter (\<lambda>e. oe_day e \<le> day) evs"
proof (induction evs)
  case (Cons a evs)
  show ?case
  proof (cases "oe_day a \<le> day")
    case False
    with Cons.prems have "\<forall>e \<in> set evs. \<not> oe_day e \<le> day" by auto
    then have "filter (\<lambda>e. oe_day e \<le> day) evs = []" by (simp add: filter_empty_conv)
    with False show ?thesis by simp
  qed (use Cons in simp)
qed simp

lemma advanceTo_swept:
  assumes alt: "alternating n evs" and sw: "swept n evs day m" and srt: "sorted (map oe_day evs)"
  shows "\<exists>m'. advanceTo day m = Some m' \<and> swept n evs (day + 1) m'
    \<and> set (m_active m') = present (filter (\<lambda>e. oe_day e \<le> day) evs) \<and> distinct (m_active m')"
proof -
  obtain P rest where P: "evs = P @ rest" "\<forall>e \<in> set P. oe_day e \<le> day" "m_next m = length P"
      "set (m_active m) = present P" and m: "members_ok n m" "m_events m = evs"
    using sw by (auto simp: swept_def)
  let ?Q = "takeWhile (\<lambda>e. oe_day e \<le> day) rest"
  have "takeWhile (\<lambda>e. oe_day e \<le> day) evs = filter (\<lambda>e. oe_day e \<le> day) evs"
    using srt by (rule takeWhile_sorted_filter)
  then have fl: "P @ ?Q = filter (\<lambda>e. oe_day e \<le> day) evs" using P(1,2) by (simp add: takeWhile_append2)
  obtain m' where m': "applyUpTo day rest m = Some m'" "members_ok n m'" "set (m_active m') = present (P @ ?Q)"
      "m_next m' = length (P @ ?Q)" "m_events m' = m_events m"
    using applyUpTo_state [of n P rest m day] alt P m by auto
  have "evs = (P @ ?Q) @ dropWhile (\<lambda>e. oe_day e \<le> day) rest" using P(1) by simp
  moreover have "\<forall>e \<in> set (P @ ?Q). oe_day e \<le> day + 1" using P(2) by (auto dest: set_takeWhileD)
  ultimately have "swept n evs (day + 1) m'" unfolding swept_def using m' m(2) by metis
  then show ?thesis using m' P m(2) fl by (auto simp: advanceTo_def members_ok_def)
qed

subsection \<open>The events of the membership runs\<close>

definition takesPart :: "Entries \<Rightarrow> string \<Rightarrow> int \<Rightarrow> nat \<Rightarrow> bool" where
  "takesPart entries r limit i \<longleftrightarrow> i < length entries \<and> r \<in> set (map Resource (Assignments (snd (entries ! i))))"

lemma enumerate_filter_concat:
  "filter (\<lambda>x. run_entry x = i) (concat (map (\<lambda>(j, e). map (mk j) (g e)) (List.enumerate k xs)))
     = (if k \<le> i \<and> i < k + length xs then map (mk i) (g (xs ! (i - k))) else [])"
  if mk: "\<And>j x. run_entry (mk j x) = j" for mk :: "nat \<Rightarrow> 'b \<Rightarrow> Run" and g :: "'c \<Rightarrow> 'b list"
proof (induction xs arbitrary: k)
  case (Cons x xs)
  have "filter (\<lambda>y. run_entry y = i) (map (mk k) (g x)) = (if i = k then map (mk i) (g x) else [])"
    using mk by (auto simp: filter_map comp_def)
  then show ?case using Cons.IH [of "Suc k"] by (auto simp: nth_Cons')
qed auto

lemma membershipRuns_entry:
  assumes "map_of usage r = Some profile"
  shows "filter (\<lambda>x. run_entry x = i) (membershipRuns entries usage r) =
    (if takesPart entries r (int (length profile)) i
     then map (\<lambda>(s, e). \<lparr>run_start = s, run_end = e, run_entry = i\<rparr>) (occupiedRuns (snd (entries ! i)) (int (length profile)))
     else [])"
proof -
  define mk where "mk = (\<lambda>j (s, e). \<lparr>run_start = s, run_end = e, run_entry = j\<rparr>)"
  define g where "g = (\<lambda>(key :: string, t). if r \<in> set (map Resource (Assignments t)) then occupiedRuns t (int (length profile)) else [])"
  have mr: "membershipRuns entries usage r = concat (map (\<lambda>(j, e). map (mk j) (g e)) (List.enumerate 0 entries))"
    using assms by (auto simp: membershipRuns_def mk_def g_def intro!: arg_cong [where f = concat])
  have mk: "run_entry (mk j x) = j" for j x by (simp add: mk_def split: prod.splits)
  show ?thesis unfolding mr using enumerate_filter_concat [of mk i g 0 entries, OF mk]
    by (auto simp: takesPart_def g_def mk_def split_def)
qed

lemma runEvents_filter: "filter (\<lambda>e. oe_entry e = i) (runEvents runs) = runEvents (filter (\<lambda>r. run_entry r = i) runs)"
  by (induction runs) (simp_all add: runEvents_def)

lemma runEvents_days:
  "map oe_day (runEvents (map (\<lambda>(s, e). \<lparr>run_start = s, run_end = e, run_entry = i\<rparr>) rs)) = concat (map (\<lambda>r. [fst r, snd r]) rs)"
  by (induction rs) (auto simp: runEvents_def)

lemma runEvents_length: "length (runEvents runs) = 2 * length runs"
  by (induction runs) (simp_all add: runEvents_def)

lemma runEvents_enter: "j < length (runEvents runs) \<Longrightarrow> oe_enter (runEvents runs ! j) \<longleftrightarrow> even j"
proof (induction runs arbitrary: j)
  case (Cons r runs)
  have c: "runEvents (r # runs) = \<lparr>oe_day = run_start r, oe_entry = run_entry r, oe_enter = True\<rparr> #
      \<lparr>oe_day = run_end r, oe_entry = run_entry r, oe_enter = False\<rparr> # runEvents runs" by (simp add: runEvents_def)
  show ?case using Cons.IH [of "j - 2"] Cons.prems unfolding c by (cases j; cases "j - 1") auto
qed (simp add: runEvents_def)

lemma separated_sorted: "separated rs \<Longrightarrow> sorted (concat (map (\<lambda>r. [fst r, snd r]) rs))"
proof (induction rs)
  case (Cons r rs)
  then have "\<forall>x \<in> set rs. snd r < fst x \<and> fst x < snd x" "fst r < snd r" "separated rs" by (auto simp: separated_def)
  with Cons.IH show ?case by fastforce
qed simp

text \<open>One resource's events, sorted by day, as the sweep sees them.\<close>

lemma resource_events:
  fixes usage :: Profiles and entries :: Entries and r :: string
  assumes u: "map_of usage r = Some profile"
  defines "evs \<equiv> sort_key oe_day (runEvents (membershipRuns entries usage r))"
  shows "alternating (length entries) evs" and "sorted (map oe_day evs)"
    and "present (filter (\<lambda>e. oe_day e \<le> d) evs) = {i. takesPart entries r (int (length profile)) i
      \<and> covers (occupiedRuns (snd (entries ! i)) (int (length profile))) d}"
proof -
  let ?L = "int (length profile)"
  let ?mk = "\<lambda>i. \<lambda>(s, e). \<lparr>run_start = s, run_end = e, run_entry = i\<rparr>"
  show srt: "sorted (map oe_day evs)" by (simp add: evs_def)
  define F where "F = (\<lambda>i. if takesPart entries r ?L i then occupiedRuns (snd (entries ! i)) ?L else [])"
  have sepF: "separated (F i)" for i
    using occupiedRuns_separated by (cases "takesPart entries r ?L i") (simp_all add: F_def separated_def [of "[]"])
  have fi: "filter (\<lambda>e. oe_entry e = i) evs = runEvents (map (?mk i) (F i))" for i
  proof -
    have "filter (\<lambda>e. oe_entry e = i) evs = sort_key oe_day (runEvents (map (?mk i) (F i)))"
      unfolding evs_def filter_sort runEvents_filter membershipRuns_entry [OF u] by (simp add: F_def)
    also have "\<dots> = runEvents (map (?mk i) (F i))"
      by (rule sort_key_id_if_sorted) (simp add: runEvents_days separated_sorted [OF sepF])
    finally show ?thesis .
  qed
  have "oe_entry ev < length entries" if "ev \<in> set evs" for ev
  proof -
    have "filter (\<lambda>e. oe_entry e = oe_entry ev) evs \<noteq> []" using that by (auto simp: filter_empty_conv)
    then have "F (oe_entry ev) \<noteq> []" unfolding fi by (auto simp: runEvents_def)
    then show ?thesis by (auto simp: F_def takesPart_def split: if_splits)
  qed
  then show "alternating (length entries) evs"
    unfolding alternating_def fi using runEvents_enter by blast
  have pr: "i \<in> present (filter (\<lambda>e. oe_day e \<le> d) evs) \<longleftrightarrow> covers (F i) d" for i
  proof -
    have "filter (\<lambda>e. oe_entry e = i) (filter (\<lambda>e. oe_day e \<le> d) evs)
        = filter (\<lambda>e. oe_day e \<le> d) (runEvents (map (?mk i) (F i)))"
      using fi [of i] by (metis (no_types, lifting) filter_filter filter_cong)
    moreover have "length (filter (\<lambda>e. oe_day e \<le> d) (runEvents (map (?mk i) (F i))))
        = length (filter (\<lambda>b. b \<le> d) (map oe_day (runEvents (map (?mk i) (F i)))))"
      by (simp add: filter_map comp_def)
    ultimately show ?thesis
      unfolding present_def mem_Collect_eq boundaries_parity [OF sepF, symmetric] runEvents_days by simp
  qed
  have nil: "\<not> covers [] d" by (simp add: covers_def)
  show "present (filter (\<lambda>e. oe_day e \<le> d) evs) = {i. takesPart entries r ?L i
      \<and> covers (occupiedRuns (snd (entries ! i)) ?L) d}"
    unfolding set_eq_iff pr by (simp add: F_def nil)
qed

subsection \<open>The scan the sweep replaces\<close>

definition occupies :: "string \<Rightarrow> int \<Rightarrow> Task \<Rightarrow> bool" where
  "occupies r day t \<longleftrightarrow> r \<in> set (map Resource (Assignments t)) \<and> day \<in> set (occupiedDays t)"

fun scanDays :: "ResourceCapacityPlan \<Rightarrow> Entries \<Rightarrow> string \<Rightarrow> int \<Rightarrow> float64 list \<Rightarrow> Overallocation list" where
  "scanDays plan entries r day [] = []"
| "scanDays plan entries r day (demand # rest) =
     (let capacity = capacityFor plan r day in
      (if demand \<le> fadd capacity eps then []
       else [\<lparr>oa_Resource = r, oa_Day = day, oa_Demand = demand, oa_Capacity = capacity,
              oa_TaskIDs = map (\<lambda>e. ID (snd e)) (filter (\<lambda>e. occupies r day (snd e)) entries)\<rparr>])
      @ scanDays plan entries r (day + 1) rest)"

definition scanAll :: "ResourceCapacityPlan \<Rightarrow> Entries \<Rightarrow> Profiles \<Rightarrow> string list \<Rightarrow> Overallocation list" where
  "scanAll plan entries usage resources =
     concat (map (\<lambda>r. scanDays plan entries r 0 (case map_of usage r of None \<Rightarrow> [] | Some p \<Rightarrow> p)) resources)"

lemma sort_members:
  assumes "distinct xs" and "set xs = {i. i < n \<and> P i}"
  shows "sort xs = filter P [0..<n]"
proof (rule sorted_distinct_set_unique)
  show "sorted (filter P [0..<n])" by (rule sorted_wrt_filter) simp
  show "set (sort xs) = set (filter P [0..<n])" using assms(2) by auto
qed (use assms(1) in simp_all)

lemma filter_by_index: "map (\<lambda>i. f (xs ! i)) (filter (\<lambda>i. P (xs ! i)) [0..<length xs]) = map f (filter P xs)"
proof -
  have "map f (filter P xs) = map f (filter P (map ((!) xs) [0..<length xs]))" by (simp only: map_nth)
  then show ?thesis by (simp add: filter_map comp_def)
qed

lemma detectDays_scan:
  assumes u: "map_of usage r = Some profile"
    and evs: "evs = sort_key oe_day (runEvents (membershipRuns entries usage r))"
  shows "swept (length entries) evs day m \<Longrightarrow> 0 \<le> day \<Longrightarrow> day + int (length rest) = int (length profile) \<Longrightarrow>
    \<exists>flagged m'. detectDays plan entries r day rest m = Some (scanDays plan entries r day rest, flagged, m')
      \<and> members_ok (length entries) m'
      \<and> (\<forall>i. i \<in> set flagged \<longleftrightarrow> i < length entries
           \<and> (\<exists>oa \<in> set (scanDays plan entries r day rest). occupies (oa_Resource oa) (oa_Day oa) (snd (entries ! i))))"
proof (induction rest arbitrary: day m)
  case Nil
  then show ?case by (simp add: swept_def)
next
  case (Cons demand rest)
  note ev = resource_events [OF u, where entries = entries, folded evs]
  obtain m1 where m1: "advanceTo day m = Some m1" "swept (length entries) evs (day + 1) m1"
    "set (m_active m1) = present (filter (\<lambda>e. oe_day e \<le> day) evs)" "distinct (m_active m1)"
    using advanceTo_swept [OF ev(1) Cons.prems(1) ev(2)] by blast
  have "day < int (length profile)" using Cons.prems(3) by simp
  then have act: "set (m_active m1) = {i. i < length entries \<and> occupies r day (snd (entries ! i))}"
    using m1(3) ev(3) [of day] Cons.prems(2)
    by (auto simp: takesPart_def occupiedRuns_covers occupies_def)
  have srt: "members_sorted m1 = filter (\<lambda>i. occupies r day (snd (entries ! i))) [0..<length entries]"
    unfolding members_sorted_def by (rule sort_members [OF m1(4) act])
  have ids: "map (\<lambda>i. ID (snd (entries ! i))) (members_sorted m1)
      = map (\<lambda>e. ID (snd e)) (filter (\<lambda>e. occupies r day (snd e)) entries)"
    unfolding srt by (rule filter_by_index)
  obtain flagged m2 where IH: "detectDays plan entries r (day + 1) rest m1 = Some (scanDays plan entries r (day + 1) rest, flagged, m2)"
    "members_ok (length entries) m2"
    "\<And>i. i \<in> set flagged \<longleftrightarrow> i < length entries
       \<and> (\<exists>oa \<in> set (scanDays plan entries r (day + 1) rest). occupies (oa_Resource oa) (oa_Day oa) (snd (entries ! i)))"
    using Cons.IH [OF m1(2)] Cons.prems(2,3) by auto
  show ?case
  proof (cases "demand \<le> fadd (capacityFor plan r day) eps")
    case True
    then show ?thesis using IH by (simp add: m1(1))
  next
    case False
    let ?b = "\<lparr>oa_Resource = r, oa_Day = day, oa_Demand = demand, oa_Capacity = capacityFor plan r day,
       oa_TaskIDs = map (\<lambda>e. ID (snd e)) (filter (\<lambda>e. occupies r day (snd e)) entries)\<rparr>"
    have scan: "scanDays plan entries r day (demand # rest) = ?b # scanDays plan entries r (day + 1) rest"
      using False by (simp add: Let_def)
    have "detectDays plan entries r day (demand # rest) m
        = Some (?b # scanDays plan entries r (day + 1) rest, members_sorted m1 @ flagged, m2)"
      using False IH(1) by (simp add: m1(1) ids Let_def)
    moreover have "i \<in> set (members_sorted m1 @ flagged) \<longleftrightarrow> i < length entries
        \<and> (\<exists>oa \<in> set (?b # scanDays plan entries r (day + 1) rest). occupies (oa_Resource oa) (oa_Day oa) (snd (entries ! i)))" for i
      unfolding srt set_append Un_iff IH(3) by auto
    ultimately show ?thesis unfolding scan using IH(2) by blast
  qed
qed

lemma members_reset:
  assumes "members_ok n m"
  shows "members_ok n (members_start runs m)"
proof -
  have "foldl (\<lambda>pos e. pos[e := - 1]) p as ! e = (if e \<in> set as then - 1 else p ! e)"
    if "e < length p" for p :: "int list" and as e
    using that by (induction as arbitrary: p) (auto simp: nth_list_update)
  moreover have "length (foldl (\<lambda>pos e. pos[e := - 1 :: int]) p as) = length p" for p as
    by (induction as arbitrary: p) auto
  ultimately show ?thesis using assms by (simp add: members_ok_def members_start_def)
qed

lemma members_start_swept:
  assumes "members_ok n m"
  shows "swept n (sort_key oe_day (runEvents runs)) 0 (members_start runs m)"
proof -
  have "members_ok n (members_start runs m)" by (rule members_reset [OF assms])
  moreover have "m_events (members_start runs m) = [] @ sort_key oe_day (runEvents runs)"
    "m_next (members_start runs m) = length ([] :: Event list)" "set (m_active (members_start runs m)) = present []"
    by (simp_all add: members_start_def present_def)
  ultimately show ?thesis unfolding swept_def by (metis append_Nil empty_iff list.set(1))
qed

lemma detectResources_scan:
  assumes "set rs \<subseteq> set (map fst usage)" and "members_ok (length entries) m"
  shows "\<exists>flagged. detectResources plan entries usage rs m = Some (scanAll plan entries usage rs, flagged)
    \<and> (\<forall>i. i \<in> set flagged \<longleftrightarrow> i < length entries
         \<and> (\<exists>oa \<in> set (scanAll plan entries usage rs). occupies (oa_Resource oa) (oa_Day oa) (snd (entries ! i))))"
  using assms
proof (induction rs arbitrary: m)
  case (Cons r rs)
  then obtain profile where u: "map_of usage r = Some profile"
    using map_of_is_None_iff [of usage r] by auto
  obtain f1 m1 where 1: "detectDays plan entries r 0 profile (members_start (membershipRuns entries usage r) m)
      = Some (scanDays plan entries r 0 profile, f1, m1)" "members_ok (length entries) m1"
    "\<And>i. i \<in> set f1 \<longleftrightarrow> i < length entries
       \<and> (\<exists>oa \<in> set (scanDays plan entries r 0 profile). occupies (oa_Resource oa) (oa_Day oa) (snd (entries ! i)))"
    using detectDays_scan [OF u refl members_start_swept [OF Cons.prems(2)], of profile plan] by auto
  have "set rs \<subseteq> set (map fst usage)" using Cons.prems(1) by simp
  then obtain f2 where 2: "detectResources plan entries usage rs m1 = Some (scanAll plan entries usage rs, f2)"
    "\<And>i. i \<in> set f2 \<longleftrightarrow> i < length entries
       \<and> (\<exists>oa \<in> set (scanAll plan entries usage rs). occupies (oa_Resource oa) (oa_Day oa) (snd (entries ! i)))"
    using Cons.IH [OF _ 1(2)] by blast
  have "scanAll plan entries usage (r # rs) = scanDays plan entries r 0 profile @ scanAll plan entries usage rs"
    by (simp add: scanAll_def u)
  then show ?case using 1 2 by (auto simp: u)
qed (simp add: scanAll_def)

definition clearFlags :: "Tasks \<Rightarrow> Tasks" where
  "clearFlags tasks = map_vals (\<lambda>t. t\<lparr>Overallocated := False\<rparr>) tasks"

lemma entries_mset: "mset (overallocationEntries tasks) = mset tasks"
  by (simp add: overallocationEntries_def)

lemma DetectOverallocationsWithPlan_scan:
  assumes "distinct (map fst tasks)"
  shows "DetectOverallocationsWithPlan tasks plan =
    (let cleared = clearFlags tasks; usage = ResourceUsage cleared;
         out = scanAll plan (overallocationEntries cleared) usage (sort (map fst usage))
     in Some (map_vals (\<lambda>t. t\<lparr>Overallocated := (\<exists>oa \<in> set out. occupies (oa_Resource oa) (oa_Day oa) t)\<rparr>) cleared, out))"
proof -
  define cleared where "cleared = clearFlags tasks"
  define usage where "usage = ResourceUsage cleared"
  define entries where "entries = overallocationEntries cleared"
  define out where "out = scanAll plan entries usage (sort (map fst usage))"
  have "members_ok (length entries) (newOverallocationMembers (length entries))"
    by (simp add: members_ok_def newOverallocationMembers_def)
  then obtain flagged where f: "detectResources plan entries usage (sort (map fst usage))
      (newOverallocationMembers (length entries)) = Some (out, flagged)"
    "\<And>i. i \<in> set flagged \<longleftrightarrow> i < length entries
       \<and> (\<exists>oa \<in> set out. occupies (oa_Resource oa) (oa_Day oa) (snd (entries ! i)))"
    using detectResources_scan [of "sort (map fst usage)" usage entries _ plan] unfolding out_def by (metis order_refl set_sort)
  have ents: "set entries = set cleared" using entries_mset unfolding entries_def by (metis set_mset_mset)
  have dist: "distinct (map fst cleared)" using assms by (simp add: cleared_def clearFlags_def)
  have flag: "k \<in> (\<lambda>i. fst (entries ! i)) ` set flagged \<longleftrightarrow> (\<exists>oa \<in> set out. occupies (oa_Resource oa) (oa_Day oa) t)"
    if kt: "(k, t) \<in> set cleared" for k t
  proof
    assume "k \<in> (\<lambda>i. fst (entries ! i)) ` set flagged"
    then obtain i where i: "i \<in> set flagged" "k = fst (entries ! i)" by blast
    then have "entries ! i \<in> set cleared" using f(2) ents nth_mem by metis
    then have "snd (entries ! i) = t" using kt i(2) dist eq_key_imp_eq_value by (metis prod.collapse)
    then show "\<exists>oa \<in> set out. occupies (oa_Resource oa) (oa_Day oa) t" using f(2) i(1) by blast
  next
    assume oc: "\<exists>oa \<in> set out. occupies (oa_Resource oa) (oa_Day oa) t"
    obtain i where i: "i < length entries" "entries ! i = (k, t)" using kt ents by (metis in_set_conv_nth)
    then have "i \<in> set flagged" using f(2) [of i] oc by simp
    then show "k \<in> (\<lambda>i. fst (entries ! i)) ` set flagged" using i(2) by force
  qed
  have unset: "Overallocated t = False" if "(k, t) \<in> set cleared" for k t
    using that by (auto simp: cleared_def clearFlags_def map_vals_def)
  have "map (\<lambda>(k, t). (k, if k \<in> (\<lambda>i. fst (entries ! i)) ` set flagged then t\<lparr>Overallocated := True\<rparr> else t)) cleared
     = map_vals (\<lambda>t. t\<lparr>Overallocated := (\<exists>oa \<in> set out. occupies (oa_Resource oa) (oa_Day oa) t)\<rparr>) cleared"
    unfolding map_vals_def
  proof (rule map_cong [OF refl])
    fix x assume "x \<in> set cleared"
    then obtain k t where x: "x = (k, t)" "(k, t) \<in> set cleared" by (metis prod.collapse)
    show "(case x of (k, t) \<Rightarrow> (k, if k \<in> (\<lambda>i. fst (entries ! i)) ` set flagged then t\<lparr>Overallocated := True\<rparr> else t))
        = (case x of (k, t) \<Rightarrow> (k, t\<lparr>Overallocated := (\<exists>oa \<in> set out. occupies (oa_Resource oa) (oa_Day oa) t)\<rparr>))"
      using flag [OF x(2)] unset [OF x(2)] by (simp add: x(1))
  qed
  then show ?thesis
    unfolding DetectOverallocationsWithPlan_def Let_def clearFlags_def [symmetric]
      cleared_def [symmetric] usage_def [symmetric] entries_def [symmetric] f(1) out_def [symmetric] by simp
qed

subsection \<open>Properties: detection\<close>


definition alice :: Assignment where
  "alice = \<lparr>Resource = ''alice'', Units = 1, CalendarID = [], SkillTags = [], MaxUnits = 0\<rparr>"

definition contended_tasks :: Tasks where
  "contended_tasks =
    [(''b'', zeroTask\<lparr>ID := ''b'', Duration := 2, ES := 1, EF := 3, Assignments := [alice]\<rparr>),
     (''a'', zeroTask\<lparr>ID := ''a'', Duration := 2, ES := 0, EF := 2, Assignments := [alice]\<rparr>)]"


subsection \<open>The usage profiles\<close>

text \<open>What one task adds to a resource on a day, in the order the code adds it.\<close>

definition taskUnits :: "Task \<Rightarrow> string \<Rightarrow> int \<Rightarrow> float64 list" where
  "taskUnits t r d = concat (map (\<lambda>a. if Resource a = r
     then replicate (count_list (occupiedDays t) d) (effectiveUnits a) else []) (Assignments t))"

definition uses :: "Task \<Rightarrow> string \<Rightarrow> bool" where
  "uses t r \<longleftrightarrow> r \<noteq> [] \<and> occupiedDays t \<noteq> [] \<and> r \<in> set (map Resource (Assignments t))"

definition profiles_are :: "nat \<Rightarrow> Profiles \<Rightarrow> (string \<Rightarrow> bool) \<Rightarrow> (string \<Rightarrow> int \<Rightarrow> float64 list) \<Rightarrow> bool" where
  "profiles_are H usage used C \<longleftrightarrow> (\<forall>r. map_of usage r =
     (if used r then Some (map (\<lambda>d. foldl fadd 0 (C r (int d))) [0..<H]) else None))
     \<and> (\<forall>r d. \<not> used r \<longrightarrow> C r d = [])"

lemma profiles_are_cong:
  assumes "profiles_are H usage used C" and "\<And>r. used r = used' r" and "\<And>r d. C r d = C' r d"
  shows "profiles_are H usage used' C'"
  using assms by (simp add: profiles_are_def)

lemma addUnits_eq:
  "addUnits u days p = map (\<lambda>d. foldl fadd (p ! d) (replicate (count_list days (int d)) u)) [0..<length p]"
proof (induction days arbitrary: p)
  case Nil
  then show ?case by (simp add: addUnits_def map_nth)
next
  case (Cons x days)
  let ?p = "if x \<ge> 0 \<and> x < int (length p) then p[nat x := fadd (p ! nat x) u] else p"
  have "addUnits u (x # days) p = addUnits u days ?p" by (simp add: addUnits_def)
  also have "\<dots> = map (\<lambda>d. foldl fadd (?p ! d) (replicate (count_list days (int d)) u)) [0..<length p]"
    using Cons.IH [of ?p] by simp
  also have "\<dots> = map (\<lambda>d. foldl fadd (p ! d) (replicate (count_list (x # days) (int d)) u)) [0..<length p]"
    by (rule map_cong) (auto simp: nth_list_update)
  finally show ?case .
qed

lemma addAssignment_profiles:
  assumes "profiles_are (nat horizon) usage used C" and "od \<noteq> []"
  shows "profiles_are (nat horizon) (addAssignment horizon od usage a)
    (\<lambda>r. used r \<or> r \<noteq> [] \<and> r = Resource a)
    (\<lambda>r d. C r d @ (if r \<noteq> [] \<and> Resource a = r then replicate (count_list od d) (effectiveUnits a) else []))"
proof (cases "Resource a = []")
  case True
  with assms show ?thesis by (auto simp: profiles_are_def addAssignment_def)
next
  case False
  show ?thesis
  proof (cases "used (Resource a)")
    case True
    then have "map_of usage (Resource a) = Some (map (\<lambda>d. foldl fadd 0 (C (Resource a) (int d))) [0..<nat horizon])"
      using assms(1) by (simp add: profiles_are_def)
    then show ?thesis using assms(1) False True
      by (auto simp: profiles_are_def addAssignment_def map_of_modify_at addUnits_eq)
  next
    case unused: False
    then have n: "map_of usage (Resource a) = None" "\<And>d. C (Resource a) d = []"
      using assms(1) by (auto simp: profiles_are_def)
    show ?thesis using assms(1) False unused n
      by (auto simp: profiles_are_def addAssignment_def addUnits_eq map_add_def split: option.splits)
  qed
qed

lemma addAssignments_profiles:
  assumes "od \<noteq> []"
  shows "profiles_are (nat horizon) usage used C \<Longrightarrow>
    profiles_are (nat horizon) (foldl (addAssignment horizon od) usage as)
      (\<lambda>r. used r \<or> r \<noteq> [] \<and> r \<in> set (map Resource as))
      (\<lambda>r d. C r d @ (if r \<noteq> [] then concat (map (\<lambda>a. if Resource a = r
         then replicate (count_list od d) (effectiveUnits a) else []) as) else []))"
proof (induction as arbitrary: usage used C)
  case (Cons a as)
  show ?case unfolding foldl.simps
    by (rule profiles_are_cong [OF Cons.IH [OF addAssignment_profiles [OF Cons.prems assms, of a]]]) auto
qed (simp cong: if_cong)

lemma addTask_profiles:
  assumes "profiles_are (nat horizon) usage used C"
  shows "profiles_are (nat horizon) (addTask horizon usage t)
    (\<lambda>r. used r \<or> uses t r) (\<lambda>r d. C r d @ (if r \<noteq> [] then taskUnits t r d else []))"
proof (cases "occupiedDays t = []")
  case True
  have "concat (map (\<lambda>a. if Resource a = r then [] else []) as) = ([] :: float64 list)" for r as
    by (induction as) auto
  with True have "taskUnits t r d = []" for r d by (simp add: taskUnits_def cong: if_cong)
  with True assms show ?thesis by (simp add: addTask_def uses_def profiles_are_def)
next
  case False
  then have "addTask horizon usage t = foldl (addAssignment horizon (occupiedDays t)) usage (Assignments t)"
    by (simp add: addTask_def Let_def)
  then show ?thesis
    by (simp only:) (rule profiles_are_cong [OF addAssignments_profiles [OF False assms, of "Assignments t"]],
      auto simp: uses_def taskUnits_def False)
qed

lemma ResourceUsage_lookup:
  "map_of (ResourceUsage tasks) r =
     (if \<exists>t \<in> set (map snd tasks). uses t r
      then Some (map (\<lambda>d. foldl fadd 0 (concat (map (\<lambda>t. taskUnits t r (int d)) (map snd tasks))))
                  [0..<nat (usageHorizon tasks)])
      else None)"
proof -
  have "profiles_are (nat h) (foldl (addTask h) u ts) (\<lambda>r. used r \<or> (\<exists>t \<in> set ts. uses t r))
      (\<lambda>r d. C r d @ (if r \<noteq> [] then concat (map (\<lambda>t. taskUnits t r d) ts) else []))"
    if "profiles_are (nat h) u used C" for h u ts used C
    using that
  proof (induction ts arbitrary: u used C)
    case (Cons t ts)
    show ?case unfolding foldl.simps
      by (rule profiles_are_cong [OF Cons.IH [OF addTask_profiles [OF Cons.prems, of t]]]) auto
  qed (simp cong: if_cong)
  from this [of "usageHorizon tasks" "[]" "\<lambda>_. False" "\<lambda>_ _. []" "map snd tasks"]
  have p: "profiles_are (nat (usageHorizon tasks)) (ResourceUsage tasks) (\<lambda>r. \<exists>t \<in> set (map snd tasks). uses t r)
      (\<lambda>r d. if r \<noteq> [] then concat (map (\<lambda>t. taskUnits t r d) (map snd tasks)) else [])"
    by (simp add: ResourceUsage_def profiles_are_def)
  show ?thesis
  proof (cases "\<exists>t \<in> set (map snd tasks). uses t r")
    case True
    then have "r \<noteq> []" by (auto simp: uses_def)
    with True p show ?thesis by (simp add: profiles_are_def)
  qed (use p in \<open>simp add: profiles_are_def\<close>)
qed

text \<open>
  A usage profile exists for exactly the named resources some task occupies; all
  profiles have the project's length, and the entry of a day is the float sum, in map and
  assignment order, of the effective units of every assignment of a task occupying the day.
\<close>

theorem resource_usage:
  "map_of (ResourceUsage tasks) r =
     (if \<exists>t \<in> set (map snd tasks). uses t r
      then Some (map (\<lambda>d. foldl fadd 0 (concat (map (\<lambda>t. taskUnits t r (int d)) (map snd tasks))))
                  [0..<nat (usageHorizon tasks)])
      else None)"
  by (rule ResourceUsage_lookup)

theorem resource_usage_witness:
  "\<exists>t \<in> set (map snd contended_tasks). uses t ''alice'' \<and> map_of (ResourceUsage contended_tasks) ''alice'' = Some [1, 2, 1]"
proof -
  have u: "\<exists>t \<in> set (map snd contended_tasks). uses t ''alice''" by code_simp
  moreover have "map (\<lambda>d. foldl fadd 0 (concat (map (\<lambda>t. taskUnits t ''alice'' (int d)) (map snd contended_tasks))))
      [0..<nat (usageHorizon contended_tasks)] = [1, 2, 1]" by code_simp
  ultimately show ?thesis using resource_usage [of contended_tasks "''alice''"] by auto
qed

end
