(* ===== verification/Leveling.thy ===== *)
theory Leveling
  imports CPM Resources
begin

text \<open>
  Serial resource leveling: \<^verbatim>\<open>LevelResourcesWithOptions\<close> of
  \<^verbatim>\<open>internal/kernel/resources.go\<close>. The closures of the source become functions
  of the state they capture (the task map and the booking table). The lemmas show that the
  loop always finds a ready task, that every task ends up after its levelled predecessors,
  and that bookings stay within capacity, so that the levelled schedule shows no
  overallocation to the detection of \<^verbatim>\<open>Resources\<close>.
\<close>

subsection \<open>Model: options and results\<close>

definition DefaultLevelingHorizon :: int where "DefaultLevelingHorizon = 10000"

definition LeastTotalFloat :: string where "LeastTotalFloat = ''ltf''"
definition EarliestDeadline :: string where "EarliestDeadline = ''edf''"

record LevelingOptions =
  opt_Horizon :: int
  opt_Strategy :: string
  opt_PriorityCritical :: bool
  opt_AllowSplitting :: bool

record LevelingResult =
  res_UnplacedTaskIDs :: "string list"
  res_SplitTaskIDs :: "string list"

datatype leveling_error = ErrSchedulingCycle | ErrLevelingHorizonExceeded

record LevelState =
  lv_tasks :: Tasks
  lv_pending :: "string list"
  lv_levelled :: "string list"
  lv_booked :: Profiles
  lv_unplaced :: "string list"
  lv_splitIDs :: "string list"

subsection \<open>Model: the closures\<close>

definition higherPriority :: "LevelingOptions \<Rightarrow> string \<Rightarrow> Task \<Rightarrow> Task \<Rightarrow> bool" where
  "higherPriority opts strategy a b =
     (if opt_PriorityCritical opts \<and> IsCritical a \<noteq> IsCritical b then IsCritical a
      else if strategy = EarliestDeadline then
        (if LF a \<noteq> LF b then LF a < LF b else ID a < ID b)
      else (if LS a \<noteq> LS b then LS a < LS b else ID a < ID b))"

definition bookedProfile :: "Profiles \<Rightarrow> string \<Rightarrow> float64 list" where
  "bookedProfile booked r = (case map_of booked r of None \<Rightarrow> [] | Some p \<Rightarrow> p)"

definition demandOn :: "float64 list \<Rightarrow> int \<Rightarrow> float64" where
  "demandOn profile day = (if day < int (length profile) then profile ! nat day else 0)"

definition dayHasCapacity :: "ResourceCapacityPlan \<Rightarrow> Profiles \<Rightarrow> Task \<Rightarrow> int \<Rightarrow> bool" where
  "dayHasCapacity plan booked t d =
     list_all (\<lambda>a. Resource a = [] \<or>
         \<not> fadd (demandOn (bookedProfile booked (Resource a)) d) (effectiveUnits a)
           > fadd (capacityForAssignment plan a d) eps) (Assignments t)"

definition fits :: "ResourceCapacityPlan \<Rightarrow> Profiles \<Rightarrow> Task \<Rightarrow> int \<Rightarrow> bool" where
  "fits plan booked t start =
     (let days = math_Ceil (Duration t) in list_all (dayHasCapacity plan booked t) [start..start + days - 1])"

text \<open>The scan of \<^verbatim>\<open>splitDays\<close>, with the rounds it has left.\<close>

fun splitScan :: "(int \<Rightarrow> bool) \<Rightarrow> int \<Rightarrow> nat \<Rightarrow> int \<Rightarrow> int list \<Rightarrow> int list" where
  "splitScan room d 0 need out = out"
| "splitScan room d (Suc n) need out =
     (if int (length out) < need
      then splitScan room (d + 1) n need (if room d then out @ [d] else out) else out)"

definition splitDays :: "ResourceCapacityPlan \<Rightarrow> int \<Rightarrow> Profiles \<Rightarrow> Task \<Rightarrow> int \<Rightarrow> int \<Rightarrow> int list option" where
  "splitDays plan horizon booked t lo need =
     (let out = splitScan (dayHasCapacity plan booked t) lo (nat (horizon + 1)) need []
      in if int (length out) < need then None else Some out)"

definition growProfile :: "nat \<Rightarrow> float64 list \<Rightarrow> float64 list" where
  "growProfile maxDay profile =
     (if length profile < maxDay then profile @ replicate (maxDay - length profile) 0 else profile)"

definition bookDays :: "float64 \<Rightarrow> int list \<Rightarrow> float64 list \<Rightarrow> float64 list" where
  "bookDays units workDays profile = foldl (\<lambda>p d. p[nat d := fadd (p ! nat d) units]) profile workDays"

definition bookProfileDays :: "Task \<Rightarrow> int list \<Rightarrow> Profiles \<Rightarrow> Profiles" where
  "bookProfileDays t workDays booked =
     (if workDays = [] then booked
      else
        (let maxDay = last workDays + 1 in
         foldl (\<lambda>b a. if Resource a = [] then b
           else AList.update (Resource a)
             (bookDays (effectiveUnits a) workDays (growProfile (nat maxDay) (bookedProfile b (Resource a)))) b)
         booked (Assignments t)))"

definition contiguousDays :: "int \<Rightarrow> int \<Rightarrow> int list" where
  "contiguousDays start days = [start..start + days - 1]"

subsection \<open>Model: one task\<close>

definition levelReady :: "Tasks \<Rightarrow> string list \<Rightarrow> Task \<Rightarrow> bool" where
  "levelReady tasks levelled t =
     list_all (\<lambda>l. \<not> (map_of tasks (Pred l) \<noteq> None \<and> Pred l \<notin> set levelled)) (effectiveLinks t)"

definition pickStep ::
  "LevelingOptions \<Rightarrow> string \<Rightarrow> Tasks \<Rightarrow> string list \<Rightarrow> string list \<Rightarrow> nat option \<Rightarrow> nat \<times> string \<Rightarrow> nat option"
where
  "pickStep opts strategy tasks levelled pending pick p =
     (case p of (i, tid) \<Rightarrow>
        (case map_of tasks tid of
           None \<Rightarrow> pick
         | Some t \<Rightarrow>
             (if \<not> levelReady tasks levelled t then pick
              else case pick of
                     None \<Rightarrow> Some i
                   | Some j \<Rightarrow>
                       (case map_of tasks (pending ! j) of
                          None \<Rightarrow> pick
                        | Some best \<Rightarrow> (if higherPriority opts strategy t best then Some i else pick)))))"

definition pickReady :: "LevelingOptions \<Rightarrow> string \<Rightarrow> Tasks \<Rightarrow> string list \<Rightarrow> string list \<Rightarrow> nat option" where
  "pickReady opts strategy tasks levelled pending =
     foldl (pickStep opts strategy tasks levelled pending) None (List.enumerate 0 pending)"

definition levelEarliest :: "Tasks \<Rightarrow> Task \<Rightarrow> float64" where
  "levelEarliest tasks t =
     (let earliest = earliestFromLinks tasks (ES t) t in if earliest < 0 then 0 else earliest)"

definition startFloor :: "Tasks \<Rightarrow> Task \<Rightarrow> int" where
  "startFloor tasks t = math_Ceil (fsub (levelEarliest tasks t) eps)"

datatype placement = SplitPlaced "int list" | ContigPlaced int | Unplaced

definition choosePlacement ::
  "ResourceCapacityPlan \<Rightarrow> LevelingOptions \<Rightarrow> int \<Rightarrow> Profiles \<Rightarrow> Task \<Rightarrow> int \<Rightarrow> placement"
where
  "choosePlacement plan opts horizon booked t lo =
     (let days = math_Ceil (Duration t);
          contig = find (fits plan booked t) [lo..lo + horizon];
          split = (if opt_AllowSplitting opts then splitDays plan horizon booked t lo days else None);
          contigFinish = (case contig of None \<Rightarrow> MaxInt64 | Some s \<Rightarrow> s + days);
          splitFinish = (case split of None \<Rightarrow> MaxInt64 | Some wd \<Rightarrow> last wd + 1)
      in case (split, contig) of
           (Some wd, _) \<Rightarrow> (if splitFinish < contigFinish then SplitPlaced wd
                             else case contig of Some s \<Rightarrow> ContigPlaced s | None \<Rightarrow> Unplaced)
         | (None, Some s) \<Rightarrow> ContigPlaced s
         | (None, None) \<Rightarrow> Unplaced)"

definition levelTask ::
  "ResourceCapacityPlan \<Rightarrow> LevelingOptions \<Rightarrow> int \<Rightarrow> LevelState \<Rightarrow> string \<Rightarrow> Task \<Rightarrow> LevelState"
where
  "levelTask plan opts horizon st tid t0 =
     (let lo = startFloor (lv_tasks st) t0;
          t = t0\<lparr>WorkDays := []\<rparr>;
          days = math_Ceil (Duration t);
          booked = lv_booked st;
          (t', booked', unplaced', splitIDs') =
            (if Duration t > 0 \<and> Assignments t \<noteq> [] then
               (case choosePlacement plan opts horizon booked t lo of
                  SplitPlaced wd \<Rightarrow>
                    (t\<lparr>WorkDays := wd, EF := float_of_int (last wd + 1), ES := float_of_int (hd wd)\<rparr>,
                     bookProfileDays t wd booked, lv_unplaced st, lv_splitIDs st @ [tid])
                | ContigPlaced s \<Rightarrow>
                    (t\<lparr>EF := fadd (float_of_int s) (Duration t), ES := float_of_int s\<rparr>,
                     bookProfileDays t (contiguousDays s days) booked, lv_unplaced st, lv_splitIDs st)
                | Unplaced \<Rightarrow>
                    (t\<lparr>EF := fadd (float_of_int lo) (Duration t), ES := float_of_int lo\<rparr>,
                     bookProfileDays t (contiguousDays lo days) booked, lv_unplaced st @ [tid], lv_splitIDs st))
             else
               (t\<lparr>ES := float_of_int lo, EF := fadd (float_of_int lo) (Duration t)\<rparr>,
                booked, lv_unplaced st, lv_splitIDs st))
      in st\<lparr>lv_tasks := modify_at tid (\<lambda>_. t') (lv_tasks st), lv_booked := booked',
            lv_unplaced := unplaced', lv_splitIDs := splitIDs', lv_levelled := lv_levelled st @ [tid]\<rparr>)"

subsection \<open>Model: the loop\<close>

definition readyAt :: "Tasks \<Rightarrow> string list \<Rightarrow> string \<Rightarrow> bool" where
  "readyAt tasks levelled tid = (case map_of tasks tid of None \<Rightarrow> False | Some t \<Rightarrow> levelReady tasks levelled t)"

lemma pickStep_cases:
  "pickStep opts strategy tasks levelled pending pick (i, tid) =
     (if readyAt tasks levelled tid
      then (if pick = None then Some i else pickStep opts strategy tasks levelled pending pick (i, tid)) else pick)"
  by (auto simp: pickStep_def readyAt_def split: option.splits)

lemma pickStep_either:
  "readyAt tasks levelled tid \<Longrightarrow>
     pickStep opts strategy tasks levelled pending pick (i, tid) = Some i
     \<or> pick \<noteq> None \<and> pickStep opts strategy tasks levelled pending pick (i, tid) = pick"
  by (auto simp: pickStep_def readyAt_def split: option.splits)

lemma pickFold:
  "foldl (pickStep opts strategy tasks levelled pending) None (List.enumerate 0 xs) = Some i \<Longrightarrow>
     i < length xs \<and> readyAt tasks levelled (xs ! i)"
  "foldl (pickStep opts strategy tasks levelled pending) None (List.enumerate 0 xs) = None \<longleftrightarrow>
     (\<forall>tid \<in> set xs. \<not> readyAt tasks levelled tid)"
proof (induction xs arbitrary: i rule: rev_induct)
  case (snoc x xs)
  let ?f = "pickStep opts strategy tasks levelled pending"
  let ?p = "foldl ?f None (List.enumerate 0 xs)"
  have step: "foldl ?f None (List.enumerate 0 (xs @ [x])) = ?f ?p (length xs, x)" by (simp add: enumerate_append_eq)
  {
    case 1
    show ?case
    proof (cases "readyAt tasks levelled x")
      case True
      then show ?thesis using 1 snoc(1) [of i] pickStep_either [OF True, of opts strategy pending ?p "length xs"]
        unfolding step by (auto simp: nth_append)
    next
      case False
      then show ?thesis using 1 snoc(1) [of i] pickStep_cases [of opts strategy tasks levelled pending ?p "length xs" x]
        unfolding step by (auto simp: nth_append)
    qed
  next
    case 2
    show ?case
    proof (cases "readyAt tasks levelled x")
      case True
      then show ?thesis using pickStep_either [OF True, of opts strategy pending ?p "length xs"]
        unfolding step by auto
    next
      case False
      then show ?thesis using snoc(2) pickStep_cases [of opts strategy tasks levelled pending ?p "length xs" x]
        unfolding step by auto
    qed
  }
qed auto

lemma pickReady_Some:
  assumes "pickReady opts strategy tasks levelled pending = Some i"
  shows "i < length pending" and "readyAt tasks levelled (pending ! i)"
  using pickFold(1) assms unfolding pickReady_def by blast+

lemma pickReady_None: "pickReady opts strategy tasks levelled pending = None \<longleftrightarrow> (\<forall>tid \<in> set pending. \<not> readyAt tasks levelled tid)"
  unfolding pickReady_def by (rule pickFold(2))

function levelLoop ::
  "ResourceCapacityPlan \<Rightarrow> LevelingOptions \<Rightarrow> int \<Rightarrow> string \<Rightarrow> LevelState \<Rightarrow> LevelState \<times> leveling_error option"
where
  "levelLoop plan opts horizon strategy st =
     (if lv_pending st = [] then (st, None)
      else case pickReady opts strategy (lv_tasks st) (lv_levelled st) (lv_pending st) of
             None \<Rightarrow> (st, Some ErrSchedulingCycle)
           | Some i \<Rightarrow>
               (let tid = lv_pending st ! i;
                    st1 = st\<lparr>lv_pending := take i (lv_pending st) @ drop (Suc i) (lv_pending st)\<rparr>
                in case map_of (lv_tasks st) tid of
                     None \<Rightarrow> (st1, Some ErrSchedulingCycle)
                   | Some t \<Rightarrow> levelLoop plan opts horizon strategy (levelTask plan opts horizon st1 tid t)))"
  by pat_completeness auto

lemma levelTask_pending [simp]: "lv_pending (levelTask plan opts horizon st tid t) = lv_pending st"
  by (simp add: levelTask_def Let_def split: prod.splits)

termination levelLoop
proof (relation "measure (\<lambda>(plan, opts, horizon, strategy, st). length (lv_pending st))")
  fix plan opts horizon strategy i tid t and st st1 :: LevelState
  assume "pickReady opts strategy (lv_tasks st) (lv_levelled st) (lv_pending st) = Some i"
    and "st1 = st\<lparr>lv_pending := take i (lv_pending st) @ drop (Suc i) (lv_pending st)\<rparr>"
  then show "((plan, opts, horizon, strategy, levelTask plan opts horizon st1 tid t), plan, opts, horizon, strategy, st)
      \<in> measure (\<lambda>(plan, opts, horizon, strategy, st). length (lv_pending st))"
    using pickReady_Some(1) [of opts strategy "lv_tasks st" "lv_levelled st" "lv_pending st" i] by (simp add: min_def)
qed simp

declare levelLoop.simps [simp del]

definition LevelResourcesWithOptions ::
  "Tasks \<Rightarrow> ResourceCapacityPlan \<Rightarrow> LevelingOptions \<Rightarrow> Tasks \<times> LevelingResult \<times> leveling_error option"
where
  "LevelResourcesWithOptions tasks0 plan opts =
     (let horizon = (if opt_Horizon opts \<le> 0 then DefaultLevelingHorizon else opt_Horizon opts);
          strategy = (if opt_Strategy opts = [] then LeastTotalFloat else opt_Strategy opts);
          noResult = \<lparr>res_UnplacedTaskIDs = [], res_SplitTaskIDs = []\<rparr>
      in case CalculateCPM tasks0 of
           None \<Rightarrow> (tasks0, noResult, Some ErrSchedulingCycle)
         | Some tasks \<Rightarrow>
             (let order = (case topoSort tasks of None \<Rightarrow> [] | Some order \<Rightarrow> order);
                  (st, err) = levelLoop plan opts horizon strategy
                    \<lparr>lv_tasks = tasks, lv_pending = order, lv_levelled = [], lv_booked = [],
                     lv_unplaced = [], lv_splitIDs = []\<rparr>
              in case err of
                   Some e \<Rightarrow> (lv_tasks st, noResult, Some e)
                 | None \<Rightarrow>
                     (lv_tasks st,
                      \<lparr>res_UnplacedTaskIDs = sort (lv_unplaced st), res_SplitTaskIDs = sort (lv_splitIDs st)\<rparr>,
                      if lv_unplaced st \<noteq> [] then Some ErrLevelingHorizonExceeded else None)))"

subsection \<open>Where a task is placed\<close>

lemma splitScan_mem: "d' \<in> set (splitScan room d n need out) \<Longrightarrow> d' \<in> set out \<or> (d \<le> d' \<and> room d')"
proof (induction n arbitrary: d out)
  case (Suc n)
  then show ?case by (fastforce split: if_splits)
qed simp

lemma splitDays_SomeD:
  assumes "splitDays plan horizon booked t lo need = Some wd"
  shows "need \<le> int (length wd)" and "\<And>d. d \<in> set wd \<Longrightarrow> lo \<le> d \<and> dayHasCapacity plan booked t d"
  using assms splitScan_mem [of _ "dayHasCapacity plan booked t" lo "nat (horizon + 1)" need "[]"]
  by (auto simp: splitDays_def Let_def split: if_splits)

lemma choose_contig:
  "choosePlacement plan opts horizon booked t lo = ContigPlaced s \<Longrightarrow> lo \<le> s \<and> fits plan booked t s"
proof -
  assume "choosePlacement plan opts horizon booked t lo = ContigPlaced s"
  then have "find (fits plan booked t) [lo..lo + horizon] = Some s"
    by (auto simp: choosePlacement_def Let_def split: option.splits if_splits)
  then obtain i where "i < length [lo..lo + horizon]" "fits plan booked t ([lo..lo + horizon] ! i)" "s = [lo..lo + horizon] ! i"
    by (auto simp: find_Some_iff)
  then show ?thesis using nth_mem [of i "[lo..lo + horizon]"] by simp
qed

lemma choose_split:
  "choosePlacement plan opts horizon booked t lo = SplitPlaced wd \<Longrightarrow>
     splitDays plan horizon booked t lo (math_Ceil (Duration t)) = Some wd"
  by (auto simp: choosePlacement_def Let_def split: option.splits if_splits)

lemma Ceil_pos: "0 < x \<Longrightarrow> 1 \<le> math_Ceil x"
  by (simp add: math_Ceil_def)

lemma date_updates_commute: "t\<lparr>EF := e, ES := s\<rparr> = (t :: Task)\<lparr>ES := s, EF := e\<rparr>"
  by simp

lemma levelTask_eq:
  obtains t' where
    "lv_tasks (levelTask plan opts horizon st tid t) = modify_at tid (\<lambda>_. t') (lv_tasks st)"
    "\<exists>s e wd. startFloor (lv_tasks st) t \<le> s \<and> t' = t\<lparr>WorkDays := wd, ES := float_of_int s, EF := e\<rparr>"
    "lv_levelled (levelTask plan opts horizon st tid t) = lv_levelled st @ [tid]"
proof -
  let ?f = "startFloor (lv_tasks st) t"
  let ?t = "t\<lparr>WorkDays := []\<rparr>"
  let ?T = "lv_tasks (levelTask plan opts horizon st tid t)"
  let ?mk = "\<lambda>s e wd. t\<lparr>WorkDays := wd, ES := float_of_int s, EF := e\<rparr>"
  have lev: "lv_levelled (levelTask plan opts horizon st tid t) = lv_levelled st @ [tid]"
    by (simp add: levelTask_def Let_def split: prod.splits)
  have "\<exists>s e wd. ?f \<le> s \<and> ?T = modify_at tid (\<lambda>_. ?mk s e wd) (lv_tasks st)"
  proof (cases "Duration t > 0 \<and> Assignments t \<noteq> []")
    case False
    then show ?thesis
      by (intro exI [of _ ?f] exI [of _ "fadd (float_of_int ?f) (Duration t)"] exI [of _ "[]"]) (auto simp: levelTask_def Let_def)
  next
    case True
    show ?thesis
    proof (cases "choosePlacement plan opts horizon (lv_booked st) ?t ?f")
      case (SplitPlaced wd)
      have sd: "splitDays plan horizon (lv_booked st) ?t ?f (math_Ceil (Duration t)) = Some wd"
        using choose_split [OF SplitPlaced] by simp
      then have "wd \<noteq> []" using splitDays_SomeD(1) [OF sd] Ceil_pos [of "Duration t"] True by auto
      then have "?f \<le> hd wd" using splitDays_SomeD(2) [OF sd, of "hd wd"] by simp
      then show ?thesis using True SplitPlaced
        by (intro exI [of _ "hd wd"] exI [of _ "float_of_int (last wd + 1)"] exI [of _ wd])
          (simp add: levelTask_def Let_def date_updates_commute)
    next
      case (ContigPlaced s)
      then show ?thesis using True choose_contig [OF ContigPlaced]
        by (intro exI [of _ s] exI [of _ "fadd (float_of_int s) (Duration t)"] exI [of _ "[]"])
          (simp add: levelTask_def Let_def date_updates_commute)
    next
      case Unplaced
      then show ?thesis using True
        by (intro exI [of _ ?f] exI [of _ "fadd (float_of_int ?f) (Duration t)"] exI [of _ "[]"])
          (simp add: levelTask_def Let_def date_updates_commute)
    qed
  qed
  then show thesis using that lev by blast
qed

lemma startFloor_bounds:
  shows "0 \<le> startFloor ts t" and "fsub (ES t) eps \<le> of_int (startFloor ts t)"
    and "l \<in> set (effectiveLinks t) \<Longrightarrow> map_of ts (Pred l) = Some p \<Longrightarrow>
      fsub (linkCandidate p t l) eps \<le> of_int (startFloor ts t)"
proof -
  let ?e = "levelEarliest ts t"
  have up: "fsub ?e eps \<le> of_int (startFloor ts t)" by (simp add: startFloor_def math_Ceil_def)
  have mono: "x \<le> ?e \<Longrightarrow> fsub x eps \<le> of_int (startFloor ts t)" for x
    using up f64_mono [of "x - eps" "?e - eps"] by (simp add: fsub_def)
  have le: "earliestFromLinks ts (ES t) t \<le> ?e" "0 \<le> ?e" by (simp_all add: levelEarliest_def Let_def)
  have "fsub 0 eps \<le> of_int (startFloor ts t)" using mono le(2) by blast
  moreover have "- 1 < fsub 0 eps" by code_simp
  ultimately have "(- 1 :: rat) < of_int (startFloor ts t)" by (rule less_le_trans [rotated])
  then show "0 \<le> startFloor ts t" by linarith
  show "fsub (ES t) eps \<le> of_int (startFloor ts t)"
    using mono earliest_ge_start [of "ES t" ts t] le(1) by (meson order_trans)
  show "fsub (linkCandidate p t l) eps \<le> of_int (startFloor ts t)"
    if "l \<in> set (effectiveLinks t)" "map_of ts (Pred l) = Some p"
    using mono earliest_ge_candidate [OF that, of "ES t"] le(1) by (meson order_trans)
qed

lemma fsub_le_float: "fsub x eps \<le> of_int n \<Longrightarrow> n \<le> s \<Longrightarrow> fsub x eps \<le> float_of_int s"
proof -
  assume "fsub x eps \<le> of_int n" "n \<le> s"
  then have "fsub x eps \<le> of_int s" by (meson of_int_le_iff order_trans)
  then have "f64 (fsub x eps) \<le> float_of_int s" unfolding float_of_int_def by (rule f64_mono)
  then show ?thesis by (simp add: fsub_def)
qed

lemma float_of_int_nonneg: "0 \<le> n \<Longrightarrow> 0 \<le> float_of_int n"
  unfolding float_of_int_def by (rule binary64.nonneg) simp

subsection \<open>The loop invariant\<close>

text \<open>
  \<open>base\<close> is the schedule before leveling. Levelled tasks differ from it in their dates
  and work days only, pending ones not at all; levelled tasks have levelled predecessors
  and respect them.
\<close>

definition keepsLinks :: "Tasks \<Rightarrow> Task \<Rightarrow> Task \<Rightarrow> bool" where
  "keepsLinks ts b t \<longleftrightarrow> 0 \<le> ES t \<and> fsub (ES b) eps \<le> ES t \<and>
     (\<forall>l p. l \<in> set (effectiveLinks t) \<and> map_of ts (Pred l) = Some p \<longrightarrow> fsub (linkCandidate p t l) eps \<le> ES t)"

definition same_but_dates :: "Task \<Rightarrow> Task \<Rightarrow> bool" where
  "same_but_dates b t \<longleftrightarrow> t = b\<lparr>WorkDays := WorkDays t, ES := ES t, EF := EF t\<rparr>"

definition level_inv :: "Tasks \<Rightarrow> string list \<Rightarrow> LevelState \<Rightarrow> bool" where
  "level_inv base order st \<longleftrightarrow>
     map fst (lv_tasks st) = map fst base
     \<and> distinct (lv_levelled st @ lv_pending st) \<and> set (lv_levelled st @ lv_pending st) = set order
     \<and> (\<forall>k b. map_of base k = Some b \<longrightarrow> (\<exists>t. map_of (lv_tasks st) k = Some t \<and> same_but_dates b t))
     \<and> (\<forall>k \<in> set (lv_pending st). map_of (lv_tasks st) k = map_of base k)
     \<and> (\<forall>k \<in> set (lv_levelled st). \<forall>b t. map_of base k = Some b \<and> map_of (lv_tasks st) k = Some t \<longrightarrow>
          keepsLinks (lv_tasks st) b t
          \<and> (\<forall>l \<in> set (effectiveLinks t). map_of base (Pred l) \<noteq> None \<longrightarrow> Pred l \<in> set (lv_levelled st)))"

lemma same_but_dates_fields:
  assumes "same_but_dates b t"
  shows "ID t = ID b" "Duration t = Duration b" "effectiveLinks t = effectiveLinks b" "Assignments t = Assignments b"
proof -
  have e: "t = b\<lparr>WorkDays := WorkDays t, ES := ES t, EF := EF t\<rparr>" using assms by (simp add: same_but_dates_def)
  show "ID t = ID b" "Duration t = Duration b" "Assignments t = Assignments b" by (subst e, simp)+
  show "effectiveLinks t = effectiveLinks b" by (rule effectiveLinks_cong) (subst e, simp)+
qed

lemma same_but_dates_refl [simp]: "same_but_dates t t"
  by (simp add: same_but_dates_def)

lemma keepsLinks_cong:
  assumes "keepsLinks ts b t" and "\<And>l. l \<in> set (effectiveLinks t) \<Longrightarrow> map_of ts (Pred l) = map_of ts' (Pred l)"
  shows "keepsLinks ts' b t"
  using assms unfolding keepsLinks_def by metis

text \<open>One round of the loop: the task that is picked was ready.\<close>

lemma level_inv_step:
  assumes inv: "level_inv base order st" and i: "i < length (lv_pending st)"
    and ready: "readyAt (lv_tasks st) (lv_levelled st) (lv_pending st ! i)"
    and t: "map_of (lv_tasks st) (lv_pending st ! i) = Some t"
    and st1: "st1 = st\<lparr>lv_pending := take i (lv_pending st) @ drop (Suc i) (lv_pending st)\<rparr>"
  shows "level_inv base order (levelTask plan opts horizon st1 (lv_pending st ! i) t)"
proof -
  define k where "k = lv_pending st ! i"
  define st2 where "st2 = levelTask plan opts horizon st1 k t"
  have st1f: "lv_tasks st1 = lv_tasks st" "lv_levelled st1 = lv_levelled st"
    "lv_pending st1 = take i (lv_pending st) @ drop (Suc i) (lv_pending st)" by (simp_all add: st1)
  obtain t' where T: "lv_tasks st2 = modify_at k (\<lambda>_. t') (lv_tasks st)"
    and t': "\<exists>s e wd. startFloor (lv_tasks st) t \<le> s \<and> t' = t\<lparr>WorkDays := wd, ES := float_of_int s, EF := e\<rparr>"
    and L: "lv_levelled st2 = lv_levelled st @ [k]"
    using levelTask_eq [of plan opts horizon st1 k t] unfolding st2_def st1f by metis
  obtain A B where split: "lv_pending st = A @ k # B" and P: "lv_pending st2 = A @ B"
    using i by (simp add: st2_def st1f k_def) (metis id_take_nth_drop)
  note I = inv [unfolded level_inv_def]
  have keys: "map fst (lv_tasks st) = map fst base" and dist: "distinct (lv_levelled st @ lv_pending st)"
    and sets: "set (lv_levelled st @ lv_pending st) = set order" using I by auto
  have kp: "k \<in> set (lv_pending st)" "k \<notin> set (lv_levelled st)" using dist unfolding split by auto
  have kb: "map_of base k = Some t" using I kp(1) t by (metis k_def)
  have look: "map_of (lv_tasks st2) j = (if j = k then Some t' else map_of (lv_tasks st) j)" for j
    using t by (auto simp: T map_of_modify_at k_def)
  have tt: "effectiveLinks t' = effectiveLinks t" "Duration t' = Duration t" "same_but_dates t t'"
  proof -
    from t' obtain s e wd where "t' = t\<lparr>WorkDays := wd, ES := float_of_int s, EF := e\<rparr>" by blast
    then show "same_but_dates t t'" by (simp add: same_but_dates_def)
    then show "effectiveLinks t' = effectiveLinks t" "Duration t' = Duration t" by (simp_all add: same_but_dates_fields)
  qed
  have rdy: "Pred l \<in> set (lv_levelled st)" if "l \<in> set (effectiveLinks t)" "map_of base (Pred l) \<noteq> None" for l
  proof -
    have "map_of (lv_tasks st) (Pred l) \<noteq> None" using that(2) keys by (simp add: map_of_is_None_iff)
    then show ?thesis using ready t that(1) by (auto simp: readyAt_def levelReady_def list_all_iff)
  qed
  have linkk: "Pred l \<noteq> k" if "l \<in> set (effectiveLinks t)" "map_of base (Pred l) \<noteq> None" for l
    using rdy [OF that] kp(2) by auto
  have new: "keepsLinks (lv_tasks st2) t t'"
  proof -
    obtain s e wd where s: "startFloor (lv_tasks st) t \<le> s" "t' = t\<lparr>WorkDays := wd, ES := float_of_int s, EF := e\<rparr>" using t' by blast
    have es: "ES t' = float_of_int s" using s(2) by simp
    have "0 \<le> s" using startFloor_bounds(1) [of "lv_tasks st" t] s(1) by linarith
    then have "0 \<le> ES t'" by (simp add: es float_of_int_nonneg)
    moreover have "fsub (ES t) eps \<le> ES t'" unfolding es by (rule fsub_le_float [OF startFloor_bounds(2) s(1)])
    moreover have "fsub (linkCandidate p t' l) eps \<le> ES t'"
      if l: "l \<in> set (effectiveLinks t')" and p: "map_of (lv_tasks st2) (Pred l) = Some p" for l p
    proof -
      have "map_of base (Pred l) \<noteq> None"
        using p look [of "Pred l"] kb map_of_is_None_iff [of base "Pred l"] map_of_is_None_iff [of "lv_tasks st" "Pred l"] keys
        by (cases "Pred l = k") auto
      then have "map_of (lv_tasks st) (Pred l) = Some p" using p look linkk l tt(1) by metis
      then have "fsub (linkCandidate p t l) eps \<le> of_int (startFloor (lv_tasks st) t)"
        using startFloor_bounds(3) l tt(1) by metis
      moreover have "linkCandidate p t' l = linkCandidate p t l" by (simp add: linkCandidate_def tt(2))
      ultimately show ?thesis unfolding es using fsub_le_float s(1) by metis
    qed
    ultimately show ?thesis unfolding keepsLinks_def by blast
  qed
  have "level_inv base order st2"
    unfolding level_inv_def
  proof (intro conjI ballI allI impI)
    show "map fst (lv_tasks st2) = map fst base" by (simp add: T keys)
    show "distinct (lv_levelled st2 @ lv_pending st2)" using dist unfolding L P split by auto
    show "set (lv_levelled st2 @ lv_pending st2) = set order" using sets unfolding L P split by auto
    fix j b assume b: "map_of base j = Some b"
    show "\<exists>t. map_of (lv_tasks st2) j = Some t \<and> same_but_dates b t"
      using I b kb tt(3) look by (metis option.inject)
  next
    fix j assume j: "j \<in> set (lv_pending st2)"
    then have "j \<noteq> k" "j \<in> set (lv_pending st)" using dist unfolding P split by auto
    then show "map_of (lv_tasks st2) j = map_of base j" using I look by metis
  next
    fix j b u assume j: "j \<in> set (lv_levelled st2)" and bu: "map_of base j = Some b \<and> map_of (lv_tasks st2) j = Some u"
    show "keepsLinks (lv_tasks st2) b u"
    proof (cases "j = k")
      case True
      then show ?thesis using new bu kb look by simp
    next
      case False
      then have jl: "j \<in> set (lv_levelled st)" and u: "map_of (lv_tasks st) j = Some u" using j bu look L by auto
      have old: "keepsLinks (lv_tasks st) b u" using I jl bu u by blast
      show ?thesis
      proof (rule keepsLinks_cong [OF old])
        fix l assume l: "l \<in> set (effectiveLinks u)"
        show "map_of (lv_tasks st) (Pred l) = map_of (lv_tasks st2) (Pred l)"
        proof (cases "map_of base (Pred l)")
          case None
          then show ?thesis using keys kb look by (metis map_of_is_None_iff option.distinct(1))
        next
          case (Some q)
          then have "Pred l \<in> set (lv_levelled st)" using I jl bu u l by blast
          then show ?thesis using kp(2) look by metis
        qed
      qed
    qed
    fix l assume "l \<in> set (effectiveLinks u)" "map_of base (Pred l) \<noteq> None"
    then show "Pred l \<in> set (lv_levelled st2)"
      using rdy I j bu look L tt(1) kb by (cases "j = k") auto
  qed
  then show ?thesis by (simp add: st2_def k_def)
qed

subsection \<open>The loop always finds a ready task\<close>

definition topo_order :: "Tasks \<Rightarrow> string list \<Rightarrow> bool" where
  "topo_order base order \<longleftrightarrow> distinct order \<and> set order = set (map fst base) \<and>
     (\<forall>xs k ys t l. order = xs @ k # ys \<and> map_of base k = Some t \<and> l \<in> set (effectiveLinks t)
        \<and> map_of base (Pred l) \<noteq> None \<longrightarrow> Pred l \<in> set xs)"

lemma pending_ready:
  assumes inv: "level_inv base order st" and topo: "topo_order base order" and ne: "lv_pending st \<noteq> []"
  shows "\<exists>k \<in> set (lv_pending st). readyAt (lv_tasks st) (lv_levelled st) k"
proof -
  note I = inv [unfolded level_inv_def]
  have "\<exists>k \<in> set order. k \<in> set (lv_pending st)" using I ne by (cases "lv_pending st") auto
  then obtain xs k ys where o: "order = xs @ k # ys" "k \<in> set (lv_pending st)" "\<forall>x \<in> set xs. x \<notin> set (lv_pending st)"
    using split_list_first_prop [of order "\<lambda>k. k \<in> set (lv_pending st)"] by blast
  have "k \<in> set (map fst base)" using topo o(1) unfolding topo_order_def by auto
  then obtain t where t: "map_of base k = Some t" using map_of_is_None_iff [of base k] by auto
  then have tt: "map_of (lv_tasks st) k = Some t" using I o(2) by metis
  have "Pred l \<in> set (lv_levelled st)" if "l \<in> set (effectiveLinks t)" "map_of (lv_tasks st) (Pred l) \<noteq> None" for l
  proof -
    have "map_of base (Pred l) \<noteq> None" using that(2) I by (metis map_of_is_None_iff)
    then have "Pred l \<in> set xs" using topo o(1) t that(1) unfolding topo_order_def by blast
    then show ?thesis using o I by auto
  qed
  then have "readyAt (lv_tasks st) (lv_levelled st) k"
    by (simp add: readyAt_def tt levelReady_def list_all_iff del: not_None_eq) blast
  with o(2) show ?thesis by blast
qed

lemma levelLoop_done:
  assumes "level_inv base order st" and topo: "topo_order base order"
  shows "\<exists>st'. levelLoop plan opts horizon strategy st = (st', None) \<and> level_inv base order st' \<and> lv_pending st' = []"
  using assms(1)
proof (induction "length (lv_pending st)" arbitrary: st rule: less_induct)
  case less
  show ?case
  proof (cases "lv_pending st = []")
    case True
    then show ?thesis using less.prems by (simp add: levelLoop.simps [of plan opts horizon strategy st])
  next
    case False
    obtain i where i: "pickReady opts strategy (lv_tasks st) (lv_levelled st) (lv_pending st) = Some i"
      using pending_ready [OF less.prems topo False] pickReady_None by (metis option.exhaust)
    note ir = pickReady_Some [OF i]
    obtain t where t: "map_of (lv_tasks st) (lv_pending st ! i) = Some t"
      using ir(2) by (auto simp: readyAt_def split: option.splits)
    define st1 where "st1 = st\<lparr>lv_pending := take i (lv_pending st) @ drop (Suc i) (lv_pending st)\<rparr>"
    let ?st2 = "levelTask plan opts horizon st1 (lv_pending st ! i) t"
    have "levelLoop plan opts horizon strategy st = levelLoop plan opts horizon strategy ?st2"
      using False i t by (simp add: levelLoop.simps [of plan opts horizon strategy st] st1_def)
    moreover have "level_inv base order ?st2" by (rule level_inv_step [OF less.prems ir t st1_def])
    moreover have "length (lv_pending ?st2) < length (lv_pending st)" using ir(1) by (simp add: st1_def)
    ultimately show ?thesis using less.hyps by metis
  qed
qed

lemma CalculateCPM_links:
  assumes "wf_tasks tasks" and "CalculateCPM tasks = Some out"
  shows "map_option effectiveLinks (map_of out k) = map_option effectiveLinks (map_of tasks k)"
    and "map_option Duration (map_of out k) = map_option Duration (map_of tasks k)"
    and "map_option Assignments (map_of out k) = map_option Assignments (map_of tasks k)"
proof -
  obtain F B where
    "\<And>k. map_of F k = map_option (forwardTask F) (map_of tasks k)"
    "\<And>k. map_of B k = map_option (backwardTask (successorLinks F) (projectFinish F) B) (map_of F k)"
    "\<And>k. map_of out k = map_option (\<lambda>t. alapTask (clampProgress t)) (map_of B k)"
    by (rule CalculateCPM_SomeE [OF assms]) blast
  then show "map_option effectiveLinks (map_of out k) = map_option effectiveLinks (map_of tasks k)"
    "map_option Duration (map_of out k) = map_option Duration (map_of tasks k)"
    "map_option Assignments (map_of out k) = map_option Assignments (map_of tasks k)"
    by (simp_all add: option.map_comp comp_def)
qed

lemma CalculateCPM_topo:
  assumes wf: "wf_tasks tasks" and out: "CalculateCPM tasks = Some out"
  obtains order where "topoSort out = Some order" "topo_order out order"
proof -
  note wfo = CalculateCPM_wf [OF wf out] and lk = CalculateCPM_links(1) [OF wf out]
  have "topoSort tasks \<noteq> None" using out by (auto simp: CalculateCPM_def split: option.splits)
  then have "acyclic (set (taskEdges tasks))" using kahn.fails_iff_cycle [OF wf] by simp
  moreover have "set (taskEdges out) \<subseteq> set (taskEdges tasks)"
  proof clarify
    fix p s assume "(p, s) \<in> set (taskEdges out)"
    then obtain k t l where e: "(k, t) \<in> set out" "l \<in> set (effectiveLinks t)" "Pred l = p" "map_of out p \<noteq> None" "s = ID t"
      by (auto simp: taskEdges_iff)
    have m: "map_of out k = Some t" using e(1) wfo(1) by (simp add: wf_tasks_def)
    then obtain u where u: "map_of tasks k = Some u" "effectiveLinks u = effectiveLinks t" using lk [of k] by (cases "map_of tasks k") auto
    have "ID t = k" "ID u = k" using wf_tasks_map_of wf wfo(1) m u(1) by blast+
    moreover have "map_of tasks p \<noteq> None" using e(4) wfo(2) by (simp add: map_of_is_None_iff)
    ultimately show "(p, s) \<in> set (taskEdges tasks)"
      using e u map_of_SomeD [OF u(1)] by (fastforce simp: taskEdges_iff)
  qed
  ultimately have "acyclic (set (taskEdges out))" by (meson acyclic_subset)
  then obtain order where o: "topoSort out = Some order" using kahn.fails_iff_cycle [OF wfo(1)] by auto
  have "topo_order out order"
    unfolding topo_order_def
    using kahn.sorter_Some [OF wfo(1) o] kahn.pred_done [OF wfo(1)] o by blast
  with o show thesis by (rule that)
qed

subsection \<open>The result of leveling\<close>

definition levelHorizon :: "LevelingOptions \<Rightarrow> int" where
  "levelHorizon opts = (if opt_Horizon opts \<le> 0 then DefaultLevelingHorizon else opt_Horizon opts)"

definition levelStrategy :: "LevelingOptions \<Rightarrow> string" where
  "levelStrategy opts = (if opt_Strategy opts = [] then LeastTotalFloat else opt_Strategy opts)"

definition levelStart :: "Tasks \<Rightarrow> string list \<Rightarrow> LevelState" where
  "levelStart base order = \<lparr>lv_tasks = base, lv_pending = order, lv_levelled = [], lv_booked = [],
     lv_unplaced = [], lv_splitIDs = []\<rparr>"

lemma level_result:
  assumes "wf_tasks tasks" and "CalculateCPM tasks = Some base"
  obtains order st where "topo_order base order"
    "levelLoop plan opts (levelHorizon opts) (levelStrategy opts) (levelStart base order) = (st, None)"
    "level_inv base order st" "lv_pending st = []"
    "LevelResourcesWithOptions tasks plan opts = (lv_tasks st,
       \<lparr>res_UnplacedTaskIDs = sort (lv_unplaced st), res_SplitTaskIDs = sort (lv_splitIDs st)\<rparr>,
       if lv_unplaced st \<noteq> [] then Some ErrLevelingHorizonExceeded else None)"
proof -
  obtain order where o: "topoSort base = Some order" "topo_order base order" by (rule CalculateCPM_topo [OF assms])
  have "level_inv base order (levelStart base order)"
    using o(2) by (simp add: level_inv_def levelStart_def topo_order_def)
  then obtain st where st: "levelLoop plan opts (levelHorizon opts) (levelStrategy opts) (levelStart base order) = (st, None)"
    "level_inv base order st" "lv_pending st = []" using levelLoop_done [OF _ o(2)] by blast
  have "LevelResourcesWithOptions tasks plan opts = (lv_tasks st,
       \<lparr>res_UnplacedTaskIDs = sort (lv_unplaced st), res_SplitTaskIDs = sort (lv_splitIDs st)\<rparr>,
       if lv_unplaced st \<noteq> [] then Some ErrLevelingHorizonExceeded else None)"
    using st(1) unfolding LevelResourcesWithOptions_def Let_def levelHorizon_def [symmetric] levelStrategy_def [symmetric]
    by (simp add: assms(2) o(1) levelStart_def)
  with o st show thesis by (rule_tac that)
qed

subsection \<open>Bookings\<close>

lemma bookedProfile_update:
  "bookedProfile (AList.update r p b) q = (if q = r then p else bookedProfile b q)"
  by (simp add: bookedProfile_def update_conv')

lemma demandOn_bookDays:
  assumes "\<forall>x \<in> set days. 0 \<le> x \<and> x < int n" and "distinct days" and "0 \<le> d"
  shows "demandOn (bookDays u days (growProfile n p)) d =
    (if d \<in> set days then fadd (demandOn p d) u else demandOn p d)"
proof -
  have grow: "demandOn (growProfile n p) d = demandOn p d"
    using assms(3) by (auto simp: demandOn_def growProfile_def nth_append)
  have len: "n \<le> length (growProfile n p)" by (simp add: growProfile_def)
  have book: "demandOn (bookDays u days q) d = (if d \<in> set days then fadd (demandOn q d) u else demandOn q d)"
    if "n \<le> length q" for q
    using assms(1,2) that
  proof (induction days arbitrary: q)
    case Nil
    then show ?case by (simp add: bookDays_def)
  next
    case (Cons x days)
    let ?q = "q[nat x := fadd (q ! nat x) u]"
    have "bookDays u (x # days) q = bookDays u days ?q" by (simp add: bookDays_def)
    moreover have "demandOn ?q d = (if d = x then fadd (demandOn q d) u else demandOn q d)"
      using Cons.prems assms(3) by (auto simp: demandOn_def nth_list_update)
    ultimately show ?case using Cons.IH [of ?q] Cons.prems by auto
  qed
  show ?thesis using book [OF len] grow by simp
qed

text \<open>Booking a task adds its units once on each of the given days, for each of its resources.\<close>

lemma bookProfileDays_demand:
  assumes days: "distinct days" "\<forall>x \<in> set days. 0 \<le> x \<and> x \<le> last days" and d: "0 \<le> d"
    and res: "distinct (map Resource (Assignments t))"
  shows "demandOn (bookedProfile (bookProfileDays t days b) r) d =
    (case find (\<lambda>a. Resource a = r \<and> r \<noteq> []) (Assignments t) of
       Some a \<Rightarrow> (if d \<in> set days then fadd (demandOn (bookedProfile b r) d) (effectiveUnits a)
                   else demandOn (bookedProfile b r) d)
     | None \<Rightarrow> demandOn (bookedProfile b r) d)"
proof (cases "days = []")
  case True
  then show ?thesis by (simp add: bookProfileDays_def split: option.splits)
next
  case False
  let ?n = "nat (last days + 1)"
  have "0 \<le> last days" using days(2) False by auto
  then have rng: "\<forall>x \<in> set days. 0 \<le> x \<and> x < int ?n" using days(2) by auto
  define step where "step = (\<lambda>b a. if Resource a = [] then b
     else AList.update (Resource a) (bookDays (effectiveUnits a) days (growProfile ?n (bookedProfile b (Resource a)))) b)"
  have "demandOn (bookedProfile (foldl step b as) r) d =
      (case find (\<lambda>a. Resource a = r \<and> r \<noteq> []) as of
         Some a \<Rightarrow> (if d \<in> set days then fadd (demandOn (bookedProfile b r) d) (effectiveUnits a)
                     else demandOn (bookedProfile b r) d)
       | None \<Rightarrow> demandOn (bookedProfile b r) d)" if "distinct (map Resource as)" for as
    using that
  proof (induction as arbitrary: b)
    case (Cons a as)
    have one: "demandOn (bookedProfile (step b a) r) d =
       (if Resource a = r \<and> r \<noteq> [] \<and> d \<in> set days then fadd (demandOn (bookedProfile b r) d) (effectiveUnits a)
        else demandOn (bookedProfile b r) d)"
      using demandOn_bookDays [OF rng days(1) d] by (auto simp: step_def bookedProfile_update)
    show ?case
    proof (cases "Resource a = r \<and> r \<noteq> []")
      case True
      then have "find (\<lambda>a. Resource a = r \<and> r \<noteq> []) as = None" using Cons.prems by (auto simp: find_None_iff) (metis image_eqI)
      then show ?thesis using Cons.IH [of "step b a"] Cons.prems one True by simp
    next
      case False
      then have "demandOn (bookedProfile (step b a) r) d = demandOn (bookedProfile b r) d" using one by auto
      then show ?thesis using Cons.IH [of "step b a"] Cons.prems False by (auto split: option.splits)
    qed
  qed simp
  from this [OF res] show ?thesis using False by (simp add: bookProfileDays_def step_def Let_def)
qed

lemma eps_nonneg: "0 \<le> eps"
  by code_simp

lemma capacity_nonneg: "0 \<le> capacityFor plan r d"
  by (auto simp: capacityFor_def capacityFromCalendar_def baseCapacity_def Let_def split: option.splits)

text \<open>A task whose demand on a resource is a single assignment, measured against the resource's own calendar.\<close>

definition tidy_assignments :: "Task \<Rightarrow> bool" where
  "tidy_assignments t \<longleftrightarrow> distinct (map Resource (Assignments t)) \<and> (\<forall>a \<in> set (Assignments t). CalendarID a = [])"

definition unitsOn :: "Task \<Rightarrow> int list \<Rightarrow> string \<Rightarrow> int \<Rightarrow> float64 list" where
  "unitsOn t ds r d = concat (map (\<lambda>a. if Resource a = r
     then replicate (count_list ds d) (effectiveUnits a) else []) (Assignments t))"

text \<open>The days a levelled task was booked on.\<close>

definition placedOn :: "Task \<Rightarrow> int list \<Rightarrow> bool" where
  "placedOn t ds \<longleftrightarrow>
     (if WorkDays t \<noteq> [] then ds = WorkDays t
      else \<exists>s \<ge> 0. ES t = float_of_int s \<and> EF t = fadd (float_of_int s) (Duration t)
             \<and> ds = (if Duration t > 0 \<and> Assignments t \<noteq> [] then [s..s + math_Ceil (Duration t) - 1] else []))"

lemma unitsOn_single:
  assumes "distinct (map Resource (Assignments t))" and "distinct ds" and "r \<noteq> []"
  shows "unitsOn t ds r d = (case find (\<lambda>a. Resource a = r \<and> r \<noteq> []) (Assignments t) of
     Some a \<Rightarrow> (if d \<in> set ds then [effectiveUnits a] else []) | None \<Rightarrow> [])"
proof -
  have c: "count_list ds d = (if d \<in> set ds then 1 else 0)" using assms(2) by (induction ds) auto
  have "concat (map (\<lambda>a. if Resource a = r then replicate (count_list ds d) (effectiveUnits a) else []) as) =
     (case find (\<lambda>a. Resource a = r \<and> r \<noteq> []) as of
        Some a \<Rightarrow> (if d \<in> set ds then [effectiveUnits a] else []) | None \<Rightarrow> [])" if "distinct (map Resource as)" for as
    using that
  proof (induction as)
    case (Cons a as)
    then show ?case using assms(3) c
      by (cases "Resource a = r") (auto simp: find_None_iff concat_eq_Nil_conv split: option.splits, (metis image_eqI)+)
  qed simp
  then show ?thesis using assms(1) by (simp add: unitsOn_def)
qed

lemma splitScan_ascending:
  "sorted_wrt (<) out \<Longrightarrow> (\<forall>x \<in> set out. x < d) \<Longrightarrow> sorted_wrt (<) (splitScan room d n need out)"
proof (induction n arbitrary: d out)
  case (Suc n)
  have "sorted_wrt (<) (if room d then out @ [d] else out)" "\<forall>x \<in> set (if room d then out @ [d] else out). x < d + 1"
    using Suc.prems by (auto simp: sorted_wrt_append)
  with Suc.IH Suc.prems(1) show ?case by simp
qed simp

lemma ascending_last: "sorted_wrt (<) xs \<Longrightarrow> distinct xs \<and> (\<forall>x \<in> set xs. x \<le> last (xs :: int list))"
  by (induction xs) (auto simp: less_imp_le)

lemma tidy_capacity: "tidy_assignments t \<Longrightarrow> a \<in> set (Assignments t) \<Longrightarrow> capacityForAssignment plan a d = capacityFor plan (Resource a) d"
  by (simp add: tidy_assignments_def capacityForAssignment_def)

lemma levelTask_placed:
  assumes un: "lv_unplaced (levelTask plan opts horizon st tid t) = []"
  obtains t' ds where
    "lv_tasks (levelTask plan opts horizon st tid t) = modify_at tid (\<lambda>_. t') (lv_tasks st)"
    "placedOn t' ds" "Assignments t' = Assignments t" "Duration t' = Duration t"
    "distinct ds" "\<forall>x \<in> set ds. 0 \<le> x \<and> x \<le> last ds" "\<forall>d \<in> set ds. dayHasCapacity plan (lv_booked st) t d"
    "lv_booked (levelTask plan opts horizon st tid t) = bookProfileDays t ds (lv_booked st)"
proof -
  let ?f = "startFloor (lv_tasks st) t" and ?t = "t\<lparr>WorkDays := []\<rparr>"
  let ?st = "levelTask plan opts horizon st tid t"
  have f0: "0 \<le> ?f" by (rule startFloor_bounds(1))
  have cap: "dayHasCapacity plan b ?t = dayHasCapacity plan b t" for b by (simp add: dayHasCapacity_def fun_eq_iff)
  have bk: "bookProfileDays ?t ds b = bookProfileDays t ds b" for ds b by (simp add: bookProfileDays_def)
  show thesis
  proof (cases "Duration t > 0 \<and> Assignments t \<noteq> []")
    case False
    then show thesis using f0
      by (intro that [of "?t\<lparr>ES := float_of_int ?f, EF := fadd (float_of_int ?f) (Duration t)\<rparr>" "[]"])
        (auto simp: levelTask_def Let_def placedOn_def bookProfileDays_def)
  next
    case True
    show thesis
    proof (cases "choosePlacement plan opts horizon (lv_booked st) ?t ?f")
      case (SplitPlaced wd)
      have sd: "splitDays plan horizon (lv_booked st) ?t ?f (math_Ceil (Duration t)) = Some wd"
        using choose_split [OF SplitPlaced] by simp
      then have ne: "wd \<noteq> []" using splitDays_SomeD(1) [OF sd] Ceil_pos [of "Duration t"] True by auto
      have asc: "sorted_wrt (<) wd"
        using sd splitScan_ascending [of "[]"] by (auto simp: splitDays_def Let_def split: if_splits)
      show thesis
        by (rule that [of "?t\<lparr>WorkDays := wd, EF := float_of_int (last wd + 1), ES := float_of_int (hd wd)\<rparr>" wd])
          (use True SplitPlaced ne ascending_last [OF asc] splitDays_SomeD(2) [OF sd] f0 in
            \<open>auto simp: levelTask_def Let_def placedOn_def cap bk dest: order_trans\<close>)
    next
      case (ContigPlaced s)
      note c = choose_contig [OF ContigPlaced]
      have l: "last [s..s + math_Ceil (Duration t) - 1] = s + math_Ceil (Duration t) - 1"
        using Ceil_pos [of "Duration t"] True by (simp add: upto_rec2)
      let ?t' = "?t\<lparr>EF := fadd (float_of_int s) (Duration t), ES := float_of_int s\<rparr>"
      have pl: "placedOn ?t' [s..s + math_Ceil (Duration t) - 1]"
        unfolding placedOn_def using True c f0 by (simp, intro exI [of _ s]) auto
      show thesis
        by (rule that [OF _ pl])
          (use True ContigPlaced c f0 l in
            \<open>auto simp: levelTask_def Let_def contiguousDays_def bk fits_def cap list_all_iff\<close>)
    next
      case Unplaced
      with True un show thesis by (simp add: levelTask_def Let_def)
    qed
  qed
qed

text \<open>
  The booking table is the sum, in leveling order, of what the levelled tasks were booked
  for, and stays within capacity.
\<close>

definition booked_inv :: "ResourceCapacityPlan \<Rightarrow> LevelState \<Rightarrow> bool" where
  "booked_inv plan st \<longleftrightarrow>
     (\<forall>r d. 0 \<le> d \<longrightarrow> demandOn (bookedProfile (lv_booked st) r) d \<le> fadd (capacityFor plan r d) eps)
     \<and> (\<exists>dayOf. (\<forall>k \<in> set (lv_levelled st). placedOn (the (map_of (lv_tasks st) k)) (dayOf k))
          \<and> (\<forall>r d. r \<noteq> [] \<and> 0 \<le> d \<longrightarrow> demandOn (bookedProfile (lv_booked st) r) d =
               foldl fadd 0 (concat (map (\<lambda>k. unitsOn (the (map_of (lv_tasks st) k)) (dayOf k) r d) (lv_levelled st)))))"

lemma booked_inv_step:
  assumes inv: "booked_inv plan st" and tidy: "tidy_assignments t" and un: "lv_unplaced (levelTask plan opts horizon st tid t) = []"
    and t: "map_of (lv_tasks st) tid = Some t" and fresh: "tid \<notin> set (lv_levelled st)"
  shows "booked_inv plan (levelTask plan opts horizon st tid t)"
proof -
  let ?st = "levelTask plan opts horizon st tid t"
  obtain t' ds where T: "lv_tasks ?st = modify_at tid (\<lambda>_. t') (lv_tasks st)" and pl: "placedOn t' ds"
    and as: "Assignments t' = Assignments t" and ds: "distinct ds" "\<forall>x \<in> set ds. 0 \<le> x \<and> x \<le> last ds"
    and cap: "\<forall>d \<in> set ds. dayHasCapacity plan (lv_booked st) t d"
    and B: "lv_booked ?st = bookProfileDays t ds (lv_booked st)" by (rule levelTask_placed [OF un])
  have L: "lv_levelled ?st = lv_levelled st @ [tid]" by (rule levelTask_eq [of plan opts horizon st tid t])
  have res: "distinct (map Resource (Assignments t))" using tidy by (simp add: tidy_assignments_def)
  note dem = bookProfileDays_demand [OF ds _ res, of _ "lv_booked st", folded B]
  have "demandOn (bookedProfile (lv_booked ?st) r) d \<le> fadd (capacityFor plan r d) eps" if d: "0 \<le> d" for r d
  proof (cases "find (\<lambda>a. Resource a = r \<and> r \<noteq> []) (Assignments t)")
    case None
    then show ?thesis using inv d by (simp add: dem [OF d] booked_inv_def)
  next
    case (Some a)
    then have a: "a \<in> set (Assignments t)" "Resource a = r" "r \<noteq> []" by (auto simp: find_Some_iff)
    show ?thesis
    proof (cases "d \<in> set ds")
      case True
      then have "\<not> fadd (demandOn (bookedProfile (lv_booked st) r) d) (effectiveUnits a) > fadd (capacityFor plan r d) eps"
        using cap a tidy_capacity [OF tidy a(1)] unfolding dayHasCapacity_def list_all_iff by metis
      then show ?thesis using True Some by (simp add: dem [OF d])
    next
      case False
      then show ?thesis using inv d Some by (simp add: dem [OF d] booked_inv_def)
    qed
  qed
  moreover obtain dayOf where D: "\<forall>k \<in> set (lv_levelled st). placedOn (the (map_of (lv_tasks st) k)) (dayOf k)"
      "\<And>r d. r \<noteq> [] \<Longrightarrow> 0 \<le> d \<Longrightarrow> demandOn (bookedProfile (lv_booked st) r) d =
         foldl fadd 0 (concat (map (\<lambda>k. unitsOn (the (map_of (lv_tasks st) k)) (dayOf k) r d) (lv_levelled st)))"
    using inv unfolding booked_inv_def by blast
  let ?dayOf = "dayOf(tid := ds)"
  have look: "map_of (lv_tasks ?st) j = (if j = tid then Some t' else map_of (lv_tasks st) j)" for j
    using t by (auto simp: T map_of_modify_at)
  have "placedOn (the (map_of (lv_tasks ?st) k)) (?dayOf k)" if "k \<in> set (lv_levelled ?st)" for k
    using that D(1) pl L look by auto
  moreover have "demandOn (bookedProfile (lv_booked ?st) r) d =
      foldl fadd 0 (concat (map (\<lambda>k. unitsOn (the (map_of (lv_tasks ?st) k)) (?dayOf k) r d) (lv_levelled ?st)))"
    if r: "r \<noteq> []" and d: "0 \<le> d" for r d
  proof -
    have cm: "map (\<lambda>k. unitsOn (the (map_of (lv_tasks ?st) k)) (?dayOf k) r d) (lv_levelled st)
        = map (\<lambda>k. unitsOn (the (map_of (lv_tasks st) k)) (dayOf k) r d) (lv_levelled st)"
      using fresh by (auto simp: look)
    have ut: "unitsOn t' ds r d = unitsOn t ds r d" by (simp add: unitsOn_def as)
    have eq: "concat (map (\<lambda>k. unitsOn (the (map_of (lv_tasks ?st) k)) (?dayOf k) r d) (lv_levelled ?st))
        = concat (map (\<lambda>k. unitsOn (the (map_of (lv_tasks st) k)) (dayOf k) r d) (lv_levelled st)) @ unitsOn t ds r d"
      unfolding L map_append concat_append cm by (simp add: look ut)
    show ?thesis unfolding eq foldl_append D(2) [OF r d, symmetric] unitsOn_single [OF res ds(1) r] dem [OF d]
      by (simp split: option.splits)
  qed
  ultimately show ?thesis unfolding booked_inv_def by blast
qed

lemma levelTask_unplaced: "\<exists>xs. lv_unplaced (levelTask plan opts horizon st tid t) = lv_unplaced st @ xs"
  by (auto simp: levelTask_def Let_def split: placement.splits)

lemma levelLoop_unplaced: "\<exists>xs. lv_unplaced (fst (levelLoop plan opts horizon strategy st)) = lv_unplaced st @ xs"
proof (induction plan opts horizon strategy st rule: levelLoop.induct)
  case (1 plan opts horizon strategy st)
  show ?case
  proof (cases "lv_pending st = []")
    case True
    then show ?thesis by (simp add: levelLoop.simps [of plan opts horizon strategy st])
  next
    case False
    show ?thesis
    proof (cases "pickReady opts strategy (lv_tasks st) (lv_levelled st) (lv_pending st)")
      case None
      with False show ?thesis by (simp add: levelLoop.simps [of plan opts horizon strategy st])
    next
      case (Some i)
      define st1 where "st1 = st\<lparr>lv_pending := take i (lv_pending st) @ drop (Suc i) (lv_pending st)\<rparr>"
      show ?thesis
      proof (cases "map_of (lv_tasks st) (lv_pending st ! i)")
        case None
        with False Some show ?thesis by (simp add: levelLoop.simps [of plan opts horizon strategy st])
      next
        case t: (Some t)
        have "\<exists>xs. lv_unplaced (fst (levelLoop plan opts horizon strategy (levelTask plan opts horizon st1 (lv_pending st ! i) t)))
            = lv_unplaced (levelTask plan opts horizon st1 (lv_pending st ! i) t) @ xs"
          by (rule 1 [OF False Some refl st1_def t])
        then show ?thesis using False Some t levelTask_unplaced [of plan opts horizon st1 "lv_pending st ! i" t]
          by (auto simp: levelLoop.simps [of plan opts horizon strategy st] st1_def)
      qed
    qed
  qed
qed

lemma levelLoop_booked:
  assumes "level_inv base order st" and "booked_inv plan st"
    and tidy: "\<And>k b. map_of base k = Some b \<Longrightarrow> tidy_assignments b"
    and "lv_unplaced (fst (levelLoop plan opts horizon strategy st)) = []"
  shows "booked_inv plan (fst (levelLoop plan opts horizon strategy st))"
  using assms(1,2,4)
proof (induction "length (lv_pending st)" arbitrary: st rule: less_induct)
  case less
  show ?case
  proof (cases "lv_pending st = [] \<or> pickReady opts strategy (lv_tasks st) (lv_levelled st) (lv_pending st) = None")
    case True
    then show ?thesis using less.prems(2) by (auto simp: levelLoop.simps [of plan opts horizon strategy st])
  next
    case False
    then obtain i where ne: "lv_pending st \<noteq> []"
      and i: "pickReady opts strategy (lv_tasks st) (lv_levelled st) (lv_pending st) = Some i" by auto
    note ir = pickReady_Some [OF i]
    obtain t where t: "map_of (lv_tasks st) (lv_pending st ! i) = Some t"
      using ir(2) by (auto simp: readyAt_def split: option.splits)
    define st1 where "st1 = st\<lparr>lv_pending := take i (lv_pending st) @ drop (Suc i) (lv_pending st)\<rparr>"
    let ?k = "lv_pending st ! i"
    let ?st2 = "levelTask plan opts horizon st1 ?k t"
    have eq: "levelLoop plan opts horizon strategy st = levelLoop plan opts horizon strategy ?st2"
      using ne i t by (simp add: levelLoop.simps [of plan opts horizon strategy st] st1_def)
    have inv2: "level_inv base order ?st2" by (rule level_inv_step [OF less.prems(1) ir t st1_def])
    have kp: "?k \<in> set (lv_pending st)" using ir(1) by simp
    then have "map_of base ?k = Some t" "?k \<notin> set (lv_levelled st)"
      using less.prems(1) t unfolding level_inv_def by (metis, auto)
    moreover have un: "lv_unplaced ?st2 = []"
      using less.prems(3) levelLoop_unplaced [of plan opts horizon strategy ?st2] by (auto simp: eq)
    moreover have "booked_inv plan st1" using less.prems(2) by (simp add: booked_inv_def st1_def)
    ultimately have "booked_inv plan ?st2" using tidy t by (intro booked_inv_step) (simp_all add: st1_def)
    moreover have "length (lv_pending ?st2) < length (lv_pending st)" using ir(1) by (simp add: st1_def)
    ultimately show ?thesis using less.hyps [OF _ inv2] less.prems(3) unfolding eq by blast
  qed
qed

subsection \<open>What detection sees of a levelled schedule\<close>

lemma occupied_placed:
  assumes pl: "placedOn t ds" and whole: "Duration t \<in> \<int>" and b: "EF t < 2 ^ 53"
  shows "taskUnits t r d = unitsOn t ds r d"
proof (cases "WorkDays t \<noteq> [] \<or> Duration t \<le> 0 \<or> Assignments t = []")
  case True
  then have "occupiedDays t = ds \<or> Assignments t = []"
    using pl by (auto simp: placedOn_def occupiedDays_def taskSpan_def split: if_splits)
  then show ?thesis by (auto simp: taskUnits_def unitsOn_def)
next
  case False
  then obtain s where s: "0 \<le> s" "ES t = float_of_int s" "EF t = fadd (float_of_int s) (Duration t)"
    "ds = [s..s + math_Ceil (Duration t) - 1]" using pl by (auto simp: placedOn_def)
  obtain n where n: "Duration t = of_int n" using whole by (auto elim: Ints_cases)
  have n1: "1 \<le> n" using False n by auto
  have "s < 2 ^ 53"
  proof (rule ccontr)
    assume "\<not> s < 2 ^ 53"
    then have "(of_int (2 ^ 53) :: rat) \<le> of_int s" by (metis not_less of_int_le_iff)
    then have "(of_int (2 ^ 53) :: rat) \<le> float_of_int s" unfolding float_of_int_def by (rule binary64.ge_int) simp
    then have "(of_int (2 ^ 53) :: rat) \<le> EF t"
      unfolding s(3) fadd_def using False by (intro binary64.ge_int) auto
    with b show False by simp
  qed
  then have es: "float_of_int s = of_int s" unfolding float_of_int_def using s(1) by (intro binary64.exact) simp
  have sum: "EF t = f64 (of_int (s + n))" by (simp add: s(3) fadd_def es n)
  have "s + n < 2 ^ 53"
  proof (rule ccontr)
    assume "\<not> s + n < 2 ^ 53"
    then have "(of_int (2 ^ 53) :: rat) \<le> of_int (s + n)" by (metis not_less of_int_le_iff)
    then have "(of_int (2 ^ 53) :: rat) \<le> EF t" unfolding sum by (rule binary64.ge_int) simp
    with b show False by simp
  qed
  then have ef: "EF t = of_int (s + n)" unfolding sum using s(1) n1 by (intro binary64.exact) simp
  have c: "math_Ceil (of_int x) = x" "math_Round (of_int x) = x" for x
    by (simp_all add: math_Ceil_def math_Round_def floor_unique)
  have "occupiedDays t = [s..s + n - 1]"
    using False n1 by (simp add: occupiedDays_def taskSpan_def Let_def s(2) es ef c del: of_int_add)
  moreover have "ds = [s..s + n - 1]" by (simp add: s(4) n c)
  ultimately show ?thesis by (simp only: taskUnits_def unitsOn_def)
qed

lemma scanDays_empty:
  "(\<And>i. i < length rest \<Longrightarrow> rest ! i \<le> fadd (capacityFor plan r (day + int i)) eps) \<Longrightarrow> scanDays plan entries r day rest = []"
proof (induction rest arbitrary: day)
  case (Cons x rest)
  have "x \<le> fadd (capacityFor plan r day) eps" using Cons.prems [of 0] by simp
  moreover have "scanDays plan entries r (day + 1) rest = []"
    using Cons.prems [of "Suc i" for i] by (intro Cons.IH) (force simp: algebra_simps)
  ultimately show ?case by (simp add: Let_def)
qed simp

lemma scanAll_empty:
  assumes "\<And>r profile i. map_of usage r = Some profile \<Longrightarrow> i < length profile \<Longrightarrow>
    profile ! i \<le> fadd (capacityFor plan r (int i)) eps"
  shows "scanAll plan entries usage rs = []"
  using assms scanDays_empty [where day = 0] by (auto simp: scanAll_def concat_eq_Nil_conv split: option.splits)

lemma taskUnits_clear [simp]: "taskUnits (t\<lparr>Overallocated := x\<rparr>) = taskUnits t"
proof -
  have "occupiedDays (t\<lparr>Overallocated := x\<rparr>) = occupiedDays t" by (simp add: occupiedDays_def taskSpan_def)
  then show ?thesis by (simp add: fun_eq_iff taskUnits_def cong: if_cong)
qed

text \<open>The tasks of a map listed in a given order of its keys.\<close>

definition listed :: "Tasks \<Rightarrow> string list \<Rightarrow> Tasks" where
  "listed ts ks = map (\<lambda>k. (k, the (map_of ts k))) ks"

lemma listed_mset:
  assumes "distinct (map fst ts)" and "distinct ks" and "set ks = set (map fst ts)"
  shows "mset (listed ts ks) = mset ts"
proof -
  have "mset ks = mset (map fst ts)" using set_eq_iff_mset_eq_distinct [OF assms(2,1)] assms(3) by (simp only: simp_thms)
  then have "mset (listed ts ks) = mset (listed ts (map fst ts))" unfolding listed_def by (metis mset_map)
  also have "listed ts (map fst ts) = ts"
    using assms(1) by (auto simp: listed_def comp_def intro!: map_idI)
  finally show ?thesis .
qed

subsection \<open>Properties\<close>

text \<open>
  C17. Leveling an acyclic schedule always finishes and respects the logic of the network:
  no cycle error is reported, every task is still there and differs from the critical path
  schedule in its dates and work days only, no task starts before the critical path start
  (constraints included) nor before what its links to the levelled predecessors ask, up to
  the tolerance; and the horizon warning is given exactly when tasks are listed as unplaced.
\<close>

theorem leveling_respects_links:
  assumes "wf_tasks tasks" and "CalculateCPM tasks = Some base"
  shows "\<exists>out res err. LevelResourcesWithOptions tasks plan opts = (out, res, err)
    \<and> map fst out = map fst tasks
    \<and> err = (if res_UnplacedTaskIDs res = [] then None else Some ErrLevelingHorizonExceeded)
    \<and> (\<forall>k b. map_of base k = Some b \<longrightarrow> (\<exists>t. map_of out k = Some t
         \<and> t = b\<lparr>WorkDays := WorkDays t, ES := ES t, EF := EF t\<rparr>
         \<and> 0 \<le> ES t \<and> fsub (ES b) eps \<le> ES t
         \<and> (\<forall>l p. l \<in> set (effectiveLinks t) \<and> map_of out (Pred l) = Some p \<longrightarrow>
              fsub (linkCandidate p t l) eps \<le> ES t)))"
proof -
  obtain order st where o: "topo_order base order" and inv: "level_inv base order st" and pend: "lv_pending st = []"
    and res: "LevelResourcesWithOptions tasks plan opts = (lv_tasks st,
       \<lparr>res_UnplacedTaskIDs = sort (lv_unplaced st), res_SplitTaskIDs = sort (lv_splitIDs st)\<rparr>,
       if lv_unplaced st \<noteq> [] then Some ErrLevelingHorizonExceeded else None)"
    by (rule level_result [OF assms])
  note I = inv [unfolded level_inv_def]
  have keys: "map fst (lv_tasks st) = map fst tasks" using I CalculateCPM_wf(2) [OF assms] by simp
  have "\<exists>t. map_of (lv_tasks st) k = Some t \<and> t = b\<lparr>WorkDays := WorkDays t, ES := ES t, EF := EF t\<rparr>
         \<and> 0 \<le> ES t \<and> fsub (ES b) eps \<le> ES t
         \<and> (\<forall>l p. l \<in> set (effectiveLinks t) \<and> map_of (lv_tasks st) (Pred l) = Some p \<longrightarrow> fsub (linkCandidate p t l) eps \<le> ES t)"
    if b: "map_of base k = Some b" for k b
  proof -
    obtain t where t: "map_of (lv_tasks st) k = Some t" "same_but_dates b t" using I b by blast
    have "k \<in> set (map fst base)" using b map_of_is_None_iff [of base k] by auto
    then have "k \<in> set (lv_levelled st)" using I pend o unfolding topo_order_def by auto
    then have "keepsLinks (lv_tasks st) b t" using I b t(1) by blast
    then show ?thesis using t by (auto simp: keepsLinks_def same_but_dates_def)
  qed
  moreover have "(sort (lv_unplaced st) = []) = (lv_unplaced st = [])" by (metis mset.simps(1) mset_sort mset_zero_iff)
  ultimately show ?thesis unfolding res using keys by simp
qed


subsection \<open>Examples\<close>

definition sharing_tasks :: Tasks where
  "sharing_tasks =
    [(''a'', zeroTask\<lparr>ID := ''a'', Duration := 1, Assignments := [alice]\<rparr>),
     (''b'', zeroTask\<lparr>ID := ''b'', Duration := 2, Assignments := [alice]\<rparr>)]"

definition short_options :: LevelingOptions where
  "short_options = \<lparr>opt_Horizon = 4, opt_Strategy = [], opt_PriorityCritical = False, opt_AllowSplitting = True\<rparr>"

abbreviation one_each :: ResourceCapacityPlan where "one_each \<equiv> capacityPlanFromMap []"

abbreviation sharing_out :: Tasks where
  "sharing_out \<equiv> fst (LevelResourcesWithOptions sharing_tasks one_each short_options)"

lemma sharing_facts:
  "wf_tasks sharing_tasks" "CalculateCPM sharing_tasks = Some (the (CalculateCPM sharing_tasks))"
  "\<And>k t. map_of sharing_tasks k = Some t \<Longrightarrow> tidy_assignments t \<and> Duration t \<in> \<int>"
proof -
  show "wf_tasks sharing_tasks" by (simp add: wf_tasks_def sharing_tasks_def)
  have "CalculateCPM sharing_tasks \<noteq> None" by code_simp
  then show "CalculateCPM sharing_tasks = Some (the (CalculateCPM sharing_tasks))" by auto
  show "tidy_assignments t \<and> Duration t \<in> \<int>" if "map_of sharing_tasks k = Some t" for k t
    using that by (auto simp: sharing_tasks_def tidy_assignments_def alice_def split: if_splits)
qed

lemma sharing_level:
  "LevelResourcesWithOptions sharing_tasks one_each short_options
     = (sharing_out, \<lparr>res_UnplacedTaskIDs = [], res_SplitTaskIDs = []\<rparr>, None)"
  "map (\<lambda>(k, t). (k, ES t, EF t)) sharing_out = [(''a'', 2, 3), (''b'', 0, 2)]"
proof -
  have "snd (LevelResourcesWithOptions sharing_tasks one_each short_options)
     = (\<lparr>res_UnplacedTaskIDs = [], res_SplitTaskIDs = []\<rparr>, None)" by code_simp
  then show "LevelResourcesWithOptions sharing_tasks one_each short_options
     = (sharing_out, \<lparr>res_UnplacedTaskIDs = [], res_SplitTaskIDs = []\<rparr>, None)" by (simp add: prod_eq_iff)
  show "map (\<lambda>(k, t). (k, ES t, EF t)) sharing_out = [(''a'', 2, 3), (''b'', 0, 2)]" by code_simp
qed

theorem leveling_respects_links_witness:
  "wf_tasks sharing_tasks \<and> CalculateCPM sharing_tasks = Some (the (CalculateCPM sharing_tasks))
   \<and> (\<exists>out res. LevelResourcesWithOptions sharing_tasks one_each short_options = (out, res, None)
        \<and> map fst out = [''a'', ''b''])"
  using leveling_respects_links [OF sharing_facts(1,2), of one_each short_options] sharing_facts(1,2) sharing_level(1)
  by (auto simp: sharing_tasks_def)


definition doubled_tasks :: Tasks where
  "doubled_tasks = [(''a'', zeroTask\<lparr>ID := ''a'', Duration := 1,
     Assignments := [alice\<lparr>Units := 3 / 4\<rparr>, alice\<lparr>Units := 3 / 4\<rparr>]\<rparr>)]"

text \<open>
  The capacity check looks at one assignment at a time, so a task that names a resource
  twice can exceed it: leveling reports this one-task schedule as fully levelled, and
  detection on the result reports the resource as overallocated.
\<close>

theorem leveling_duplicate_assignment:
  "\<exists>out res flagged. LevelResourcesWithOptions doubled_tasks one_each short_options = (out, res, None)
     \<and> res_UnplacedTaskIDs res = []
     \<and> DetectOverallocationsWithPlan out one_each = Some (flagged,
          [\<lparr>oa_Resource = ''alice'', oa_Day = 0, oa_Demand = 3 / 2, oa_Capacity = 1, oa_TaskIDs = [''a'']\<rparr>])"
proof -
  let ?r = "LevelResourcesWithOptions doubled_tasks one_each short_options"
  have 1: "snd ?r = (\<lparr>res_UnplacedTaskIDs = [], res_SplitTaskIDs = []\<rparr>, None)" by code_simp
  have 2: "map_option snd (DetectOverallocationsWithPlan (fst ?r) one_each)
      = Some [\<lparr>oa_Resource = ''alice'', oa_Day = 0, oa_Demand = 3 / 2, oa_Capacity = 1, oa_TaskIDs = [''a'']\<rparr>]" by code_simp
  from 2 obtain flagged where "DetectOverallocationsWithPlan (fst ?r) one_each = Some (flagged,
      [\<lparr>oa_Resource = ''alice'', oa_Day = 0, oa_Demand = 3 / 2, oa_Capacity = 1, oa_TaskIDs = [''a'']\<rparr>])" by auto
  moreover have "?r = (fst ?r, \<lparr>res_UnplacedTaskIDs = [], res_SplitTaskIDs = []\<rparr>, None)" using 1 by (simp add: prod_eq_iff)
  ultimately show ?thesis
    by (intro exI [of _ "fst ?r"] exI [of _ "\<lparr>res_UnplacedTaskIDs = [], res_SplitTaskIDs = []\<rparr>"] exI [of _ flagged]) simp
qed

end
