(* ===== verification/Encoding.thy ===== *)
theory Encoding
  imports Prelude
begin

text \<open>
  The text encodings of the Go standard library that the record-keeping packages write and
  hash: \<^verbatim>\<open>hex.EncodeToString\<close>, the string literals of \<^verbatim>\<open>encoding/json\<close>
  (with its HTML escapes and its treatment of invalid UTF-8), the records of
  \<^verbatim>\<open>encoding/csv\<close>, and \<^verbatim>\<open>internal/exportsafe\<close>. The lemmas say what
  each encoding keeps of its argument: a JSON literal determines the string up to the choice
  of its invalid bytes and delimits itself, and a hexadecimal digest determines its bytes.
\<close>

abbreviation byte :: "char \<Rightarrow> nat" where "byte c \<equiv> of_char c"

subsection \<open>Model: hexadecimal text\<close>

definition hexDigit :: "nat \<Rightarrow> char" where
  "hexDigit d = (if d < 10 then char_of (48 + d) else char_of (87 + d))"

definition hexEncode :: "string \<Rightarrow> string" where
  "hexEncode bs = concat (map (\<lambda>c. [hexDigit (byte c div 16), hexDigit (byte c mod 16)]) bs)"

subsection \<open>Model: JSON string literals\<close>

definition continuation :: "nat \<Rightarrow> nat \<Rightarrow> char \<Rightarrow> bool" where
  "continuation lo hi c \<longleftrightarrow> lo \<le> byte c \<and> byte c \<le> hi"

text \<open>
  The length of the UTF-8 sequence a string of bytes starts with, as
  \<^verbatim>\<open>utf8.DecodeRuneInString\<close> accepts it; 0 where the bytes are not valid.
\<close>

fun rune_len :: "string \<Rightarrow> nat" where
  "rune_len [] = 0"
| "rune_len (a # s) =
     (let b = byte a; tail = continuation 0x80 0xBF in
      if b < 0x80 then 1
      else if b < 0xC2 then 0
      else if b < 0xE0 then (case s of x # _ \<Rightarrow> if tail x then 2 else 0 | _ \<Rightarrow> 0)
      else if b < 0xF0 then
        (case s of x # y # _ \<Rightarrow>
           if continuation (if b = 0xE0 then 0xA0 else 0x80) (if b = 0xED then 0x9F else 0xBF) x \<and> tail y
           then 3 else 0
         | _ \<Rightarrow> 0)
      else if b < 0xF5 then
        (case s of x # y # z # _ \<Rightarrow>
           if continuation (if b = 0xF0 then 0x90 else 0x80) (if b = 0xF4 then 0x8F else 0xBF) x
              \<and> tail y \<and> tail z
           then 4 else 0
         | _ \<Rightarrow> 0)
      else 0)"

text \<open>
  A string as the encoder reads it: single ASCII bytes, encoded code points, and invalid
  bytes, of which the output keeps the place and not the value.
\<close>

datatype chunk = Ascii char | Rune string | Invalid

function chunks :: "string \<Rightarrow> chunk list" where
  "chunks [] = []"
| "chunks (c # s) =
     (if byte c < 0x80 then Ascii c # chunks s
      else if rune_len (c # s) = 0 then Invalid # chunks s
      else Rune (take (rune_len (c # s)) (c # s)) # chunks (drop (rune_len (c # s) - 1) s))"
  by pat_completeness auto
termination by (relation "measure length") auto

definition line_separator :: string where "line_separator = [CHR 0xE2, CHR 0x80, CHR 0xA8]"
definition paragraph_separator :: string where "paragraph_separator = [CHR 0xE2, CHR 0x80, CHR 0xA9]"

definition escape_ascii :: "char \<Rightarrow> string" where
  "escape_ascii c =
     (if c = CHR 0x5C \<or> c = CHR 0x22 then [CHR 0x5C, c]
      else if c = CHR 0x08 then [CHR 0x5C, CHR ''b'']
      else if c = CHR 0x0C then [CHR 0x5C, CHR ''f'']
      else if c = CHR 0x0A then [CHR 0x5C, CHR ''n'']
      else if c = CHR 0x0D then [CHR 0x5C, CHR ''r'']
      else if c = CHR 0x09 then [CHR 0x5C, CHR ''t'']
      else if byte c < 0x20 \<or> c = CHR ''<'' \<or> c = CHR ''>'' \<or> c = CHR ''&''
        then [CHR 0x5C, CHR ''u'', CHR ''0'', CHR ''0'', hexDigit (byte c div 16), hexDigit (byte c mod 16)]
      else [c])"

fun escape_chunk :: "chunk \<Rightarrow> string" where
  "escape_chunk (Ascii c) = escape_ascii c"
| "escape_chunk (Rune r) =
     (if r = line_separator then CHR 0x5C # ''u2028''
      else if r = paragraph_separator then CHR 0x5C # ''u2029'' else r)"
| "escape_chunk Invalid = CHR 0x5C # ''ufffd''"

definition jsonString :: "string \<Rightarrow> string" where
  "jsonString s = CHR 0x22 # concat (map escape_chunk (chunks s)) @ [CHR 0x22]"

subsection \<open>Model: spreadsheet-safe cells and CSV records\<close>

definition formula_start :: "char \<Rightarrow> bool" where
  "formula_start c \<longleftrightarrow> c \<in> {CHR ''='', CHR ''+'', CHR ''-'', CHR ''@'', CHR 0x09, CHR 0x0D, CHR 0x0A}"

definition Cell :: "string \<Rightarrow> string" where
  "Cell s = (case s of [] \<Rightarrow> s | c # _ \<Rightarrow> if formula_start c then CHR 0x27 # s else s)"

text \<open>\<^verbatim>\<open>csv.Writer\<close> with its default comma: when a field is quoted, and how.\<close>

definition fieldNeedsQuotes :: "string \<Rightarrow> bool" where
  "fieldNeedsQuotes f \<longleftrightarrow>
     f \<noteq> [] \<and>
     (f = [CHR 0x5C, CHR ''.''] \<or> list_ex (\<lambda>c. c \<in> {CHR 0x0A, CHR 0x0D, CHR 0x22, CHR '',''}) f
      \<or> leading_space space_encodings f \<noteq> None)"

definition csvField :: "string \<Rightarrow> string" where
  "csvField f =
     (if fieldNeedsQuotes f
      then CHR 0x22 # concat (map (\<lambda>c. if c = CHR 0x22 then [c, c] else [c]) f) @ [CHR 0x22] else f)"

definition csvRecord :: "string list \<Rightarrow> string" where
  "csvRecord fields = Join (map csvField fields) [CHR '',''] @ [CHR 0x0A]"

subsection \<open>Hexadecimal text determines its bytes\<close>

definition hexVal :: "char \<Rightarrow> nat" where
  "hexVal c = (if byte c < 58 then byte c - 48 else byte c - 87)"

lemma hexVal_digit [simp]: "d < 16 \<Longrightarrow> hexVal (hexDigit d) = d"
  by (auto simp: hexVal_def hexDigit_def of_char_of take_bit_eq_mod)

lemma byte_halves [simp]: "byte c div 16 < 16" "byte c mod 16 < 16"
  using nat_of_char_less_256 [of c] by linarith+

lemma hexDigit_eq_iff [simp]: "d < 16 \<Longrightarrow> e < 16 \<Longrightarrow> hexDigit d = hexDigit e \<longleftrightarrow> d = e"
  by (metis hexVal_digit)

lemma halves_eq: "byte c div 16 = byte d div 16 \<Longrightarrow> byte c mod 16 = byte d mod 16 \<Longrightarrow> c = d"
  by (metis div_mult_mod_eq of_char_eq_iff)

lemma hexEncode_simps [simp]:
  "hexEncode [] = []" "hexEncode (c # s) = hexDigit (byte c div 16) # hexDigit (byte c mod 16) # hexEncode s"
  by (simp_all add: hexEncode_def)

lemma hexEncode_inj: "hexEncode s = hexEncode t \<Longrightarrow> s = t"
proof (induction s arbitrary: t)
  case Nil
  then show ?case by (cases t) simp_all
next
  case (Cons c s)
  then show ?case by (cases t) (auto dest: halves_eq)
qed

lemma hexDigit_not_brace: "d < 16 \<Longrightarrow> hexDigit d \<noteq> CHR 0x7B"
proof
  assume "d < 16" "hexDigit d = CHR 0x7B"
  then have "byte (hexDigit d) = 0x7B" by simp
  with \<open>d < 16\<close> show False by (simp add: hexDigit_def of_char_of take_bit_eq_mod split: if_splits)
qed

lemma hexEncode_no_brace: "CHR 0x7B \<notin> set (hexEncode s)"
  by (induction s) (auto simp: hexDigit_not_brace [symmetric] dest: sym)

subsection \<open>JSON literals delimit themselves\<close>

text \<open>Reading one chunk back from an encoded string.\<close>

definition unescape :: "char \<Rightarrow> char" where
  "unescape c =
     (if c = CHR ''b'' then CHR 0x08 else if c = CHR ''f'' then CHR 0x0C
      else if c = CHR ''n'' then CHR 0x0A else if c = CHR ''r'' then CHR 0x0D
      else if c = CHR ''t'' then CHR 0x09 else c)"

definition read_chunk :: "string \<Rightarrow> chunk \<times> string" where
  "read_chunk s =
     (if take 1 s = [CHR 0x5C] then
        (if take 6 s = CHR 0x5C # ''u2028'' then (Rune line_separator, drop 6 s)
         else if take 6 s = CHR 0x5C # ''u2029'' then (Rune paragraph_separator, drop 6 s)
         else if take 6 s = CHR 0x5C # ''ufffd'' then (Invalid, drop 6 s)
         else if s ! 1 = CHR ''u'' then (Ascii (char_of (16 * hexVal (s ! 4) + hexVal (s ! 5))), drop 6 s)
         else (Ascii (unescape (s ! 1)), drop 2 s))
      else if byte (hd s) < 0x80 then (Ascii (hd s), tl s)
      else (Rune (take (rune_len s) s), drop (rune_len s) s))"

fun wf_chunk :: "chunk \<Rightarrow> bool" where
  "wf_chunk (Ascii c) = (byte c < 0x80)"
| "wf_chunk (Rune r) = (r \<noteq> [] \<and> 0x80 \<le> byte (hd r) \<and> rune_len r = length r)"
| "wf_chunk Invalid = True"

lemma rune_len_append: "0 < rune_len r \<Longrightarrow> rune_len (r @ x) = rune_len r"
  by (cases r rule: rune_len.cases) (auto simp: Let_def split: if_splits list.splits)

lemma rune_len_le: "rune_len s \<le> length s"
  by (cases s rule: rune_len.cases) (auto simp: Let_def split: if_splits list.splits)

lemma rune_len_take: "rune_len (take (rune_len s) s) = rune_len s"
proof (cases s)
  case (Cons a t)
  then show ?thesis
    by (cases t rule: remdups_adj.cases) (simp_all add: Let_def take_Cons' split: list.split)
qed simp

lemma chunks_wf: "ch \<in> set (chunks s) \<Longrightarrow> wf_chunk ch"
proof (induction s rule: chunks.induct)
  case (2 c s)
  have r: "wf_chunk (Rune (take (rune_len (c # s)) (c # s)))" if "\<not> byte c < 0x80" "rune_len (c # s) \<noteq> 0"
    using that rune_len_take [of "c # s"] rune_len_le [of "c # s"] by (simp add: hd_take del: rune_len.simps)
  show ?case using 2 r by (auto simp del: rune_len.simps split: if_splits)
qed simp

lemma read_escape_ascii: "byte c < 0x80 \<Longrightarrow> read_chunk (escape_ascii c @ x) = (Ascii c, x)"
  by (auto simp: read_chunk_def escape_ascii_def unescape_def)

lemma read_escape: "wf_chunk ch \<Longrightarrow> read_chunk (escape_chunk ch @ x) = (ch, x)"
proof (cases ch)
  case (Rune r)
  assume "wf_chunk ch"
  with Rune have r: "r \<noteq> []" "0x80 \<le> byte (hd r)" "rune_len r = length r" by auto
  then have "hd r \<noteq> CHR 0x5C" by auto
  then have "take 1 (r @ x) \<noteq> [CHR 0x5C]" using r(1) by (cases r) auto
  moreover have "rune_len (r @ x) = length r" using r by (simp add: rune_len_append)
  ultimately show ?thesis using Rune r by (auto simp: read_chunk_def)
qed (auto simp: read_escape_ascii, simp add: read_chunk_def)

lemma escape_chunk_start: "wf_chunk ch \<Longrightarrow> escape_chunk ch \<noteq> [] \<and> hd (escape_chunk ch) \<noteq> CHR 0x22"
  by (cases ch) (auto simp: escape_ascii_def)

lemma escapes_inj:
  assumes "\<forall>ch \<in> set cs. wf_chunk ch" and "\<forall>ch \<in> set ds. wf_chunk ch"
    and "concat (map escape_chunk cs) @ CHR 0x22 # x = concat (map escape_chunk ds) @ CHR 0x22 # y"
  shows "cs = ds \<and> x = y"
  using assms
proof (induction cs arbitrary: ds)
  case Nil
  then show ?case
  proof (cases ds)
    case (Cons d ds')
    with Nil escape_chunk_start [of d] show ?thesis by (cases "escape_chunk d") auto
  qed simp
next
  case (Cons c cs)
  show ?case
  proof (cases ds)
    case Nil
    with Cons.prems escape_chunk_start [of c] show ?thesis by (cases "escape_chunk c") auto
  next
    case (Cons d ds')
    let ?u = "concat (map escape_chunk cs) @ CHR 0x22 # x"
    let ?v = "concat (map escape_chunk ds') @ CHR 0x22 # y"
    have eq: "escape_chunk c @ ?u = escape_chunk d @ ?v" using Cons.prems(3) Cons by simp
    have "wf_chunk c" using Cons.prems(1) by simp
    then have "(c, ?u) = read_chunk (escape_chunk c @ ?u)" by (rule read_escape [symmetric])
    also have "\<dots> = (d, ?v)"
      unfolding eq by (rule read_escape) (use Cons.prems(2) Cons in simp)
    finally have "c = d" "?u = ?v" by simp_all
    with Cons Cons.IH [of ds'] Cons.prems show ?thesis by simp
  qed
qed

lemma jsonString_inj: "jsonString s @ x = jsonString t @ y \<Longrightarrow> chunks s = chunks t \<and> x = y"
  using escapes_inj [of "chunks s" "chunks t" x y] chunks_wf by (auto simp: jsonString_def)

lemma jsonString_cong: "chunks s = chunks t \<Longrightarrow> jsonString s = jsonString t"
  by (simp add: jsonString_def)

text \<open>A string without invalid bytes is determined by its chunks.\<close>

definition valid_utf8 :: "string \<Rightarrow> bool" where
  "valid_utf8 s \<longleftrightarrow> Invalid \<notin> set (chunks s)"

fun chunk_bytes :: "chunk \<Rightarrow> string" where
  "chunk_bytes (Ascii c) = [c]"
| "chunk_bytes (Rune r) = r"
| "chunk_bytes Invalid = []"

lemma chunks_bytes: "Invalid \<notin> set (chunks s) \<Longrightarrow> concat (map chunk_bytes (chunks s)) = s"
proof (induction s rule: chunks.induct)
  case (2 c s)
  have "take (rune_len (c # s)) (c # s) @ drop (rune_len (c # s) - 1) s = c # s" if "rune_len (c # s) \<noteq> 0"
    using that by (cases "rune_len (c # s)") auto
  with 2 show ?case by (auto simp del: rune_len.simps split: if_splits)
qed simp

lemma chunks_inj: "chunks s = chunks t \<Longrightarrow> valid_utf8 s \<Longrightarrow> s = t"
  unfolding valid_utf8_def by (metis chunks_bytes)

lemma ascii_chunks: "list_all (\<lambda>c. byte c < 0x80) s \<Longrightarrow> chunks s = map Ascii s"
  by (induction s) auto

subsection \<open>Decimal fields end at their separator\<close>

lemma digits_until:
  assumes "list_all is_digit u" and "list_all is_digit v" and "\<not> is_digit c" "u @ c # x = v @ c # y"
  shows "u = v \<and> x = y"
  using assms
proof (induction u arbitrary: v)
  case Nil
  then show ?case by (cases v) auto
next
  case (Cons a u)
  then show ?case by (cases v) auto
qed

lemma FormatInt_until:
  assumes "FormatInt m @ CHR '','' # x = FormatInt n @ CHR '','' # y"
  shows "m = n \<and> x = y"
proof -
  have sgn: "(hd (FormatInt k @ r) = CHR ''-'') = (k < 0)" for k r
  proof -
    have "\<not> is_digit (CHR ''-'')" by (simp add: is_digit_iff)
    then have "hd (format_nat j) \<noteq> CHR ''-''" for j
      using format_nat_digits [of j] by (cases "format_nat j") auto
    then show ?thesis by (simp add: FormatInt_def)
  qed
  then have "m < 0 \<longleftrightarrow> n < 0" using assms by metis
  moreover have "\<not> is_digit (CHR '','')" by (simp add: is_digit_iff)
  ultimately have "format_nat (nat \<bar>m\<bar>) = format_nat (nat \<bar>n\<bar>) \<and> x = y"
    using assms digits_until [OF format_nat_digits [of "nat \<bar>m\<bar>"] format_nat_digits [of "nat \<bar>n\<bar>"], of "CHR '',''" x y]
    by (cases "m < 0") (simp_all add: FormatInt_def)
  then have "nat \<bar>m\<bar> = nat \<bar>n\<bar>" and xy: "x = y" by (auto intro: format_nat_inj)
  with \<open>m < 0 \<longleftrightarrow> n < 0\<close> xy show ?thesis by auto
qed

subsection \<open>What a spreadsheet sees of a cell\<close>

lemma Cell_not_formula: "Cell s = [] \<or> \<not> formula_start (hd (Cell s))"
  by (cases s) (auto simp: Cell_def formula_start_def)

lemma Cell_keeps: "Cell s = s \<or> Cell s = CHR 0x27 # s"
  by (cases s) (auto simp: Cell_def)

end
