(* ===== verification/AppendLog.thy ===== *)
theory AppendLog
  imports Main
begin

text \<open>
  The interface of an append-only log, shared by the project audit chain, the
  deletion log and the account history: the operations only ever add records at the end, and every operation keeps the log's
  own consistency condition. The lemmas are proved once for every sequence of operations.
\<close>

locale append_log =
  fixes records :: "'s \<Rightarrow> 'r list"
    and op :: "'s \<Rightarrow> 's \<Rightarrow> bool"
  assumes op_appends: "op s s' \<Longrightarrow> \<exists>new. records s' = records s @ new"
begin

lemma history_appends: "op\<^sup>*\<^sup>* s s' \<Longrightarrow> \<exists>new. records s' = records s @ new"
proof (induction rule: rtranclp_induct)
  case (step t u)
  then obtain a b where "records t = records s @ a" "records u = records t @ b"
    using op_appends by blast
  then show ?case by simp
qed simp

lemma record_kept:
  assumes "op\<^sup>*\<^sup>* s s'" and "i < length (records s)"
  shows "i < length (records s') \<and> records s' ! i = records s ! i"
  using history_appends [OF assms(1)] assms(2) by (auto simp: nth_append)

end

locale consistent_log = append_log +
  fixes consistent :: "'s \<Rightarrow> bool"
  assumes op_consistent: "op s s' \<Longrightarrow> consistent s \<Longrightarrow> consistent s'"
begin

lemma history_consistent: "op\<^sup>*\<^sup>* s s' \<Longrightarrow> consistent s \<Longrightarrow> consistent s'"
  by (induction rule: rtranclp_induct) (auto intro: op_consistent)

end

end
