(* ===== verification/AuditChain.thy ===== *)
theory AuditChain
  imports Encoding AppendLog
begin

text \<open>
  The tamper-evident audit log: \<^verbatim>\<open>internal/db/audit.go\<close> and
  \<^verbatim>\<open>internal/db/audit_checkpoints.go\<close>. The table \<^verbatim>\<open>audit_events\<close> is the
  list of its rows; a transaction that fails leaves it as it was. What comes from outside
  one call (random bytes, the clock, whether each storage statement succeeds) is an
  argument, and so are the SHA-256 function and the JSON re-encoding of
  \<^verbatim>\<open>canonicalJSON\<close>; no statement assumes anything about either. The lemmas show
  that appending keeps every project's chain valid, that verification decides exactly
  whether a table is a chain, and that two different valid chains with the same terminal
  hash yield two inputs with the same digest.
\<close>

subsection \<open>Model: rows and reports\<close>

record AuditEventInput =
  in_ProjectID :: string
  in_EventType :: string
  in_EntityType :: string
  in_EntityID :: string
  in_BeforeJSON :: string
  in_AfterJSON :: string
  in_UserID :: string
  in_SessionID :: string
  in_SignatureStatus :: string
  in_SignatureBlobOptional :: string

record AuditEvent =
  ev_ID :: string
  ev_ProjectID :: string
  ev_SequenceNumber :: int
  ev_PreviousEventHash :: string
  ev_EventHash :: string
  ev_EventType :: string
  ev_EntityType :: string
  ev_EntityID :: string
  ev_BeforeCanonicalJSON :: string
  ev_AfterCanonicalJSON :: string
  ev_UserID :: string
  ev_SessionID :: string
  ev_TimestampUTC :: string
  ev_SignatureStatus :: string
  ev_SignatureBlobOptional :: string

record AuditVerification =
  av_ProjectID :: string
  av_CheckedEvents :: nat
  av_Valid :: bool
  av_FirstInvalidSequence :: int
  av_FirstInvalidEventID :: string
  av_FirstInvalidReason :: string
  av_TerminalEventHash :: string

type_synonym AuditTable = "AuditEvent list"
type_synonym Digest = "string \<Rightarrow> string"
type_synonym Recode = "string \<Rightarrow> string option"

text \<open>What one call reads from outside: random bytes, the clock, and which storage calls succeed.\<close>

record TxEnv =
  tx_Begin :: bool
  tx_Random :: "string option"
  tx_Query :: bool
  tx_Now :: string
  tx_Insert :: bool
  tx_Commit :: bool

datatype audit_error =
    ProjectIDRequired | EventTypeRequired | EntityTypeRequired
  | BadBeforeJSON | BadAfterJSON | NoRandomness | StorageFailed | ConstraintFailed | BadApprovedJSON

subsection \<open>Model: canonical text and hashes\<close>

definition canonicalJSON :: "Recode \<Rightarrow> string \<Rightarrow> string option" where
  "canonicalJSON recode raw = (if raw = [] then Some ''null'' else recode raw)"

definition newID :: "string \<Rightarrow> string \<Rightarrow> string" where
  "newID pre random = pre @ ''_'' @ hexEncode random"

definition jsonKey :: "string \<Rightarrow> string" where
  "jsonKey k = CHR 0x22 # k @ [CHR 0x22, CHR '':'']"

definition payload :: "AuditEvent \<Rightarrow> string" where
  "payload e =
     CHR 0x7B # jsonKey ''project_id'' @ jsonString (ev_ProjectID e)
     @ '','' @ jsonKey ''sequence_number'' @ FormatInt (ev_SequenceNumber e)
     @ '','' @ jsonKey ''previous_event_hash'' @ jsonString (ev_PreviousEventHash e)
     @ '','' @ jsonKey ''event_type'' @ jsonString (ev_EventType e)
     @ '','' @ jsonKey ''entity_type'' @ jsonString (ev_EntityType e)
     @ '','' @ jsonKey ''entity_id'' @ jsonString (ev_EntityID e)
     @ '','' @ jsonKey ''before_canonical_json'' @ jsonString (ev_BeforeCanonicalJSON e)
     @ '','' @ jsonKey ''after_canonical_json'' @ jsonString (ev_AfterCanonicalJSON e)
     @ '','' @ jsonKey ''user_id'' @ jsonString (ev_UserID e)
     @ '','' @ jsonKey ''session_id'' @ jsonString (ev_SessionID e)
     @ '','' @ jsonKey ''timestamp_utc'' @ jsonString (ev_TimestampUTC e)
     @ '','' @ jsonKey ''signature_status'' @ jsonString (ev_SignatureStatus e)
     @ '','' @ jsonKey ''signature_blob_optional'' @ jsonString (ev_SignatureBlobOptional e) @ [CHR 0x7D]"

definition hashInput :: "AuditEvent \<Rightarrow> string" where
  "hashInput e = ev_PreviousEventHash e @ payload e"

definition eventHash :: "Digest \<Rightarrow> AuditEvent \<Rightarrow> string" where
  "eventHash sha256 e = hexEncode (sha256 (hashInput e))"

subsection \<open>Model: appending\<close>

definition rowsOf :: "string \<Rightarrow> AuditTable \<Rightarrow> AuditEvent list" where
  "rowsOf p table = sort_key ev_SequenceNumber (filter (\<lambda>e. ev_ProjectID e = p) table)"

definition insertRow :: "AuditEvent \<Rightarrow> AuditTable \<Rightarrow> audit_error + AuditTable" where
  "insertRow e table =
     (if list_ex (\<lambda>r. ev_ID r = ev_ID e
           \<or> ev_ProjectID r = ev_ProjectID e \<and> ev_SequenceNumber r = ev_SequenceNumber e) table
      then Inl ConstraintFailed else Inr (table @ [e]))"

definition nextLink :: "AuditEvent list \<Rightarrow> string \<times> int" where
  "nextLink rows =
     (case rev rows of [] \<Rightarrow> ([], 1)
      | e # _ \<Rightarrow> (ev_EventHash e, wrap_int64 (ev_SequenceNumber e + 1)))"

definition buildEvent ::
  "Digest \<Rightarrow> string \<Rightarrow> string \<Rightarrow> string \<times> int \<Rightarrow> string \<Rightarrow> string \<Rightarrow> AuditEventInput \<Rightarrow> AuditEvent"
where
  "buildEvent sha256 eid ts link before after i =
     (let event =
        \<lparr>ev_ID = eid, ev_ProjectID = in_ProjectID i, ev_SequenceNumber = snd link,
         ev_PreviousEventHash = fst link, ev_EventHash = [], ev_EventType = in_EventType i,
         ev_EntityType = in_EntityType i, ev_EntityID = in_EntityID i,
         ev_BeforeCanonicalJSON = before, ev_AfterCanonicalJSON = after, ev_UserID = in_UserID i,
         ev_SessionID = in_SessionID i, ev_TimestampUTC = ts,
         ev_SignatureStatus = (if in_SignatureStatus i = [] then ''unsigned'' else in_SignatureStatus i),
         ev_SignatureBlobOptional = in_SignatureBlobOptional i\<rparr>
      in event\<lparr>ev_EventHash := eventHash sha256 event\<rparr>)"

definition appendAuditEventTx ::
  "Digest \<Rightarrow> Recode \<Rightarrow> TxEnv \<Rightarrow> AuditTable \<Rightarrow> AuditEventInput \<Rightarrow> audit_error + (AuditEvent \<times> AuditTable)"
where
  "appendAuditEventTx sha256 recode env table i =
     (if in_ProjectID i = [] then Inl ProjectIDRequired
      else if in_EventType i = [] then Inl EventTypeRequired
      else if in_EntityType i = [] then Inl EntityTypeRequired
      else case canonicalJSON recode (in_BeforeJSON i) of None \<Rightarrow> Inl BadBeforeJSON
      | Some before \<Rightarrow>
        (case canonicalJSON recode (in_AfterJSON i) of None \<Rightarrow> Inl BadAfterJSON
         | Some after \<Rightarrow>
           (case tx_Random env of None \<Rightarrow> Inl NoRandomness
            | Some random \<Rightarrow>
              (if \<not> tx_Query env then Inl StorageFailed
               else
                 (let event = buildEvent sha256 (newID ''audit'' random) (tx_Now env)
                                (nextLink (rowsOf (in_ProjectID i) table)) before after i
                  in if \<not> tx_Insert env then Inl StorageFailed
                     else and_then (insertRow event table) (\<lambda>table'. Inr (event, table')))))))"

text \<open>A transaction: the table changes only if the commit succeeds.\<close>

definition AppendAuditEvent ::
  "Digest \<Rightarrow> Recode \<Rightarrow> TxEnv \<Rightarrow> AuditTable \<Rightarrow> AuditEventInput \<Rightarrow> AuditTable \<times> (audit_error + AuditEvent)"
where
  "AppendAuditEvent sha256 recode env table i =
     (if \<not> tx_Begin env then (table, Inl StorageFailed)
      else case appendAuditEventTx sha256 recode env table i of
             Inl err \<Rightarrow> (table, Inl err)
           | Inr (event, table') \<Rightarrow>
               (if tx_Commit env then (table', Inr event) else (table, Inl StorageFailed)))"

definition appendApprovalCheckpointForUserTx ::
  "Digest \<Rightarrow> Recode \<Rightarrow> TxEnv \<Rightarrow> string \<Rightarrow> AuditTable \<Rightarrow> string \<Rightarrow> string \<Rightarrow> string \<Rightarrow> string \<Rightarrow> string \<Rightarrow> string
   \<Rightarrow> audit_error + (AuditEvent \<times> AuditTable)"
where
  "appendApprovalCheckpointForUserTx sha256 recode env signedAt table projectID entityType entityID
       approvalType approvedJSON userID =
     (case canonicalJSON recode approvedJSON of None \<Rightarrow> Inl BadApprovedJSON
      | Some canonicalApproved \<Rightarrow>
        (let payloadHash = hexEncode (sha256 canonicalApproved);
             body = CHR 0x7B # jsonKey ''approval_type'' @ jsonString approvalType
               @ '','' @ jsonKey ''entity_type'' @ jsonString entityType
               @ '','' @ jsonKey ''entity_id'' @ jsonString entityID
               @ '','' @ jsonKey ''payload_hash'' @ jsonString payloadHash
               @ '','' @ jsonKey ''timestamp_utc'' @ jsonString signedAt @ [CHR 0x7D];
             signatureBlob = CHR 0x7B # jsonKey ''algorithm'' @ jsonString ''SHA-256''
               @ '','' @ jsonKey ''checkpoint_type'' @ jsonString ''approval''
               @ '','' @ jsonKey ''payload_hash'' @ jsonString payloadHash
               @ '','' @ jsonKey ''signed_at_utc'' @ jsonString signedAt @ [CHR 0x7D]
         in appendAuditEventTx sha256 recode env table
              \<lparr>in_ProjectID = projectID, in_EventType = entityType @ ''.approval_checkpoint'',
               in_EntityType = entityType, in_EntityID = entityID, in_BeforeJSON = [],
               in_AfterJSON = body, in_UserID = userID, in_SessionID = [],
               in_SignatureStatus = ''signed'', in_SignatureBlobOptional = signatureBlob\<rparr>))"

definition appendApprovalCheckpointTx ::
  "Digest \<Rightarrow> Recode \<Rightarrow> TxEnv \<Rightarrow> string \<Rightarrow> AuditTable \<Rightarrow> string \<Rightarrow> string \<Rightarrow> string \<Rightarrow> string \<Rightarrow> string
   \<Rightarrow> audit_error + (AuditEvent \<times> AuditTable)"
where
  "appendApprovalCheckpointTx sha256 recode env signedAt table projectID entityType entityID approvalType approvedJSON =
     appendApprovalCheckpointForUserTx sha256 recode env signedAt table projectID entityType entityID
       approvalType approvedJSON []"

subsection \<open>Model: verification\<close>

definition invalidAudit :: "AuditVerification \<Rightarrow> AuditEvent \<Rightarrow> string \<Rightarrow> AuditVerification" where
  "invalidAudit report event reason =
     report\<lparr>av_Valid := False, av_FirstInvalidSequence := ev_SequenceNumber event,
            av_FirstInvalidEventID := ev_ID event, av_FirstInvalidReason := reason\<rparr>"

fun verifyRows ::
  "Digest \<Rightarrow> string \<Rightarrow> int \<Rightarrow> AuditEvent list \<Rightarrow> AuditVerification \<Rightarrow> AuditVerification"
where
  "verifyRows sha256 previousHash expectedSeq [] report = report"
| "verifyRows sha256 previousHash expectedSeq (event # rows) report0 =
     (let report = report0\<lparr>av_CheckedEvents := av_CheckedEvents report0 + 1\<rparr> in
      if ev_SequenceNumber event \<noteq> expectedSeq then invalidAudit report event ''sequence gap''
      else if ev_PreviousEventHash event \<noteq> previousHash then invalidAudit report event ''previous hash mismatch''
      else if eventHash sha256 event \<noteq> ev_EventHash event then invalidAudit report event ''event hash mismatch''
      else verifyRows sha256 (ev_EventHash event) (wrap_int64 (expectedSeq + 1)) rows
             (report\<lparr>av_TerminalEventHash := ev_EventHash event\<rparr>))"

definition newReport :: "string \<Rightarrow> AuditVerification" where
  "newReport projectID =
     \<lparr>av_ProjectID = projectID, av_CheckedEvents = 0, av_Valid = True, av_FirstInvalidSequence = 0,
      av_FirstInvalidEventID = [], av_FirstInvalidReason = [], av_TerminalEventHash = []\<rparr>"

definition VerifyAuditChain :: "Digest \<Rightarrow> AuditTable \<Rightarrow> string \<Rightarrow> AuditVerification" where
  "VerifyAuditChain sha256 table projectID = verifyRows sha256 [] 1 (rowsOf projectID table) (newReport projectID)"

text \<open>A file that predates the table has no events (\<open>None\<close>).\<close>

definition ReadAuditChain :: "Digest \<Rightarrow> AuditTable option \<Rightarrow> string \<Rightarrow> AuditVerification" where
  "ReadAuditChain sha256 table projectID =
     (case table of None \<Rightarrow> newReport projectID | Some rows \<Rightarrow> VerifyAuditChain sha256 rows projectID)"

definition ListAuditEvents :: "AuditTable \<Rightarrow> string \<Rightarrow> AuditEvent list" where
  "ListAuditEvents table projectID = rowsOf projectID table"

subsection \<open>Model: the action log and its CSV export\<close>

record LogRow =
  lg_id :: int
  lg_ts :: string
  lg_actor :: string
  lg_action :: string
  lg_target :: string
  lg_details :: string

definition LogAction ::
  "bool \<Rightarrow> string \<Rightarrow> LogRow list \<Rightarrow> string \<Rightarrow> string \<Rightarrow> string \<Rightarrow> string \<Rightarrow> LogRow list \<times> audit_error option"
where
  "LogAction insertOK ts rows actor action targetID details =
     (if insertOK
      then (rows @ [\<lparr>lg_id = (if rows = [] then 1 else lg_id (last rows) + 1), lg_ts = ts, lg_actor = actor,
                     lg_action = action, lg_target = targetID, lg_details = details\<rparr>], None)
      else (rows, Some StorageFailed))"

definition csvRow :: "LogRow \<Rightarrow> string list" where
  "csvRow r = [FormatInt (lg_id r), lg_ts r, Cell (lg_actor r), Cell (lg_action r), Cell (lg_target r), Cell (lg_details r)]"

text \<open>The text written by \<^verbatim>\<open>ExportAuditCSV\<close>; \<open>None\<close> is a file without the table.\<close>

definition ExportAuditCSV :: "LogRow list option \<Rightarrow> string" where
  "ExportAuditCSV table =
     csvRecord [''id'', ''ts'', ''actor'', ''action'', ''target_id'', ''details'']
     @ concat (map (\<lambda>r. csvRecord (csvRow r)) (case table of None \<Rightarrow> [] | Some rows \<Rightarrow> sort_key lg_id rows))"


subsection \<open>Chains\<close>

text \<open>What a chain is: consecutive numbers, each row linked to the one before, every hash right.\<close>

fun chain_from :: "Digest \<Rightarrow> string \<Rightarrow> int \<Rightarrow> AuditEvent list \<Rightarrow> bool" where
  "chain_from sha256 h n [] = True"
| "chain_from sha256 h n (e # es) =
     (ev_SequenceNumber e = n \<and> ev_PreviousEventHash e = h \<and> ev_EventHash e = eventHash sha256 e
      \<and> chain_from sha256 (ev_EventHash e) (n + 1) es)"

abbreviation chained :: "Digest \<Rightarrow> AuditEvent list \<Rightarrow> bool" where
  "chained sha256 es \<equiv> chain_from sha256 [] 1 es"

definition headHash :: "string \<Rightarrow> AuditEvent list \<Rightarrow> string" where
  "headHash h es = (if es = [] then h else ev_EventHash (last es))"

lemma headHash_simps [simp]:
  "headHash h [] = h" "headHash h (es @ [e]) = ev_EventHash e" "headHash (ev_EventHash e) es = headHash h (e # es)"
  by (simp_all add: headHash_def)

lemma chain_from_append:
  "chain_from sha256 h n (xs @ ys) \<longleftrightarrow>
     chain_from sha256 h n xs \<and> chain_from sha256 (headHash h xs) (n + int (length xs)) ys"
proof (induction xs arbitrary: h n)
  case (Cons x xs)
  then show ?case by (simp add: headHash_def algebra_simps)
qed simp

lemma chain_from_snoc:
  "chain_from sha256 h n (xs @ [e]) \<longleftrightarrow>
     chain_from sha256 h n xs \<and> ev_SequenceNumber e = n + int (length xs)
     \<and> ev_PreviousEventHash e = headHash h xs \<and> ev_EventHash e = eventHash sha256 e"
  by (simp add: chain_from_append)

lemma chain_from_seqs:
  "chain_from sha256 h n es \<Longrightarrow> e \<in> set es \<Longrightarrow> n \<le> ev_SequenceNumber e \<and> ev_SequenceNumber e < n + int (length es)"
  by (induction es arbitrary: h n) fastforce+

lemma chain_from_sorted: "chain_from sha256 h n es \<Longrightarrow> sorted (map ev_SequenceNumber es)"
proof (induction es arbitrary: h n)
  case (Cons e es)
  then show ?case using chain_from_seqs [of sha256 "ev_EventHash e" "n + 1" es] by fastforce
qed simp

subsection \<open>What verification decides\<close>

definition fault :: "Digest \<Rightarrow> string \<Rightarrow> int \<Rightarrow> AuditEvent \<Rightarrow> string" where
  "fault sha256 previousHash expectedSeq e =
     (if ev_SequenceNumber e \<noteq> expectedSeq then ''sequence gap''
      else if ev_PreviousEventHash e \<noteq> previousHash then ''previous hash mismatch''
      else ''event hash mismatch'')"

abbreviation advanced :: "nat \<Rightarrow> string \<Rightarrow> AuditVerification \<Rightarrow> AuditVerification" where
  "advanced k h report \<equiv> report\<lparr>av_CheckedEvents := av_CheckedEvents report + k, av_TerminalEventHash := h\<rparr>"

lemma wrap_step: "0 \<le> n \<Longrightarrow> n < MaxInt64 \<Longrightarrow> wrap_int64 (n + 1) = n + 1"
  by (intro wrap_int64_id) (auto simp: is_int64_def MinInt64_def MaxInt64_def)

lemma verifyRows_good:
  assumes "chain_from sha256 h n xs" and "1 \<le> n" and "n + int (length xs) \<le> MaxInt64"
  shows "verifyRows sha256 h n (xs @ ys) report =
           verifyRows sha256 (headHash h xs) (n + int (length xs)) ys
             (advanced (length xs) (headHash (av_TerminalEventHash report) xs) report)"
  using assms
proof (induction xs arbitrary: h n report)
  case (Cons e xs)
  let ?r = "report\<lparr>av_CheckedEvents := av_CheckedEvents report + 1, av_TerminalEventHash := ev_EventHash e\<rparr>"
  have "verifyRows sha256 h n ((e # xs) @ ys) report = verifyRows sha256 (ev_EventHash e) (n + 1) (xs @ ys) ?r"
    using Cons.prems wrap_step [of n] by (simp add: Let_def)
  also have "\<dots> = verifyRows sha256 (headHash (ev_EventHash e) xs) (n + 1 + int (length xs)) ys
                   (advanced (length xs) (headHash (ev_EventHash e) xs) ?r)"
    using Cons.prems by (subst Cons.IH) auto
  also have "advanced (length xs) (headHash (ev_EventHash e) xs) ?r =
      advanced (length (e # xs)) (headHash (av_TerminalEventHash report) (e # xs)) report"
    by (simp add: headHash_def)
  finally show ?case by (simp add: headHash_def algebra_simps)
qed simp

text \<open>Every list of rows is a chain, or has a first row that breaks it.\<close>

lemma chain_or_first_fault:
  obtains "chain_from sha256 h n es"
  | good e rest where "es = good @ e # rest" "chain_from sha256 h n good" "\<not> chain_from sha256 h n (good @ [e])"
proof (induction es arbitrary: thesis rule: rev_induct)
  case (snoc e es)
  show ?case
  proof (rule snoc.IH)
    assume "chain_from sha256 h n es"
    then show thesis using snoc.prems(1) snoc.prems(2) [of es e "[]"] by blast
  next
    fix good b rest
    assume "es = good @ b # rest" "chain_from sha256 h n good" "\<not> chain_from sha256 h n (good @ [b])"
    then show thesis using snoc.prems(2) [of good b "rest @ [e]"] by simp
  qed
qed simp

lemma verify_chain:
  assumes "chained sha256 (rowsOf p table)" and "int (length (rowsOf p table)) < MaxInt64"
  shows "VerifyAuditChain sha256 table p =
           advanced (length (rowsOf p table)) (headHash [] (rowsOf p table)) (newReport p)"
  using verifyRows_good [of sha256 "[]" 1 "rowsOf p table" "[]" "newReport p"] assms
  by (simp add: VerifyAuditChain_def newReport_def)

lemma verify_fault:
  assumes "rowsOf p table = good @ e # rest" and "chained sha256 good" and "\<not> chained sha256 (good @ [e])"
    and "int (length (rowsOf p table)) < MaxInt64"
  shows "VerifyAuditChain sha256 table p =
           invalidAudit (advanced (Suc (length good)) (headHash [] good) (newReport p)) e
             (fault sha256 (headHash [] good) (1 + int (length good)) e)"
  using verifyRows_good [of sha256 "[]" 1 good "e # rest" "newReport p"] assms
  by (auto simp: VerifyAuditChain_def newReport_def chain_from_snoc fault_def Let_def invalidAudit_def)

lemma verify_valid_iff:
  assumes "int (length (rowsOf p table)) < MaxInt64"
  shows "av_Valid (VerifyAuditChain sha256 table p) \<longleftrightarrow> chained sha256 (rowsOf p table)"
proof (rule chain_or_first_fault [of sha256 "[]" 1 "rowsOf p table"])
  assume "chained sha256 (rowsOf p table)"
  with verify_chain [OF this assms] show ?thesis by (simp add: newReport_def)
next
  fix good e rest
  assume a: "rowsOf p table = good @ e # rest" "chained sha256 good" "\<not> chained sha256 (good @ [e])"
  then have "\<not> chained sha256 (rowsOf p table)" by (auto simp: chain_from_append [of _ _ _ good])
  with verify_fault [OF a assms] show ?thesis by (simp add: invalidAudit_def)
qed

subsection \<open>Appending extends the chain\<close>

lemma rowsOf_other: "ev_ProjectID e \<noteq> p \<Longrightarrow> rowsOf p (table @ [e]) = rowsOf p table"
  by (simp add: rowsOf_def)

lemma rowsOf_later:
  assumes "ev_ProjectID e = p" and "\<forall>r \<in> set (rowsOf p table). ev_SequenceNumber r < ev_SequenceNumber e"
  shows "rowsOf p (table @ [e]) = rowsOf p table @ [e]"
  using assms sort_key_snoc [of "filter (\<lambda>e. ev_ProjectID e = p) table" ev_SequenceNumber e]
  by (auto simp: rowsOf_def less_imp_le)

lemma buildEvent_simps [simp]:
  "ev_ProjectID (buildEvent sha256 eid ts link before after i) = in_ProjectID i"
  "ev_SequenceNumber (buildEvent sha256 eid ts link before after i) = snd link"
  "ev_PreviousEventHash (buildEvent sha256 eid ts link before after i) = fst link"
  by (simp_all add: buildEvent_def Let_def)

lemma eventHash_update [simp]: "eventHash sha256 (e\<lparr>ev_EventHash := h\<rparr>) = eventHash sha256 e"
  by (simp add: eventHash_def hashInput_def payload_def)

lemma buildEvent_hash [simp]:
  "ev_EventHash (buildEvent sha256 eid ts link before after i) = eventHash sha256 (buildEvent sha256 eid ts link before after i)"
  by (simp add: buildEvent_def Let_def eventHash_def hashInput_def payload_def)

lemma nextLink_chain:
  assumes "chained sha256 rows" and "int (length rows) < MaxInt64"
  shows "nextLink rows = (headHash [] rows, int (length rows) + 1)"
proof (cases rows rule: rev_cases)
  case (snoc es e)
  with assms show ?thesis using wrap_step [of "int (length es) + 1"] by (simp add: nextLink_def chain_from_snoc add.commute)
qed (simp add: nextLink_def)

lemma appendTx_InrD:
  assumes "appendAuditEventTx sha256 recode env table i = Inr (e, table')"
  shows "table' = table @ [e]" and "ev_ProjectID e = in_ProjectID i" and "ev_EventHash e = eventHash sha256 e"
    and "(ev_PreviousEventHash e, ev_SequenceNumber e) = nextLink (rowsOf (in_ProjectID i) table)"
  using assms by (auto simp: appendAuditEventTx_def and_then_Inr_iff insertRow_def Let_def split: if_splits option.splits)

lemma appendTx_chain:
  assumes app: "appendAuditEventTx sha256 recode env table i = Inr (e, table')"
    and ch: "chained sha256 (rowsOf p table)" and len: "int (length (rowsOf p table)) < MaxInt64"
  shows "rowsOf p table' = rowsOf p table @ (if p = ev_ProjectID e then [e] else [])"
    and "chained sha256 (rowsOf p table')"
proof -
  note e = appendTx_InrD [OF app]
  show r: "rowsOf p table' = rowsOf p table @ (if p = ev_ProjectID e then [e] else [])"
  proof (cases "p = ev_ProjectID e")
    case True
    with e nextLink_chain [OF ch len] have "ev_SequenceNumber e = int (length (rowsOf p table)) + 1" by simp
    with True e rowsOf_later [of e p table] chain_from_seqs [OF ch] show ?thesis by fastforce
  qed (use e rowsOf_other [of e p table] in simp)
  then show "chained sha256 (rowsOf p table')"
    using e ch nextLink_chain [OF ch len] by (auto simp: chain_from_snoc)
qed

subsection \<open>Every history is a valid chain\<close>

text \<open>The transactions that write the table: a single event, or an approval checkpoint.\<close>

inductive auditStep :: "Digest \<Rightarrow> AuditTable \<Rightarrow> AuditTable \<Rightarrow> bool" for sha256 where
  append: "AppendAuditEvent sha256 recode env table i = (table', r) \<Longrightarrow> auditStep sha256 table table'"
| checkpoint: "appendApprovalCheckpointForUserTx sha256 recode env signedAt table projectID entityType entityID
     approvalType approvedJSON userID = Inr (e, table') \<Longrightarrow> auditStep sha256 table table'"

lemma auditStep_cases:
  assumes "auditStep sha256 table table'"
  obtains "table' = table" | recode env i e where "appendAuditEventTx sha256 recode env table i = Inr (e, table')"
  using assms
proof cases
  case (append recode env i r)
  then show ?thesis using that by (auto simp: AppendAuditEvent_def split: if_splits sum.splits)
next
  case checkpoint
  then show ?thesis using that(2)
    by (auto simp: appendApprovalCheckpointForUserTx_def Let_def split: option.splits)
qed

text \<open>
  All chains of a table are valid, as long as its rows can be numbered in \<^verbatim>\<open>int64\<close>.
\<close>

definition allChained :: "Digest \<Rightarrow> AuditTable \<Rightarrow> bool" where
  "allChained sha256 table \<longleftrightarrow> (int (length table) < MaxInt64 \<longrightarrow> (\<forall>p. chained sha256 (rowsOf p table)))"

lemma length_rowsOf: "length (rowsOf p table) \<le> length table"
  by (simp add: rowsOf_def)

lemma appendTx_allChained:
  assumes "appendAuditEventTx sha256 recode env table i = Inr (e, table')" and "allChained sha256 table"
  shows "allChained sha256 table'"
  unfolding allChained_def
proof (intro impI allI)
  fix p assume "int (length table') < MaxInt64"
  then have len: "int (length table) < MaxInt64" using appendTx_InrD(1) [OF assms(1)] by simp
  then have "int (length (rowsOf p table)) < MaxInt64" using length_rowsOf [of p table] by linarith
  with assms len show "chained sha256 (rowsOf p table')"
    by (intro appendTx_chain(2) [OF assms(1)]) (auto simp: allChained_def)
qed

interpretation audit: consistent_log "\<lambda>table :: AuditTable. table" "auditStep sha256" "allChained sha256"
  by unfold_locales (auto elim!: auditStep_cases dest: appendTx_InrD(1) intro: appendTx_allChained)

lemma auditStep_rows:
  assumes "auditStep sha256 table table'" and "allChained sha256 table" and "int (length table) < MaxInt64"
  shows "\<exists>new. rowsOf p table' = rowsOf p table @ new"
  using assms(1)
proof (rule auditStep_cases)
  fix recode env i e
  assume app: "appendAuditEventTx sha256 recode env table i = Inr (e, table')"
  have "int (length (rowsOf p table)) < MaxInt64" using length_rowsOf [of p table] assms(3) by linarith
  with assms appendTx_chain(1) [OF app, of p] show ?thesis by (auto simp: allChained_def)
qed simp

lemma history_rows:
  assumes "(auditStep sha256)\<^sup>*\<^sup>* table table'" and "allChained sha256 table" and "int (length table') < MaxInt64"
  shows "\<exists>new. rowsOf p table' = rowsOf p table @ new"
  using assms
proof (induction rule: rtranclp_induct)
  case (step t u)
  obtain new where "u = t @ new" using audit.op_appends [OF step.hyps(2)] by blast
  then have t: "int (length t) < MaxInt64" using step.prems by simp
  obtain a where "rowsOf p t = rowsOf p table @ a" using step.IH [OF step.prems(1) t] by blast
  moreover obtain b where "rowsOf p u = rowsOf p t @ b"
    using auditStep_rows [OF step.hyps(2) audit.history_consistent [OF step.hyps(1) step.prems(1)] t] by blast
  ultimately show ?case by simp
qed simp

text \<open>
  C5. Every audit history verifies. Whatever the calls so far did, and whatever of them
  failed, the chain of every project in the table is valid; verification counts all of its
  events and returns the hash of the last one; and later calls only add events behind it.
\<close>

theorem audit_history_valid:
  assumes "(auditStep sha256)\<^sup>*\<^sup>* [] table" and "(auditStep sha256)\<^sup>*\<^sup>* table table'"
    and "int (length table') < MaxInt64"
  shows "av_Valid (VerifyAuditChain sha256 table p)
    \<and> av_CheckedEvents (VerifyAuditChain sha256 table p) = length (ListAuditEvents table p)
    \<and> av_TerminalEventHash (VerifyAuditChain sha256 table p) = headHash [] (ListAuditEvents table p)
    \<and> (\<exists>new. ListAuditEvents table' p = ListAuditEvents table p @ new)"
proof (intro conjI)
  have ok: "allChained sha256 table"
    using audit.history_consistent [OF assms(1)] by (simp add: allChained_def rowsOf_def)
  obtain new where "table' = table @ new" using audit.history_appends [OF assms(2)] by blast
  then have len: "int (length table) < MaxInt64" using assms(3) by simp
  then have "int (length (rowsOf p table)) < MaxInt64" using length_rowsOf [of p table] by linarith
  with ok len verify_chain [of sha256 p table]
  show "av_Valid (VerifyAuditChain sha256 table p)"
    and "av_CheckedEvents (VerifyAuditChain sha256 table p) = length (ListAuditEvents table p)"
    and "av_TerminalEventHash (VerifyAuditChain sha256 table p) = headHash [] (ListAuditEvents table p)"
    by (simp_all add: allChained_def newReport_def ListAuditEvents_def)
  show "\<exists>new. ListAuditEvents table' p = ListAuditEvents table p @ new"
    unfolding ListAuditEvents_def by (rule history_rows [OF assms(2) ok assms(3)])
qed

text \<open>
  C28. Verification decides exactly whether the stored rows are a chain, and otherwise names
  the first row that breaks it: the rows before it are a chain, the report counts them and
  the row, gives the row's number, identifier and the first check it fails, and keeps the
  hash of the last good row.
\<close>

theorem audit_verify_exact:
  assumes "int (length (rowsOf p table)) < MaxInt64"
  shows "(av_Valid (VerifyAuditChain sha256 table p) \<longleftrightarrow> chained sha256 (rowsOf p table))
    \<and> (\<not> av_Valid (VerifyAuditChain sha256 table p) \<longrightarrow>
      (\<exists>good e rest. rowsOf p table = good @ e # rest \<and> chained sha256 good \<and> \<not> chained sha256 (good @ [e])
        \<and> VerifyAuditChain sha256 table p =
            \<lparr>av_ProjectID = p, av_CheckedEvents = Suc (length good), av_Valid = False,
             av_FirstInvalidSequence = ev_SequenceNumber e, av_FirstInvalidEventID = ev_ID e,
             av_FirstInvalidReason = fault sha256 (headHash [] good) (1 + int (length good)) e,
             av_TerminalEventHash = headHash [] good\<rparr>))"
proof (intro conjI impI)
  show "av_Valid (VerifyAuditChain sha256 table p) \<longleftrightarrow> chained sha256 (rowsOf p table)"
    by (rule verify_valid_iff [OF assms])
  assume "\<not> av_Valid (VerifyAuditChain sha256 table p)"
  then have "\<not> chained sha256 (rowsOf p table)" using verify_valid_iff [OF assms] by blast
  then obtain good e rest where "rowsOf p table = good @ e # rest" "chained sha256 good" "\<not> chained sha256 (good @ [e])"
    by (metis chain_or_first_fault)
  with verify_fault [OF this assms]
  show "\<exists>good e rest. rowsOf p table = good @ e # rest \<and> chained sha256 good \<and> \<not> chained sha256 (good @ [e])
        \<and> VerifyAuditChain sha256 table p =
            \<lparr>av_ProjectID = p, av_CheckedEvents = Suc (length good), av_Valid = False,
             av_FirstInvalidSequence = ev_SequenceNumber e, av_FirstInvalidEventID = ev_ID e,
             av_FirstInvalidReason = fault sha256 (headHash [] good) (1 + int (length good)) e,
             av_TerminalEventHash = headHash [] good\<rparr>"
    by (intro exI [of _ good] exI [of _ e] exI [of _ rest]) (simp add: newReport_def invalidAudit_def)
qed

subsection \<open>Tampering leaves a trace\<close>

text \<open>
  The fields the hash covers, as it sees them. The row identifier is not among them, and of
  a byte that is not valid UTF-8 only the position is.
\<close>

definition hashedTexts :: "AuditEvent \<Rightarrow> string list" where
  "hashedTexts e =
     [ev_ProjectID e, ev_EventType e, ev_EntityType e, ev_EntityID e, ev_BeforeCanonicalJSON e,
      ev_AfterCanonicalJSON e, ev_UserID e, ev_SessionID e, ev_TimestampUTC e, ev_SignatureStatus e,
      ev_SignatureBlobOptional e]"

definition sameContent :: "AuditEvent \<Rightarrow> AuditEvent \<Rightarrow> bool" where
  "sameContent e e' \<longleftrightarrow>
     ev_SequenceNumber e = ev_SequenceNumber e' \<and> ev_PreviousEventHash e = ev_PreviousEventHash e'
     \<and> map chunks (hashedTexts e) = map chunks (hashedTexts e')"

lemma jsonString_until_iff: "jsonString s @ x = jsonString t @ y \<longleftrightarrow> chunks s = chunks t \<and> x = y"
  using jsonString_inj jsonString_cong by metis

lemma jsonString_eq_iff: "jsonString s = jsonString t \<longleftrightarrow> chunks s = chunks t"
  using jsonString_until_iff [of s "[]" t "[]"] by simp

lemma FormatInt_until_iff: "FormatInt m @ CHR '','' # x = FormatInt n @ CHR '','' # y \<longleftrightarrow> m = n \<and> x = y"
  using FormatInt_until by blast

lemma payload_eqD:
  "payload e = payload e' \<Longrightarrow>
     ev_SequenceNumber e = ev_SequenceNumber e' \<and> map chunks (hashedTexts e) = map chunks (hashedTexts e')"
  by (simp add: payload_def hashedTexts_def jsonString_until_iff jsonString_eq_iff FormatInt_until_iff)

lemma until_brace:
  assumes "c \<notin> set u" and "c \<notin> set v" and "u @ c # x = v @ c # y"
  shows "u = v \<and> x = y"
  using assms
proof (induction u arbitrary: v)
  case Nil
  then show ?case by (cases v) auto
next
  case (Cons a u)
  then show ?case by (cases v) auto
qed

lemma hashInput_eqD:
  assumes "hashInput e = hashInput e'" and "CHR 0x7B \<notin> set (ev_PreviousEventHash e)" and "CHR 0x7B \<notin> set (ev_PreviousEventHash e')"
  shows "sameContent e e'"
proof -
  obtain x where x: "payload e = CHR 0x7B # x" by (simp add: payload_def)
  obtain y where y: "payload e' = CHR 0x7B # y" by (simp add: payload_def)
  have "ev_PreviousEventHash e @ CHR 0x7B # x = ev_PreviousEventHash e' @ CHR 0x7B # y"
    using assms(1) x y by (simp add: hashInput_def)
  from until_brace [OF assms(2,3) this] x y
  have prev: "ev_PreviousEventHash e = ev_PreviousEventHash e'" and body: "payload e = payload e'" by simp_all
  from prev payload_eqD [OF body] show ?thesis by (simp add: sameContent_def)
qed

lemma chained_prev_hex: "chained sha256 (es @ [e]) \<Longrightarrow> CHR 0x7B \<notin> set (ev_PreviousEventHash e)"
  unfolding chain_from_snoc
  by (cases es rule: rev_cases) (simp, simp only: chain_from_snoc headHash_simps eventHash_def, simp add: hexEncode_no_brace)

lemma same_head_same_chain:
  assumes "chained sha256 as" and "chained sha256 bs" and "as \<noteq> []" and "bs \<noteq> []"
    and "headHash [] as = headHash [] bs"
  shows "list_all2 sameContent as bs
         \<or> (\<exists>a \<in> set as. \<exists>b \<in> set bs. hashInput a \<noteq> hashInput b \<and> sha256 (hashInput a) = sha256 (hashInput b))"
  using assms
proof (induction as arbitrary: bs rule: rev_induct)
  case (snoc a as)
  obtain b bs' where bs: "bs = bs' @ [b]" using snoc.prems(4) by (metis rev_exhaust)
  have ca: "chained sha256 as" "ev_SequenceNumber a = 1 + int (length as)" "ev_PreviousEventHash a = headHash [] as"
       "ev_EventHash a = eventHash sha256 a"
    using snoc.prems(1) by (simp_all add: chain_from_snoc)
  have cb: "chained sha256 bs'" "ev_SequenceNumber b = 1 + int (length bs')" "ev_PreviousEventHash b = headHash [] bs'"
       "ev_EventHash b = eventHash sha256 b"
    using snoc.prems(2) by (simp_all add: bs chain_from_snoc)
  have "sha256 (hashInput a) = sha256 (hashInput b)"
    using snoc.prems(5) ca(4) cb(4) by (simp add: bs eventHash_def hexEncode_inj)
  show ?case
  proof (cases "hashInput a = hashInput b")
    case True
    then have same: "sameContent a b"
      using hashInput_eqD chained_prev_hex snoc.prems(1,2) bs by blast
    then have len: "length as = length bs'" and head: "headHash [] as = headHash [] bs'"
      using ca cb by (auto simp: sameContent_def)
    show ?thesis
    proof (cases "as = []")
      case False
      then have "bs' \<noteq> []" using len by auto
      with snoc.IH [OF ca(1) cb(1) False _ head] same show ?thesis by (auto simp: bs list_all2_appendI)
    qed (use len same bs in simp)
  qed (use \<open>sha256 (hashInput a) = sha256 (hashInput b)\<close> bs in auto)
qed simp

text \<open>
  C19. The terminal hash pins down the whole history. Two non-empty tables whose chains for a
  project both verify with the same terminal hash hold, row for row, the same content in
  every hashed field, or two of their rows give two different texts with the same SHA-256
  digest. A text field without invalid UTF-8 is then equal as it stands.
\<close>

theorem audit_tamper_evident:
  assumes "av_Valid (VerifyAuditChain sha256 table p)" and "av_Valid (VerifyAuditChain sha256 table' p)"
    and "av_TerminalEventHash (VerifyAuditChain sha256 table p) = av_TerminalEventHash (VerifyAuditChain sha256 table' p)"
    and "0 < av_CheckedEvents (VerifyAuditChain sha256 table p)" and "0 < av_CheckedEvents (VerifyAuditChain sha256 table' p)"
    and "int (length table) < MaxInt64" and "int (length table') < MaxInt64"
  shows "(list_all2 sameContent (ListAuditEvents table p) (ListAuditEvents table' p)
          \<or> (\<exists>a \<in> set (ListAuditEvents table p). \<exists>b \<in> set (ListAuditEvents table' p).
               hashInput a \<noteq> hashInput b \<and> sha256 (hashInput a) = sha256 (hashInput b)))
    \<and> (\<forall>a b. sameContent a b \<and> list_all valid_utf8 (hashedTexts a) \<longrightarrow> hashedTexts a = hashedTexts b)"
proof (intro conjI allI impI)
  have len: "int (length (rowsOf p table)) < MaxInt64" "int (length (rowsOf p table')) < MaxInt64"
    using length_rowsOf [of p table] length_rowsOf [of p table'] assms(6,7) by linarith+
  have ch: "chained sha256 (rowsOf p table)" "chained sha256 (rowsOf p table')"
    using assms(1,2) verify_valid_iff [OF len(1)] verify_valid_iff [OF len(2)] by blast+
  note v = verify_chain [OF ch(1) len(1)] verify_chain [OF ch(2) len(2)]
  show "list_all2 sameContent (ListAuditEvents table p) (ListAuditEvents table' p)
         \<or> (\<exists>a \<in> set (ListAuditEvents table p). \<exists>b \<in> set (ListAuditEvents table' p).
              hashInput a \<noteq> hashInput b \<and> sha256 (hashInput a) = sha256 (hashInput b))"
    unfolding ListAuditEvents_def using assms(3-5) v
    by (intro same_head_same_chain [OF ch]) (auto simp: newReport_def)
  fix a b assume "sameContent a b \<and> list_all valid_utf8 (hashedTexts a)"
  then show "hashedTexts a = hashedTexts b" using chunks_inj by (auto simp: sameContent_def hashedTexts_def)
qed


subsection \<open>A small history\<close>

definition toy_digest :: Digest where
  "toy_digest s = [char_of (sum_list (map byte s)), char_of (length s)]"

definition toy_env :: TxEnv where
  "toy_env = \<lparr>tx_Begin = True, tx_Random = Some ''abcd'', tx_Query = True, tx_Now = ''2026-01-05T08:00:00Z'',
              tx_Insert = True, tx_Commit = True\<rparr>"

definition toy_input :: AuditEventInput where
  "toy_input = \<lparr>in_ProjectID = ''p1'', in_EventType = ''task.created'', in_EntityType = ''task'', in_EntityID = ''t1'',
     in_BeforeJSON = [], in_AfterJSON = [], in_UserID = ''ann'', in_SessionID = [], in_SignatureStatus = [],
     in_SignatureBlobOptional = []\<rparr>"

definition toy_table :: AuditTable where
  "toy_table = fst (AppendAuditEvent toy_digest Some toy_env [] toy_input)"

lemma toy_table_event: "\<exists>e. toy_table = [e] \<and> ev_ProjectID e = ''p1''"
  by (simp add: toy_table_def AppendAuditEvent_def appendAuditEventTx_def insertRow_def toy_env_def toy_input_def
        canonicalJSON_def Let_def)

lemma toy_table_length: "length toy_table = 1" and toy_rows: "length (rowsOf ''p1'' toy_table) = 1"
proof -
  obtain e where e: "toy_table = [e]" "ev_ProjectID e = ''p1''" using toy_table_event by blast
  show "length toy_table = 1" "length (rowsOf ''p1'' toy_table) = 1" unfolding rowsOf_def e(1) using e(2) by simp_all
qed

lemma toy_step: "(auditStep toy_digest)\<^sup>*\<^sup>* [] toy_table"
  unfolding toy_table_def by (rule r_into_rtranclp, rule auditStep.append) (rule prod.collapse [symmetric])

lemma toy_size: "int (length toy_table) < MaxInt64" "int (length (rowsOf p toy_table)) < MaxInt64"
  using toy_table_length length_rowsOf [of p toy_table] by (simp_all add: MaxInt64_def)

theorem audit_history_valid_witness:
  "length toy_table = 1 \<and> av_Valid (VerifyAuditChain toy_digest toy_table ''p1'')"
  using audit_history_valid [OF toy_step rtranclp.rtrancl_refl toy_size(1), of "''p1''"] toy_table_length by blast

theorem audit_verify_exact_witness:
  "length toy_table = 1
   \<and> (av_Valid (VerifyAuditChain toy_digest toy_table ''p1'') \<longleftrightarrow> chained toy_digest (rowsOf ''p1'' toy_table))"
  using audit_verify_exact [OF toy_size(2), of toy_digest "''p1''"] toy_table_length by blast

theorem audit_tamper_evident_witness:
  "av_CheckedEvents (VerifyAuditChain toy_digest toy_table ''p1'') = 1
   \<and> (list_all2 sameContent (ListAuditEvents toy_table ''p1'') (ListAuditEvents toy_table ''p1'')
      \<or> (\<exists>a \<in> set (ListAuditEvents toy_table ''p1''). \<exists>b \<in> set (ListAuditEvents toy_table ''p1'').
           hashInput a \<noteq> hashInput b \<and> toy_digest (hashInput a) = toy_digest (hashInput b)))"
proof -
  have "allChained toy_digest toy_table"
    using audit.history_consistent [OF toy_step] by (simp add: allChained_def rowsOf_def)
  then have chain: "chained toy_digest (rowsOf ''p1'' toy_table)" using toy_size by (simp add: allChained_def)
  then have v: "av_Valid (VerifyAuditChain toy_digest toy_table ''p1'')" using verify_valid_iff [OF toy_size(2)] by blast
  have n: "av_CheckedEvents (VerifyAuditChain toy_digest toy_table ''p1'') = 1"
    unfolding verify_chain [OF chain toy_size(2)] by (simp add: newReport_def toy_rows)
  then have pos: "0 < av_CheckedEvents (VerifyAuditChain toy_digest toy_table ''p1'')" by (rule ssubst) simp
  show ?thesis using audit_tamper_evident [OF v v refl pos pos toy_size(1) toy_size(1)] n by blast
qed

end
