(* ===== verification/DeletionLog.thy ===== *)
theory DeletionLog
  imports AuditChain
begin

text \<open>
  The deletion log (\<^verbatim>\<open>internal/deletionlog/log.go\<close>) and the deletion of a project
  (\<^verbatim>\<open>DeleteProject\<close>, \<^verbatim>\<open>projectDeletionRequest\<close> and
  \<^verbatim>\<open>removeProjectFiles\<close> of \<^verbatim>\<open>internal/desktop/app_projects.go\<close>). The log
  is the list of its rows in the order of \<^verbatim>\<open>seq\<close>; the user's files are the list
  of their paths. A deletion is given twice: as the function the code is, and as a step
  relation in which the program can stop between any two durable effects. The lemmas show
  that the function follows the relation, that nothing is ever removed without a committed
  request, and that a recorded outcome is true.
\<close>

subsection \<open>Model: requests, rows and the log\<close>

record Request =
  rq_Actor :: string
  rq_ProjectID :: string
  rq_ProjectName :: string
  rq_Location :: string
  rq_AuditEvents :: nat
  rq_AuditValid :: bool
  rq_AuditTerminalHash :: string

definition OutcomeDeleted :: string where "OutcomeDeleted = ''deleted''"
definition OutcomeFailed :: string where "OutcomeFailed = ''failed''"
definition KindRequested :: string where "KindRequested = ''requested''"

record DeletionRow =
  dr_id :: string
  dr_kind :: string
  dr_at :: string
  dr_request :: Request
  dr_detail :: string

record Deletion =
  del_ID :: string
  del_request :: Request
  del_RequestedAt :: string
  del_Outcome :: string
  del_OutcomeAt :: string
  del_Detail :: string

type_synonym DelLog = "DeletionRow list"

datatype deletion_error =
    NotSignedIn | NoKey | CannotOpenProject | ProjectUnreadable | AuditUnreadable | CannotOpenLog
  | NoRandomID | RequestNotRecorded | NoOpenRequest | RemovalFailed string

definition emptyRequest :: Request where
  "emptyRequest = \<lparr>rq_Actor = [], rq_ProjectID = [], rq_ProjectName = [], rq_Location = [],
     rq_AuditEvents = 0, rq_AuditValid = False, rq_AuditTerminalHash = []\<rparr>"

definition isOutcome :: "string \<Rightarrow> bool" where
  "isOutcome k \<longleftrightarrow> k = OutcomeDeleted \<or> k = OutcomeFailed"

text \<open>An insertion, with the unique index on \<^verbatim>\<open>(deletion_id, kind)\<close> and the check on \<^verbatim>\<open>kind\<close>.\<close>

definition insertEvent :: "bool \<Rightarrow> DeletionRow \<Rightarrow> DelLog \<Rightarrow> DelLog option" where
  "insertEvent ok r log =
     (if ok \<and> (dr_kind r = KindRequested \<or> isOutcome (dr_kind r))
         \<and> \<not> list_ex (\<lambda>x. dr_id x = dr_id r \<and> dr_kind x = dr_kind r) log
      then Some (log @ [r]) else None)"

definition deletionID :: "string \<Rightarrow> string" where
  "deletionID random = ''deletion_'' @ hexEncode random"

definition Requested ::
  "string option \<Rightarrow> string \<Rightarrow> bool \<Rightarrow> Request \<Rightarrow> DelLog \<Rightarrow> DelLog \<times> (deletion_error + string)"
where
  "Requested random now ok req log =
     (case random of None \<Rightarrow> (log, Inl NoRandomID)
      | Some bytes \<Rightarrow>
        (case insertEvent ok \<lparr>dr_id = deletionID bytes, dr_kind = KindRequested, dr_at = now,
                              dr_request = req, dr_detail = []\<rparr> log of
           None \<Rightarrow> (log, Inl RequestNotRecorded)
         | Some log' \<Rightarrow> (log', Inr (deletionID bytes))))"

text \<open>
  One statement inserts the outcome only where the request exists and no outcome does; no
  row inserted, and a failing statement, are both errors.
\<close>

definition outcome ::
  "bool \<Rightarrow> string \<Rightarrow> string \<Rightarrow> string \<Rightarrow> string \<Rightarrow> DelLog \<Rightarrow> DelLog \<times> deletion_error option"
where
  "outcome ok now did kind detail log =
     (if list_ex (\<lambda>r. dr_id r = did \<and> dr_kind r = KindRequested) log
         \<and> \<not> list_ex (\<lambda>r. dr_id r = did \<and> isOutcome (dr_kind r)) log
      then (case insertEvent ok \<lparr>dr_id = did, dr_kind = kind, dr_at = now, dr_request = emptyRequest,
                                 dr_detail = detail\<rparr> log of
              None \<Rightarrow> (log, Some NoOpenRequest)
            | Some log' \<Rightarrow> (log', None))
      else (log, Some NoOpenRequest))"

definition Deleted :: "bool \<Rightarrow> string \<Rightarrow> string \<Rightarrow> DelLog \<Rightarrow> DelLog \<times> deletion_error option" where
  "Deleted ok now did log = outcome ok now did OutcomeDeleted [] log"

definition Failed :: "bool \<Rightarrow> string \<Rightarrow> string \<Rightarrow> string option \<Rightarrow> DelLog \<Rightarrow> DelLog \<times> deletion_error option" where
  "Failed ok now did cause log =
     outcome ok now did OutcomeFailed (case cause of None \<Rightarrow> [] | Some c \<Rightarrow> c) log"

text \<open>The left join of requests with their outcomes, newest request first.\<close>

definition joined :: "DeletionRow \<Rightarrow> DeletionRow option \<Rightarrow> Deletion" where
  "joined r o' =
     \<lparr>del_ID = dr_id r, del_request = dr_request r, del_RequestedAt = dr_at r,
      del_Outcome = (case o' of None \<Rightarrow> [] | Some x \<Rightarrow> dr_kind x),
      del_OutcomeAt = (case o' of None \<Rightarrow> [] | Some x \<Rightarrow> dr_at x),
      del_Detail = (case o' of None \<Rightarrow> [] | Some x \<Rightarrow> dr_detail x)\<rparr>"

definition outcomesOf :: "string \<Rightarrow> DelLog \<Rightarrow> DelLog" where
  "outcomesOf did log = filter (\<lambda>x. dr_id x = did \<and> isOutcome (dr_kind x)) log"

definition List :: "DelLog \<Rightarrow> Deletion list" where
  "List log =
     concat (map (\<lambda>r. case outcomesOf (dr_id r) log of
                        [] \<Rightarrow> [joined r None] | os \<Rightarrow> map (\<lambda>x. joined r (Some x)) os)
              (rev (filter (\<lambda>r. dr_kind r = KindRequested) log)))"

subsection \<open>Model: what is deleted\<close>

definition slash :: char where "slash = CHR ''/''"

text \<open>\<^verbatim>\<open>filepath.Dir\<close>, \<^verbatim>\<open>Base\<close> and \<^verbatim>\<open>Ext\<close> on a clean absolute path.\<close>

definition pathDir :: "string \<Rightarrow> string" where
  "pathDir p = rev (tl (dropWhile (\<lambda>c. c \<noteq> slash) (rev p)))"

definition pathBase :: "string \<Rightarrow> string" where
  "pathBase p = rev (takeWhile (\<lambda>c. c \<noteq> slash) (rev p))"

definition trimExt :: "string \<Rightarrow> string" where
  "trimExt name =
     (if CHR ''.'' \<in> set name then rev (tl (dropWhile (\<lambda>c. c \<noteq> CHR ''.'') (rev name))) else name)"

text \<open>The prefix \<^verbatim>\<open>^\\d{8}-\\d{6}-\<close> of a project folder.\<close>

definition projectDisplayName :: "string \<Rightarrow> string" where
  "projectDisplayName folder =
     (if length folder \<ge> 16 \<and> list_all is_digit (take 8 folder) \<and> folder ! 8 = CHR ''-''
         \<and> list_all is_digit (take 6 (drop 9 folder)) \<and> folder ! 15 = CHR ''-''
      then drop 16 folder else folder)"

definition replacement :: string where "replacement = [CHR 0xEF, CHR 0xBF, CHR 0xBD]"

text \<open>\<^verbatim>\<open>strings.ToValidUTF8\<close>: one replacement for every run of invalid bytes.\<close>

fun validChunks :: "bool \<Rightarrow> chunk list \<Rightarrow> string" where
  "validChunks inRun [] = []"
| "validChunks inRun (Invalid # cs) = (if inRun then [] else replacement) @ validChunks True cs"
| "validChunks inRun (c # cs) = chunk_bytes c @ validChunks False cs"

definition ToValidUTF8 :: "string \<Rightarrow> string" where
  "ToValidUTF8 s = validChunks False (chunks s)"

definition deletedProjectDisplayName :: "string \<Rightarrow> string \<Rightarrow> string" where
  "deletedProjectDisplayName path projectsDir =
     (if pathDir path \<noteq> projectsDir then ToValidUTF8 (projectDisplayName (pathBase (pathDir path)))
      else ToValidUTF8 (trimExt (pathBase path)))"

definition locationOf :: "string \<Rightarrow> string \<Rightarrow> string" where
  "locationOf projectsDir path = ToValidUTF8 (drop (length projectsDir + 1) path)"

datatype project_read = ProjectRow string string | NoProjectRow | ProjectReadError

text \<open>
  What one deletion reads from outside: the session, the project file, random bytes, the
  clock, and which of the durable writes and removals succeed. The audit table is
  \<open>None\<close> when it cannot be read and \<open>Some None\<close> in a file without one.
\<close>

record DeleteEnv =
  de_actor :: string
  de_projectsDir :: string
  de_path :: string
  de_keyOK :: bool
  de_openOK :: bool
  de_project :: project_read
  de_audit :: "AuditTable option option"
  de_logOK :: bool
  de_random :: "string option"
  de_now :: string
  de_later :: string
  de_requestOK :: bool
  de_removeAll :: "(string \<times> string list) option"
  de_remove :: "string \<Rightarrow> string option"
  de_outcomeOK :: bool

definition projectDeletionRequest :: "Digest \<Rightarrow> DeleteEnv \<Rightarrow> deletion_error + Request" where
  "projectDeletionRequest sha256 env =
     (let req = emptyRequest\<lparr>rq_Actor := de_actor env,
                             rq_Location := locationOf (de_projectsDir env) (de_path env)\<rparr> in
      if \<not> de_keyOK env then Inl NoKey
      else if \<not> de_openOK env then Inl CannotOpenProject
      else case de_project env of
             NoProjectRow \<Rightarrow>
               Inr (req\<lparr>rq_ProjectName := deletedProjectDisplayName (de_path env) (de_projectsDir env)\<rparr>)
           | ProjectReadError \<Rightarrow> Inl ProjectUnreadable
           | ProjectRow pid name \<Rightarrow>
               (case de_audit env of None \<Rightarrow> Inl AuditUnreadable
                | Some table \<Rightarrow>
                  (let chain = ReadAuditChain sha256 table pid in
                   Inr (req\<lparr>rq_ProjectID := pid, rq_ProjectName := name,
                            rq_AuditEvents := av_CheckedEvents chain, rq_AuditValid := av_Valid chain,
                            rq_AuditTerminalHash := av_TerminalEventHash chain\<rparr>))))"

definition under :: "string \<Rightarrow> string \<Rightarrow> bool" where
  "under dir f \<longleftrightarrow> has_prefix f (dir @ [slash])"

definition sidecars :: "string \<Rightarrow> string list" where
  "sidecars path = [path, path @ ''-wal'', path @ ''-shm'']"

text \<open>The files that belong to the project at a path: its folder, or in the flat layout three files.\<close>

definition owned :: "string \<Rightarrow> string \<Rightarrow> string \<Rightarrow> bool" where
  "owned projectsDir path f \<longleftrightarrow>
     (if pathDir path \<noteq> projectsDir then under (pathDir path) f else f \<in> set (sidecars path))"

fun removeEach :: "(string \<Rightarrow> string option) \<Rightarrow> string list \<Rightarrow> string list \<Rightarrow> string list \<times> string option" where
  "removeEach rm [] files = (files, None)"
| "removeEach rm (p # ps) files =
     (if p \<notin> set files then removeEach rm ps files
      else case rm p of None \<Rightarrow> removeEach rm ps (filter (\<lambda>f. f \<noteq> p) files)
                      | Some err \<Rightarrow> (files, Some err))"

text \<open>\<^verbatim>\<open>os.RemoveAll\<close> that fails may have removed any of the files it was asked to remove.\<close>

definition removeProjectFiles :: "DeleteEnv \<Rightarrow> string list \<Rightarrow> string list \<times> string option" where
  "removeProjectFiles env files =
     (let parent = pathDir (de_path env) in
      if parent \<noteq> de_projectsDir env then
        (case de_removeAll env of
           None \<Rightarrow> (filter (\<lambda>f. \<not> under parent f) files, None)
         | Some (err, left) \<Rightarrow> (filter (\<lambda>f. \<not> under parent f \<or> f \<in> set left) files, Some err))
      else removeEach (de_remove env) (sidecars (de_path env)) files)"

record World =
  w_files :: "string list"
  w_log :: DelLog

text \<open>\<^verbatim>\<open>DeleteProject\<close> from the point where the path is resolved and the project closed.\<close>

definition DeleteProject :: "Digest \<Rightarrow> DeleteEnv \<Rightarrow> World \<Rightarrow> World \<times> deletion_error option" where
  "DeleteProject sha256 env w =
     (case projectDeletionRequest sha256 env of
        Inl e \<Rightarrow> (w, Some e)
      | Inr req \<Rightarrow>
        (if \<not> de_logOK env then (w, Some CannotOpenLog)
         else case Requested (de_random env) (de_now env) (de_requestOK env) req (w_log w) of
                (log, Inl e) \<Rightarrow> (w\<lparr>w_log := log\<rparr>, Some e)
              | (log, Inr did) \<Rightarrow>
                  (case removeProjectFiles env (w_files w) of
                     (files, Some err) \<Rightarrow>
                       (w\<lparr>w_files := files, w_log := fst (Failed (de_outcomeOK env) (de_later env) did (Some err) log)\<rparr>,
                        Some (RemovalFailed err))
                   | (files, None) \<Rightarrow>
                       (w\<lparr>w_files := files, w_log := fst (Deleted (de_outcomeOK env) (de_later env) did log)\<rparr>, None))))"

subsection \<open>A deletion as steps\<close>

text \<open>
  Between two durable effects the program may stop; it then is idle again and keeps what
  was written. A removal may make any progress before it ends. Deletions of one user do not
  overlap (\<^verbatim>\<open>projectDeletionMu\<close>).
\<close>

datatype phase =
    Idle
  | Removing string string string
  | Gone string string string
  | Kept string string string string

inductive deleteStep :: "Digest \<Rightarrow> phase \<times> World \<Rightarrow> phase \<times> World \<Rightarrow> bool" for sha256 where
  request: "projectDeletionRequest sha256 env = Inr req \<Longrightarrow>
     Requested (de_random env) (de_now env) (de_requestOK env) req (w_log w) = (log, Inr did) \<Longrightarrow>
     deleteStep sha256 (Idle, w) (Removing (de_projectsDir env) (de_path env) did, w\<lparr>w_log := log\<rparr>)"
| remove: "deleteStep sha256 (Removing dir path did, w)
     (Removing dir path did, w\<lparr>w_files := filter (\<lambda>f. \<not> owned dir path f \<or> f \<in> set left) (w_files w)\<rparr>)"
| removed: "\<forall>f \<in> set (w_files w). \<not> owned dir path f \<Longrightarrow>
     deleteStep sha256 (Removing dir path did, w) (Gone dir path did, w)"
| not_removed: "deleteStep sha256 (Removing dir path did, w) (Kept dir path did err, w)"
| record_deleted: "Deleted ok now did (w_log w) = (log, e) \<Longrightarrow>
     deleteStep sha256 (Gone dir path did, w) (Idle, w\<lparr>w_log := log\<rparr>)"
| record_failed: "Failed ok now did (Some err) (w_log w) = (log, e) \<Longrightarrow>
     deleteStep sha256 (Kept dir path did err, w) (Idle, w\<lparr>w_log := log\<rparr>)"
| stop: "deleteStep sha256 (ph, w) (Idle, w)"

subsection \<open>The log\<close>

text \<open>The rows of a consistent log: known kinds, no kind twice for a deletion, one outcome, after its request.\<close>

definition isRequest :: "DeletionRow \<Rightarrow> bool" where "isRequest r \<longleftrightarrow> dr_kind r = KindRequested"

definition rowAllowed :: "DelLog \<Rightarrow> DeletionRow \<Rightarrow> bool" where
  "rowAllowed log r \<longleftrightarrow>
     (if isRequest r then \<not> (\<exists>x \<in> set log. dr_id x = dr_id r)
      else isOutcome (dr_kind r) \<and> (\<exists>x \<in> set log. dr_id x = dr_id r \<and> isRequest x)
           \<and> outcomesOf (dr_id r) log = [])"

inductive log_ok :: "DelLog \<Rightarrow> bool" where
  empty: "log_ok []"
| add: "log_ok log \<Longrightarrow> rowAllowed log r \<Longrightarrow> log_ok (log @ [r])"

inductive_simps log_ok_snoc: "log_ok (log @ [r])"

lemma kinds_differ [simp]: "\<not> isOutcome KindRequested" "isOutcome OutcomeDeleted" "isOutcome OutcomeFailed"
  "OutcomeDeleted \<noteq> OutcomeFailed" "OutcomeFailed \<noteq> OutcomeDeleted" "OutcomeDeleted \<noteq> KindRequested" "OutcomeFailed \<noteq> KindRequested"
  by (simp_all add: isOutcome_def KindRequested_def OutcomeDeleted_def OutcomeFailed_def)

lemma outcomesOf_simps [simp]:
  "outcomesOf did [] = []"
  "outcomesOf did (log @ [r]) = outcomesOf did log @ (if dr_id r = did \<and> isOutcome (dr_kind r) then [r] else [])"
  by (simp_all add: outcomesOf_def)

lemma outcomesOf_Nil_iff: "outcomesOf did log = [] \<longleftrightarrow> \<not> (\<exists>x \<in> set log. dr_id x = did \<and> isOutcome (dr_kind x))"
  by (auto simp: outcomesOf_def filter_empty_conv)

lemma log_ok_requests:
  assumes "log_ok log"
  shows "(\<forall>x \<in> set log. \<exists>r \<in> set log. isRequest r \<and> dr_id r = dr_id x)
         \<and> distinct (map dr_id (filter isRequest log)) \<and> (\<forall>did. length (outcomesOf did log) \<le> 1)"
  using assms
proof induction
  case (add log r)
  show ?case
  proof (cases "isRequest r")
    case True
    then have "\<not> isOutcome (dr_kind r)" by (auto simp: isRequest_def)
    with True add show ?thesis by (fastforce simp: rowAllowed_def)
  qed (use add in \<open>auto simp: rowAllowed_def\<close>)
qed simp

lemma Requested_InrD:
  assumes "Requested random now ok req log = (log', Inr did)"
  shows "\<exists>r. log' = log @ [r] \<and> isRequest r \<and> dr_id r = did \<and> dr_request r = req
           \<and> \<not> (\<exists>x \<in> set log. dr_id x = did \<and> isRequest x)"
  using assms
  by (auto simp: Requested_def insertEvent_def isRequest_def list_ex_iff split: option.splits if_splits)

lemma Requested_ok:
  assumes "Requested random now ok req log = (log', Inr did)" and "log_ok log"
  shows "log_ok log'"
  using Requested_InrD [OF assms(1)] assms(2) log_ok_requests [OF assms(2)]
  by (fastforce simp: log_ok_snoc rowAllowed_def)

lemma Requested_InlD: "Requested random now ok req log = (log', Inl e) \<Longrightarrow> log' = log"
  by (auto simp: Requested_def split: option.splits)

lemma outcome_cases:
  assumes "outcome ok now did kind detail log = (log', e)" and "isOutcome kind"
  obtains "log' = log" "e = Some NoOpenRequest"
  | r where "log' = log @ [r]" "e = None" "dr_id r = did" "dr_kind r = kind" "dr_detail r = detail" "dr_at r = now"
      "rowAllowed log r"
proof -
  have "\<not> kind = KindRequested" using assms(2) by auto
  then show ?thesis using assms that
    by (auto simp: outcome_def insertEvent_def rowAllowed_def isRequest_def outcomesOf_Nil_iff list_ex_iff
        split: option.splits if_splits)
qed

lemma outcome_ok: "outcome ok now did kind detail log = (log', e) \<Longrightarrow> isOutcome kind \<Longrightarrow> log_ok log \<Longrightarrow> log_ok log'"
  by (erule outcome_cases) (auto simp: log_ok_snoc)

subsection \<open>No removal without a record, no record without the removal\<close>

definition requestFor :: "DelLog \<Rightarrow> string \<Rightarrow> string \<Rightarrow> string \<Rightarrow> bool" where
  "requestFor log dir path did \<longleftrightarrow>
     (\<exists>r \<in> set log. isRequest r \<and> dr_id r = did \<and> rq_Location (dr_request r) = locationOf dir path)"

definition covered :: "DelLog \<Rightarrow> string \<Rightarrow> bool" where
  "covered log f \<longleftrightarrow> (\<exists>dir path did. requestFor log dir path did \<and> owned dir path f)"

definition truthful :: "DelLog \<Rightarrow> string list \<Rightarrow> bool" where
  "truthful log files \<longleftrightarrow>
     (\<forall>r \<in> set log. dr_kind r = OutcomeDeleted \<longrightarrow>
        (\<exists>dir path. requestFor log dir path (dr_id r) \<and> (\<forall>f \<in> set files. \<not> owned dir path f)))"

fun phase_ok :: "phase \<Rightarrow> World \<Rightarrow> bool" where
  "phase_ok Idle w = True"
| "phase_ok (Removing dir path did) w = requestFor (w_log w) dir path did"
| "phase_ok (Gone dir path did) w =
     (requestFor (w_log w) dir path did \<and> (\<forall>f \<in> set (w_files w). \<not> owned dir path f))"
| "phase_ok (Kept dir path did err) w = requestFor (w_log w) dir path did"

definition delete_inv :: "string set \<Rightarrow> phase \<times> World \<Rightarrow> bool" where
  "delete_inv files0 s =
     (case s of (ph, w) \<Rightarrow>
        log_ok (w_log w) \<and> (\<forall>f \<in> files0 - set (w_files w). covered (w_log w) f)
        \<and> truthful (w_log w) (w_files w) \<and> phase_ok ph w)"

lemma requestFor_append: "requestFor log dir path did \<Longrightarrow> requestFor (log @ new) dir path did"
  by (auto simp: requestFor_def)

lemma covered_append: "covered log f \<Longrightarrow> covered (log @ new) f"
  using requestFor_append by (fastforce simp: covered_def)

lemma truthful_append:
  assumes "truthful log files"
    and "dr_kind r = OutcomeDeleted \<Longrightarrow>
      \<exists>dir path. requestFor log dir path (dr_id r) \<and> (\<forall>f \<in> set files. \<not> owned dir path f)"
  shows "truthful (log @ [r]) files"
  using assms requestFor_append [of log _ _ _ "[r]"] unfolding truthful_def by fastforce

lemma truthful_fewer: "truthful log files \<Longrightarrow> truthful log (filter P files)"
  unfolding truthful_def by fastforce

lemma projectDeletionRequest_location:
  "projectDeletionRequest sha256 env = Inr req \<Longrightarrow> rq_Location req = locationOf (de_projectsDir env) (de_path env)"
  by (auto simp: projectDeletionRequest_def emptyRequest_def Let_def split: if_splits project_read.splits option.splits)

lemma outcome_inv:
  assumes "outcome ok now did kind detail (w_log w) = (log, e)" and "isOutcome kind"
    and "delete_inv files0 (ph, w)"
    and "kind = OutcomeDeleted \<Longrightarrow>
      \<exists>dir path. requestFor (w_log w) dir path did \<and> (\<forall>f \<in> set (w_files w). \<not> owned dir path f)"
  shows "delete_inv files0 (Idle, w\<lparr>w_log := log\<rparr>)"
  using assms(1,2)
proof (cases rule: outcome_cases)
  case 1
  with assms(3) show ?thesis by (simp add: delete_inv_def)
next
  case (2 r)
  with assms(3,4) show ?thesis by (auto simp: delete_inv_def log_ok_snoc intro: covered_append truthful_append)
qed

lemma request_inv:
  assumes "projectDeletionRequest sha256 env = Inr req"
    and "Requested random now ok req (w_log w) = (log, Inr did)" and "delete_inv files0 (Idle, w)"
  shows "delete_inv files0 (Removing (de_projectsDir env) (de_path env) did, w\<lparr>w_log := log\<rparr>)"
proof -
  obtain r where r: "log = w_log w @ [r]" "isRequest r" "dr_id r = did" "dr_request r = req"
    using Requested_InrD [OF assms(2)] by blast
  have "requestFor log (de_projectsDir env) (de_path env) did"
    using r projectDeletionRequest_location [OF assms(1)] by (auto simp: requestFor_def)
  moreover have "dr_kind r \<noteq> OutcomeDeleted" using r(2) by (auto simp: isRequest_def dest: sym)
  moreover have "log_ok log" using Requested_ok [OF assms(2)] assms(3) by (simp add: delete_inv_def)
  ultimately show ?thesis
    using assms(3) r(1) by (auto simp: delete_inv_def intro: covered_append truthful_append)
qed

lemma deleteStep_inv: "deleteStep sha256 s s' \<Longrightarrow> delete_inv files0 s \<Longrightarrow> delete_inv files0 s'"
proof (induction rule: deleteStep.induct)
  case (request env req w log did)
  then show ?case by (blast intro: request_inv)
next
  case (remove dir path did w left)
  then show ?case by (auto simp: delete_inv_def covered_def truthful_fewer)
next
  case (record_deleted ok now did w log e dir path)
  then show ?case unfolding Deleted_def
    by (elim outcome_inv [where ph = "Gone dir path did"]) (auto simp: delete_inv_def)
next
  case (record_failed ok now did err w log e dir path)
  then show ?case unfolding Failed_def
    by (elim outcome_inv [where ph = "Kept dir path did err"]) auto
qed (auto simp: delete_inv_def)

lemma deleteStep_appends: "deleteStep sha256 s s' \<Longrightarrow> \<exists>new. w_log (snd s') = w_log (snd s) @ new"
proof (induction rule: deleteStep.induct)
  case (request env req w log did)
  then show ?case using Requested_InrD by fastforce
next
  case (record_deleted ok now did w log e dir path)
  then show ?case unfolding Deleted_def by (auto elim!: outcome_cases)
next
  case (record_failed ok now did err w log e dir path)
  then show ?case unfolding Failed_def by (auto elim!: outcome_cases)
qed auto

interpretation deletions: consistent_log "\<lambda>s. w_log (snd s)" "deleteStep sha256" "delete_inv files0"
  by unfold_locales (auto intro: deleteStep_appends deleteStep_inv)

lemma delete_inv_start: "delete_inv (set files) (Idle, \<lparr>w_files = files, w_log = []\<rparr>)"
  by (simp add: delete_inv_def truthful_def log_ok.empty)


subsection \<open>The handler follows the steps\<close>

lemma removeEach_files:
  assumes "removeEach rm ps files = (files', res)"
  shows "files' = filter (\<lambda>f. f \<notin> set ps \<or> f \<in> set files') files \<and> (res = None \<longrightarrow> (\<forall>p \<in> set ps. p \<notin> set files'))"
  using assms
proof (induction rm ps files rule: removeEach.induct)
  case (2 rm p ps files)
  show ?case
  proof (cases "p \<in> set files")
    case True
    show ?thesis
    proof (cases "rm p")
      case None
      with True 2 have ih: "files' = filter (\<lambda>f. f \<notin> set ps \<or> f \<in> set files') (filter (\<lambda>f. f \<noteq> p) files)"
        "res = None \<longrightarrow> (\<forall>q \<in> set ps. q \<notin> set files')" by simp_all
      have np: "p \<notin> set files'" by (subst ih(1)) simp
      have "files' = filter (\<lambda>f. f \<notin> set (p # ps) \<or> f \<in> set files') files"
        using ih(1) np by (subst ih(1), subst filter_filter) (rule filter_cong, auto)
      with ih(2) np show ?thesis by simp
    next
      case (Some err)
      with True 2(3) have "files' = files" "res = Some err" by simp_all
      then show ?thesis by (simp add: filter_id_conv)
    qed
  next
    case False
    with 2 have ih: "files' = filter (\<lambda>f. f \<notin> set ps \<or> f \<in> set files') files"
      "res = None \<longrightarrow> (\<forall>q \<in> set ps. q \<notin> set files')" by simp_all
    have "filter (\<lambda>f. f \<notin> set ps \<or> f \<in> set files') files = filter (\<lambda>f. f \<notin> set (p # ps) \<or> f \<in> set files') files"
      using False by (intro filter_cong) auto
    moreover have "p \<notin> set files'" using False by (subst ih(1)) simp
    ultimately show ?thesis using ih by auto
  qed
qed (simp add: filter_id_conv)

lemma removeProjectFiles_files:
  assumes "removeProjectFiles env files = (files', res)"
  shows "files' = filter (\<lambda>f. \<not> owned (de_projectsDir env) (de_path env) f \<or> f \<in> set files') files
         \<and> (res = None \<longrightarrow> (\<forall>f \<in> set files'. \<not> owned (de_projectsDir env) (de_path env) f))"
proof (cases "pathDir (de_path env) = de_projectsDir env")
  case True
  with assms have "removeEach (de_remove env) (sidecars (de_path env)) files = (files', res)"
    by (simp add: removeProjectFiles_def)
  from removeEach_files [OF this] True show ?thesis by (auto simp: owned_def)
next
  case False
  with assms show ?thesis
    by (auto simp: removeProjectFiles_def owned_def Let_def split: option.splits prod.splits intro!: filter_cong)
qed

lemma removal_steps:
  assumes "removeProjectFiles env (w_files w) = (files', res)"
  shows "deleteStep sha256 (Removing (de_projectsDir env) (de_path env) did, w)
           (Removing (de_projectsDir env) (de_path env) did, w\<lparr>w_files := files'\<rparr>)"
  using deleteStep.remove [of sha256 "de_projectsDir env" "de_path env" did w files'] removeProjectFiles_files [OF assms]
  by simp

lemma deleteProject_steps:
  "(deleteStep sha256)\<^sup>*\<^sup>* (Idle, w) (Idle, fst (DeleteProject sha256 env w))"
proof (cases "projectDeletionRequest sha256 env")
  case (Inl e)
  then show ?thesis by (simp add: DeleteProject_def)
next
  case (Inr req)
  let ?dir = "de_projectsDir env" and ?path = "de_path env"
  obtain log r where rq: "Requested (de_random env) (de_now env) (de_requestOK env) req (w_log w) = (log, r)"
    by fastforce
  show ?thesis
  proof (cases "de_logOK env \<and> (\<exists>did. r = Inr did)")
    case False
    then show ?thesis using Inr rq
      by (cases r) (auto simp: DeleteProject_def dest: Requested_InlD)
  next
    case True
    then obtain did where r: "r = Inr did" by blast
    let ?w1 = "w\<lparr>w_log := log\<rparr>"
    obtain files res where rm: "removeProjectFiles env (w_files w) = (files, res)" by fastforce
    let ?w2 = "?w1\<lparr>w_files := files\<rparr>"
    have s1: "deleteStep sha256 (Idle, w) (Removing ?dir ?path did, ?w1)"
      by (rule deleteStep.request [OF Inr]) (use rq r in simp)
    have s2: "deleteStep sha256 (Removing ?dir ?path did, ?w1) (Removing ?dir ?path did, ?w2)"
      by (rule removal_steps [of env _ _ res]) (use rm in simp)
    have "(deleteStep sha256)\<^sup>*\<^sup>* (Removing ?dir ?path did, ?w2) (Idle, fst (DeleteProject sha256 env w))"
    proof (cases res)
      case None
      have "deleteStep sha256 (Removing ?dir ?path did, ?w2) (Gone ?dir ?path did, ?w2)"
        by (rule deleteStep.removed) (use removeProjectFiles_files [OF rm] None in simp)
      moreover have "deleteStep sha256 (Gone ?dir ?path did, ?w2) (Idle, fst (DeleteProject sha256 env w))"
        using deleteStep.record_deleted [of "de_outcomeOK env" "de_later env" did ?w2] Inr rq r rm True None
        by (cases "Deleted (de_outcomeOK env) (de_later env) did log") (simp add: DeleteProject_def)
      ultimately show ?thesis by (meson converse_rtranclp_into_rtranclp r_into_rtranclp)
    next
      case (Some err)
      have "deleteStep sha256 (Removing ?dir ?path did, ?w2) (Kept ?dir ?path did err, ?w2)"
        by (rule deleteStep.not_removed)
      moreover have "deleteStep sha256 (Kept ?dir ?path did err, ?w2) (Idle, fst (DeleteProject sha256 env w))"
        using deleteStep.record_failed [of "de_outcomeOK env" "de_later env" did err ?w2] Inr rq r rm True Some
        by (cases "Failed (de_outcomeOK env) (de_later env) did (Some err) log") (simp add: DeleteProject_def)
      ultimately show ?thesis by (meson converse_rtranclp_into_rtranclp r_into_rtranclp)
    qed
    with s1 s2 show ?thesis by (meson converse_rtranclp_into_rtranclp)
  qed
qed

lemma deleteProject_gone:
  assumes "snd (DeleteProject sha256 env w) = None"
  shows "\<forall>f \<in> set (w_files (fst (DeleteProject sha256 env w))). \<not> owned (de_projectsDir env) (de_path env) f"
  using assms removeProjectFiles_files [of env "w_files w"]
  by (auto simp: DeleteProject_def split: sum.splits if_splits prod.splits option.splits)

text \<open>
  C20. The handler follows the protocol: whatever its environment does, a run of
  \<^const>\<open>DeleteProject\<close> is a sequence of steps, so that everything shown of the steps
  holds of it and of every point at which it may stop; and if it reports no error, none of
  the project's files is left.
\<close>

theorem delete_refines:
  "(deleteStep sha256)\<^sup>*\<^sup>* (Idle, w) (Idle, fst (DeleteProject sha256 env w))
   \<and> (snd (DeleteProject sha256 env w) = None \<longrightarrow>
        (\<forall>f \<in> set (w_files (fst (DeleteProject sha256 env w))). \<not> owned (de_projectsDir env) (de_path env) f))"
  using deleteProject_steps deleteProject_gone by blast

subsection \<open>A deletion that meets no failure\<close>

lemma List_extend:
  assumes "\<forall>x \<in> set log. dr_id x \<noteq> did" and "isRequest r" "dr_id r = did"
    and "isOutcome (dr_kind x)" "dr_id x = did" and "log_ok log"
  shows "List (log @ [r, x]) = joined r (Some x) # List log"
proof -
  have k: "\<not> isRequest x" "\<not> isOutcome (dr_kind r)" using assms by (auto simp: isRequest_def)
  have none: "outcomesOf did log = []" using assms(1) by (auto simp: outcomesOf_Nil_iff)
  have app: "outcomesOf d (log @ [r, x]) = outcomesOf d log @ (if d = did then [x] else [])" for d
    using assms k by (auto simp: outcomesOf_def)
  have rest: "concat (map (\<lambda>y. case outcomesOf (dr_id y) (log @ [r, x]) of
                  [] \<Rightarrow> [joined y None] | os \<Rightarrow> map (\<lambda>x. joined y (Some x)) os)
                (rev (filter isRequest log))) = List log"
    unfolding List_def isRequest_def [symmetric]
    by (intro arg_cong [where f = concat] map_cong refl) (use assms(1) in \<open>auto simp: app\<close>)
  have "List (log @ [r, x]) = [joined r (Some x)] @ concat (map (\<lambda>y. case outcomesOf (dr_id y) (log @ [r, x]) of
                  [] \<Rightarrow> [joined y None] | os \<Rightarrow> map (\<lambda>x. joined y (Some x)) os) (rev (filter isRequest log)))"
    unfolding List_def isRequest_def [symmetric]
    using assms(2,3) k by (simp add: app none)
  with rest show ?thesis by simp
qed

lemma Requested_fresh:
  assumes "\<forall>x \<in> set log. dr_id x \<noteq> deletionID bytes"
  shows "Requested (Some bytes) now True req log =
    (log @ [\<lparr>dr_id = deletionID bytes, dr_kind = KindRequested, dr_at = now, dr_request = req, dr_detail = []\<rparr>],
     Inr (deletionID bytes))"
  using assms by (auto simp: Requested_def insertEvent_def list_ex_iff)

lemma outcome_fresh:
  assumes "\<forall>x \<in> set log. dr_id x \<noteq> did" and "isRequest r" "dr_id r = did" and "isOutcome kind"
  shows "outcome True now did kind detail (log @ [r]) =
    (log @ [r] @ [\<lparr>dr_id = did, dr_kind = kind, dr_at = now, dr_request = emptyRequest, dr_detail = detail\<rparr>], None)"
  using assms by (auto simp: outcome_def insertEvent_def list_ex_iff isRequest_def)

lemma removal_total:
  assumes "de_removeAll env = None" and "\<forall>p. de_remove env p = None"
  shows "\<exists>files'. removeProjectFiles env files = (files', None)"
proof -
  have each: "snd (removeEach (de_remove env) ps fs) = None" for ps fs
    by (induction ps arbitrary: fs) (simp_all add: assms(2))
  show ?thesis
    using each [of "sidecars (de_path env)" files] assms(1)
    by (cases "removeEach (de_remove env) (sidecars (de_path env)) files") (auto simp: removeProjectFiles_def Let_def)
qed

text \<open>
  C30. Where no call fails, a deletion completes: the handler returns no error, exactly the
  project's files are gone, and the newest entry of the log's listing is this deletion with
  outcome \<^verbatim>\<open>deleted\<close>, the project's identity, and the event count, validity and
  terminal hash of its audit chain; the other entries are those of before.
\<close>

theorem deletion_completes:
  assumes "log_ok (w_log w)"
    and "de_keyOK env" "de_openOK env" "de_logOK env" "de_requestOK env" "de_outcomeOK env"
    and "de_project env = ProjectRow pid name" "de_audit env = Some table" "de_random env = Some bytes"
    and "\<forall>x \<in> set (w_log w). dr_id x \<noteq> deletionID bytes"
    and "de_removeAll env = None" "\<forall>p. de_remove env p = None"
  shows "\<exists>w' d. DeleteProject sha256 env w = (w', None)
    \<and> w_files w' = filter (\<lambda>f. \<not> owned (de_projectsDir env) (de_path env) f) (w_files w)
    \<and> List (w_log w') = d # List (w_log w)
    \<and> del_ID d = deletionID bytes \<and> del_Outcome d = OutcomeDeleted
    \<and> del_request d = \<lparr>rq_Actor = de_actor env, rq_ProjectID = pid, rq_ProjectName = name,
        rq_Location = locationOf (de_projectsDir env) (de_path env),
        rq_AuditEvents = av_CheckedEvents (ReadAuditChain sha256 table pid),
        rq_AuditValid = av_Valid (ReadAuditChain sha256 table pid),
        rq_AuditTerminalHash = av_TerminalEventHash (ReadAuditChain sha256 table pid)\<rparr>"
proof -
  let ?req = "\<lparr>rq_Actor = de_actor env, rq_ProjectID = pid, rq_ProjectName = name,
        rq_Location = locationOf (de_projectsDir env) (de_path env),
        rq_AuditEvents = av_CheckedEvents (ReadAuditChain sha256 table pid),
        rq_AuditValid = av_Valid (ReadAuditChain sha256 table pid),
        rq_AuditTerminalHash = av_TerminalEventHash (ReadAuditChain sha256 table pid)\<rparr>"
  let ?r = "\<lparr>dr_id = deletionID bytes, dr_kind = KindRequested, dr_at = de_now env, dr_request = ?req, dr_detail = []\<rparr>"
  let ?x = "\<lparr>dr_id = deletionID bytes, dr_kind = OutcomeDeleted, dr_at = de_later env, dr_request = emptyRequest, dr_detail = []\<rparr>"
  have req: "projectDeletionRequest sha256 env = Inr ?req"
    using assms by (simp add: projectDeletionRequest_def emptyRequest_def Let_def)
  have isr: "isRequest ?r" by (simp add: isRequest_def)
  obtain files where rm: "removeProjectFiles env (w_files w) = (files, None)" using removal_total assms by blast
  have files: "files = filter (\<lambda>f. \<not> owned (de_projectsDir env) (de_path env) f) (w_files w)"
    using removeProjectFiles_files [OF rm] by (metis (no_types, lifting) filter_cong)
  have "DeleteProject sha256 env w = (w\<lparr>w_files := files, w_log := w_log w @ [?r, ?x]\<rparr>, None)"
    using assms(2-) req rm Requested_fresh [OF assms(10)] outcome_fresh [OF assms(10) isr]
    by (simp add: DeleteProject_def Deleted_def)
  moreover have "List (w_log w @ [?r, ?x]) = joined ?r (Some ?x) # List (w_log w)"
    by (rule List_extend [OF assms(10) isr]) (simp_all add: assms(1))
  ultimately show ?thesis using files by (simp add: joined_def)
qed

subsection \<open>A small deletion\<close>

definition toy_delete :: DeleteEnv where
  "toy_delete = \<lparr>de_actor = ''ann'', de_projectsDir = ''/d/projects'', de_path = ''/d/projects/p/project.gopmgr'',
     de_keyOK = True, de_openOK = True, de_project = ProjectRow ''p1'' ''Bridge'', de_audit = Some None, de_logOK = True,
     de_random = Some ''0123456789abcdef'', de_now = ''t1'', de_later = ''t2'', de_requestOK = True,
     de_removeAll = None, de_remove = (\<lambda>_. None), de_outcomeOK = True\<rparr>"

definition toy_world :: World where
  "toy_world = \<lparr>w_files = [''/d/projects/p/project.gopmgr'', ''/d/projects/q/project.gopmgr''], w_log = []\<rparr>"

theorem deletion_completes_witness:
  "\<exists>w' d. DeleteProject toy_digest toy_delete toy_world = (w', None)
     \<and> w_files w' = [''/d/projects/q/project.gopmgr''] \<and> List (w_log w') = [d] \<and> del_Outcome d = OutcomeDeleted"
proof -
  have left: "filter (\<lambda>f. \<not> owned (de_projectsDir toy_delete) (de_path toy_delete) f) (w_files toy_world)
      = [''/d/projects/q/project.gopmgr'']" by code_simp
  have empty: "List (w_log toy_world) = []" by code_simp
  show ?thesis
    using deletion_completes [of toy_world toy_delete "''p1''" "''Bridge''" None "''0123456789abcdef''" toy_digest]
    unfolding left empty by (auto simp: toy_delete_def toy_world_def log_ok.empty)
qed


theorem delete_refines_witness:
  "filter (owned ''/d/projects'' ''/d/projects/p/project.gopmgr'')
     (w_files (fst (DeleteProject toy_digest toy_delete toy_world))) = []"
proof -
  have "snd (DeleteProject toy_digest toy_delete toy_world) = None" by code_simp
  with delete_refines [of toy_digest toy_world toy_delete] show ?thesis
    by (simp add: toy_delete_def filter_empty_conv)
qed

end
