(* ===== verification/MonteCarlo.thy ===== *)
theory MonteCarlo
  imports CPM "HOL-Library.Product_Lexorder"
begin

text \<open>
  The Monte Carlo schedule simulation of \<^verbatim>\<open>internal/kernel/montecarlo.go\<close>. The
  random source and the three distributions of the third-party statistics package are
  arguments (a record of functions over an arbitrary source state), and so is the order in
  which the results of the concurrent workers arrive. The worker pool itself is a step
  relation. The lemmas show that the pool always delivers every iteration once and that the
  report depends on neither the arrival order nor the iteration order of the task map.
\<close>

subsection \<open>Model: estimates and reports\<close>

definition MonteCarloTriangular :: string where "MonteCarloTriangular = ''triangular''"
definition MonteCarloBetaPERT :: string where "MonteCarloBetaPERT = ''beta-pert''"
definition MonteCarloNormal :: string where "MonteCarloNormal = ''normal''"
definition monteCarloSeedA :: uint64 where "monteCarloSeedA = 0x504d466f72676531"
definition monteCarloSeedB :: uint64 where "monteCarloSeedB = 0x6b65726e656c4d43"
definition maxMonteCarloIterations :: int where "maxMonteCarloIterations = 100000"
definition maxMonteCarloWorkers :: int where "maxMonteCarloWorkers = 128"

definition Empty :: "DurationEstimate \<Rightarrow> bool" where
  "Empty e \<longleftrightarrow> Optimistic e = 0 \<and> MostLikely e = 0 \<and> Pessimistic e = 0 \<and> Distribution e = []"

record ProbabilityPoint =
  pp_Day :: float64
  pp_Probability :: float64

record TornadoDriver =
  td_TaskID :: string
  td_CriticalFrequency :: float64
  td_P50Duration :: float64
  td_P80Duration :: float64
  td_P90Duration :: float64
  td_DurationSpread :: float64
  td_Score :: float64

datatype mc_error =
    IterationsNotPositive | TooManyIterations | EmptyTaskID | KeyMismatch string | NegativeDuration string
  | UnsupportedDistribution string | NegativeEstimate string | UnorderedEstimate string | GraphHasCycle

record SimResult =
  sr_Valid :: bool
  sr_Error :: "mc_error option"
  sr_Iterations :: int
  sr_Workers :: int
  sr_P50 :: float64
  sr_P80 :: float64
  sr_P90 :: float64
  sr_FinishCDF :: "ProbabilityPoint list"
  sr_CriticalPathFrequency :: "(string \<times> float64) list"
  sr_DurationPercentiles :: "(string \<times> (float64 \<times> float64 \<times> float64)) list"
  sr_TornadoDrivers :: "TornadoDriver list"

record monteCarloIteration =
  it_finish :: float64
  it_critical :: "(string \<times> bool) list"
  it_durations :: "(string \<times> float64) list"

text \<open>The random source and the distributions drawn from it.\<close>

record 's Samplers =
  sm_NewPCG :: "uint64 \<Rightarrow> uint64 \<Rightarrow> 's"
  sm_Beta :: "float64 \<Rightarrow> float64 \<Rightarrow> 's \<Rightarrow> float64 \<times> 's"
  sm_Normal :: "float64 \<Rightarrow> float64 \<Rightarrow> 's \<Rightarrow> float64 \<times> 's"
  sm_Triangle :: "float64 \<Rightarrow> float64 \<Rightarrow> float64 \<Rightarrow> 's \<Rightarrow> float64 \<times> 's"

subsection \<open>Model: validation\<close>

definition normalizedDistribution :: "string \<Rightarrow> string" where
  "normalizedDistribution name =
     (let normalized = ToLower (TrimSpace name) in if normalized = [] then MonteCarloTriangular else normalized)"

definition validateDurationEstimate :: "Task \<Rightarrow> mc_error option" where
  "validateDurationEstimate t =
     (let e = Estimate t in
      if Empty e then None
      else if normalizedDistribution (Distribution e) \<notin> {MonteCarloTriangular, MonteCarloBetaPERT, MonteCarloNormal}
        then Some (UnsupportedDistribution (ID t))
      else if Optimistic e < 0 \<or> MostLikely e < 0 \<or> Pessimistic e < 0 then Some (NegativeEstimate (ID t))
      else if Optimistic e > MostLikely e \<or> MostLikely e > Pessimistic e then Some (UnorderedEstimate (ID t))
      else None)"

definition validateTask :: "string \<Rightarrow> Task \<Rightarrow> mc_error option" where
  "validateTask k t =
     (if ID t = [] then Some EmptyTaskID
      else if ID t \<noteq> k then Some (KeyMismatch k)
      else if Duration t < 0 then Some (NegativeDuration (ID t))
      else validateDurationEstimate t)"

fun validateEach :: "Tasks \<Rightarrow> mc_error option" where
  "validateEach [] = None"
| "validateEach ((k, t) # ts) = (case validateTask k t of Some e \<Rightarrow> Some e | None \<Rightarrow> validateEach ts)"

definition validateMonteCarloInputs :: "Tasks \<Rightarrow> int \<Rightarrow> mc_error + string list" where
  "validateMonteCarloInputs tasks iterations =
     (if iterations \<le> 0 then Inl IterationsNotPositive
      else if iterations > maxMonteCarloIterations then Inl TooManyIterations
      else case validateEach tasks of
             Some e \<Rightarrow> Inl e
           | None \<Rightarrow>
               (let ids = sort (map fst tasks)
                in if topoSort tasks = None then Inl GraphHasCycle else Inr ids))"

subsection \<open>Model: one iteration\<close>

definition clamp :: "float64 \<Rightarrow> float64 \<Rightarrow> float64 \<Rightarrow> float64" where
  "clamp value low high = (if value < low then low else if value > high then high else value)"

definition sampleDuration :: "('s, 'm) Samplers_scheme \<Rightarrow> Task \<Rightarrow> 's \<Rightarrow> float64 \<times> 's" where
  "sampleDuration sm t src =
     (let e = Estimate t in
      if Empty e then (Duration t, src)
      else if Optimistic e = Pessimistic e then (Optimistic e, src)
      else if normalizedDistribution (Distribution e) = MonteCarloBetaPERT then
        (let scale = fsub (Pessimistic e) (Optimistic e);
             alpha = fadd 1 (fmul 4 (fdiv (fsub (MostLikely e) (Optimistic e)) scale));
             beta = fadd 1 (fmul 4 (fdiv (fsub (Pessimistic e) (MostLikely e)) scale));
             (sample, src') = sm_Beta sm alpha beta src
         in (fadd (Optimistic e) (fmul sample scale), src'))
      else if normalizedDistribution (Distribution e) = MonteCarloNormal then
        (let sigma = fdiv (fsub (Pessimistic e) (Optimistic e)) 6;
             (sample, src') = sm_Normal sm (MostLikely e) sigma src
         in (clamp sample (Optimistic e) (Pessimistic e), src'))
      else sm_Triangle sm (Optimistic e) (Pessimistic e) (MostLikely e) src)"

text \<open>
  The tasks of one iteration, in the order of \<^verbatim>\<open>taskIDs\<close>. A clone shares nothing
  with its original, so replacing the duration of a copy is all that is left of
  \<^verbatim>\<open>cloneTaskForSimulation\<close>.
\<close>

definition cloneTaskForSimulation :: "Task \<Rightarrow> Task" where
  "cloneTaskForSimulation original = original"

fun sampleTasks :: "('s, 'm) Samplers_scheme \<Rightarrow> Tasks \<Rightarrow> string list \<Rightarrow> 's \<Rightarrow> Tasks" where
  "sampleTasks sm tasks [] src = []"
| "sampleTasks sm tasks (tid # ids) src =
     (case map_of tasks tid of
        None \<Rightarrow> sampleTasks sm tasks ids src
      | Some original \<Rightarrow>
          (let (d, src') = sampleDuration sm original src
           in (tid, (cloneTaskForSimulation original)\<lparr>Duration := d\<rparr>) # sampleTasks sm tasks ids src'))"

definition iterationSource :: "('s, 'm) Samplers_scheme \<Rightarrow> nat \<Rightarrow> 's" where
  "iterationSource sm i =
     sm_NewPCG sm (monteCarloSeedA + of_nat i * 0x9e3779b97f4a7c15) (xor monteCarloSeedB (of_nat i))"

definition runMonteCarloIteration ::
  "('s, 'm) Samplers_scheme \<Rightarrow> Tasks \<Rightarrow> string list \<Rightarrow> nat \<Rightarrow> monteCarloIteration"
where
  "runMonteCarloIteration sm tasks taskIDs i =
     (let sampled = sampleTasks sm tasks taskIDs (iterationSource sm i);
          scheduled = (case CalculateCPM sampled of None \<Rightarrow> sampled | Some out \<Rightarrow> out);
          taskAt = (\<lambda>tid. case map_of scheduled tid of None \<Rightarrow> zeroTask | Some t \<Rightarrow> t)
      in \<lparr>it_finish = foldl (\<lambda>f tid. if EF (taskAt tid) > f then EF (taskAt tid) else f) 0 taskIDs,
          it_critical = map (\<lambda>tid. (tid, IsCritical (taskAt tid))) taskIDs,
          it_durations = map (\<lambda>(tid, t). (tid, Duration t)) sampled\<rparr>)"

subsection \<open>Model: aggregation\<close>

definition percentile :: "float64 list \<Rightarrow> float64 \<Rightarrow> float64" where
  "percentile values q =
     (if values = [] then 0
      else
        (let sorted = sort values in
         if length sorted = 1 then sorted ! 0
         else
           (let position = fmul q (float_of_int (int (length sorted) - 1));
                lower = math_Floor position;
                upper = math_Ceil position
            in if lower = upper then sorted ! nat lower
               else
                 (let weight = fsub position (float_of_int lower)
                  in fadd (fmul (sorted ! nat lower) (fsub 1 weight)) (fmul (sorted ! nat upper) weight)))))"

definition finishCDF :: "float64 list \<Rightarrow> ProbabilityPoint list" where
  "finishCDF finishes =
     (if finishes = [] then []
      else map (\<lambda>i. let probability = fdiv (float_of_int i) (float_of_int 20)
                    in \<lparr>pp_Day = percentile finishes probability, pp_Probability = probability\<rparr>) [0..20])"

definition tornadoDriver ::
  "(string \<times> float64) list \<Rightarrow> (string \<times> (float64 \<times> float64 \<times> float64)) list \<Rightarrow> string \<Rightarrow> TornadoDriver"
where
  "tornadoDriver frequencies durations tid =
     (let (p50, p80, p90) = (case map_of durations tid of None \<Rightarrow> (0, 0, 0) | Some d \<Rightarrow> d);
          spread = fsub p90 p50;
          frequency = (case map_of frequencies tid of None \<Rightarrow> 0 | Some f \<Rightarrow> f)
      in \<lparr>td_TaskID = tid, td_CriticalFrequency = frequency, td_P50Duration = p50, td_P80Duration = p80,
          td_P90Duration = p90, td_DurationSpread = spread, td_Score = fmul frequency spread\<rparr>)"

text \<open>The comparison of the stable sort, as a sort key.\<close>

definition driverRank :: "TornadoDriver \<Rightarrow> float64 \<times> float64 \<times> float64 \<times> string" where
  "driverRank d = (- td_Score d, - td_CriticalFrequency d, - td_DurationSpread d, td_TaskID d)"

definition tornadoDrivers ::
  "string list \<Rightarrow> (string \<times> float64) list \<Rightarrow> (string \<times> (float64 \<times> float64 \<times> float64)) list \<Rightarrow> TornadoDriver list"
where
  "tornadoDrivers taskIDs frequencies durations =
     take 10 (sort_key driverRank (map (tornadoDriver frequencies durations) taskIDs))"

record Samples =
  sa_finishes :: "float64 list"
  sa_criticalCounts :: "(string \<times> nat) list"
  sa_durationSamples :: "(string \<times> float64 list) list"

definition countCritical :: "(string \<times> nat) list \<Rightarrow> string \<times> bool \<Rightarrow> (string \<times> nat) list" where
  "countCritical counts p =
     (case p of (tid, critical) \<Rightarrow>
        if critical then AList.update tid (case map_of counts tid of None \<Rightarrow> 1 | Some n \<Rightarrow> Suc n) counts
        else counts)"

definition addSample :: "(string \<times> float64 list) list \<Rightarrow> string \<times> float64 \<Rightarrow> (string \<times> float64 list) list" where
  "addSample samples p = (case p of (tid, d) \<Rightarrow> modify_at tid (\<lambda>ds. ds @ [d]) samples)"

definition collect :: "Samples \<Rightarrow> monteCarloIteration \<Rightarrow> Samples" where
  "collect s iter =
     \<lparr>sa_finishes = sa_finishes s @ [it_finish iter],
      sa_criticalCounts = foldl countCritical (sa_criticalCounts s) (it_critical iter),
      sa_durationSamples = foldl addSample (sa_durationSamples s) (it_durations iter)\<rparr>"

definition workersFor :: "int \<Rightarrow> int \<Rightarrow> int \<Rightarrow> int" where
  "workersFor numCPU iterations workers =
     (let w1 = (if workers \<le> 0 then numCPU else workers);
          w2 = (if w1 < 1 then 1 else w1);
          w3 = (if w2 > iterations \<and> iterations > 0 then iterations else w2)
      in if w3 > maxMonteCarloWorkers then maxMonteCarloWorkers else w3)"

definition noResult :: "int \<Rightarrow> int \<Rightarrow> SimResult" where
  "noResult iterations workers =
     \<lparr>sr_Valid = False, sr_Error = None, sr_Iterations = iterations, sr_Workers = workers, sr_P50 = 0, sr_P80 = 0,
      sr_P90 = 0, sr_FinishCDF = [], sr_CriticalPathFrequency = [], sr_DurationPercentiles = [],
      sr_TornadoDrivers = []\<rparr>"

definition summarize :: "string list \<Rightarrow> int \<Rightarrow> Samples \<Rightarrow> SimResult \<Rightarrow> SimResult" where
  "summarize taskIDs iterations s result =
     (let frequencies = map (\<lambda>tid. (tid, fdiv (float_of_int (int (case map_of (sa_criticalCounts s) tid of None \<Rightarrow> 0 | Some n \<Rightarrow> n)))
                                         (float_of_int iterations))) taskIDs;
          percentiles = map (\<lambda>tid. let samples = (case map_of (sa_durationSamples s) tid of None \<Rightarrow> [] | Some ds \<Rightarrow> ds)
                                   in (tid, (percentile samples (f64 (1 / 2)), percentile samples (f64 (8 / 10)),
                                             percentile samples (f64 (9 / 10))))) taskIDs
      in result\<lparr>sr_P50 := percentile (sa_finishes s) (f64 (1 / 2)), sr_P80 := percentile (sa_finishes s) (f64 (8 / 10)),
                sr_P90 := percentile (sa_finishes s) (f64 (9 / 10)), sr_FinishCDF := finishCDF (sa_finishes s),
                sr_CriticalPathFrequency := frequencies, sr_DurationPercentiles := percentiles,
                sr_TornadoDrivers := tornadoDrivers taskIDs frequencies percentiles, sr_Valid := True\<rparr>)"

text \<open>
  \<open>arrivals\<close> is the order in which the collecting loop receives the iterations from the
  result channel; the worker pool below shows which orders are possible.
\<close>

definition RunMonteCarlo ::
  "('s, 'm) Samplers_scheme \<Rightarrow> int \<Rightarrow> nat list \<Rightarrow> Tasks \<Rightarrow> int \<Rightarrow> int \<Rightarrow> SimResult"
where
  "RunMonteCarlo sm numCPU arrivals tasks iterations workers =
     (let result = noResult iterations (workersFor numCPU iterations workers) in
      case validateMonteCarloInputs tasks iterations of
        Inl e \<Rightarrow> result\<lparr>sr_Error := Some e\<rparr>
      | Inr [] \<Rightarrow> result\<lparr>sr_Valid := True\<rparr>
      | Inr taskIDs \<Rightarrow>
          summarize taskIDs iterations
            (foldl (\<lambda>s i. collect s (runMonteCarloIteration sm tasks taskIDs i))
               \<lparr>sa_finishes = [], sa_criticalCounts = [], sa_durationSamples = map (\<lambda>tid. (tid, [])) taskIDs\<rparr>
               arrivals)
            result)"

subsection \<open>Model: the worker pool\<close>

text \<open>
  The job channel is unbuffered: a worker that is free takes the next iteration. The result
  channel holds as many results as there are workers. The main goroutine receives until it
  has as many results as iterations. An iteration stands for its result, which is a
  function of it.
\<close>

record Pool =
  pl_next :: nat
  pl_busy :: "nat option list"
  pl_channel :: "nat list"
  pl_received :: "nat list"

definition newPool :: "nat \<Rightarrow> Pool" where
  "newPool workers = \<lparr>pl_next = 0, pl_busy = replicate workers None, pl_channel = [], pl_received = []\<rparr>"

inductive poolStep :: "nat \<Rightarrow> Pool \<Rightarrow> Pool \<Rightarrow> bool" for n where
  take_job: "pl_next p < n \<Longrightarrow> w < length (pl_busy p) \<Longrightarrow> pl_busy p ! w = None \<Longrightarrow>
     poolStep n p (p\<lparr>pl_busy := (pl_busy p)[w := Some (pl_next p)], pl_next := Suc (pl_next p)\<rparr>)"
| send_result: "w < length (pl_busy p) \<Longrightarrow> pl_busy p ! w = Some i \<Longrightarrow>
     length (pl_channel p) < length (pl_busy p) \<Longrightarrow>
     poolStep n p (p\<lparr>pl_busy := (pl_busy p)[w := None], pl_channel := pl_channel p @ [i]\<rparr>)"
| receive: "pl_channel p = i # rest \<Longrightarrow> length (pl_received p) < n \<Longrightarrow>
     poolStep n p (p\<lparr>pl_channel := rest, pl_received := pl_received p @ [i]\<rparr>)"

inductive_simps poolStep_iff: "poolStep n p p'"

subsection \<open>The pool delivers every iteration\<close>

definition inFlight :: "nat option list \<Rightarrow> nat list" where
  "inFlight busy = concat (map (\<lambda>b. case b of None \<Rightarrow> [] | Some i \<Rightarrow> [i]) busy)"

definition pool_inv :: "nat \<Rightarrow> nat \<Rightarrow> Pool \<Rightarrow> bool" where
  "pool_inv n workers p \<longleftrightarrow>
     length (pl_busy p) = workers \<and> pl_next p \<le> n
     \<and> mset (pl_received p @ pl_channel p @ inFlight (pl_busy p)) = mset [0..<pl_next p]"

definition progress :: "Pool \<Rightarrow> nat" where
  "progress p = pl_next p + length (pl_channel p) + 2 * length (pl_received p)"

lemma inFlight_replicate [simp]: "inFlight (replicate k None) = []"
  by (induction k) (auto simp: inFlight_def)

lemma inFlight_update_Some:
  "w < length busy \<Longrightarrow> busy ! w = None \<Longrightarrow> mset (inFlight (busy[w := Some i])) = add_mset i (mset (inFlight busy))"
proof (induction busy arbitrary: w)
  case (Cons b busy)
  then show ?case by (cases w) (auto simp: inFlight_def)
qed simp

lemma inFlight_update_None:
  "w < length busy \<Longrightarrow> busy ! w = Some i \<Longrightarrow> mset (inFlight busy) = add_mset i (mset (inFlight (busy[w := None])))"
proof (induction busy arbitrary: w)
  case (Cons b busy)
  then show ?case by (cases w) (auto simp: inFlight_def)
qed simp

lemma inFlight_Nil: "inFlight busy = [] \<Longrightarrow> w < length busy \<Longrightarrow> busy ! w = None"
  by (induction busy arbitrary: w) (auto simp: inFlight_def nth_Cons' split: option.splits)

lemma inFlight_in: "inFlight busy \<noteq> [] \<Longrightarrow> \<exists>w i. w < length busy \<and> busy ! w = Some i"
proof (induction busy)
  case (Cons b busy)
  show ?case
  proof (cases b)
    case None
    with Cons obtain w i where "w < length busy" "busy ! w = Some i" by (auto simp: inFlight_def)
    then show ?thesis by (intro exI [of _ "Suc w"] exI [of _ i]) simp
  qed (auto intro: exI [of _ 0])
qed (simp add: inFlight_def)

lemma poolStep_inv: "poolStep n p p' \<Longrightarrow> pool_inv n workers p \<Longrightarrow> pool_inv n workers p'"
proof (induction rule: poolStep.induct)
  case (take_job p w)
  then show ?case using inFlight_update_Some [of w "pl_busy p" "pl_next p"] by (auto simp: pool_inv_def)
next
  case (send_result w p i)
  then show ?case using inFlight_update_None [of w "pl_busy p" i] by (auto simp: pool_inv_def)
qed (auto simp: pool_inv_def)

lemma poolStep_progress: "poolStep n p p' \<Longrightarrow> progress p' = Suc (progress p)"
  by (induction rule: poolStep.induct) (auto simp: progress_def)

lemma pool_run:
  assumes "(poolStep n ^^ k) (newPool workers) p"
  shows "pool_inv n workers p \<and> progress p = k"
  using assms
proof (induction k arbitrary: p)
  case 0
  then have "p = newPool workers" by simp
  then show ?case by (simp add: newPool_def pool_inv_def progress_def)
next
  case (Suc k)
  then obtain q where "(poolStep n ^^ k) (newPool workers) q" "poolStep n q p" by auto
  with Suc.IH poolStep_inv poolStep_progress show ?case by blast
qed

lemma pool_lengths:
  assumes "pool_inv n workers p"
  shows "length (pl_received p) + length (pl_channel p) + length (inFlight (pl_busy p)) = pl_next p"
    and "length (pl_received p) \<le> n"
proof -
  have "size (mset (pl_received p @ pl_channel p @ inFlight (pl_busy p))) = size (mset [0..<pl_next p])"
    using assms by (simp only: pool_inv_def)
  then show sum: "length (pl_received p) + length (pl_channel p) + length (inFlight (pl_busy p)) = pl_next p"
    by simp
  then show "length (pl_received p) \<le> n" using assms by (simp add: pool_inv_def)
qed

lemma pool_stuck:
  assumes inv: "pool_inv n workers p" and "0 < workers" and stuck: "\<not> (\<exists>p'. poolStep n p p')"
  shows "mset (pl_received p) = mset [0..<n]"
proof -
  note len = pool_lengths [OF inv]
  have chan: "pl_channel p = []"
  proof (rule ccontr)
    assume "pl_channel p \<noteq> []"
    then obtain i rest where c: "pl_channel p = i # rest" by (cases "pl_channel p") auto
    with len inv have "length (pl_received p) < n" by (auto simp: pool_inv_def)
    with c stuck poolStep.receive show False by blast
  qed
  have idle: "inFlight (pl_busy p) = []"
  proof (rule ccontr)
    assume "inFlight (pl_busy p) \<noteq> []"
    then obtain w i where "w < length (pl_busy p)" "pl_busy p ! w = Some i" using inFlight_in by blast
    moreover have "length (pl_channel p) < length (pl_busy p)" using chan inv assms(2) by (simp add: pool_inv_def)
    ultimately show False using stuck poolStep.send_result by blast
  qed
  have "pl_next p = n"
  proof (rule ccontr)
    assume "pl_next p \<noteq> n"
    then have "pl_next p < n" using inv by (simp add: pool_inv_def)
    moreover have "0 < length (pl_busy p)" using inv assms(2) by (simp add: pool_inv_def)
    moreover from this have "pl_busy p ! 0 = None" using inFlight_Nil [OF idle] by blast
    ultimately show False using stuck poolStep.take_job by blast
  qed
  with chan idle inv show ?thesis by (simp add: pool_inv_def)
qed

lemma workersFor_pos: "0 < iterations \<Longrightarrow> 0 < workersFor numCPU iterations workers \<and> workersFor numCPU iterations workers \<le> 128"
  by (auto simp: workersFor_def Let_def maxMonteCarloWorkers_def)

text \<open>
  C29. The worker pool never deadlocks and always finishes: with the number of workers the
  simulation chooses, every run is at most three steps per iteration long, a run that has
  not delivered every iteration can go on, and one that cannot go on has received every
  iteration exactly once.
\<close>

theorem montecarlo_pool:
  assumes "0 < iterations"
    and "(poolStep (nat iterations) ^^ k) (newPool (nat (workersFor numCPU iterations workers))) p"
  shows "k \<le> 3 * nat iterations
    \<and> ((\<exists>p'. poolStep (nat iterations) p p') \<or> mset (pl_received p) = mset [0..<nat iterations])"
proof -
  note run = pool_run [OF assms(2)]
  then have inv: "pool_inv (nat iterations) (nat (workersFor numCPU iterations workers)) p" by blast
  have "k \<le> 3 * nat iterations"
    using run pool_lengths [OF inv] by (auto simp: progress_def pool_inv_def)
  moreover have "0 < nat (workersFor numCPU iterations workers)" using workersFor_pos [OF assms(1)] by simp
  ultimately show ?thesis using pool_stuck [OF inv] by blast
qed

subsection \<open>What the collecting loop has at the end\<close>

definition countOf :: "(string \<times> nat) list \<Rightarrow> string \<Rightarrow> nat" where
  "countOf counts tid = (case map_of counts tid of None \<Rightarrow> 0 | Some n \<Rightarrow> n)"

definition samplesOf :: "(string \<times> float64 list) list \<Rightarrow> string \<Rightarrow> float64 list" where
  "samplesOf samples tid = (case map_of samples tid of None \<Rightarrow> [] | Some ds \<Rightarrow> ds)"

lemma countOf_countCritical:
  "countOf (countCritical counts (k, c)) tid = countOf counts tid + (if k = tid \<and> c then 1 else 0)"
  by (auto simp: countOf_def countCritical_def update_conv' split: option.splits)

lemma countOf_foldl:
  "countOf (foldl countCritical counts ps) tid = countOf counts tid + length (filter (\<lambda>p. p = (tid, True)) ps)"
  by (induction ps arbitrary: counts) (auto simp: countOf_countCritical split: prod.splits if_splits)

lemma fst_addSample [simp]: "map fst (addSample samples p) = map fst samples"
  by (cases p) (simp add: addSample_def)

lemma fst_foldl_addSample [simp]: "map fst (foldl addSample samples ps) = map fst samples"
  by (induction ps arbitrary: samples) simp_all

lemma samplesOf_foldl:
  assumes "tid \<in> set (map fst samples)"
  shows "samplesOf (foldl addSample samples ps) tid =
           samplesOf samples tid @ map snd (filter (\<lambda>p. fst p = tid) ps)"
  using assms
proof (induction ps arbitrary: samples)
  case (Cons p ps)
  obtain k d where p: "p = (k, d)" by fastforce
  have mem: "tid \<in> set (map fst (addSample samples p))" using Cons.prems by (simp only: fst_addSample)
  have "samplesOf (addSample samples p) tid = samplesOf samples tid @ (if k = tid then [d] else [])"
    using Cons.prems by (auto simp: samplesOf_def addSample_def p map_of_modify_at map_of_eq_None_iff split: option.splits)
  with Cons.IH [OF mem] p show ?case by simp
qed simp

lemma collect_all:
  assumes "S = foldl (\<lambda>s i. collect s (run i)) s0 arrivals"
  shows "sa_finishes S = sa_finishes s0 @ map (\<lambda>i. it_finish (run i)) arrivals"
    and "countOf (sa_criticalCounts S) tid = countOf (sa_criticalCounts s0) tid
           + length (filter (\<lambda>p. p = (tid, True)) (concat (map (\<lambda>i. it_critical (run i)) arrivals)))"
    and "map fst (sa_durationSamples S) = map fst (sa_durationSamples s0)"
    and "tid \<in> set (map fst (sa_durationSamples s0)) \<Longrightarrow>
         samplesOf (sa_durationSamples S) tid = samplesOf (sa_durationSamples s0) tid
           @ map snd (filter (\<lambda>p. fst p = tid) (concat (map (\<lambda>i. it_durations (run i)) arrivals)))"
proof -
  have *: "sa_finishes (foldl (\<lambda>s i. collect s (run i)) s arrivals) = sa_finishes s @ map (\<lambda>i. it_finish (run i)) arrivals
    \<and> countOf (sa_criticalCounts (foldl (\<lambda>s i. collect s (run i)) s arrivals)) tid = countOf (sa_criticalCounts s) tid
           + length (filter (\<lambda>p. p = (tid, True)) (concat (map (\<lambda>i. it_critical (run i)) arrivals)))
    \<and> map fst (sa_durationSamples (foldl (\<lambda>s i. collect s (run i)) s arrivals)) = map fst (sa_durationSamples s)
    \<and> (tid \<in> set (map fst (sa_durationSamples s)) \<longrightarrow>
         samplesOf (sa_durationSamples (foldl (\<lambda>s i. collect s (run i)) s arrivals)) tid = samplesOf (sa_durationSamples s) tid
           @ map snd (filter (\<lambda>p. fst p = tid) (concat (map (\<lambda>i. it_durations (run i)) arrivals))))" for s
  proof (induction arrivals arbitrary: s)
    case (Cons i js)
    have keys: "map fst (sa_durationSamples (collect s (run i))) = map fst (sa_durationSamples s)" by (simp add: collect_def)
    show ?case using Cons.IH [of "collect s (run i)"] keys
      by (auto simp: collect_def countOf_foldl samplesOf_foldl simp del: set_map)
  qed simp
  show "sa_finishes S = sa_finishes s0 @ map (\<lambda>i. it_finish (run i)) arrivals"
    and "countOf (sa_criticalCounts S) tid = countOf (sa_criticalCounts s0) tid
           + length (filter (\<lambda>p. p = (tid, True)) (concat (map (\<lambda>i. it_critical (run i)) arrivals)))"
    and "map fst (sa_durationSamples S) = map fst (sa_durationSamples s0)"
    and "tid \<in> set (map fst (sa_durationSamples s0)) \<Longrightarrow>
         samplesOf (sa_durationSamples S) tid = samplesOf (sa_durationSamples s0) tid
           @ map snd (filter (\<lambda>p. fst p = tid) (concat (map (\<lambda>i. it_durations (run i)) arrivals)))"
    using * [of s0] unfolding assms by blast+
qed

subsection \<open>The report does not depend on the order of arrival\<close>

lemma percentile_mset: "mset xs = mset ys \<Longrightarrow> percentile xs q = percentile ys q"
  using sort_mset_eq [of xs ys] by (auto simp: percentile_def)

lemma finishCDF_mset: "mset xs = mset ys \<Longrightarrow> finishCDF xs = finishCDF ys"
  using percentile_mset [of xs ys] by (auto simp: finishCDF_def)

lemma summarize_cong:
  assumes "mset (sa_finishes s) = mset (sa_finishes s')"
    and "\<And>tid. tid \<in> set ids \<Longrightarrow> countOf (sa_criticalCounts s) tid = countOf (sa_criticalCounts s') tid"
    and "\<And>tid. tid \<in> set ids \<Longrightarrow> mset (samplesOf (sa_durationSamples s) tid) = mset (samplesOf (sa_durationSamples s') tid)"
  shows "summarize ids n s r = summarize ids n s' r"
proof -
  have p: "percentile (samplesOf (sa_durationSamples s) tid) q = percentile (samplesOf (sa_durationSamples s') tid) q"
    if "tid \<in> set ids" for tid q
    using that assms(3) percentile_mset by blast
  have f: "map (\<lambda>tid. (tid, fdiv (float_of_int (int (countOf (sa_criticalCounts s) tid))) (float_of_int n))) ids =
           map (\<lambda>tid. (tid, fdiv (float_of_int (int (countOf (sa_criticalCounts s') tid))) (float_of_int n))) ids"
    using assms(2) by simp
  have g: "map (\<lambda>tid. let samples = samplesOf (sa_durationSamples s) tid
             in (tid, (percentile samples q1, percentile samples q2, percentile samples q3))) ids =
           map (\<lambda>tid. let samples = samplesOf (sa_durationSamples s') tid
             in (tid, (percentile samples q1, percentile samples q2, percentile samples q3))) ids" for q1 q2 q3
    using p by (auto simp: Let_def)
  show ?thesis
    unfolding summarize_def countOf_def [symmetric] samplesOf_def [symmetric] f g
      percentile_mset [OF assms(1)] finishCDF_mset [OF assms(1)] ..
qed

lemma map_fst_pairs [simp]: "map fst (map (\<lambda>tid. (tid, [])) ids) = ids"
  by (induction ids) auto

lemma arrivals_irrelevant:
  assumes "mset arrivals = mset arrivals'"
    and "s0 = \<lparr>sa_finishes = [], sa_criticalCounts = [], sa_durationSamples = map (\<lambda>tid. (tid, [])) ids\<rparr>"
  shows "summarize ids n (foldl (\<lambda>s i. collect s (run i)) s0 arrivals) r =
         summarize ids n (foldl (\<lambda>s i. collect s (run i)) s0 arrivals') r"
proof (rule summarize_cong)
  let ?S = "foldl (\<lambda>s i. collect s (run i)) s0 arrivals" and ?S' = "foldl (\<lambda>s i. collect s (run i)) s0 arrivals'"
  show "mset (sa_finishes ?S) = mset (sa_finishes ?S')"
    using assms(1) collect_all(1) [OF refl, of run s0] by simp
  fix tid assume tid: "tid \<in> set ids"
  show "countOf (sa_criticalCounts ?S) tid = countOf (sa_criticalCounts ?S') tid"
    unfolding collect_all(2) [OF refl] by (simp add: length_filter_mset_eq [OF mset_concat_map_eq [OF assms(1)]])
  have keys: "tid \<in> set (map fst (sa_durationSamples s0))" using tid by (auto simp: assms(2))
  show "mset (samplesOf (sa_durationSamples ?S) tid) = mset (samplesOf (sa_durationSamples ?S') tid)"
    unfolding collect_all(4) [OF refl keys] using mset_concat_map_eq [OF assms(1), of "\<lambda>i. it_durations (run i)"]
    by (simp add: mset_filter)
qed

subsection \<open>The report does not depend on the iteration order of the map\<close>

lemma validateEach_None: "validateEach ts = None \<longleftrightarrow> (\<forall>(k, t) \<in> set ts. validateTask k t = None)"
  by (induction ts rule: validateEach.induct) (auto split: option.splits)

lemma validateEach_wf: "distinct (map fst ts) \<Longrightarrow> validateEach ts = None \<Longrightarrow> wf_tasks ts"
  by (fastforce simp: validateEach_None wf_tasks_def validateTask_def split: if_splits)

lemma validate_InrD:
  assumes "validateMonteCarloInputs tasks n = Inr ids"
  shows "0 < n" "n \<le> maxMonteCarloIterations" "validateEach tasks = None" "ids = sort (map fst tasks)"
    "topoSort tasks \<noteq> None"
  using assms by (auto simp: validateMonteCarloInputs_def Let_def split: if_splits option.splits)

lemma validate_mset:
  assumes "distinct (map fst tasks)" and m: "mset tasks = mset tasks'" and v: "validateMonteCarloInputs tasks n = Inr ids"
  shows "validateMonteCarloInputs tasks' n = Inr ids"
proof -
  note ok = validate_InrD [OF v]
  have s: "set tasks = set tasks'" using m by (metis set_mset_mset)
  have each: "validateEach tasks' = None" using ok(3) s by (simp add: validateEach_None)
  have keys: "sort (map fst tasks') = ids"
    unfolding ok(4) by (rule sort_mset_eq) (metis m mset_map)
  have d: "distinct (map fst tasks')" using assms(1) m by (metis mset_eq_imp_distinct_iff mset_map)
  have "set (taskEdges tasks) = set (taskEdges tasks')" using taskEdges_mset [OF m assms(1)] by (metis set_mset_mset)
  then have "topoSort tasks' \<noteq> None"
    using ok(5) kahn.fails_iff_cycle [OF validateEach_wf [OF assms(1) ok(3)]]
      kahn.fails_iff_cycle [OF validateEach_wf [OF d each]] by simp
  with ok each keys show ?thesis by (simp add: validateMonteCarloInputs_def Let_def)
qed

lemma sampleTasks_cong: "map_of tasks = map_of tasks' \<Longrightarrow> sampleTasks sm tasks ids src = sampleTasks sm tasks' ids src"
  by (induction ids arbitrary: src) (auto split: option.splits prod.splits)

lemma iteration_cong:
  "map_of tasks = map_of tasks' \<Longrightarrow> runMonteCarloIteration sm tasks ids i = runMonteCarloIteration sm tasks' ids i"
  unfolding runMonteCarloIteration_def using sampleTasks_cong [of tasks tasks' sm ids] by simp

text \<open>The orders of arrival a finished pool can produce.\<close>

definition delivery :: "nat \<Rightarrow> nat \<Rightarrow> nat list \<Rightarrow> bool" where
  "delivery n workers arrivals \<longleftrightarrow>
     (\<exists>k p. (poolStep n ^^ k) (newPool workers) p \<and> \<not> (\<exists>p'. poolStep n p p') \<and> arrivals = pl_received p)"

lemma delivery_mset: "delivery n workers arrivals \<Longrightarrow> 0 < workers \<Longrightarrow> mset arrivals = mset [0..<n]"
  unfolding delivery_def using pool_run pool_stuck by blast

lemma RunMonteCarlo_Valid:
  "sr_Valid (RunMonteCarlo sm numCPU arrivals tasks n workers) \<longleftrightarrow> (\<exists>ids. validateMonteCarloInputs tasks n = Inr ids)"
  by (auto simp: RunMonteCarlo_def noResult_def summarize_def Let_def split: sum.splits list.splits)

lemma RunMonteCarlo_same:
  assumes "distinct (map fst tasks)" and "mset tasks = mset tasks'" and "mset arrivals = mset arrivals'"
    and v: "validateMonteCarloInputs tasks n = Inr ids"
  shows "RunMonteCarlo sm numCPU' arrivals' tasks' n workers' =
         (RunMonteCarlo sm numCPU arrivals tasks n workers)\<lparr>sr_Workers := workersFor numCPU' n workers'\<rparr>"
proof (cases ids)
  case Nil
  then show ?thesis using v validate_mset [OF assms(1,2) v] by (simp add: RunMonteCarlo_def noResult_def Let_def)
next
  case (Cons k ks)
  have it: "runMonteCarloIteration sm tasks' ids = runMonteCarloIteration sm tasks ids"
    by (rule ext, rule iteration_cong [OF map_of_mset_eq [OF assms(2,1), symmetric]])
  show ?thesis
    using v validate_mset [OF assms(1,2) v] Cons it
      arrivals_irrelevant [OF assms(3) refl, of ids n "runMonteCarloIteration sm tasks ids"]
    by (simp add: RunMonteCarlo_def Let_def noResult_def summarize_def)
qed

text \<open>
  C22. A simulation is reproducible: two runs on the same tasks, in any iteration order of
  the map, with any numbers of workers and any interleaving of them, agree on whether the
  input is accepted, and when it is, on the whole report but for the number of workers.
\<close>

theorem montecarlo_stable:
  assumes "distinct (map fst tasks)" and "mset tasks' = mset tasks"
    and "delivery (nat n) (nat (workersFor numCPU n workers)) arrivals"
    and "delivery (nat n) (nat (workersFor numCPU' n workers')) arrivals'"
  shows "sr_Valid (RunMonteCarlo sm numCPU arrivals tasks n workers) =
         sr_Valid (RunMonteCarlo sm numCPU' arrivals' tasks' n workers')
    \<and> (sr_Valid (RunMonteCarlo sm numCPU arrivals tasks n workers) \<longrightarrow>
         RunMonteCarlo sm numCPU' arrivals' tasks' n workers' =
         (RunMonteCarlo sm numCPU arrivals tasks n workers)\<lparr>sr_Workers := workersFor numCPU' n workers'\<rparr>)"
proof -
  have d: "distinct (map fst tasks')" using assms(1,2) by (metis mset_eq_imp_distinct_iff mset_map)
  have "sr_Valid (RunMonteCarlo sm numCPU arrivals tasks n workers) =
        sr_Valid (RunMonteCarlo sm numCPU' arrivals' tasks' n workers')"
    unfolding RunMonteCarlo_Valid using validate_mset [OF assms(1) assms(2) [symmetric]] validate_mset [OF d assms(2)] by blast
  moreover have "RunMonteCarlo sm numCPU' arrivals' tasks' n workers' =
      (RunMonteCarlo sm numCPU arrivals tasks n workers)\<lparr>sr_Workers := workersFor numCPU' n workers'\<rparr>"
    if v: "validateMonteCarloInputs tasks n = Inr ids" for ids
  proof -
    have "0 < n" using validate_InrD(1) [OF v] .
    then have "mset arrivals = mset arrivals'"
      using delivery_mset [OF assms(3)] delivery_mset [OF assms(4)] workersFor_pos [of n] by simp
    then show ?thesis using RunMonteCarlo_same [OF assms(1) assms(2) [symmetric] _ v] by blast
  qed
  ultimately show ?thesis unfolding RunMonteCarlo_Valid by blast
qed

subsection \<open>What the report says\<close>

lemma percentile_ends:
  assumes "xs \<noteq> []" and "int (length xs) \<le> 2 ^ 53"
  shows "percentile xs 0 = Min (set xs)" and "percentile xs 1 = Max (set xs)"
proof -
  have len: "length (sort xs) = length xs" by simp
  have Min: "sort xs ! 0 = Min (set xs)"
  proof (rule Min_eqI [symmetric])
    show "sort xs ! 0 \<in> set xs" using assms(1) by (metis length_greater_0_conv len nth_mem set_sort)
    show "sort xs ! 0 \<le> y" if y: "y \<in> set xs" for y
    proof -
      obtain i where "i < length xs" "sort xs ! i = y" using y by (metis in_set_conv_nth len set_sort)
      then show ?thesis using sorted_nth_mono [OF sorted_sort, of 0 i xs] by simp
    qed
  qed simp
  have Max: "sort xs ! (length xs - 1) = Max (set xs)"
  proof (rule Max_eqI [symmetric])
    show "sort xs ! (length xs - 1) \<in> set xs" using assms(1) by (metis One_nat_def diff_less len length_greater_0_conv less_one nth_mem set_sort)
    show "y \<le> sort xs ! (length xs - 1)" if y: "y \<in> set xs" for y
    proof -
      obtain i where "i < length xs" "sort xs ! i = y" using y by (metis in_set_conv_nth len set_sort)
      then show ?thesis using sorted_nth_mono [OF sorted_sort, of i "length xs - 1" xs] by simp
    qed
  qed simp
  have pos: "fmul 1 (float_of_int (int (length xs) - 1)) = of_int (int (length xs) - 1)"
    using assms f64_of_int [of "int (length xs) - 1"] by (simp add: fmul_def float_of_int_def)
  show "percentile xs 0 = Min (set xs)"
    using assms(1) Min by (simp add: percentile_def fmul_def math_Floor_def math_Ceil_def Let_def)
  have idx: "nat (int (length xs) - 1) = length xs - 1" by simp
  show "percentile xs 1 = Max (set xs)"
    using assms(1) Max pos by (auto simp: percentile_def math_Floor_def math_Ceil_def Let_def idx)
qed

lemma finishCDF_ends:
  assumes "xs \<noteq> []" and "int (length xs) \<le> 2 ^ 53"
  shows "length (finishCDF xs) = 21" and "pp_Day (finishCDF xs ! 0) = Min (set xs)" and "pp_Day (finishCDF xs ! 20) = Max (set xs)"
proof -
  have "fdiv (float_of_int 0) (float_of_int 20) = 0" by (simp add: fdiv_def float_of_int_def)
  moreover have "fdiv (float_of_int 20) (float_of_int 20) = 1" by (simp add: fdiv_def float_of_int_def)
  ultimately show "length (finishCDF xs) = 21" and "pp_Day (finishCDF xs ! 0) = Min (set xs)" and "pp_Day (finishCDF xs ! 20) = Max (set xs)"
    using assms percentile_ends [OF assms] by (simp_all add: finishCDF_def Let_def)
qed

lemma filter_pair_distinct:
  assumes "distinct ps"
  shows "length (filter (\<lambda>p. p = x) ps) = (if x \<in> set ps then 1 else 0)"
  using assms by (induction ps) (auto simp: filter_empty_conv)

lemma it_critical_distinct: "distinct ids \<Longrightarrow> distinct (it_critical (runMonteCarloIteration sm tasks ids i))"
  by (simp add: runMonteCarloIteration_def Let_def distinct_map inj_on_def)

lemma critical_count:
  assumes "distinct ids"
  shows "length (filter (\<lambda>p. p = (tid, True)) (concat (map (\<lambda>i. it_critical (runMonteCarloIteration sm tasks ids i)) arrivals)))
       = length (filter (\<lambda>i. (tid, True) \<in> set (it_critical (runMonteCarloIteration sm tasks ids i))) arrivals)"
proof (induction arrivals)
  case (Cons i js)
  have "length (filter (\<lambda>p. p = (tid, True)) (it_critical (runMonteCarloIteration sm tasks ids i)))
      = (if (tid, True) \<in> set (it_critical (runMonteCarloIteration sm tasks ids i)) then 1 else 0)"
    by (rule filter_pair_distinct [OF it_critical_distinct [OF assms]])
  with Cons show ?case by simp
qed simp

lemma fraction_bounds:
  assumes "0 \<le> c" and "c \<le> n" and "0 < n" and "n \<le> 2 ^ 53"
  shows "fdiv (float_of_int c) (float_of_int n) = f64 (of_int c / of_int n)"
    and "0 \<le> fdiv (float_of_int c) (float_of_int n)" and "fdiv (float_of_int c) (float_of_int n) \<le> 1"
proof -
  show eq: "fdiv (float_of_int c) (float_of_int n) = f64 (of_int c / of_int n)"
    using assms f64_of_int [of c] f64_of_int [of n] by (simp add: fdiv_def float_of_int_def)
  show "0 \<le> fdiv (float_of_int c) (float_of_int n)" using assms by (simp add: eq)
  have "of_int c / of_int n \<le> (1 :: rat)" using assms by simp
  then show "fdiv (float_of_int c) (float_of_int n) \<le> 1" using f64_mono [of "of_int c / of_int n" 1] by (simp add: eq)
qed

lemma sort_key_take_least:
  assumes "x \<in> set (take k (sort_key f xs))" and "y \<in> set xs" and "y \<notin> set (take k (sort_key f xs))"
  shows "f x \<le> f y"
proof -
  have "set (take k (sort_key f xs)) \<union> set (drop k (sort_key f xs)) = set xs"
    by (metis append_take_drop_id set_append set_sort)
  with assms have "y \<in> set (drop k (sort_key f xs))" by blast
  moreover have "sorted (map f (take k (sort_key f xs) @ drop k (sort_key f xs)))" by simp
  ultimately show ?thesis using assms(1) unfolding map_append sorted_append by simp
qed

text \<open>
  What a valid report says of the iterations it collected. The cumulative curve has 21
  points from the earliest to the latest simulated finish; a task's critical frequency is
  the share of iterations in which it was critical, rounded once, and lies between 0 and 1;
  and the drivers are at most ten, in order of score, frequency, spread and identifier, with
  no task left out that ranks before one that is listed.
\<close>

theorem montecarlo_report:
  assumes "distinct (map fst tasks)" and "validateMonteCarloInputs tasks n = Inr ids" and "ids \<noteq> []"
    and "length arrivals = nat n" and "R = RunMonteCarlo sm numCPU arrivals tasks n workers"
    and "run = runMonteCarloIteration sm tasks ids"
  shows "length (sr_FinishCDF R) = 21
    \<and> pp_Day (sr_FinishCDF R ! 0) = Min ((\<lambda>i. it_finish (run i)) ` set arrivals)
    \<and> pp_Day (sr_FinishCDF R ! 20) = Max ((\<lambda>i. it_finish (run i)) ` set arrivals)
    \<and> map fst (sr_CriticalPathFrequency R) = sort (map fst tasks)
    \<and> (\<forall>(tid, f) \<in> set (sr_CriticalPathFrequency R). 0 \<le> f \<and> f \<le> 1
         \<and> f = f64 (of_nat (length (filter (\<lambda>i. (tid, True) \<in> set (it_critical (run i))) arrivals)) / of_int n))
    \<and> length (sr_TornadoDrivers R) \<le> 10 \<and> sorted (map driverRank (sr_TornadoDrivers R))
    \<and> (\<forall>d \<in> set (sr_TornadoDrivers R). \<forall>tid \<in> set ids.
         let e = tornadoDriver (sr_CriticalPathFrequency R) (sr_DurationPercentiles R) tid
         in e \<in> set (sr_TornadoDrivers R) \<or> driverRank d \<le> driverRank e)"
proof -
  note ok = validate_InrD [OF assms(2)]
  let ?s0 = "\<lparr>sa_finishes = [], sa_criticalCounts = [], sa_durationSamples = map (\<lambda>tid. (tid, [])) ids\<rparr>"
  define S where "S = foldl (\<lambda>s i. collect s (run i)) ?s0 arrivals"
  note S = collect_all [OF S_def]
  have R: "R = summarize ids n S (noResult n (workersFor numCPU n workers))"
    using assms(2,3,5,6) by (cases ids) (simp_all add: RunMonteCarlo_def Let_def S_def)
  have dist: "distinct ids" using assms(1) ok(4) by simp
  have n: "0 < n" "n \<le> 2 ^ 53" using ok by (simp_all add: maxMonteCarloIterations_def)
  have fin: "sa_finishes S = map (\<lambda>i. it_finish (run i)) arrivals" "sa_finishes S \<noteq> []"
    "int (length (sa_finishes S)) \<le> 2 ^ 53"
    using S(1) assms(4) n by auto
  have freq: "sr_CriticalPathFrequency R =
      map (\<lambda>tid. (tid, fdiv (float_of_int (int (countOf (sa_criticalCounts S) tid))) (float_of_int n))) ids"
    unfolding R summarize_def countOf_def Let_def by simp
  have cnt: "countOf (sa_criticalCounts S) tid = length (filter (\<lambda>i. (tid, True) \<in> set (it_critical (run i))) arrivals)" for tid
    unfolding S(2) assms(6) by (simp add: critical_count [OF dist] countOf_def)
  have le: "int (countOf (sa_criticalCounts S) tid) \<le> n" for tid
    unfolding cnt using length_filter_le [of "\<lambda>i. (tid, True) \<in> set (it_critical (run i))" arrivals] assms(4) n by linarith
  have fr: "\<forall>(tid, f) \<in> set (sr_CriticalPathFrequency R). 0 \<le> f \<and> f \<le> 1
         \<and> f = f64 (of_nat (length (filter (\<lambda>i. (tid, True) \<in> set (it_critical (run i))) arrivals)) / of_int n)"
    unfolding freq using fraction_bounds [OF _ le n] by (auto simp: cnt)
  have drv: "sr_TornadoDrivers R = take 10 (sort_key driverRank
      (map (tornadoDriver (sr_CriticalPathFrequency R) (sr_DurationPercentiles R)) ids))"
    unfolding R summarize_def tornadoDrivers_def Let_def by simp
  have least: "let e = tornadoDriver (sr_CriticalPathFrequency R) (sr_DurationPercentiles R) tid
         in e \<in> set (sr_TornadoDrivers R) \<or> driverRank d \<le> driverRank e"
    if "d \<in> set (sr_TornadoDrivers R)" "tid \<in> set ids" for d tid
    unfolding Let_def using that sort_key_take_least [of d 10 driverRank] unfolding drv by fastforce
  have cdf: "sr_FinishCDF R = finishCDF (sa_finishes S)" unfolding R summarize_def Let_def by simp
  have keys: "map fst (sr_CriticalPathFrequency R) = sort (map fst tasks)" unfolding freq ok(4) by (simp add: comp_def)
  have srt: "length (sr_TornadoDrivers R) \<le> 10" "sorted (map driverRank (sr_TornadoDrivers R))"
    unfolding drv take_map [symmetric] by (simp_all add: sorted_wrt_take)
  show ?thesis
    using finishCDF_ends [OF fin(2,3)] fr keys srt least unfolding cdf by (simp add: fin(1))
qed

subsection \<open>A small simulation\<close>

definition toy_samplers :: "unit Samplers" where
  "toy_samplers = \<lparr>sm_NewPCG = (\<lambda>_ _. ()), sm_Beta = (\<lambda>_ _ s. (1 / 2, s)), sm_Normal = (\<lambda>mu _ s. (mu, s)),
     sm_Triangle = (\<lambda>_ _ c s. (c, s))\<rparr>"

definition toy_tasks :: Tasks where
  "toy_tasks = [(''A'', zeroTask\<lparr>ID := ''A'', Duration := 2\<rparr>), (''B'', zeroTask\<lparr>ID := ''B'', Duration := 3\<rparr>)]"

lemma toy_pool_run:
  "(poolStep 1 ^^ 3) (newPool 1) \<lparr>pl_next = 1, pl_busy = [None], pl_channel = [], pl_received = [0]\<rparr>"
proof -
  have 1: "poolStep 1 (newPool 1) \<lparr>pl_next = 1, pl_busy = [Some 0], pl_channel = [], pl_received = []\<rparr>"
    using poolStep.take_job [of "newPool 1" 1 0] by (simp add: newPool_def)
  have 2: "poolStep 1 \<lparr>pl_next = 1, pl_busy = [Some 0], pl_channel = [], pl_received = []\<rparr>
      \<lparr>pl_next = 1, pl_busy = [None], pl_channel = [0], pl_received = []\<rparr>"
    using poolStep.send_result [of 0 "\<lparr>pl_next = 1, pl_busy = [Some 0], pl_channel = [], pl_received = []\<rparr>" 0 1] by simp
  have 3: "poolStep 1 \<lparr>pl_next = 1, pl_busy = [None], pl_channel = [0], pl_received = []\<rparr>
      \<lparr>pl_next = 1, pl_busy = [None], pl_channel = [], pl_received = [0]\<rparr>"
    using poolStep.receive [of "\<lparr>pl_next = 1, pl_busy = [None], pl_channel = [0], pl_received = []\<rparr>" 0 "[]" 1] by simp
  from 1 2 3 show ?thesis unfolding numeral_3_eq_3 by (auto intro!: relcomppI)
qed

lemma toy_workers: "nat (workersFor numCPU 1 workers) = 1"
  by (simp add: workersFor_def Let_def maxMonteCarloWorkers_def)

lemma toy_delivery: "delivery (nat 1) (nat (workersFor numCPU 1 workers)) [0]"
  unfolding delivery_def toy_workers
  by (intro exI [of _ 3] exI [of _ "\<lparr>pl_next = 1, pl_busy = [None], pl_channel = [], pl_received = [0]\<rparr>"])
     (use toy_pool_run in \<open>auto simp: poolStep_iff\<close>)

theorem montecarlo_pool_witness:
  "(poolStep 1 ^^ 3) (newPool 1) \<lparr>pl_next = 1, pl_busy = [None], pl_channel = [], pl_received = [0]\<rparr>
   \<and> 3 \<le> 3 * nat 1"
  using montecarlo_pool [of 1 3 4 2 "\<lparr>pl_next = 1, pl_busy = [None], pl_channel = [], pl_received = [0]\<rparr>"] toy_pool_run
  by (simp add: toy_workers)

theorem montecarlo_stable_witness:
  "RunMonteCarlo toy_samplers 4 [0] (rev toy_tasks) 1 2 =
   (RunMonteCarlo toy_samplers 8 [0] toy_tasks 1 7)\<lparr>sr_Workers := 1\<rparr>"
proof -
  have "sr_Valid (RunMonteCarlo toy_samplers 8 [0] toy_tasks 1 7)"
    unfolding RunMonteCarlo_Valid by (rule exI [of _ "[''A'', ''B'']"]) code_simp
  moreover have "workersFor 4 1 2 = 1" by code_simp
  ultimately show ?thesis
    using montecarlo_stable [OF _ _ toy_delivery toy_delivery, where tasks = toy_tasks and tasks' = "rev toy_tasks"
        and numCPU = 8 and workers = 7 and numCPU' = 4 and workers' = 2 and sm = toy_samplers]
    by (simp add: toy_tasks_def)
qed

theorem montecarlo_report_witness:
  "length (sr_FinishCDF (RunMonteCarlo toy_samplers 4 [0] toy_tasks 1 2)) = 21
   \<and> map fst (sr_CriticalPathFrequency (RunMonteCarlo toy_samplers 4 [0] toy_tasks 1 2)) = [''A'', ''B'']"
proof -
  have v: "validateMonteCarloInputs toy_tasks 1 = Inr [''A'', ''B'']" by code_simp
  have "sort (map fst toy_tasks) = [''A'', ''B'']" by code_simp
  then show ?thesis
    using montecarlo_report [OF _ v _ _ refl refl, where arrivals = "[0]" and sm = toy_samplers and numCPU = 4 and workers = 2]
    by (simp add: toy_tasks_def)
qed

end
