(* ===== verification/WBS.thy ===== *)
theory WBS
  imports Encoding Float64
begin

text \<open>
  The scope model of \<^verbatim>\<open>internal/wbs\<close> (\<^verbatim>\<open>model.go\<close>, \<^verbatim>\<open>parse.go\<close> and
  \<^verbatim>\<open>revision.go\<close>). Nodes live in a store addressed by numbers, because the source
  follows pointers: a child may be nil, shared, or an ancestor. The JSON decoder and encoder
  are arguments. The lemmas show that validation always ends, that it accepts exactly the
  aggregates that are trees within the limits with sound associations, and that revisions
  are canonical decimal counters.
\<close>

subsection \<open>Model: data\<close>

definition SchemaVersion :: int where "SchemaVersion = 2"
definition MaxPayloadBytes :: nat where "MaxPayloadBytes = 8388608"
definition MaxNodes :: nat where "MaxNodes = 10000"
definition MaxLevels :: nat where "MaxLevels = 64"
definition MaxTextBytes :: nat where "MaxTextBytes = 65536"
definition MaxIdentifierBytes :: nat where "MaxIdentifierBytes = 256"
definition MaxAssociations :: nat where "MaxAssociations = 50000"

datatype wbs_error =
    ErrUnsupportedSchema | ErrInvalid string | ErrLimit string | ErrEncode
  | ErrRevision | ErrRevisionOverflow | ErrRevisionConflict | ErrIdentityMismatch

record Dictionary =
  dc_Description :: string
  dc_ScopeIn :: string
  dc_ScopeOut :: string
  dc_AcceptanceCriteria :: string

datatype effort = Finite float64 | NonFinite

type_synonym pointer = "nat option"

record Node =
  nd_ID :: string
  nd_Title :: string
  nd_Number :: string
  nd_Note :: string
  nd_Owner :: string
  nd_Effort :: effort
  nd_Classification :: string
  nd_Dictionary :: "Dictionary option"
  nd_Children :: "pointer list"

type_synonym Heap = "nat \<Rightarrow> Node"

record ActivityLink =
  al_NodeID :: string
  al_ScheduleChartID :: string
  al_ActivityID :: string

record CostLink =
  cl_NodeID :: string
  cl_CostEntryID :: string

record Aggregate =
  ag_SchemaVersion :: int
  ag_Revision :: string
  ag_Root :: pointer
  ag_ActivityLinks :: "ActivityLink list"
  ag_CostLinks :: "CostLink list"

subsection \<open>Model: revisions\<close>

definition revisionValue :: "string \<Rightarrow> uint64 option" where
  "revisionValue s =
     (case ParseUint64 s of None \<Rightarrow> None | Some v \<Rightarrow> if FormatUint64 v \<noteq> s then None else Some v)"

definition NextRevision :: "string \<Rightarrow> wbs_error + string" where
  "NextRevision current =
     (case revisionValue current of
        None \<Rightarrow> Inl ErrRevision
      | Some v \<Rightarrow> if v = MaxUint64 then Inl ErrRevisionOverflow else Inr (FormatUint64 (v + 1)))"

subsection \<open>Model: field checks\<close>

definition identifierError :: "string \<Rightarrow> wbs_error option" where
  "identifierError s =
     (if length s > MaxIdentifierBytes then Some (ErrLimit ''identifier'')
      else if TrimSpace s = [] \<or> \<not> valid_utf8 s then Some (ErrInvalid ''blank or invalid identifier'')
      else None)"

definition textError :: "string \<Rightarrow> wbs_error option" where
  "textError s =
     (if length s > MaxTextBytes then Some (ErrLimit ''text'')
      else if \<not> valid_utf8 s then Some (ErrInvalid ''invalid text encoding'') else None)"

fun firstError :: "('a \<Rightarrow> 'e option) \<Rightarrow> 'a list \<Rightarrow> 'e option" where
  "firstError check [] = None"
| "firstError check (x # xs) = (case check x of Some e \<Rightarrow> Some e | None \<Rightarrow> firstError check xs)"

definition dictionaryTexts :: "Dictionary option \<Rightarrow> string list" where
  "dictionaryTexts d =
     (case d of None \<Rightarrow> []
      | Some x \<Rightarrow> [dc_Description x, dc_ScopeIn x, dc_ScopeOut x, dc_AcceptanceCriteria x])"

definition nodeError :: "Node \<Rightarrow> wbs_error option" where
  "nodeError n =
     (case firstError textError
         ([nd_Title n, nd_Number n, nd_Note n, nd_Owner n, nd_Classification n] @ dictionaryTexts (nd_Dictionary n)) of
        Some e \<Rightarrow> Some e
      | None \<Rightarrow> if nd_Effort n = NonFinite then Some (ErrInvalid ''nonfinite effort'') else None)"

subsection \<open>Model: the walk over the nodes\<close>

text \<open>The stack is written with its top first.\<close>

function walk ::
  "Heap \<Rightarrow> (pointer \<times> nat) list \<Rightarrow> (string \<times> Node) list \<Rightarrow> wbs_error + (string \<times> Node) list"
where
  "walk heap [] nodes = Inr nodes"
| "walk heap ((ptr, level) # stack) nodes =
     (if level > MaxLevels \<or> length nodes \<ge> MaxNodes then Inl (ErrLimit ''hierarchy'')
      else case ptr of
        None \<Rightarrow> Inl (ErrInvalid ''nil child'')
      | Some addr \<Rightarrow>
          (let n = heap addr in
           case identifierError (nd_ID n) of Some e \<Rightarrow> Inl e
           | None \<Rightarrow>
             (if map_of nodes (nd_ID n) \<noteq> None then Inl (ErrInvalid ''repeated node identity'')
              else
                (let nodes' = nodes @ [(nd_ID n, n)] in
                 case nodeError n of Some e \<Rightarrow> Inl e
                 | None \<Rightarrow>
                   (if length (nd_Children n) > MaxNodes - length nodes'
                       \<or> length stack > MaxNodes - length nodes' - length (nd_Children n)
                    then Inl (ErrLimit ''nodes'')
                    else walk heap (map (\<lambda>c. (c, level + 1)) (nd_Children n) @ stack) nodes')))))"
  by pat_completeness auto
termination by (relation "measure (\<lambda>(heap, stack, nodes). MaxNodes - length nodes)") auto

declare walk.simps [simp del]

definition leafError :: "(string \<times> Node) list \<Rightarrow> string \<Rightarrow> wbs_error option" where
  "leafError nodes nid =
     (case identifierError nid of Some e \<Rightarrow> Some e
      | None \<Rightarrow>
        (case map_of nodes nid of
           None \<Rightarrow> Some (ErrInvalid ''association must target an existing leaf'')
         | Some n \<Rightarrow> if nd_Children n \<noteq> [] then Some (ErrInvalid ''association must target an existing leaf'') else None))"

fun activityErrors :: "(string \<times> Node) list \<Rightarrow> (string \<times> string) list \<Rightarrow> ActivityLink list \<Rightarrow> wbs_error option" where
  "activityErrors nodes seen [] = None"
| "activityErrors nodes seen (l # ls) =
     (case leafError nodes (al_NodeID l) of Some e \<Rightarrow> Some e
      | None \<Rightarrow>
        (case identifierError (al_ScheduleChartID l) of Some e \<Rightarrow> Some e
         | None \<Rightarrow>
           (case identifierError (al_ActivityID l) of Some e \<Rightarrow> Some e
            | None \<Rightarrow>
              (let key = (al_ScheduleChartID l, al_ActivityID l) in
               if key \<in> set seen then Some (ErrInvalid ''repeated activity association'')
               else activityErrors nodes (key # seen) ls))))"

fun costErrors :: "(string \<times> Node) list \<Rightarrow> string list \<Rightarrow> CostLink list \<Rightarrow> wbs_error option" where
  "costErrors nodes seen [] = None"
| "costErrors nodes seen (l # ls) =
     (case leafError nodes (cl_NodeID l) of Some e \<Rightarrow> Some e
      | None \<Rightarrow>
        (case identifierError (cl_CostEntryID l) of Some e \<Rightarrow> Some e
         | None \<Rightarrow>
           (if cl_CostEntryID l \<in> set seen then Some (ErrInvalid ''repeated cost association'')
            else costErrors nodes (cl_CostEntryID l # seen) ls)))"

text \<open>
  The encoder writes chunks of known lengths into a writer that refuses the chunk that does
  not fit; \<open>None\<close> is an encoding error.
\<close>

type_synonym Encoder = "Heap \<Rightarrow> Aggregate \<Rightarrow> nat list option"

fun writeAll :: "nat \<Rightarrow> nat list \<Rightarrow> bool" where
  "writeAll remaining [] = True"
| "writeAll remaining (n # ns) = (if n > remaining then False else writeAll (remaining - n) ns)"

definition encodedSize :: "Encoder \<Rightarrow> Heap \<Rightarrow> Aggregate \<Rightarrow> wbs_error option" where
  "encodedSize enc heap a =
     (case enc heap a of None \<Rightarrow> Some ErrEncode
      | Some sizes \<Rightarrow> if writeAll MaxPayloadBytes sizes then None else Some ErrEncode)"

definition Validate :: "Encoder \<Rightarrow> Heap \<Rightarrow> Aggregate \<Rightarrow> wbs_error option" where
  "Validate enc heap a =
     (if ag_SchemaVersion a \<noteq> SchemaVersion then Some ErrUnsupportedSchema
      else if revisionValue (ag_Revision a) = None then Some ErrRevision
      else if ag_Root a = None then Some (ErrInvalid ''missing root'')
      else if length (ag_ActivityLinks a) > MaxAssociations
              \<or> length (ag_CostLinks a) > MaxAssociations - length (ag_ActivityLinks a)
        then Some (ErrLimit ''associations'')
      else case walk heap [(ag_Root a, 1)] [] of
        Inl e \<Rightarrow> Some e
      | Inr nodes \<Rightarrow>
          (case activityErrors nodes [] (ag_ActivityLinks a) of Some e \<Rightarrow> Some e
           | None \<Rightarrow>
             (case costErrors nodes [] (ag_CostLinks a) of Some e \<Rightarrow> Some e
              | None \<Rightarrow> encodedSize enc heap a)))"

subsection \<open>Model: parsing\<close>

datatype tokenKind = BeginObject | NullToken | StringToken nat | OtherToken

text \<open>A token with the nesting depth of the decoder after it.\<close>

type_synonym Token = "tokenKind \<times> nat"

definition isString :: "tokenKind \<Rightarrow> bool" where
  "isString k = (case k of StringToken n \<Rightarrow> n > MaxTextBytes | _ \<Rightarrow> False)"

fun preflightLoop :: "bool \<Rightarrow> nat \<Rightarrow> Token list \<Rightarrow> bool \<Rightarrow> wbs_error option" where
  "preflightLoop first objects [] eof =
     Some (ErrInvalid (if eof then ''missing object'' else ''JSON''))"
| "preflightLoop first objects ((kind, depth) # tokens) eof =
     (if first \<and> kind \<noteq> BeginObject then Some (ErrInvalid ''expected object'')
      else if depth > 2 * MaxLevels + 2 then Some (ErrLimit ''JSON nesting'')
      else if kind = NullToken then Some (ErrInvalid ''null member'')
      else if isString kind then Some (ErrLimit ''decoded string'')
      else
        (let objects' = (if kind = BeginObject then Suc objects else objects) in
         if kind = BeginObject \<and> objects' > 1 + 2 * MaxNodes + MaxAssociations then Some (ErrLimit ''JSON objects'')
         else if depth = 0 then (if tokens = [] \<and> eof then None else Some (ErrInvalid ''trailing JSON''))
         else preflightLoop False objects' tokens eof))"

text \<open>The decoder: the tokens of a text and whether they end at its end, and the decoded aggregate.\<close>

record Decoder =
  jd_tokens :: "string \<Rightarrow> Token list \<times> bool"
  jd_decode :: "string \<Rightarrow> (Heap \<times> Aggregate) option"

definition preflight :: "Decoder \<Rightarrow> string \<Rightarrow> wbs_error option" where
  "preflight dec raw = (case jd_tokens dec raw of (tokens, eof) \<Rightarrow> preflightLoop True 0 tokens eof)"

definition Parse :: "Decoder \<Rightarrow> Encoder \<Rightarrow> string \<Rightarrow> wbs_error + (Heap \<times> Aggregate)" where
  "Parse dec enc raw =
     (if length raw > MaxPayloadBytes then Inl (ErrLimit ''payload'')
      else case preflight dec raw of Some e \<Rightarrow> Inl e
      | None \<Rightarrow>
        (case jd_decode dec raw of None \<Rightarrow> Inl (ErrInvalid ''decode'')
         | Some (heap, a) \<Rightarrow> (case Validate enc heap a of Some e \<Rightarrow> Inl e | None \<Rightarrow> Inr (heap, a))))"

subsection \<open>Model: the write context\<close>

record Identity =
  id_CopyID :: string
  id_ProjectID :: string
  id_ChartID :: string
  id_LifetimeID :: string

definition identityFields :: "Identity \<Rightarrow> string list" where
  "identityFields i = [id_CopyID i, id_ProjectID i, id_ChartID i, id_LifetimeID i]"

definition CheckWriteContext :: "Identity \<Rightarrow> Identity \<Rightarrow> string \<Rightarrow> string \<Rightarrow> wbs_error option" where
  "CheckWriteContext current requested revision expected =
     (case firstError identifierError (identityFields current @ identityFields requested) of Some e \<Rightarrow> Some e
      | None \<Rightarrow>
        (if revisionValue revision = None then Some ErrRevision
         else if revisionValue expected = None then Some ErrRevision
         else if current \<noteq> requested then Some ErrIdentityMismatch
         else if revision \<noteq> expected then Some ErrRevisionConflict
         else None))"

subsection \<open>Trees in the store\<close>

datatype wtree = WTree (addrOf: nat) (subtrees: "wtree list")

fun treeAt :: "Heap \<Rightarrow> wtree \<Rightarrow> bool" where
  "treeAt heap (WTree a ts) \<longleftrightarrow>
     nd_Children (heap a) = map (\<lambda>t. Some (addrOf t)) ts \<and> (\<forall>t \<in> set ts. treeAt heap t)"

fun preorder :: "wtree \<Rightarrow> nat list" where
  "preorder (WTree a ts) = a # concat (map preorder ts)"

fun depth :: "wtree \<Rightarrow> nat" where
  "depth (WTree a ts) = Suc (Max (insert 0 (depth ` set ts)))"

definition nodeOK :: "Node \<Rightarrow> bool" where
  "nodeOK n \<longleftrightarrow> identifierError (nd_ID n) = None \<and> nodeError n = None"

definition entries :: "Heap \<Rightarrow> nat list \<Rightarrow> (string \<times> Node) list" where
  "entries heap as = map (\<lambda>a. (nd_ID (heap a), heap a)) as"

definition fitsAt :: "Heap \<Rightarrow> pointer \<times> nat \<Rightarrow> wtree \<Rightarrow> bool" where
  "fitsAt heap v t \<longleftrightarrow>
     fst v = Some (addrOf t) \<and> treeAt heap t \<and> snd v + depth t \<le> MaxLevels + 1
     \<and> (\<forall>a \<in> set (preorder t). nodeOK (heap a))"

lemma depth_child: "t \<in> set ts \<Longrightarrow> depth t < depth (WTree a ts)"
  by (simp add: less_Suc_eq_le)

lemma depth_le_iff: "depth (WTree a ts) \<le> n \<longleftrightarrow> 0 < n \<and> (\<forall>t \<in> set ts. depth t < n)"
  by (cases n) (auto simp: less_Suc_eq_le)

lemma preorder_nonempty [simp]: "preorder t \<noteq> []"
  by (cases t) simp

lemma length_forest: "length ts \<le> length (concat (map preorder ts))"
proof (induction ts)
  case (Cons t ts)
  have "1 \<le> length (preorder t)" by (simp add: Suc_le_eq)
  with Cons show ?case by simp
qed simp

lemma fitsAt_children:
  "list_all2 (fitsAt heap) (map (\<lambda>c. (c, level)) cs) ts \<longleftrightarrow>
     cs = map (\<lambda>t. Some (addrOf t)) ts
     \<and> (\<forall>t \<in> set ts. treeAt heap t \<and> level + depth t \<le> MaxLevels + 1 \<and> (\<forall>b \<in> set (preorder t). nodeOK (heap b)))"
proof (induction ts arbitrary: cs)
  case (Cons t ts)
  then show ?case by (cases cs) (auto simp: fitsAt_def)
qed simp

lemma fitsAt_WTree:
  "fitsAt heap (Some a, level) (WTree a ts) \<longleftrightarrow>
     nodeOK (heap a) \<and> level \<le> MaxLevels \<and> list_all2 (fitsAt heap) (map (\<lambda>c. (c, level + 1)) (nd_Children (heap a))) ts"
proof -
  have "level + depth (WTree a ts) \<le> MaxLevels + 1 \<longleftrightarrow>
      level \<le> MaxLevels \<and> (\<forall>t \<in> set ts. level + 1 + depth t \<le> MaxLevels + 1)"
    using depth_le_iff [of a ts "MaxLevels + 1 - level"] by (auto simp del: depth.simps)
  then show ?thesis unfolding fitsAt_children by (auto simp: fitsAt_def simp del: depth.simps)
qed

subsection \<open>The walk accepts exactly the trees within the limits\<close>

lemma walk_step:
  assumes "level \<le> MaxLevels" and "length nodes < MaxNodes" and "nodeOK (heap a)"
    and "map_of nodes (nd_ID (heap a)) = None"
    and "length nodes + 1 + length (nd_Children (heap a)) + length stack \<le> MaxNodes"
  shows "walk heap ((Some a, level) # stack) nodes =
         walk heap (map (\<lambda>c. (c, level + 1)) (nd_Children (heap a)) @ stack) (nodes @ [(nd_ID (heap a), heap a)])"
proof -
  have "\<not> length (nd_Children (heap a)) > MaxNodes - (length nodes + 1)"
    and "\<not> length stack > MaxNodes - (length nodes + 1) - length (nd_Children (heap a))" using assms(5) by linarith+
  then show ?thesis using assms by (subst walk.simps) (simp add: nodeOK_def Let_def)
qed

lemma walk_stepE:
  assumes "walk heap ((ptr, level) # stack) nodes = Inr out"
  obtains a where "ptr = Some a" "level \<le> MaxLevels" "length nodes < MaxNodes" "nodeOK (heap a)"
    "map_of nodes (nd_ID (heap a)) = None"
    "length nodes + 1 + length (nd_Children (heap a)) + length stack \<le> MaxNodes"
    "walk heap (map (\<lambda>c. (c, level + 1)) (nd_Children (heap a)) @ stack) (nodes @ [(nd_ID (heap a), heap a)]) = Inr out"
  using assms
  by (subst (asm) walk.simps) (auto simp: nodeOK_def Let_def split: if_splits option.splits)

lemma distinct_snoc_key: "map_of nodes k = None \<Longrightarrow> distinct (map fst nodes) \<Longrightarrow> distinct (map fst (nodes @ [(k, n)]))"
  by (auto simp: map_of_eq_None_iff)

lemma walk_sound:
  assumes "walk heap stack nodes = Inr out" and "distinct (map fst nodes)" and "length nodes \<le> MaxNodes"
  shows "\<exists>ts. list_all2 (fitsAt heap) stack ts \<and> out = nodes @ entries heap (concat (map preorder ts))
              \<and> distinct (map fst out) \<and> length out \<le> MaxNodes"
  using assms
proof (induction "MaxNodes - length nodes" arbitrary: stack nodes rule: less_induct)
  case less
  show ?case
  proof (cases stack)
    case Nil
    with less.prems show ?thesis by (auto simp: walk.simps entries_def)
  next
    case (Cons v stack')
    obtain ptr level where v: "v = (ptr, level)" by fastforce
    from less.prems(1) [unfolded Cons v] obtain a where
      a: "ptr = Some a" "level \<le> MaxLevels" "length nodes < MaxNodes" "nodeOK (heap a)" "map_of nodes (nd_ID (heap a)) = None"
      and rec: "walk heap (map (\<lambda>c. (c, level + 1)) (nd_Children (heap a)) @ stack') (nodes @ [(nd_ID (heap a), heap a)]) = Inr out"
      by (rule walk_stepE)
    let ?nodes = "nodes @ [(nd_ID (heap a), heap a)]"
    have m: "MaxNodes - length ?nodes < MaxNodes - length nodes" "length ?nodes \<le> MaxNodes" using a(3) by simp_all
    obtain ts where ts: "list_all2 (fitsAt heap) (map (\<lambda>c. (c, level + 1)) (nd_Children (heap a)) @ stack') ts"
      "out = ?nodes @ entries heap (concat (map preorder ts))" "distinct (map fst out)" "length out \<le> MaxNodes"
      using less.hyps [OF m(1) rec distinct_snoc_key [OF a(5) less.prems(2)] m(2)] by blast
    from ts(1) obtain us vs where split: "ts = us @ vs"
      "list_all2 (fitsAt heap) (map (\<lambda>c. (c, level + 1)) (nd_Children (heap a))) us" "list_all2 (fitsAt heap) stack' vs"
      by (auto simp: list_all2_append1)
    then have "list_all2 (fitsAt heap) stack (WTree a us # vs)"
      using a by (simp add: Cons v fitsAt_WTree)
    moreover have "out = nodes @ entries heap (concat (map preorder (WTree a us # vs)))"
      using ts(2) split(1) by (simp add: entries_def)
    ultimately show ?thesis using ts(3,4) by blast
  qed
qed

lemma walk_complete:
  assumes "list_all2 (fitsAt heap) stack ts"
    and "distinct (map fst (nodes @ entries heap (concat (map preorder ts))))"
    and "length nodes + length (concat (map preorder ts)) \<le> MaxNodes"
  shows "walk heap stack nodes = Inr (nodes @ entries heap (concat (map preorder ts)))"
  using assms
proof (induction "length (concat (map preorder ts))" arbitrary: stack nodes ts rule: less_induct)
  case less
  show ?case
  proof (cases stack)
    case Nil
    with less.prems show ?thesis by (simp add: walk.simps entries_def)
  next
    case (Cons v stack')
    with less.prems(1) obtain t ts' where ts: "ts = t # ts'" "fitsAt heap v t" "list_all2 (fitsAt heap) stack' ts'"
      by (auto simp: list_all2_Cons1)
    obtain a us where t: "t = WTree a us" by (cases t)
    obtain level where v: "v = (Some a, level)" using ts(2) t by (cases v) (simp add: fitsAt_def)
    have f: "nodeOK (heap a)" "level \<le> MaxLevels"
      "list_all2 (fitsAt heap) (map (\<lambda>c. (c, level + 1)) (nd_Children (heap a))) us"
      using ts(2) unfolding t v fitsAt_WTree by blast+
    let ?nodes = "nodes @ [(nd_ID (heap a), heap a)]" and ?ts = "us @ ts'"
    have all: "nodes @ entries heap (concat (map preorder ts)) = ?nodes @ entries heap (concat (map preorder ?ts))"
      by (simp add: ts(1) t entries_def)
    have len: "length (nd_Children (heap a)) = length us" "length stack' = length ts'"
      using list_all2_lengthD [OF f(3)] list_all2_lengthD [OF ts(3)] by simp_all
    have tot: "length (concat (map preorder ts)) = Suc (length (concat (map preorder ?ts)))" by (simp add: ts(1) t)
    have room: "length nodes + 1 + length (nd_Children (heap a)) + length stack' \<le> MaxNodes"
      using length_forest [of ?ts] less.prems(3) tot len by simp
    have fresh: "map_of nodes (nd_ID (heap a)) = None"
      using less.prems(2) unfolding all by (simp add: map_of_eq_None_iff)
    have "walk heap stack nodes = walk heap (map (\<lambda>c. (c, level + 1)) (nd_Children (heap a)) @ stack') ?nodes"
      unfolding Cons v by (rule walk_step) (use f fresh room in simp_all)
    also have "\<dots> = Inr (?nodes @ entries heap (concat (map preorder ?ts)))"
    proof (rule less.hyps)
      show "length (concat (map preorder ?ts)) < length (concat (map preorder ts))" unfolding tot by simp
      show "list_all2 (fitsAt heap) (map (\<lambda>c. (c, level + 1)) (nd_Children (heap a)) @ stack') ?ts"
        using f(3) ts(3) by (rule list_all2_appendI)
      show "distinct (map fst (?nodes @ entries heap (concat (map preorder ?ts))))" using less.prems(2) unfolding all .
      show "length ?nodes + length (concat (map preorder ?ts)) \<le> MaxNodes" using less.prems(3) tot by simp
    qed
    finally show ?thesis unfolding all .
  qed
qed

subsection \<open>Associations, sizes and revisions\<close>

definition activityKey :: "ActivityLink \<Rightarrow> string \<times> string" where
  "activityKey l = (al_ScheduleChartID l, al_ActivityID l)"

lemma activityErrors_None:
  "activityErrors nodes seen ls = None \<longleftrightarrow>
     (\<forall>l \<in> set ls. leafError nodes (al_NodeID l) = None \<and> identifierError (al_ScheduleChartID l) = None
        \<and> identifierError (al_ActivityID l) = None)
     \<and> distinct (map activityKey ls) \<and> activityKey ` set ls \<inter> set seen = {}"
  by (induction ls arbitrary: seen) (auto simp: activityKey_def Let_def split: option.splits)

lemma costErrors_None:
  "costErrors nodes seen ls = None \<longleftrightarrow>
     (\<forall>l \<in> set ls. leafError nodes (cl_NodeID l) = None \<and> identifierError (cl_CostEntryID l) = None)
     \<and> distinct (map cl_CostEntryID ls) \<and> cl_CostEntryID ` set ls \<inter> set seen = {}"
  by (induction ls arbitrary: seen) (auto split: option.splits)

definition isLeaf :: "Heap \<Rightarrow> wtree \<Rightarrow> string \<Rightarrow> bool" where
  "isLeaf heap t nid \<longleftrightarrow> (\<exists>x \<in> set (preorder t). nd_ID (heap x) = nid \<and> nd_Children (heap x) = [])"

lemma leafError_None:
  assumes "distinct (map fst (entries heap (preorder t)))" and "\<forall>x \<in> set (preorder t). nodeOK (heap x)"
  shows "leafError (entries heap (preorder t)) nid = None \<longleftrightarrow> isLeaf heap t nid"
proof
  assume "leafError (entries heap (preorder t)) nid = None"
  then obtain n where n: "map_of (entries heap (preorder t)) nid = Some n" "nd_Children n = []"
    by (auto simp: leafError_def split: option.splits if_splits)
  then show "isLeaf heap t nid" by (auto simp: isLeaf_def entries_def dest!: map_of_SomeD)
next
  assume "isLeaf heap t nid"
  then obtain x where x: "x \<in> set (preorder t)" "nd_ID (heap x) = nid" "nd_Children (heap x) = []"
    by (auto simp: isLeaf_def)
  then have "(nid, heap x) \<in> set (entries heap (preorder t))" by (auto simp: entries_def)
  then have "map_of (entries heap (preorder t)) nid = Some (heap x)" using assms(1) by (rule map_of_is_SomeI [rotated])
  moreover have "identifierError nid = None" using assms(2) x by (auto simp: nodeOK_def)
  ultimately show "leafError (entries heap (preorder t)) nid = None" using x by (simp add: leafError_def)
qed

lemma writeAll_iff: "writeAll n sizes \<longleftrightarrow> sum_list sizes \<le> n"
  by (induction n sizes rule: writeAll.induct) auto

lemma encodedSize_None:
  "encodedSize enc heap a = None \<longleftrightarrow> (\<exists>sizes. enc heap a = Some sizes \<and> sum_list sizes \<le> MaxPayloadBytes)"
  by (auto simp: encodedSize_def writeAll_iff split: option.splits)

lemma revisionValue_Some: "revisionValue s = Some v \<longleftrightarrow> s = format_nat (unat v)"
proof
  assume "revisionValue s = Some v"
  then show "s = format_nat (unat v)" by (auto simp: revisionValue_def FormatUint64_def split: option.splits if_splits)
next
  assume s: "s = format_nat (unat v)"
  have "unat v < 2 ^ 64" using unsigned_less [of v] by simp
  then have "ParseUint64 s = Some v" unfolding s by (simp add: ParseUint64_Format)
  then show "revisionValue s = Some v" by (simp add: revisionValue_def FormatUint64_def s)
qed

lemma revisionValue_None: "revisionValue s = None \<longleftrightarrow> \<not> (\<exists>n < 2 ^ 64. s = format_nat n)"
proof -
  have "(\<exists>n < 2 ^ 64. s = format_nat n) \<longleftrightarrow> (\<exists>v :: uint64. s = format_nat (unat v))"
  proof
    assume "\<exists>n < 2 ^ 64. s = format_nat n"
    then obtain n where "n < 2 ^ 64" "s = format_nat n" by blast
    then show "\<exists>v :: uint64. s = format_nat (unat v)" by (metis unat_of_nat_uint64)
  next
    assume "\<exists>v :: uint64. s = format_nat (unat v)"
    then obtain v :: uint64 where "s = format_nat (unat v)" by blast
    moreover have "unat v < 2 ^ 64" using unsigned_less [of v] by simp
    ultimately show "\<exists>n < 2 ^ 64. s = format_nat n" by blast
  qed
  then show ?thesis using revisionValue_Some by (metis not_None_eq)
qed

subsection \<open>Properties\<close>

text \<open>What a sound scope tree is.\<close>

definition soundScope :: "Heap \<Rightarrow> Aggregate \<Rightarrow> wtree \<Rightarrow> bool" where
  "soundScope heap a t \<longleftrightarrow>
     ag_Root a = Some (addrOf t) \<and> treeAt heap t \<and> depth t \<le> MaxLevels \<and> length (preorder t) \<le> MaxNodes
     \<and> distinct (map (\<lambda>x. nd_ID (heap x)) (preorder t)) \<and> list_all (\<lambda>x. nodeOK (heap x)) (preorder t)
     \<and> list_all (\<lambda>l. isLeaf heap t (al_NodeID l) \<and> identifierError (al_ScheduleChartID l) = None
          \<and> identifierError (al_ActivityID l) = None) (ag_ActivityLinks a)
     \<and> distinct (map activityKey (ag_ActivityLinks a))
     \<and> list_all (\<lambda>l. isLeaf heap t (cl_NodeID l) \<and> identifierError (cl_CostEntryID l) = None) (ag_CostLinks a)
     \<and> distinct (map cl_CostEntryID (ag_CostLinks a))"

lemma entries_keys: "map fst (entries heap xs) = map (\<lambda>x. nd_ID (heap x)) xs"
  by (simp add: entries_def comp_def)

lemma walk_root_iff:
  "walk heap [(Some r, 1)] [] = Inr nodes \<longleftrightarrow>
     (\<exists>t. addrOf t = r \<and> treeAt heap t \<and> depth t \<le> MaxLevels \<and> length (preorder t) \<le> MaxNodes
        \<and> distinct (map (\<lambda>x. nd_ID (heap x)) (preorder t)) \<and> (\<forall>x \<in> set (preorder t). nodeOK (heap x))
        \<and> nodes = entries heap (preorder t))" (is "?w \<longleftrightarrow> (\<exists>t. ?ok t)")
proof
  assume ?w
  then obtain ts where "list_all2 (fitsAt heap) [(Some r, 1)] ts" "nodes = entries heap (concat (map preorder ts))"
    "distinct (map fst nodes)" "length nodes \<le> MaxNodes"
    using walk_sound [of heap "[(Some r, 1)]" "[]" nodes] by auto
  then show "\<exists>t. ?ok t"
    by (auto simp: list_all2_Cons1 fitsAt_def entries_keys entries_def comp_def)
next
  assume "\<exists>t. ?ok t"
  then obtain t where ok: "?ok t" by blast
  then have "list_all2 (fitsAt heap) [(Some r, 1)] [t]" by (simp add: fitsAt_def)
  from walk_complete [OF this, of "[]"] ok show ?w by (simp add: entries_keys)
qed

lemma Validate_iff:
  "Validate enc heap a = None \<longleftrightarrow>
     ag_SchemaVersion a = SchemaVersion \<and> (\<exists>n < 2 ^ 64. ag_Revision a = format_nat n)
     \<and> length (ag_ActivityLinks a) + length (ag_CostLinks a) \<le> MaxAssociations
     \<and> (\<exists>t. soundScope heap a t)
     \<and> (\<exists>sizes. enc heap a = Some sizes \<and> sum_list sizes \<le> MaxPayloadBytes)"
proof (cases "ag_Root a")
  case None
  then show ?thesis by (simp add: Validate_def soundScope_def)
next
  case (Some r)
  let ?links = "\<lambda>nodes. activityErrors nodes [] (ag_ActivityLinks a) = None \<and> costErrors nodes [] (ag_CostLinks a) = None"
  have "Validate enc heap a = None \<longleftrightarrow>
      ag_SchemaVersion a = SchemaVersion \<and> revisionValue (ag_Revision a) \<noteq> None
      \<and> length (ag_ActivityLinks a) + length (ag_CostLinks a) \<le> MaxAssociations
      \<and> (\<exists>nodes. walk heap [(Some r, 1)] [] = Inr nodes \<and> ?links nodes) \<and> encodedSize enc heap a = None"
    using Some by (auto simp: Validate_def split: option.splits sum.splits)
  moreover have "(\<exists>nodes. walk heap [(Some r, 1)] [] = Inr nodes \<and> ?links nodes) \<longleftrightarrow> (\<exists>t. soundScope heap a t)"
  proof -
    have "?links (entries heap (preorder t)) \<longleftrightarrow>
        list_all (\<lambda>l. isLeaf heap t (al_NodeID l) \<and> identifierError (al_ScheduleChartID l) = None
          \<and> identifierError (al_ActivityID l) = None) (ag_ActivityLinks a)
        \<and> distinct (map activityKey (ag_ActivityLinks a))
        \<and> list_all (\<lambda>l. isLeaf heap t (cl_NodeID l) \<and> identifierError (cl_CostEntryID l) = None) (ag_CostLinks a)
        \<and> distinct (map cl_CostEntryID (ag_CostLinks a))"
      if "distinct (map (\<lambda>x. nd_ID (heap x)) (preorder t))" "\<forall>x \<in> set (preorder t). nodeOK (heap x)" for t
      using leafError_None [of heap t] that by (simp add: activityErrors_None costErrors_None list_all_iff entries_keys)
    then show ?thesis unfolding walk_root_iff soundScope_def Some list_all_iff by blast
  qed
  ultimately show ?thesis
    unfolding encodedSize_None revisionValue_None [of "ag_Revision a"] not_not by (simp only:)
qed

lemma validate_sound:
  "Validate enc heap a = None \<Longrightarrow> (\<exists>t. soundScope heap a t) \<and> (\<exists>n < 2 ^ 64. ag_Revision a = format_nat n)"
  unfolding Validate_iff by blast

text \<open>
  C23. Validation always ends, on any store, and accepts exactly the sound aggregates: the
  schema is known, the revision is a canonical unsigned 64-bit number, the associations are
  within their limit, the nodes reached from the root form a tree (nothing nil, shared or
  cyclic) of at most 64 levels and 10000 nodes with distinct identifiers and sound fields,
  each association names a leaf and is not repeated, and the encoding fits the payload.
\<close>

theorem wbs_validate_exact:
  "Validate enc heap a = None \<longleftrightarrow>
     ag_SchemaVersion a = SchemaVersion \<and> (\<exists>n < 2 ^ 64. ag_Revision a = format_nat n)
     \<and> length (ag_ActivityLinks a) + length (ag_CostLinks a) \<le> MaxAssociations
     \<and> (\<exists>t. soundScope heap a t)
     \<and> (\<exists>sizes. enc heap a = Some sizes \<and> sum_list sizes \<le> MaxPayloadBytes)"
  by (rule Validate_iff)

text \<open>
  Revisions count. The next revision of a canonical number below the largest unsigned
  64-bit number is the canonical text of its successor, the largest is exhausted, and every
  other text is refused. A write context is accepted exactly when both identities are the
  same and sound, and the revision is canonical and the expected one.
\<close>

theorem wbs_revision:
  "NextRevision s =
     (if \<exists>n < 2 ^ 64 - 1. s = format_nat n then Inr (format_nat (parse_nat s + 1))
      else if s = format_nat (2 ^ 64 - 1) then Inl ErrRevisionOverflow else Inl ErrRevision)
   \<and> (CheckWriteContext current requested revision expected = None \<longleftrightarrow>
        current = requested \<and> list_all (\<lambda>f. identifierError f = None) (identityFields current)
        \<and> revision = expected \<and> (\<exists>n < 2 ^ 64. revision = format_nat n))"
proof
  have max: "unat MaxUint64 = 2 ^ 64 - 1" by (simp add: MaxUint64_def unsigned_minus_1_eq_mask mask_eq_exp_minus_1)
  have "NextRevision s = Inr (format_nat (parse_nat s + 1))" if n: "n < 2 ^ 64 - 1" "s = format_nat n" for n
  proof -
    have u: "unat (of_nat n :: uint64) = n" using n by (intro unat_of_nat_uint64) simp
    have "revisionValue s = Some (of_nat n)" unfolding revisionValue_Some u n(2) ..
    moreover have "(of_nat n :: uint64) \<noteq> MaxUint64" using u max n by (metis less_irrefl)
    moreover have "unat ((of_nat n :: uint64) + 1) = n + 1"
      using unat_of_nat_uint64 [of "n + 1"] n by (simp add: add.commute)
    ultimately show ?thesis by (simp add: NextRevision_def FormatUint64_def n)
  qed
  moreover have "NextRevision (format_nat (2 ^ 64 - 1)) = Inl ErrRevisionOverflow"
    using revisionValue_Some [of "format_nat (2 ^ 64 - 1)" MaxUint64] max by (simp add: NextRevision_def)
  moreover have "NextRevision s = Inl ErrRevision" if "\<not> (\<exists>n < 2 ^ 64 - 1. s = format_nat n)" "s \<noteq> format_nat (2 ^ 64 - 1)"
  proof -
    have "n < 2 ^ 64 - 1 \<or> n = 2 ^ 64 - 1" if "n < 2 ^ 64" for n :: nat using that by linarith
    then have "\<not> (\<exists>n < 2 ^ 64. s = format_nat n)" using \<open>\<not> (\<exists>n < 2 ^ 64 - 1. s = format_nat n)\<close> \<open>s \<noteq> _\<close> by blast
    then show ?thesis using revisionValue_None [of s] by (simp add: NextRevision_def)
  qed
  ultimately show "NextRevision s =
     (if \<exists>n < 2 ^ 64 - 1. s = format_nat n then Inr (format_nat (parse_nat s + 1))
      else if s = format_nat (2 ^ 64 - 1) then Inl ErrRevisionOverflow else Inl ErrRevision)"
    by auto
  have fe: "firstError identifierError fs = None \<longleftrightarrow> list_all (\<lambda>f. identifierError f = None) fs" for fs
    by (induction fs) (auto split: option.splits)
  show "CheckWriteContext current requested revision expected = None \<longleftrightarrow>
        current = requested \<and> list_all (\<lambda>f. identifierError f = None) (identityFields current)
        \<and> revision = expected \<and> (\<exists>n < 2 ^ 64. revision = format_nat n)"
  proof -
    have "CheckWriteContext current requested revision expected = None \<longleftrightarrow>
        firstError identifierError (identityFields current @ identityFields requested) = None
        \<and> revisionValue revision \<noteq> None \<and> revisionValue expected \<noteq> None \<and> current = requested \<and> revision = expected"
      unfolding CheckWriteContext_def by (simp split: option.split)
    then show ?thesis unfolding fe revisionValue_None by auto
  qed
qed

lemma preflightLoop_ok:
  "preflightLoop first objects tokens eof = None \<Longrightarrow>
     eof \<and> tokens \<noteq> [] \<and> (first \<longrightarrow> fst (hd tokens) = BeginObject) \<and> snd (last tokens) = 0
     \<and> list_all (\<lambda>(kind, d). kind \<noteq> NullToken \<and> d \<le> 2 * MaxLevels + 2) tokens"
  by (induction first objects tokens eof rule: preflightLoop.induct) (auto simp: Let_def split: if_splits)

text \<open>
  What parsing lets in. An aggregate that \<^const>\<open>Parse\<close> returns is sound: its
  scope is a tree within the limits with sound associations, at a canonical revision. No
  other result carries an aggregate, whatever the decoder made of the text.
\<close>

theorem wbs_parse_sound:
  assumes "Parse dec enc raw = Inr (heap, a)"
  shows "length raw \<le> MaxPayloadBytes \<and> (\<exists>t. soundScope heap a t) \<and> (\<exists>n < 2 ^ 64. ag_Revision a = format_nat n)
    \<and> (\<exists>tokens. jd_tokens dec raw = (tokens, True) \<and> tokens \<noteq> [] \<and> fst (hd tokens) = BeginObject \<and> snd (last tokens) = 0
         \<and> list_all (\<lambda>(kind, d). kind \<noteq> NullToken \<and> d \<le> 2 * MaxLevels + 2) tokens)"
proof -
  have v: "length raw \<le> MaxPayloadBytes" "preflight dec raw = None" "Validate enc heap a = None"
    using assms by (auto simp: Parse_def split: if_splits option.splits)
  obtain tokens eof where t: "jd_tokens dec raw = (tokens, eof)" by fastforce
  have "eof \<and> tokens \<noteq> [] \<and> fst (hd tokens) = BeginObject \<and> snd (last tokens) = 0
         \<and> list_all (\<lambda>(kind, d). kind \<noteq> NullToken \<and> d \<le> 2 * MaxLevels + 2) tokens"
    using preflightLoop_ok [of True 0 tokens eof] v(2) by (simp add: preflight_def t)
  with v t show ?thesis using validate_sound [OF v(3)] by simp
qed

subsection \<open>A small scope\<close>

definition toy_node :: Node where
  "toy_node = \<lparr>nd_ID = ''root'', nd_Title = ''Bridge'', nd_Number = ''1'', nd_Note = [], nd_Owner = [], nd_Effort = Finite 3,
     nd_Classification = [], nd_Dictionary = None, nd_Children = []\<rparr>"

definition toy_heap :: Heap where
  "toy_heap = (\<lambda>_. toy_node)"

definition toy_aggregate :: Aggregate where
  "toy_aggregate = \<lparr>ag_SchemaVersion = 2, ag_Revision = ''7'', ag_Root = Some 0,
     ag_ActivityLinks = [\<lparr>al_NodeID = ''root'', al_ScheduleChartID = ''s'', al_ActivityID = ''a''\<rparr>], ag_CostLinks = []\<rparr>"

definition toy_decoder :: Decoder where
  "toy_decoder = \<lparr>jd_tokens = (\<lambda>_. ([(BeginObject, 1), (OtherToken, 0)], True)),
     jd_decode = (\<lambda>_. Some (toy_heap, toy_aggregate))\<rparr>"

definition toy_encoder :: Encoder where
  "toy_encoder = (\<lambda>_ _. Some [40])"

theorem wbs_parse_sound_witness:
  "Validate toy_encoder toy_heap toy_aggregate = None \<and> (\<exists>t. soundScope toy_heap toy_aggregate t)"
proof -
  have utf: "valid_utf8 ''root''" "valid_utf8 ''Bridge''" "valid_utf8 ''1''" "valid_utf8 []" "valid_utf8 ''s''" "valid_utf8 ''a''"
    by (simp_all add: valid_utf8_def)
  have trim: "TrimSpace ''root'' \<noteq> []" "TrimSpace ''s'' \<noteq> []" "TrimSpace ''a'' \<noteq> []"
    by (simp_all add: TrimSpace_token is_token_char_def)
  have "soundScope toy_heap toy_aggregate (WTree 0 [])"
    using utf trim by (simp add: soundScope_def toy_heap_def toy_aggregate_def toy_node_def nodeOK_def isLeaf_def identifierError_def
        nodeError_def textError_def dictionaryTexts_def activityKey_def MaxLevels_def MaxNodes_def MaxTextBytes_def MaxIdentifierBytes_def)
  moreover have "''7'' = format_nat 7" by code_simp
  ultimately have v: "Validate toy_encoder toy_heap toy_aggregate = None"
    unfolding Validate_iff by (auto simp: toy_encoder_def toy_aggregate_def SchemaVersion_def MaxAssociations_def MaxPayloadBytes_def
        intro!: exI [of _ 7])
  have "preflight toy_decoder ''{}'' = None"
    by (simp add: preflight_def toy_decoder_def isString_def MaxLevels_def MaxNodes_def Let_def)
  then have "Parse toy_decoder toy_encoder ''{}'' = Inr (toy_heap, toy_aggregate)"
    using v by (simp add: Parse_def toy_decoder_def MaxPayloadBytes_def)
  from wbs_parse_sound [OF this] v show ?thesis by blast
qed

end
