(* ===== verification/Tollgate.thy ===== *)
theory Tollgate
  imports Float64 "HOL-Library.Multiset"
begin

text \<open>
  The phase gates of the Six Sigma workspace: \<^verbatim>\<open>internal/sigma/tollgate/readiness.go\<close>
  over the data of \<^verbatim>\<open>internal/sigma/domain\<close>, and the Pareto ranking of
  \<^verbatim>\<open>internal/sigma/charts/pareto.go\<close>. The lemmas say which checks a phase needs to
  pass, as opposed to the rounded percentage the code compares, and what the Pareto items
  add up to.
\<close>

subsection \<open>Model: data\<close>

record CTQ =
  ctq_CustomerNeed :: string
  ctq_CTQ :: string
  ctq_LowerSpec :: float64
  ctq_UpperSpec :: float64

record Charter =
  ch_ID :: string
  ch_ProjectID :: string
  ch_ProblemStatement :: string
  ch_BusinessCase :: string
  ch_GoalStatement :: string
  ch_ScopeIn :: "string list"
  ch_ScopeOut :: "string list"
  ch_CTQs :: "CTQ list"
  ch_Sponsor :: string
  ch_UpdatedAt :: int

record SIPOCElement =
  se_ID :: string
  se_Category :: string
  se_Description :: string
  se_Owner :: string
  se_Requirements :: string
  se_Order :: int

record SIPOCData =
  sd_ProjectID :: string
  sd_ProcessName :: string
  sd_ProcessScope :: string
  sd_StartTrigger :: string
  sd_EndTrigger :: string
  sd_Elements :: "SIPOCElement list"

record VoCEntry =
  vo_ID :: string
  vo_CustomerNeed :: string
  vo_CTQ :: string
  vo_LowerSpec :: float64
  vo_UpperSpec :: float64
  vo_Measurement :: string
  vo_DataCollection :: string
  vo_Priority :: int
  vo_Source :: string

record VoCData =
  vd_ProjectID :: string
  vd_Entries :: "VoCEntry list"

record Cause =
  ca_ID :: string
  ca_Description :: string
  ca_IsRootCause :: bool
  ca_FiveWhys :: "string list"
  ca_Evidence :: string

record FishboneBranch =
  fb_Category :: string
  fb_Causes :: "Cause list"

record FishboneData =
  fd_ProblemStatement :: string
  fd_Branches :: "FishboneBranch list"

record Solution =
  so_ID :: string
  so_Title :: string
  so_Description :: string
  so_Impact :: int
  so_Effort :: int
  so_Risk :: int
  so_Cost :: float64
  so_Selected :: bool
  so_Status :: string

record ControlPlanItem =
  cp_ID :: string
  cp_ProcessStep :: string
  cp_Metric :: string
  cp_Specification :: string
  cp_MeasurementMethod :: string
  cp_Frequency :: string
  cp_Owner :: string
  cp_ResponsePlan :: string

record Check =
  ck_Name :: string
  ck_Passed :: bool
  ck_Message :: string

record Result =
  rs_Score :: float64
  rs_CanAdvance :: bool
  rs_Checks :: "Check list"
  rs_MissingList :: string

definition PhaseDefine :: string where "PhaseDefine = ''define''"
definition PhaseMeasure :: string where "PhaseMeasure = ''measure''"
definition PhaseAnalyze :: string where "PhaseAnalyze = ''analyze''"
definition PhaseImprove :: string where "PhaseImprove = ''improve''"
definition PhaseControl :: string where "PhaseControl = ''control''"

subsection \<open>Model: scoring\<close>

text \<open>The loop every gate ends with.\<close>

fun tally :: "Check list \<Rightarrow> int \<Rightarrow> string list \<Rightarrow> int \<times> string list" where
  "tally [] passed missing = (passed, missing)"
| "tally (c # cs) passed missing =
     (if ck_Passed c then tally cs (passed + 1) missing else tally cs passed (missing @ [ck_Name c]))"

definition scored :: "float64 \<Rightarrow> Check list \<Rightarrow> Result" where
  "scored threshold checks =
     (let (passed, missing) = tally checks 0 [];
          score = fmul (fdiv (float_of_int passed) (float_of_int (int (length checks)))) 100
      in \<lparr>rs_Score = score, rs_CanAdvance = (score \<ge> threshold), rs_Checks = checks,
          rs_MissingList = Join missing '', ''\<rparr>)"

definition refused :: "string \<Rightarrow> string \<Rightarrow> Result" where
  "refused name message =
     \<lparr>rs_Score = 0, rs_CanAdvance = False,
      rs_Checks = [\<lparr>ck_Name = name, ck_Passed = False, ck_Message = message\<rparr>], rs_MissingList = []\<rparr>"

subsection \<open>Model: the gates\<close>

definition hasCTQs :: "VoCData option \<Rightarrow> bool" where
  "hasCTQs voc =
     (case voc of None \<Rightarrow> False
      | Some v \<Rightarrow> list_ex (\<lambda>e. length (TrimSpace (vo_CTQ e)) > 0 \<and> (vo_LowerSpec e \<noteq> 0 \<or> vo_UpperSpec e \<noteq> 0)) (vd_Entries v))"

definition defineChecks :: "Charter \<Rightarrow> SIPOCData option \<Rightarrow> VoCData option \<Rightarrow> Check list" where
  "defineChecks c sipoc voc =
     [\<lparr>ck_Name = ''Problem Statement'', ck_Passed = length (TrimSpace (ch_ProblemStatement c)) \<ge> 20,
       ck_Message = ''Must clearly describe what, where, when, and magnitude (min 20 chars).''\<rparr>,
      \<lparr>ck_Name = ''Business Case'', ck_Passed = length (TrimSpace (ch_BusinessCase c)) \<ge> 10,
       ck_Message = ''Explain why this matters to the organization.''\<rparr>,
      \<lparr>ck_Name = ''Goal Statement'', ck_Passed = length (TrimSpace (ch_GoalStatement c)) \<ge> 10,
       ck_Message = ''Define target improvement with measurable outcome.''\<rparr>,
      \<lparr>ck_Name = ''Sponsor Assigned'', ck_Passed = length (TrimSpace (ch_Sponsor c)) \<ge> 3,
       ck_Message = ''A sponsor must be identified.''\<rparr>,
      \<lparr>ck_Name = ''Scope Defined'', ck_Passed = length (ch_ScopeIn c) > 0,
       ck_Message = ''At least one 'In Scope' item required.''\<rparr>,
      \<lparr>ck_Name = ''SIPOC Diagram'',
       ck_Passed = (case sipoc of None \<Rightarrow> False | Some s \<Rightarrow> length (sd_Elements s) \<ge> 5),
       ck_Message = ''Add at least one element to each SIPOC category (5 minimum).''\<rparr>,
      \<lparr>ck_Name = ''CTQs Defined'', ck_Passed = hasCTQs voc,
       ck_Message = ''Define at least one CTQ with spec limits from Voice of Customer.''\<rparr>]"

definition CheckDefineReadiness :: "Charter \<Rightarrow> SIPOCData option \<Rightarrow> VoCData option \<Rightarrow> Result" where
  "CheckDefineReadiness c sipoc voc = scored 80 (defineChecks c sipoc voc)"

definition CheckAnalyzeReadiness :: "FishboneData option \<Rightarrow> Result" where
  "CheckAnalyzeReadiness fb =
     (case fb of None \<Rightarrow> refused ''Fishbone Diagram'' ''Create a Fishbone diagram.''
      | Some f \<Rightarrow>
        (let hasCauses = list_ex (\<lambda>b. length (fb_Causes b) > 0) (fd_Branches f);
             hasFiveWhys = list_ex (\<lambda>b. list_ex (\<lambda>c. length (ca_FiveWhys c) \<ge> 3) (fb_Causes b)) (fd_Branches f)
         in scored 100
              [\<lparr>ck_Name = ''Fishbone Diagram'', ck_Passed = hasCauses, ck_Message = ''Add at least one cause to the diagram.''\<rparr>,
               \<lparr>ck_Name = ''5 Whys Drill-Down'', ck_Passed = hasFiveWhys,
                ck_Message = ''Complete at least one 5 Whys drill-down (3 levels).''\<rparr>]))"

definition CheckImproveReadiness :: "Solution list \<Rightarrow> Result" where
  "CheckImproveReadiness solutions =
     (if solutions = [] then refused ''Solution Matrix'' ''Add potential solutions to the matrix.''
      else
        (let hasSelected = list_ex so_Selected solutions;
             hasImpactEffort = list_ex (\<lambda>s. so_Impact s > 0 \<and> so_Effort s > 0) solutions
         in scored 100
              [\<lparr>ck_Name = ''Solutions Added'', ck_Passed = length solutions \<ge> 2, ck_Message = ''Add at least 2 potential solutions.''\<rparr>,
               \<lparr>ck_Name = ''Impact/Effort Scored'', ck_Passed = hasImpactEffort,
                ck_Message = ''Score solutions on impact and effort (1-10).''\<rparr>,
               \<lparr>ck_Name = ''Solution Selected'', ck_Passed = hasSelected,
                ck_Message = ''Select at least one solution for implementation.''\<rparr>]))"

definition CheckControlReadiness :: "ControlPlanItem list \<Rightarrow> Result" where
  "CheckControlReadiness items =
     (if items = [] then refused ''Control Plan'' ''Add control plan items.''
      else
        (let hasOwner = list_ex (\<lambda>i. length (TrimSpace (cp_Owner i)) > 0) items;
             hasResponsePlan = list_ex (\<lambda>i. length (TrimSpace (cp_ResponsePlan i)) > 0) items
         in scored 100
              [\<lparr>ck_Name = ''Control Items Added'', ck_Passed = length items \<ge> 1, ck_Message = ''Add at least 1 control plan item.''\<rparr>,
               \<lparr>ck_Name = ''Owners Assigned'', ck_Passed = hasOwner, ck_Message = ''Assign an owner to each control item.''\<rparr>,
               \<lparr>ck_Name = ''Response Plans Defined'', ck_Passed = hasResponsePlan,
                ck_Message = ''Define a response plan for out-of-control conditions.''\<rparr>]))"

definition CheckPhase ::
  "string \<Rightarrow> Charter \<Rightarrow> SIPOCData option \<Rightarrow> VoCData option \<Rightarrow> FishboneData option \<Rightarrow> Solution list \<Rightarrow> ControlPlanItem list \<Rightarrow> Result"
where
  "CheckPhase phase charter sipoc voc fishbone solutions controlPlan =
     (if phase = PhaseDefine then CheckDefineReadiness charter sipoc voc
      else if phase = PhaseAnalyze then CheckAnalyzeReadiness fishbone
      else if phase = PhaseImprove then CheckImproveReadiness solutions
      else if phase = PhaseControl then CheckControlReadiness controlPlan
      else \<lparr>rs_Score = 100, rs_CanAdvance = True,
            rs_Checks = [\<lparr>ck_Name = ''Phase '' @ phase, ck_Passed = True, ck_Message = ''Auto-approved in MVP 1''\<rparr>],
            rs_MissingList = []\<rparr>)"

subsection \<open>Model: Pareto ranking\<close>

record ParetoItem =
  pa_Category :: string
  pa_Count :: int
  pa_Percentage :: float64
  pa_CumulativePercentage :: float64

datatype pareto_error = LengthMismatch | EmptyInput | ZeroTotal

fun paretoItems :: "int \<Rightarrow> int \<Rightarrow> (string \<times> int) list \<Rightarrow> ParetoItem list" where
  "paretoItems tot cumulative0 [] = []"
| "paretoItems tot cumulative0 ((cat, n) # ps) =
     (let cumulative = wrap_int64 (cumulative0 + n) in
      \<lparr>pa_Category = cat, pa_Count = n,
       pa_Percentage = fmul (fdiv (float_of_int n) (float_of_int tot)) 100,
       pa_CumulativePercentage = fmul (fdiv (float_of_int cumulative) (float_of_int tot)) 100\<rparr>
      # paretoItems tot cumulative ps)"

definition CalculatePareto :: "string list \<Rightarrow> int list \<Rightarrow> pareto_error + ParetoItem list" where
  "CalculatePareto categories counts =
     (if length categories \<noteq> length counts then Inl LengthMismatch
      else if categories = [] then Inl EmptyInput
      else
        (let tot = foldl (\<lambda>t c. wrap_int64 (t + c)) 0 counts in
         if tot = 0 then Inl ZeroTotal
         else Inr (paretoItems tot 0 (sort_key (\<lambda>p. - snd p) (zip categories counts)))))"

subsection \<open>What a score of a gate means\<close>

definition passes :: "Check list \<Rightarrow> nat" where "passes cs = length (filter ck_Passed cs)"

lemma tally_eq:
  "tally cs passed missing =
     (passed + int (length (filter ck_Passed cs)), missing @ map ck_Name (filter (\<lambda>c. \<not> ck_Passed c) cs))"
  by (induction cs arbitrary: passed missing) auto

lemma scored_simps:
  "rs_CanAdvance (scored th cs) \<longleftrightarrow>
     th \<le> fmul (fdiv (float_of_int (int (passes cs))) (float_of_int (int (length cs)))) 100"
  "rs_MissingList (scored th cs) = Join (map ck_Name (filter (\<lambda>c. \<not> ck_Passed c) cs)) '', ''"
  "rs_Checks (scored th cs) = cs"
  by (simp_all add: scored_def tally_eq passes_def Let_def)

text \<open>The rounded percentages, for the sizes the gates have.\<close>

lemma score_7: "list_all (\<lambda>k. (80 \<le> fmul (fdiv (float_of_int (int k)) (float_of_int 7)) 100) = (6 \<le> k)) [0..<8]"
  by code_simp

lemma score_3: "list_all (\<lambda>k. (100 \<le> fmul (fdiv (float_of_int (int k)) (float_of_int 3)) 100) = (k = 3)) [0..<4]"
  by code_simp

lemma score_2: "list_all (\<lambda>k. (100 \<le> fmul (fdiv (float_of_int (int k)) (float_of_int 2)) 100) = (k = 2)) [0..<3]"
  by code_simp

lemma passes_le: "passes cs \<le> length cs"
  by (simp add: passes_def)

lemma passes_all: "passes cs = length cs \<longleftrightarrow> list_all ck_Passed cs"
  unfolding passes_def list_all_iff by (metis filter_True filter_id_conv length_filter_less nat_less_le)

lemma scored_80: "length cs = 7 \<Longrightarrow> rs_CanAdvance (scored 80 cs) \<longleftrightarrow> 6 \<le> passes cs"
  using score_7 passes_le [of cs] unfolding list_all_iff scored_simps by auto

lemma scored_all:
  "length cs = 3 \<Longrightarrow> rs_CanAdvance (scored 100 cs) \<longleftrightarrow> list_all ck_Passed cs"
  "length cs = 2 \<Longrightarrow> rs_CanAdvance (scored 100 cs) \<longleftrightarrow> list_all ck_Passed cs"
  using score_3 score_2 passes_le [of cs] passes_all [of cs] unfolding list_all_iff [of _ "upt _ _"] scored_simps by auto


definition ownerless_plan :: "ControlPlanItem list" where
  "ownerless_plan =
     (let item = \<lambda>k o' r. \<lparr>cp_ID = k, cp_ProcessStep = [], cp_Metric = [], cp_Specification = [],
                     cp_MeasurementMethod = [], cp_Frequency = [], cp_Owner = o', cp_ResponsePlan = r\<rparr>
      in [item ''a'' ''Ann'' ''stop the line'', item ''b'' [] []])"

text \<open>
  The Control gate opens on a plan in which one item has neither an owner nor a response
  plan: an owner and a response plan anywhere in the plan are enough, although the check's
  message asks for an owner of each item.
\<close>

theorem tollgate_control_any_owner:
  "rs_CanAdvance (CheckControlReadiness ownerless_plan) \<and> rs_Score (CheckControlReadiness ownerless_plan) = 100
   \<and> rs_MissingList (CheckControlReadiness ownerless_plan) = []
   \<and> (\<exists>i \<in> set ownerless_plan. cp_Owner i = [] \<and> cp_ResponsePlan i = [])"
  by code_simp

subsection \<open>What the Pareto items add up to\<close>

lemma paretoItems_map:
  "map pa_Category (paretoItems t c ps) = map fst ps \<and> map pa_Count (paretoItems t c ps) = map snd ps"
  by (induction ps arbitrary: c) (auto simp: Let_def)

lemma fold_wrap: "list_all ((\<le>) 0) ns \<Longrightarrow> 0 \<le> t \<Longrightarrow> t + sum_list ns < 2 ^ 63
  \<Longrightarrow> foldl (\<lambda>t c. wrap_int64 (t + c)) t ns = t + sum_list ns"
proof (induction ns arbitrary: t)
  case (Cons n ns)
  have nonneg: "0 \<le> sum_list ns" using Cons.prems(1) by (auto simp: list_all_iff intro: sum_list_nonneg)
  then have "wrap_int64 (t + n) = t + n" using Cons.prems
    by (intro wrap_int64_id) (simp add: is_int64_def MinInt64_def MaxInt64_def)
  then show ?case using Cons by (simp add: add.assoc)
qed simp

text \<open>The share of a running total, as the code rounds it.\<close>

definition share :: "int \<Rightarrow> int \<Rightarrow> float64" where
  "share tot n = fmul (fdiv (float_of_int n) (float_of_int tot)) 100"

lemma share_mono: "0 < tot \<Longrightarrow> m \<le> n \<Longrightarrow> share tot m \<le> share tot n"
  unfolding share_def fmul_def fdiv_def float_of_int_def
  by (intro f64_mono mult_right_mono divide_right_mono) auto

lemma share_bounds [simp]: "share tot 0 = 0" "0 < tot \<Longrightarrow> share tot tot = 100"
  using f64_pos [of "of_int tot"] f64_numeral [of "Num.num.Bit0 (num.Bit0 (num.Bit1 (num.Bit0 (num.Bit0 (num.Bit1 num.One)))))"]
  by (auto simp: share_def fmul_def fdiv_def float_of_int_def)

lemma paretoItems_cumulative:
  assumes "list_all ((\<le>) 0) (map snd ps)" "0 \<le> c" "0 < t" "c + sum_list (map snd ps) = t" "t < 2 ^ 63" "ps \<noteq> []"
  shows "sorted (share t c # map pa_CumulativePercentage (paretoItems t c ps))
    \<and> pa_CumulativePercentage (last (paretoItems t c ps)) = 100"
  using assms
proof (induction ps arbitrary: c)
  case (Cons p ps)
  obtain k n where p: "p = (k, n)" by (cases p)
  have n: "0 \<le> n" "0 \<le> sum_list (map snd ps)"
    using Cons.prems(1) by (auto simp: p list_all_iff intro!: sum_list_nonneg)
  then have w: "wrap_int64 (c + n) = c + n"
    using Cons.prems by (intro wrap_int64_id) (simp add: is_int64_def MinInt64_def MaxInt64_def p)
  show ?case
  proof (cases "ps = []")
    case True
    with Cons.prems have t: "c + n = t" by (simp add: p)
    then have "wrap_int64 t = t" using w by simp
    then show ?thesis using share_mono [of t c t] n t Cons.prems(2,3) by (simp add: True p flip: share_def)
  next
    case False
    then have "sorted (share t (c + n) # map pa_CumulativePercentage (paretoItems t (c + n) ps))
      \<and> pa_CumulativePercentage (last (paretoItems t (c + n) ps)) = 100"
      using Cons.IH [of "c + n"] Cons.prems n by (simp add: p add.assoc)
    moreover have "share t c \<le> share t (c + n)" using n Cons.prems(3) by (intro share_mono) auto
    moreover have "paretoItems t (c + n) ps \<noteq> []" using False by (cases ps) (auto simp: Let_def)
    ultimately show ?thesis by (auto simp: p w Let_def simp flip: share_def)
  qed
qed simp

text \<open>
  For counts that are not negative and whose sum is a positive int, the Pareto ranking
  succeeds: it holds every category with its count once, in descending order of count, its
  cumulative percentages rise from the first bar to the last, never leave 0 to 100, and end
  at exactly 100 in spite of the rounding of every quotient.
\<close>

theorem pareto_ranking:
  assumes "length categories = length counts" "list_all ((\<le>) 0) counts" "0 < sum_list counts" "sum_list counts < 2 ^ 63"
  shows "\<exists>items. CalculatePareto categories counts = Inr items
    \<and> mset (map (\<lambda>i. (pa_Category i, pa_Count i)) items) = mset (zip categories counts)
    \<and> sorted_wrt (\<ge>) (map pa_Count items)
    \<and> sorted (map pa_CumulativePercentage items) \<and> (\<forall>i \<in> set items. 0 \<le> pa_CumulativePercentage i)
    \<and> pa_CumulativePercentage (last items) = 100"
proof -
  define ps where "ps = sort_key (\<lambda>p. - snd p) (zip categories counts)"
  define items where "items = paretoItems (sum_list counts) 0 ps"
  have ms: "mset ps = mset (zip categories counts)" by (simp add: ps_def)
  have snds: "mset (map snd ps) = mset counts"
    using assms(1) by (metis ms mset_map map_snd_zip)
  then have set_snd: "set (map snd ps) = set counts" by (metis mset_eq_setD)
  have ne: "counts \<noteq> []" "categories \<noteq> []" using assms(1,3) by auto
  have nonneg: "list_all ((\<le>) 0) (map snd ps)" using assms(2) set_snd unfolding list_all_iff by blast
  have tot: "sum_list (map snd ps) = sum_list counts" using snds by (metis sum_mset_sum_list)
  have "CalculatePareto categories counts = Inr items"
    using assms fold_wrap [of counts 0] ne by (simp add: CalculatePareto_def Let_def items_def ps_def)
  moreover have maps: "map pa_Category items = map fst ps" "map pa_Count items = map snd ps"
    using paretoItems_map by (auto simp: items_def)
  have "map (\<lambda>i. (pa_Category i, pa_Count i)) items = zip (map pa_Category items) (map pa_Count items)"
    by (simp add: zip_map_map zip_same_conv_map)
  then have "mset (map (\<lambda>i. (pa_Category i, pa_Count i)) items) = mset (zip categories counts)"
    by (simp add: maps zip_map_fst_snd ms)
  moreover have "sorted_wrt (\<ge>) (map pa_Count items)"
    using sorted_sort_key [of "\<lambda>p. - snd p" "zip categories counts"]
    by (simp add: maps ps_def sorted_wrt_map)
  moreover have "ps \<noteq> []" using ms ne assms(1) by (metis length_0_conv length_zip min.idem mset.simps(1) mset_zero_iff)
  then have cum: "sorted (share (sum_list counts) 0 # map pa_CumulativePercentage items)"
    "pa_CumulativePercentage (last items) = 100"
    using paretoItems_cumulative [of ps 0 "sum_list counts"] assms(3,4) nonneg tot by (auto simp: items_def)
  ultimately show ?thesis by auto
qed

theorem pareto_ranking_witness:
  "\<exists>items. CalculatePareto [''a'', ''b''] [1, 2] = Inr items
    \<and> mset (map (\<lambda>i. (pa_Category i, pa_Count i)) items) = mset [(''a'', 1), (''b'', 2)]
    \<and> pa_CumulativePercentage (last items) = 100"
  using pareto_ranking [of "[''a'', ''b'']" "[1, 2]"] by fastforce

end
