(* ===== verification/ProjectStore.thy ===== *)
theory ProjectStore
  imports AuditChain Budget
begin

text \<open>
  The tables of a project file that cost control writes, and the project row:
  \<^verbatim>\<open>internal/db/project.go\<close> with the reporting currencies of
  \<^verbatim>\<open>internal/db/cost_control.go\<close>. A table is the list of its rows in insertion
  order. One call reads its environment from a \<open>LedgerEnv\<close>: for every storage statement
  whether it succeeds, the random bytes of new identifiers, the clock. A transaction returns
  the changed tables or an error; \<open>transact\<close> keeps the old tables in the second case.
  The formatting of a floating-point number by \<^verbatim>\<open>encoding/json\<close> is an argument.
\<close>

subsection \<open>Model: tables\<close>

record CostType =
  ct_ID :: string
  ct_ProjectID :: string
  ct_Code :: string
  ct_Name :: string
  ct_Attribution :: string
  ct_Behavior :: string
  ct_Treatment :: string
  ct_Active :: bool

record CostEntry =
  ce_ID :: string
  ce_ProjectID :: string
  ce_CostTypeID :: string
  ce_Kind :: string
  ce_CostDate :: string
  ce_Description :: string
  ce_AmountMinorUnits :: int
  ce_QuantityMilliUnits :: int
  ce_Unit :: string
  ce_ItemName :: string
  ce_SKU :: string
  ce_SupplierName :: string
  ce_InvoiceReference :: string
  ce_CreatedAt :: string
  ce_UpdatedAt :: string

record CostReserve =
  cr_ID :: string
  cr_ProjectID :: string
  cr_Kind :: string
  cr_AmountMinorUnits :: int
  cr_Description :: string

record CostBaselineSnapshot =
  cb_ID :: string
  cb_ProjectID :: string
  cb_Version :: int
  cb_CurrencyCode :: string
  cb_PlannedMinorUnits :: int
  cb_ContingencyMinorUnits :: int
  cb_ManagementReserveMinorUnits :: int
  cb_ApprovedBy :: string
  cb_ApprovalNote :: string
  cb_ApprovedAt :: string

record CostEntryAttachment =
  at_ID :: string
  at_ProjectID :: string
  at_CostEntryID :: string
  at_Filename :: string
  at_ContentType :: string
  at_SizeBytes :: int
  at_SHA256 :: string
  at_CreatedAt :: string

text \<open>An attachment row is its metadata and its bytes.\<close>

record Tables =
  tb_project :: "Project list"
  tb_types :: "CostType list"
  tb_entries :: "CostEntry list"
  tb_reserves :: "CostReserve list"
  tb_baselines :: "CostBaselineSnapshot list"
  tb_attachments :: "(CostEntryAttachment \<times> string) list"
  tb_audit :: AuditTable

definition emptyTables :: Tables where
  "emptyTables = \<lparr>tb_project = [], tb_types = [], tb_entries = [], tb_reserves = [], tb_baselines = [],
                  tb_attachments = [], tb_audit = []\<rparr>"

datatype ledger_error =
    ErrNoProject | MissingColumn string | UnsupportedCurrency string | CurrencyLocked
  | EntryFieldsRequired | ZeroAmount | InvalidKind string | InvalidDate
  | FieldTooLong | QuantityRange | QuantityNeedsUnit | ErrNoCostType | CostTypeArchived
  | InvalidReserve | ApprovalFieldsRequired | BaselineNotPositive | MoneyError money_error
  | AttachmentFieldsRequired | ErrAttachmentFilenameInvalid | ErrAttachmentEmpty | ErrAttachmentTooLarge
  | ErrCostEntryNotFound | ErrAttachmentEntryFull | ErrAttachmentProjectBudget | AttachmentNotFound
  | QueryTooLong | QuantityOverflow string string
  | NoRandomBytes | StatementFailed | ConstraintViolated | AuditFailed audit_error

subsection \<open>Model: transactions\<close>

text \<open>
  Statement 0 is \<^verbatim>\<open>Begin\<close>; the others are numbered in the order of the code.
\<close>

record LedgerEnv =
  le_Stmt :: "nat \<Rightarrow> bool"
  le_Random :: "nat \<Rightarrow> string option"
  le_Now :: string
  le_Audit :: TxEnv
  le_Checkpoint :: TxEnv
  le_SignedAt :: string
  le_Commit :: bool

definition transact :: "LedgerEnv \<Rightarrow> Tables \<Rightarrow> ledger_error + 'a \<times> Tables \<Rightarrow> Tables \<times> (ledger_error + 'a)" where
  "transact env t r =
     (case r of Inl err \<Rightarrow> (t, Inl err)
      | Inr (x, t') \<Rightarrow> if le_Commit env then (t', Inr x) else (t, Inl StatementFailed))"

definition freshID :: "LedgerEnv \<Rightarrow> nat \<Rightarrow> string \<Rightarrow> ledger_error + string" where
  "freshID env k pre = (case le_Random env k of None \<Rightarrow> Inl NoRandomBytes | Some bytes \<Rightarrow> Inr (newID pre bytes))"

text \<open>The identifier the caller gave, or a fresh one.\<close>

definition givenID :: "LedgerEnv \<Rightarrow> string \<Rightarrow> string \<Rightarrow> ledger_error + string" where
  "givenID env pre given = (if given = [] then freshID env 0 pre else Inr given)"

definition eventInput :: "string \<Rightarrow> string \<Rightarrow> string \<Rightarrow> string \<Rightarrow> string \<Rightarrow> string \<Rightarrow> string \<Rightarrow> AuditEventInput" where
  "eventInput projectID eventType entityType entityID before after user =
     \<lparr>in_ProjectID = projectID, in_EventType = eventType, in_EntityType = entityType, in_EntityID = entityID,
      in_BeforeJSON = before, in_AfterJSON = after, in_UserID = user, in_SessionID = [],
      in_SignatureStatus = [], in_SignatureBlobOptional = []\<rparr>"

definition recordEvent :: "Digest \<Rightarrow> Recode \<Rightarrow> LedgerEnv \<Rightarrow> AuditEventInput \<Rightarrow> Tables \<Rightarrow> ledger_error + Tables" where
  "recordEvent sha256 recode env i t =
     (case appendAuditEventTx sha256 recode (le_Audit env) (tb_audit t) i of
        Inl err \<Rightarrow> Inl (AuditFailed err) | Inr (e, rows) \<Rightarrow> Inr (t\<lparr>tb_audit := rows\<rparr>))"

definition jsonObject :: "(string \<times> string) list \<Rightarrow> string" where
  "jsonObject ms = CHR 0x7B # Join (map (\<lambda>(k, v). jsonKey k @ v) ms) '','' @ [CHR 0x7D]"

definition jsonBool :: "bool \<Rightarrow> string" where
  "jsonBool b = (if b then ''true'' else ''false'')"

subsection \<open>Model: reporting currencies\<close>

definition supportedProjectCurrencies :: "string list" where
  "supportedProjectCurrencies = [''AUD'', ''CAD'', ''CHF'', ''EUR'', ''GBP'', ''JPY'', ''USD'']"

definition normaliseCurrencyCode :: "string \<Rightarrow> string" where
  "normaliseCurrencyCode code = ToUpper (TrimSpace code)"

definition validCurrencyCode :: "string \<Rightarrow> bool" where
  "validCurrencyCode code \<longleftrightarrow> code \<in> set supportedProjectCurrencies"

definition CanonicalProjectCurrency :: "string \<Rightarrow> ledger_error + string" where
  "CanonicalProjectCurrency code0 =
     (let code1 = normaliseCurrencyCode code0; code = (if code1 = [] then ''USD'' else code1) in
      if \<not> validCurrencyCode code then Inl (UnsupportedCurrency code) else Inr code)"

subsection \<open>Model: the project row\<close>

definition normalizeProject :: "Project \<Rightarrow> Project" where
  "normalizeProject p0 =
     (let p1 = (if proj_CountryCode p0 = [] then p0\<lparr>proj_CountryCode := ''US''\<rparr> else p0);
          p2 = (if proj_CurrencyCode p1 = [] then p1\<lparr>proj_CurrencyCode := ''USD''\<rparr> else p1);
          p = (if proj_TimeZone p2 = [] then p2\<lparr>proj_TimeZone := ''America/New_York''\<rparr> else p2)
      in if proj_BudgetMinorUnits p = 0 \<and> proj_Budget p \<noteq> 0
         then p\<lparr>proj_BudgetMinorUnits := MinorUnits (FromMajorFloat (proj_Budget p))\<rparr>
         else p\<lparr>proj_Budget := MajorFloat \<lparr>MinorUnits = proj_BudgetMinorUnits p\<rparr>\<rparr>)"

text \<open>
  \<^verbatim>\<open>GetProject\<close> of a file whose project table has the columns \<open>present\<close>: a
  column of an older file that is absent keeps the zero value of its field.
\<close>

definition projectColumns :: "string list" where
  "projectColumns = [''id'', ''name'', ''description'', ''status'', ''phase'', ''start_date'', ''end_date'', ''budget'',
     ''budget_minor_units'', ''currency_code'', ''owner'', ''industry'', ''sub_category'', ''methodology'',
     ''country_code'', ''time_zone'', ''created_at'', ''updated_at'']"

definition additiveColumns :: "string list" where
  "additiveColumns = [''industry'', ''sub_category'', ''methodology'', ''country_code'', ''time_zone'',
     ''budget_minor_units'', ''currency_code'']"

definition scanPresent :: "string list \<Rightarrow> Project \<Rightarrow> Project" where
  "scanPresent present p =
     p\<lparr>proj_Industry := (if ''industry'' \<in> set present then proj_Industry p else []),
       proj_SubCategory := (if ''sub_category'' \<in> set present then proj_SubCategory p else []),
       proj_Methodology := (if ''methodology'' \<in> set present then proj_Methodology p else []),
       proj_CountryCode := (if ''country_code'' \<in> set present then proj_CountryCode p else []),
       proj_TimeZone := (if ''time_zone'' \<in> set present then proj_TimeZone p else []),
       proj_BudgetMinorUnits := (if ''budget_minor_units'' \<in> set present then proj_BudgetMinorUnits p else 0),
       proj_CurrencyCode := (if ''currency_code'' \<in> set present then proj_CurrencyCode p else [])\<rparr>"

definition GetProject :: "string list \<Rightarrow> Project list \<Rightarrow> ledger_error + Project" where
  "GetProject present rows =
     (if present = [] then Inl ErrNoProject
      else case filter (\<lambda>c. c \<notin> set present \<and> c \<notin> set additiveColumns) projectColumns of
             c # _ \<Rightarrow> Inl (MissingColumn c)
           | [] \<Rightarrow> (case rows of [] \<Rightarrow> Inl ErrNoProject | r # _ \<Rightarrow> Inr (normalizeProject (scanPresent present r))))"

definition getProjectByIDTx :: "Tables \<Rightarrow> string \<Rightarrow> Project option" where
  "getProjectByIDTx t pid = map_option normalizeProject (find (\<lambda>r. proj_ID r = pid) (tb_project t))"

definition projectAuditJSON :: "(float64 \<Rightarrow> string) \<Rightarrow> Project \<Rightarrow> string" where
  "projectAuditJSON formatFloat p =
     jsonObject
       ([(''id'', jsonString (proj_ID p)), (''name'', jsonString (proj_Name p)),
         (''description'', jsonString (proj_Description p)), (''status'', jsonString (proj_Status p)),
         (''phase'', jsonString (proj_Phase p)), (''start_date'', jsonString (proj_StartDate p)),
         (''end_date'', jsonString (proj_EndDate p)), (''budget'', formatFloat (proj_Budget p))]
        @ (if proj_BudgetMinorUnits p = 0 then [] else [(''budget_minor_units'', FormatInt (proj_BudgetMinorUnits p))])
        @ [(''currency_code'', jsonString (proj_CurrencyCode p)), (''owner'', jsonString (proj_Owner p)),
           (''industry'', jsonString (proj_Industry p)), (''sub_category'', jsonString (proj_SubCategory p)),
           (''methodology'', jsonString (proj_Methodology p)), (''country_code'', jsonString (proj_CountryCode p)),
           (''time_zone'', jsonString (proj_TimeZone p)), (''created_at'', jsonString (proj_CreatedAt p)),
           (''updated_at'', jsonString (proj_UpdatedAt p))])"

definition preparedProject :: "Project \<Rightarrow> string \<Rightarrow> string \<Rightarrow> Project" where
  "preparedProject p0 pid currency =
     (let p = p0\<lparr>proj_ID := pid, proj_CurrencyCode := currency,
                 proj_CountryCode := (if proj_CountryCode p0 = [] then ''US'' else proj_CountryCode p0),
                 proj_TimeZone := (if proj_TimeZone p0 = [] then ''America/New_York'' else proj_TimeZone p0)\<rparr>;
          units = (if proj_BudgetMinorUnits p = 0 \<and> proj_Budget p \<noteq> 0
                   then MinorUnits (FromMajorFloat (proj_Budget p)) else proj_BudgetMinorUnits p)
      in p\<lparr>proj_BudgetMinorUnits := units, proj_Budget := MajorFloat \<lparr>MinorUnits = units\<rparr>\<rparr>)"

definition moneyRecorded :: "Tables \<Rightarrow> string \<Rightarrow> bool" where
  "moneyRecorded t pid \<longleftrightarrow>
     list_ex (\<lambda>e. ce_ProjectID e = pid) (tb_entries t)
     \<or> list_ex (\<lambda>r. cr_ProjectID r = pid \<and> cr_AmountMinorUnits r \<noteq> 0) (tb_reserves t)
     \<or> list_ex (\<lambda>b. cb_ProjectID b = pid) (tb_baselines t)"

definition upsertRow :: "string \<Rightarrow> Project \<Rightarrow> Project list \<Rightarrow> Project list" where
  "upsertRow now p rows =
     (if list_ex (\<lambda>r. proj_ID r = proj_ID p) rows
      then map (\<lambda>r. if proj_ID r = proj_ID p
                    then p\<lparr>proj_CreatedAt := proj_CreatedAt r, proj_UpdatedAt := now\<rparr> else r) rows
      else rows @ [p\<lparr>proj_CreatedAt := now, proj_UpdatedAt := now\<rparr>])"

text \<open>
  The body of \<^verbatim>\<open>UpsertProject\<close> from \<^verbatim>\<open>Begin\<close> on, for a project whose
  identifier and defaults are settled.
\<close>

definition upsertTx ::
  "Digest \<Rightarrow> Recode \<Rightarrow> (float64 \<Rightarrow> string) \<Rightarrow> LedgerEnv \<Rightarrow> Tables \<Rightarrow> Project \<Rightarrow> ledger_error + Project \<times> Tables"
where
  "upsertTx sha256 recode formatFloat env t p =
     (if \<not> le_Stmt env 0 \<or> \<not> le_Stmt env 1 then Inl StatementFailed
      else
        (let before = getProjectByIDTx t (proj_ID p);
             moved = (case before of None \<Rightarrow> False | Some b \<Rightarrow> proj_CurrencyCode b \<noteq> proj_CurrencyCode p);
             inUse = (case before of None \<Rightarrow> False
                      | Some b \<Rightarrow> moneyRecorded t (proj_ID p) \<or> proj_BudgetMinorUnits b \<noteq> 0)
         in if moved \<and> \<not> le_Stmt env 2 then Inl StatementFailed
            else if moved \<and> inUse then Inl CurrencyLocked
            else if \<not> le_Stmt env 3 then Inl StatementFailed
            else
              (let t' = t\<lparr>tb_project := upsertRow (le_Now env) p (tb_project t)\<rparr> in
               if \<not> le_Stmt env 4 then Inl StatementFailed
               else case getProjectByIDTx t' (proj_ID p) of None \<Rightarrow> Inl ErrNoProject
               | Some after \<Rightarrow>
                   and_then (recordEvent sha256 recode env
                       (eventInput (proj_ID after) (if before = None then ''project.create'' else ''project.update'')
                          ''project'' (proj_ID after)
                          (case before of None \<Rightarrow> [] | Some b \<Rightarrow> projectAuditJSON formatFloat b)
                          (projectAuditJSON formatFloat after) []) t')
                     (\<lambda>t''. Inr (after, t'')))))"

definition UpsertProject ::
  "Digest \<Rightarrow> Recode \<Rightarrow> (float64 \<Rightarrow> string) \<Rightarrow> LedgerEnv \<Rightarrow> Tables \<Rightarrow> Project \<Rightarrow> Tables \<times> (ledger_error + Project)"
where
  "UpsertProject sha256 recode formatFloat env t p =
     transact env t
       (and_then (givenID env ''prj'' (proj_ID p)) (\<lambda>pid.
        and_then (CanonicalProjectCurrency (proj_CurrencyCode p)) (\<lambda>currency.
          upsertTx sha256 recode formatFloat env t (preparedProject p pid currency))))"

end
