(* ===== verification/CostLedger.thy ===== *)
theory CostLedger
  imports ProjectStore Dates "HOL-Library.Product_Lexorder"
begin

text \<open>
  Cost control: \<^verbatim>\<open>internal/db/cost_control.go\<close> and
  \<^verbatim>\<open>internal/db/cost_control_attachments.go\<close>, the writing operations. Cost types are
  seeded, ledger entries and attachments only inserted, reserves replaced, and an approval
  snapshots the plan. Together with \<^const>\<open>UpsertProject\<close> these are the steps of the
  relation \<open>ledgerStep\<close>; the lemmas show what every history of them keeps.
\<close>

subsection \<open>Model: cost types\<close>

definition seedType :: "string \<Rightarrow> string \<Rightarrow> string \<Rightarrow> string \<Rightarrow> string \<Rightarrow> CostType" where
  "seedType code name attribution behavior treatment =
     \<lparr>ct_ID = [], ct_ProjectID = [], ct_Code = code, ct_Name = name, ct_Attribution = attribution,
      ct_Behavior = behavior, ct_Treatment = treatment, ct_Active = False\<rparr>"

definition seeds :: "CostType list" where
  "seeds =
     [seedType ''labor'' ''Labor & human resources'' ''direct'' ''variable'' ''opex'',
      seedType ''materials'' ''Materials & equipment'' ''direct'' ''variable'' ''opex'',
      seedType ''software'' ''Software & technology'' ''direct'' ''fixed'' ''opex'',
      seedType ''travel'' ''Travel & on-site'' ''direct'' ''variable'' ''opex'',
      seedType ''facilities'' ''Facilities & utilities'' ''indirect'' ''fixed'' ''opex'',
      seedType ''shared_support'' ''Administrative & shared support'' ''indirect'' ''fixed'' ''opex'',
      seedType ''quality'' ''Quality, compliance & training'' ''direct'' ''variable'' ''opex'',
      seedType ''capital'' ''Capital equipment & licensing'' ''direct'' ''fixed'' ''capex'']"

definition costTypeJSON :: "CostType \<Rightarrow> string" where
  "costTypeJSON c = jsonObject
     [(''id'', jsonString (ct_ID c)), (''project_id'', jsonString (ct_ProjectID c)), (''code'', jsonString (ct_Code c)),
      (''name'', jsonString (ct_Name c)), (''attribution'', jsonString (ct_Attribution c)),
      (''behavior'', jsonString (ct_Behavior c)), (''treatment'', jsonString (ct_Treatment c)),
      (''active'', jsonBool (ct_Active c))]"

definition projectExists :: "Tables \<Rightarrow> string \<Rightarrow> bool" where
  "projectExists t pid \<longleftrightarrow> list_ex (\<lambda>r. proj_ID r = pid) (tb_project t)"

text \<open>One \<^verbatim>\<open>INSERT ... ON CONFLICT(project_id, code) DO NOTHING\<close>.\<close>

definition insertType :: "string \<Rightarrow> string \<Rightarrow> CostType \<Rightarrow> Tables \<Rightarrow> ledger_error + Tables" where
  "insertType tid pid seed t =
     (if list_ex (\<lambda>c. ct_ProjectID c = pid \<and> ct_Code c = ct_Code seed) (tb_types t) then Inr t
      else if list_ex (\<lambda>c. ct_ID c = tid) (tb_types t) \<or> \<not> projectExists t pid then Inl ConstraintViolated
      else Inr (t\<lparr>tb_types := tb_types t @ [seed\<lparr>ct_ID := tid, ct_ProjectID := pid, ct_Active := True\<rparr>]\<rparr>))"

fun insertSeeds :: "LedgerEnv \<Rightarrow> string \<Rightarrow> nat \<Rightarrow> CostType list \<Rightarrow> Tables \<Rightarrow> ledger_error + Tables" where
  "insertSeeds env pid k [] t = Inr t"
| "insertSeeds env pid k (seed # ss) t =
     and_then (freshID env k ''ctype'') (\<lambda>tid.
       if \<not> le_Stmt env (2 + k) then Inl StatementFailed
       else and_then (insertType tid pid seed t) (insertSeeds env pid (Suc k) ss))"

definition EnsureCostTypes :: "Digest \<Rightarrow> Recode \<Rightarrow> LedgerEnv \<Rightarrow> Tables \<Rightarrow> string \<Rightarrow> Tables \<times> (ledger_error + unit)" where
  "EnsureCostTypes sha256 recode env t pid =
     transact env t
       (if \<not> le_Stmt env 0 \<or> \<not> le_Stmt env 1 then Inl StatementFailed
        else
          (let existing = length (filter (\<lambda>c. ct_ProjectID c = pid) (tb_types t)) in
           and_then (insertSeeds env pid 0 seeds t) (\<lambda>t'.
             if existing = 0
             then and_then (recordEvent sha256 recode env
                      (eventInput pid ''cost_type.seed'' ''cost_type'' [] []
                         (CHR ''['' # Join (map costTypeJSON seeds) '','' @ '']'') []) t')
                    (\<lambda>t''. Inr ((), t''))
             else Inr ((), t'))))"

definition ListCostTypes ::
  "Digest \<Rightarrow> Recode \<Rightarrow> LedgerEnv \<Rightarrow> bool \<Rightarrow> Tables \<Rightarrow> string \<Rightarrow> Tables \<times> (ledger_error + CostType list)"
where
  "ListCostTypes sha256 recode env readable t pid =
     (case EnsureCostTypes sha256 recode env t pid of
        (t', Inl err) \<Rightarrow> (t', Inl err)
      | (t', Inr _) \<Rightarrow>
          (t', if readable then Inr (sort_key ct_Code (filter (\<lambda>c. ct_ProjectID c = pid) (tb_types t')))
               else Inl StatementFailed))"

subsection \<open>Model: ledger entries\<close>

definition maxLedgerFieldLength :: nat where "maxLedgerFieldLength = 200"
definition maxQuantityMajorUnits :: int where "maxQuantityMajorUnits = 999999999"
definition maxQuantityMilliUnits :: int where "maxQuantityMilliUnits = maxQuantityMajorUnits * 1000"

definition ledgerFieldTooLong :: "string list \<Rightarrow> bool" where
  "ledgerFieldTooLong values = list_ex (\<lambda>v. length v > maxLedgerFieldLength) values"

definition validateCostEntryProcurementDetail :: "CostEntry \<Rightarrow> ledger_error + CostEntry" where
  "validateCostEntryProcurementDetail e0 =
     (let e = e0\<lparr>ce_Unit := TrimSpace (ce_Unit e0), ce_ItemName := TrimSpace (ce_ItemName e0),
                 ce_SKU := TrimSpace (ce_SKU e0), ce_SupplierName := TrimSpace (ce_SupplierName e0),
                 ce_InvoiceReference := TrimSpace (ce_InvoiceReference e0)\<rparr>
      in if ledgerFieldTooLong [ce_Unit e, ce_ItemName e, ce_SKU e, ce_SupplierName e, ce_InvoiceReference e]
         then Inl FieldTooLong
         else if ce_QuantityMilliUnits e < 0 \<or> ce_QuantityMilliUnits e > maxQuantityMilliUnits then Inl QuantityRange
         else if ce_QuantityMilliUnits e > 0 \<and> ce_Unit e = [] then Inl QuantityNeedsUnit
         else Inr e)"

definition validateCostEntry :: "CostEntry \<Rightarrow> ledger_error + CostEntry" where
  "validateCostEntry e =
     (if ce_ProjectID e = [] \<or> ce_CostTypeID e = [] \<or> ce_Description e = [] \<or> ce_CostDate e = []
      then Inl EntryFieldsRequired
      else if ce_AmountMinorUnits e = 0 then Inl ZeroAmount
      else if ce_Kind e \<noteq> ''planned'' \<and> ce_Kind e \<noteq> ''commitment'' \<and> ce_Kind e \<noteq> ''actual''
      then Inl (InvalidKind (ce_Kind e))
      else if ParseDate (ce_CostDate e) = None then Inl InvalidDate
      else validateCostEntryProcurementDetail e)"

definition costEntryJSON :: "CostEntry \<Rightarrow> string" where
  "costEntryJSON e = jsonObject
     [(''id'', jsonString (ce_ID e)), (''project_id'', jsonString (ce_ProjectID e)),
      (''cost_type_id'', jsonString (ce_CostTypeID e)), (''kind'', jsonString (ce_Kind e)),
      (''cost_date'', jsonString (ce_CostDate e)), (''description'', jsonString (ce_Description e)),
      (''amount_minor_units'', FormatInt (ce_AmountMinorUnits e)),
      (''quantity_milli_units'', FormatInt (ce_QuantityMilliUnits e)), (''unit'', jsonString (ce_Unit e)),
      (''item_name'', jsonString (ce_ItemName e)), (''sku'', jsonString (ce_SKU e)),
      (''supplier_name'', jsonString (ce_SupplierName e)), (''invoice_reference'', jsonString (ce_InvoiceReference e)),
      (''created_at'', jsonString (ce_CreatedAt e)), (''updated_at'', jsonString (ce_UpdatedAt e))]"

definition insertEntry :: "CostEntry \<Rightarrow> Tables \<Rightarrow> ledger_error + Tables" where
  "insertEntry e t =
     (if list_ex (\<lambda>r. ce_ID r = ce_ID e) (tb_entries t) \<or> \<not> projectExists t (ce_ProjectID e)
      then Inl ConstraintViolated else Inr (t\<lparr>tb_entries := tb_entries t @ [e]\<rparr>))"

definition saveEntryTx ::
  "Digest \<Rightarrow> Recode \<Rightarrow> LedgerEnv \<Rightarrow> Tables \<Rightarrow> CostEntry \<Rightarrow> ledger_error + CostEntry \<times> Tables"
where
  "saveEntryTx sha256 recode env t e0 =
     (if \<not> le_Stmt env 0 \<or> \<not> le_Stmt env 1 then Inl StatementFailed
      else case find (\<lambda>c. ct_ID c = ce_CostTypeID e0 \<and> ct_ProjectID c = ce_ProjectID e0) (tb_types t) of
        None \<Rightarrow> Inl ErrNoCostType
      | Some c \<Rightarrow>
          (if \<not> ct_Active c then Inl CostTypeArchived
           else and_then (givenID env ''cost'' (ce_ID e0)) (\<lambda>eid.
             if \<not> le_Stmt env 2 then Inl StatementFailed
             else
               (let e = e0\<lparr>ce_ID := eid, ce_CreatedAt := le_Now env, ce_UpdatedAt := le_Now env\<rparr> in
                and_then (insertEntry e t) (\<lambda>t'.
                and_then (recordEvent sha256 recode env
                    (eventInput (ce_ProjectID e) ''cost_entry.create'' ''cost_entry'' (ce_ID e) [] (costEntryJSON e) []) t')
                  (\<lambda>t''. Inr (e, t'')))))))"

definition SaveCostEntry ::
  "Digest \<Rightarrow> Recode \<Rightarrow> LedgerEnv \<Rightarrow> Tables \<Rightarrow> CostEntry \<Rightarrow> Tables \<times> (ledger_error + CostEntry)"
where
  "SaveCostEntry sha256 recode env t e =
     transact env t (and_then (validateCostEntry e) (saveEntryTx sha256 recode env t))"

subsection \<open>Model: reserves\<close>

definition costReserveJSON :: "CostReserve \<Rightarrow> string" where
  "costReserveJSON r = jsonObject
     [(''id'', jsonString (cr_ID r)), (''project_id'', jsonString (cr_ProjectID r)), (''kind'', jsonString (cr_Kind r)),
      (''amount_minor_units'', FormatInt (cr_AmountMinorUnits r)), (''description'', jsonString (cr_Description r))]"

definition sameReserve :: "CostReserve \<Rightarrow> CostReserve \<Rightarrow> bool" where
  "sameReserve r x \<longleftrightarrow> cr_ProjectID x = cr_ProjectID r \<and> cr_Kind x = cr_Kind r"

text \<open>\<^verbatim>\<open>INSERT ... ON CONFLICT(project_id, kind) DO UPDATE\<close>: the row keeps its identifier.\<close>

definition upsertReserve :: "CostReserve \<Rightarrow> Tables \<Rightarrow> ledger_error + Tables" where
  "upsertReserve r t =
     (if list_ex (sameReserve r) (tb_reserves t)
      then Inr (t\<lparr>tb_reserves := map (\<lambda>x. if sameReserve r x
                    then x\<lparr>cr_AmountMinorUnits := cr_AmountMinorUnits r, cr_Description := cr_Description r\<rparr> else x)
                  (tb_reserves t)\<rparr>)
      else if list_ex (\<lambda>x. cr_ID x = cr_ID r) (tb_reserves t) \<or> \<not> projectExists t (cr_ProjectID r)
      then Inl ConstraintViolated
      else Inr (t\<lparr>tb_reserves := tb_reserves t @ [r]\<rparr>))"

definition saveReserveTx ::
  "Digest \<Rightarrow> Recode \<Rightarrow> LedgerEnv \<Rightarrow> Tables \<Rightarrow> CostReserve \<Rightarrow> ledger_error + CostReserve \<times> Tables"
where
  "saveReserveTx sha256 recode env t r0 =
     (if \<not> le_Stmt env 0 \<or> \<not> le_Stmt env 1 then Inl StatementFailed
      else and_then (case find (sameReserve r0) (tb_reserves t) of
               Some x \<Rightarrow> Inr (cr_ID x)
             | None \<Rightarrow> givenID env ''reserve'' (cr_ID r0)) (\<lambda>rid.
           let r = r0\<lparr>cr_ID := rid\<rparr> in
           if \<not> le_Stmt env 2 then Inl StatementFailed
           else and_then (upsertReserve r t) (\<lambda>t'.
             if \<not> le_Stmt env 3 then Inl StatementFailed
             else case find (sameReserve r) (tb_reserves t') of None \<Rightarrow> Inl StatementFailed
             | Some x \<Rightarrow>
                 (let saved = r\<lparr>cr_ID := cr_ID x\<rparr> in
                  and_then (recordEvent sha256 recode env
                      (eventInput (cr_ProjectID r) ''cost_reserve.save'' ''cost_reserve'' (cr_ID saved) []
                         (costReserveJSON saved) []) t')
                    (\<lambda>t''. Inr (saved, t''))))))"

definition SaveCostReserve ::
  "Digest \<Rightarrow> Recode \<Rightarrow> LedgerEnv \<Rightarrow> Tables \<Rightarrow> CostReserve \<Rightarrow> Tables \<times> (ledger_error + CostReserve)"
where
  "SaveCostReserve sha256 recode env t r =
     transact env t
       (if cr_ProjectID r = [] \<or> (cr_Kind r \<noteq> ''contingency'' \<and> cr_Kind r \<noteq> ''management'')
           \<or> cr_AmountMinorUnits r < 0 \<or> TrimSpace (cr_Description r) = []
        then Inl InvalidReserve else saveReserveTx sha256 recode env t r)"

definition ListCostReserves :: "Tables \<Rightarrow> string \<Rightarrow> CostReserve list" where
  "ListCostReserves t pid = sort_key cr_Kind (filter (\<lambda>r. cr_ProjectID r = pid) (tb_reserves t))"

subsection \<open>Model: baselines\<close>

definition plannedTotal :: "Tables \<Rightarrow> string \<Rightarrow> Accumulator" where
  "plannedTotal t pid =
     foldl (\<lambda>acc e. Accumulator_Add acc \<lparr>MinorUnits = ce_AmountMinorUnits e\<rparr>) newAccumulator
       (filter (\<lambda>e. ce_ProjectID e = pid \<and> ce_Kind e = ''planned'') (tb_entries t))"

definition reserveAmounts :: "Tables \<Rightarrow> string \<Rightarrow> int \<times> int" where
  "reserveAmounts t pid =
     foldl (\<lambda>(contingency, management) r.
         if cr_Kind r = ''contingency'' then (cr_AmountMinorUnits r, management)
         else if cr_Kind r = ''management'' then (contingency, cr_AmountMinorUnits r)
         else (contingency, management)) (0, 0)
       (filter (\<lambda>r. cr_ProjectID r = pid) (tb_reserves t))"

definition nextVersion :: "Tables \<Rightarrow> string \<Rightarrow> int" where
  "nextVersion t pid = fold max (map cb_Version (filter (\<lambda>b. cb_ProjectID b = pid) (tb_baselines t))) 0 + 1"

definition baselineJSON :: "CostBaselineSnapshot \<Rightarrow> string" where
  "baselineJSON s = jsonObject
     [(''id'', jsonString (cb_ID s)), (''project_id'', jsonString (cb_ProjectID s)), (''version'', FormatInt (cb_Version s)),
      (''currency_code'', jsonString (cb_CurrencyCode s)), (''planned_minor_units'', FormatInt (cb_PlannedMinorUnits s)),
      (''contingency_minor_units'', FormatInt (cb_ContingencyMinorUnits s)),
      (''management_reserve_minor_units'', FormatInt (cb_ManagementReserveMinorUnits s)),
      (''approved_by'', jsonString (cb_ApprovedBy s)), (''approval_note'', jsonString (cb_ApprovalNote s)),
      (''approved_at'', jsonString (cb_ApprovedAt s))]"

definition insertBaseline :: "CostBaselineSnapshot \<Rightarrow> Tables \<Rightarrow> ledger_error + Tables" where
  "insertBaseline s t =
     (if list_ex (\<lambda>b. cb_ID b = cb_ID s \<or> cb_ProjectID b = cb_ProjectID s \<and> cb_Version b = cb_Version s) (tb_baselines t)
         \<or> \<not> projectExists t (cb_ProjectID s)
      then Inl ConstraintViolated else Inr (t\<lparr>tb_baselines := tb_baselines t @ [s]\<rparr>))"

text \<open>The three amounts of the snapshot and the checks on their sums.\<close>

definition baselineAmounts :: "bool \<Rightarrow> Tables \<Rightarrow> string \<Rightarrow> ledger_error + int \<times> int \<times> int" where
  "baselineAmounts reservesRead t pid =
     (case Accumulator_Amount (plannedTotal t pid) of Inl err \<Rightarrow> Inl (MoneyError err)
      | Inr pl \<Rightarrow>
        (let (contingency, management) = reserveAmounts t pid in
         if \<not> reservesRead then Inl StatementFailed
         else case Amount_Add pl \<lparr>MinorUnits = contingency\<rparr> of Inl err \<Rightarrow> Inl (MoneyError err)
         | Inr base \<Rightarrow>
             (if MinorUnits base \<le> 0 then Inl BaselineNotPositive
              else case Amount_Add base \<lparr>MinorUnits = management\<rparr> of Inl err \<Rightarrow> Inl (MoneyError err)
              | Inr _ \<Rightarrow> Inr (MinorUnits pl, contingency, management))))"

definition recordCheckpoint ::
  "Digest \<Rightarrow> Recode \<Rightarrow> LedgerEnv \<Rightarrow> CostBaselineSnapshot \<Rightarrow> Tables \<Rightarrow> ledger_error + Tables"
where
  "recordCheckpoint sha256 recode env s t =
     (case appendApprovalCheckpointForUserTx sha256 recode (le_Checkpoint env) (le_SignedAt env) (tb_audit t)
             (cb_ProjectID s) ''cost_baseline_snapshot'' (cb_ID s) ''cost_baseline_approved'' (baselineJSON s) (cb_ApprovedBy s) of
        Inl err \<Rightarrow> Inl (AuditFailed err) | Inr (e, rows) \<Rightarrow> Inr (t\<lparr>tb_audit := rows\<rparr>))"

definition approveTx ::
  "Digest \<Rightarrow> Recode \<Rightarrow> LedgerEnv \<Rightarrow> Tables \<Rightarrow> string \<Rightarrow> string \<Rightarrow> string
   \<Rightarrow> ledger_error + CostBaselineSnapshot \<times> Tables"
where
  "approveTx sha256 recode env t pid actor note =
     (if \<not> le_Stmt env 0 \<or> \<not> le_Stmt env 1 then Inl StatementFailed
      else case find (\<lambda>r. proj_ID r = pid) (tb_project t) of None \<Rightarrow> Inl StatementFailed
      | Some p \<Rightarrow>
          (if \<not> le_Stmt env 2 then Inl StatementFailed
           else and_then (baselineAmounts (le_Stmt env 3) t pid) (\<lambda>(planned, contingency, management).
             if \<not> le_Stmt env 4 then Inl StatementFailed
             else and_then (freshID env 0 ''costbase'') (\<lambda>bid.
               let s = \<lparr>cb_ID = bid, cb_ProjectID = pid, cb_Version = nextVersion t pid,
                        cb_CurrencyCode = proj_CurrencyCode p, cb_PlannedMinorUnits = planned,
                        cb_ContingencyMinorUnits = contingency, cb_ManagementReserveMinorUnits = management,
                        cb_ApprovedBy = TrimSpace actor, cb_ApprovalNote = TrimSpace note, cb_ApprovedAt = le_Now env\<rparr>
               in if \<not> le_Stmt env 5 then Inl StatementFailed
                  else and_then (insertBaseline s t) (\<lambda>t1.
                    and_then (recordEvent sha256 recode env
                        (eventInput pid ''cost_baseline_snapshot.create'' ''cost_baseline_snapshot'' (cb_ID s) []
                           (baselineJSON s) (cb_ApprovedBy s)) t1) (\<lambda>t2.
                    and_then (recordCheckpoint sha256 recode env s t2) (\<lambda>t3. Inr (s, t3))))))))"

definition ApproveCostBaseline ::
  "Digest \<Rightarrow> Recode \<Rightarrow> LedgerEnv \<Rightarrow> Tables \<Rightarrow> string \<Rightarrow> string \<Rightarrow> string
   \<Rightarrow> Tables \<times> (ledger_error + CostBaselineSnapshot)"
where
  "ApproveCostBaseline sha256 recode env t pid actor note =
     transact env t
       (if pid = [] \<or> TrimSpace actor = [] \<or> TrimSpace note = [] then Inl ApprovalFieldsRequired
        else approveTx sha256 recode env t pid actor note)"

definition ListCostBaselines :: "Tables \<Rightarrow> string \<Rightarrow> CostBaselineSnapshot list" where
  "ListCostBaselines t pid = sort_key (\<lambda>b. - cb_Version b) (filter (\<lambda>b. cb_ProjectID b = pid) (tb_baselines t))"

subsection \<open>Model: attachments\<close>

definition maxAttachmentBytes :: int where "maxAttachmentBytes = 10485760"
definition maxAttachmentsPerEntry :: nat where "maxAttachmentsPerEntry = 10"
definition maxAttachmentFilenameLength :: nat where "maxAttachmentFilenameLength = 255"
definition maxAttachmentTotalBytesPerProject :: int where "maxAttachmentTotalBytesPerProject = 209715200"

definition MaxAttachmentBytes :: int where "MaxAttachmentBytes = maxAttachmentBytes"

text \<open>\<^verbatim>\<open>filepath.Base\<close> where the separator is the slash.\<close>

definition filepathBase :: "string \<Rightarrow> string" where
  "filepathBase path =
     (if path = [] then ''.''
      else
        (let base = rev (takeWhile (\<lambda>c. c \<noteq> CHR ''/'') (dropWhile (\<lambda>c. c = CHR ''/'') (rev path))) in
         if base = [] then ''/'' else base))"

definition sanitizeAttachmentFilename :: "string \<Rightarrow> ledger_error + string" where
  "sanitizeAttachmentFilename name0 =
     (let name = TrimSpace (filepathBase (TrimSpace name0)) in
      if name = [] \<or> name = ''.'' \<or> name = ''..'' \<or> name = ''/'' then Inl ErrAttachmentFilenameInvalid
      else if length name > maxAttachmentFilenameLength then Inl ErrAttachmentFilenameInvalid
      else Inr name)"

definition attachmentJSON :: "CostEntryAttachment \<Rightarrow> string" where
  "attachmentJSON a = jsonObject
     [(''id'', jsonString (at_ID a)), (''project_id'', jsonString (at_ProjectID a)),
      (''cost_entry_id'', jsonString (at_CostEntryID a)), (''filename'', jsonString (at_Filename a)),
      (''content_type'', jsonString (at_ContentType a)), (''size_bytes'', FormatInt (at_SizeBytes a)),
      (''sha256'', jsonString (at_SHA256 a)), (''created_at'', jsonString (at_CreatedAt a))]"

definition insertAttachment :: "CostEntryAttachment \<Rightarrow> string \<Rightarrow> Tables \<Rightarrow> ledger_error + Tables" where
  "insertAttachment a blob t =
     (if list_ex (\<lambda>(x, _). at_ID x = at_ID a) (tb_attachments t) \<or> \<not> projectExists t (at_ProjectID a)
         \<or> \<not> list_ex (\<lambda>e. ce_ID e = at_CostEntryID a) (tb_entries t)
      then Inl ConstraintViolated else Inr (t\<lparr>tb_attachments := tb_attachments t @ [(a, blob)]\<rparr>))"

definition entryAttachments :: "Tables \<Rightarrow> string \<Rightarrow> CostEntryAttachment list" where
  "entryAttachments t eid = filter (\<lambda>a. at_CostEntryID a = eid) (map fst (tb_attachments t))"

definition projectBytes :: "Tables \<Rightarrow> string \<Rightarrow> int" where
  "projectBytes t pid = sum_list (map at_SizeBytes (filter (\<lambda>a. at_ProjectID a = pid) (map fst (tb_attachments t))))"

definition saveAttachmentTx ::
  "Digest \<Rightarrow> Recode \<Rightarrow> LedgerEnv \<Rightarrow> Tables \<Rightarrow> string \<Rightarrow> string \<Rightarrow> string \<Rightarrow> string \<Rightarrow> string
   \<Rightarrow> ledger_error + CostEntryAttachment \<times> Tables"
where
  "saveAttachmentTx sha256 recode env t pid eid filename contentType blob =
     (if \<not> le_Stmt env 0 \<or> \<not> le_Stmt env 1 then Inl StatementFailed
      else case find (\<lambda>e. ce_ID e = eid) (tb_entries t) of None \<Rightarrow> Inl ErrCostEntryNotFound
      | Some e \<Rightarrow>
          (if ce_ProjectID e \<noteq> pid then Inl ErrCostEntryNotFound
           else if \<not> le_Stmt env 2 then Inl StatementFailed
           else if length (entryAttachments t eid) \<ge> maxAttachmentsPerEntry then Inl ErrAttachmentEntryFull
           else if \<not> le_Stmt env 3 then Inl StatementFailed
           else if wrap_int64 (projectBytes t pid + int (length blob)) > maxAttachmentTotalBytesPerProject
           then Inl ErrAttachmentProjectBudget
           else and_then (freshID env 0 ''attachment'') (\<lambda>aid.
             let a = \<lparr>at_ID = aid, at_ProjectID = pid, at_CostEntryID = eid, at_Filename = filename,
                      at_ContentType = contentType, at_SizeBytes = int (length blob),
                      at_SHA256 = hexEncode (sha256 blob), at_CreatedAt = le_Now env\<rparr>
             in if \<not> le_Stmt env 4 then Inl StatementFailed
                else and_then (insertAttachment a blob t) (\<lambda>t'.
                  and_then (recordEvent sha256 recode env
                      (eventInput pid ''cost_entry_attachment.create'' ''cost_entry_attachment'' (at_ID a) []
                         (attachmentJSON a) []) t')
                    (\<lambda>t''. Inr (a, t''))))))"

definition SaveCostEntryAttachment ::
  "Digest \<Rightarrow> Recode \<Rightarrow> LedgerEnv \<Rightarrow> Tables \<Rightarrow> string \<Rightarrow> string \<Rightarrow> string \<Rightarrow> string \<Rightarrow> string
   \<Rightarrow> Tables \<times> (ledger_error + CostEntryAttachment)"
where
  "SaveCostEntryAttachment sha256 recode env t pid eid filename contentType blob =
     transact env t
       (if pid = [] \<or> eid = [] then Inl AttachmentFieldsRequired
        else and_then (sanitizeAttachmentFilename filename) (\<lambda>name.
          if blob = [] then Inl ErrAttachmentEmpty
          else if int (length blob) > maxAttachmentBytes then Inl ErrAttachmentTooLarge
          else saveAttachmentTx sha256 recode env t pid eid name
                 (take maxLedgerFieldLength (TrimSpace contentType)) blob))"

definition ListCostEntryAttachments :: "Tables \<Rightarrow> string \<Rightarrow> string \<Rightarrow> CostEntryAttachment list" where
  "ListCostEntryAttachments t pid eid =
     sort_key at_CreatedAt (filter (\<lambda>a. at_ProjectID a = pid \<and> at_CostEntryID a = eid) (map fst (tb_attachments t)))"

definition ListCostEntryAttachmentsForProject :: "Tables \<Rightarrow> string \<Rightarrow> CostEntryAttachment list" where
  "ListCostEntryAttachmentsForProject t pid =
     sort_key at_CreatedAt (filter (\<lambda>a. at_ProjectID a = pid) (map fst (tb_attachments t)))"

definition GetCostEntryAttachmentBlob :: "Tables \<Rightarrow> string \<Rightarrow> string \<Rightarrow> ledger_error + CostEntryAttachment \<times> string" where
  "GetCostEntryAttachmentBlob t pid aid =
     (case find (\<lambda>(a, _). at_ProjectID a = pid \<and> at_ID a = aid) (tb_attachments t) of
        None \<Rightarrow> Inl AttachmentNotFound | Some row \<Rightarrow> Inr row)"

end
