(* ===== verification/LedgerHistory.thy ===== *)
theory LedgerHistory
  imports CostLedger
begin

text \<open>
  What every history of cost control keeps. The operations of \<^verbatim>\<open>ProjectStore\<close> and
  \<^verbatim>\<open>CostLedger\<close> are the steps of one relation over the tables; the changes a step can
  make are read off the operations once, and the invariants are proved from them: the ledger,
  the baselines and the attachments are only appended to, a project's currency is fixed while
  money is recorded in it, baselines are numbered consecutively, and the audit chain stays
  valid and grows with every change.
\<close>

subsection \<open>Steps\<close>

inductive ledgerStep :: "Digest \<Rightarrow> Tables \<Rightarrow> Tables \<Rightarrow> bool" for sha256 where
  upsert: "UpsertProject sha256 recode formatFloat env t p = (t', r) \<Longrightarrow> ledgerStep sha256 t t'"
| types: "ListCostTypes sha256 recode env readable t pid = (t', r) \<Longrightarrow> ledgerStep sha256 t t'"
| entry: "SaveCostEntry sha256 recode env t e = (t', r) \<Longrightarrow> ledgerStep sha256 t t'"
| reserve: "SaveCostReserve sha256 recode env t c = (t', r) \<Longrightarrow> ledgerStep sha256 t t'"
| approve: "ApproveCostBaseline sha256 recode env t pid actor note = (t', r) \<Longrightarrow> ledgerStep sha256 t t'"
| attach: "SaveCostEntryAttachment sha256 recode env t pid eid filename contentType blob = (t', r) \<Longrightarrow> ledgerStep sha256 t t'"

definition entryOK :: "CostEntry \<Rightarrow> bool" where
  "entryOK e \<longleftrightarrow>
     ce_AmountMinorUnits e \<noteq> 0 \<and> ce_Kind e \<in> {''planned'', ''commitment'', ''actual''}
     \<and> ParseDate (ce_CostDate e) \<noteq> None \<and> ce_Description e \<noteq> []
     \<and> 0 \<le> ce_QuantityMilliUnits e \<and> ce_QuantityMilliUnits e \<le> maxQuantityMilliUnits
     \<and> (ce_QuantityMilliUnits e > 0 \<longrightarrow> ce_Unit e \<noteq> [])"

definition reserveOK :: "CostReserve \<Rightarrow> bool" where
  "reserveOK r \<longleftrightarrow> cr_Kind r \<in> {''contingency'', ''management''} \<and> 0 \<le> cr_AmountMinorUnits r"

definition baselineOK :: "CostBaselineSnapshot \<Rightarrow> bool" where
  "baselineOK b \<longleftrightarrow>
     0 < cb_PlannedMinorUnits b + cb_ContingencyMinorUnits b
     \<and> is_int64 (cb_PlannedMinorUnits b) \<and> is_int64 (cb_PlannedMinorUnits b + cb_ContingencyMinorUnits b)
     \<and> is_int64 (cb_PlannedMinorUnits b + cb_ContingencyMinorUnits b + cb_ManagementReserveMinorUnits b)"

definition attachmentOK :: "Digest \<Rightarrow> CostEntryAttachment \<times> string \<Rightarrow> bool" where
  "attachmentOK sha256 row \<longleftrightarrow>
     0 < at_SizeBytes (fst row) \<and> at_SizeBytes (fst row) \<le> maxAttachmentBytes
     \<and> at_SizeBytes (fst row) = int (length (snd row)) \<and> at_SHA256 (fst row) = hexEncode (sha256 (snd row))"

text \<open>What the audit table gains in one committed call: one event, or several in order.\<close>

lemma appendTx_step:
  assumes "appendAuditEventTx sha256 recode env rows i = Inr (e, rows')"
  shows "auditStep sha256 rows rows'"
proof (rule auditStep.append)
  show "AppendAuditEvent sha256 recode (env\<lparr>tx_Begin := True, tx_Commit := True\<rparr>) rows i = (rows', Inr e)"
    using assms by (simp add: AppendAuditEvent_def appendAuditEventTx_def cong: if_cong option.case_cong)
qed

lemma transact_cases:
  assumes "transact env t r = (t', x)"
  obtains "t' = t" "\<exists>err. x = Inl err" | y where "r = Inr (y, t')" "x = Inr y"
  using assms by (auto simp: transact_def split: sum.splits prod.splits if_splits)

lemma appendTx_fields:
  assumes "appendAuditEventTx sha256 recode env rows i = Inr (e, rows')"
  shows "ev_EventType e = in_EventType i \<and> ev_EntityID e = in_EntityID i \<and> in_ProjectID i \<noteq> []"
  using assms
  by (auto simp: appendAuditEventTx_def buildEvent_def and_then_Inr_iff insertRow_def Let_def split: if_splits option.splits)

text \<open>The event an input turns into, by what identifies it.\<close>

definition recordedAs :: "AuditEventInput \<Rightarrow> AuditEvent \<Rightarrow> bool" where
  "recordedAs i e \<longleftrightarrow> ev_ProjectID e = in_ProjectID i \<and> ev_EventType e = in_EventType i \<and> ev_EntityID e = in_EntityID i"

lemma recordEvent_InrD:
  assumes "recordEvent sha256 recode env i t = Inr t'"
  obtains e where "t' = t\<lparr>tb_audit := tb_audit t @ [e]\<rparr>" "auditStep sha256 (tb_audit t) (tb_audit t @ [e])"
    "recordedAs i e" "in_ProjectID i \<noteq> []"
proof (cases "appendAuditEventTx sha256 recode (le_Audit env) (tb_audit t) i")
  case (Inr r)
  obtain e rows where r: "r = (e, rows)" by (cases r)
  note app = Inr [unfolded r]
  have "rows = tb_audit t @ [e]" by (rule appendTx_InrD(1) [OF app])
  with that [of e] assms appendTx_step [OF app] appendTx_InrD(2) [OF app] appendTx_fields [OF app] show thesis
    by (simp add: recordEvent_def app recordedAs_def)
qed (use assms in \<open>simp add: recordEvent_def\<close>)

lemma recordCheckpoint_InrD:
  assumes "recordCheckpoint sha256 recode env s t = Inr t'"
  obtains e where "t' = t\<lparr>tb_audit := tb_audit t @ [e]\<rparr>" "auditStep sha256 (tb_audit t) (tb_audit t @ [e])"
    "ev_ProjectID e = cb_ProjectID s" "ev_EventType e = ''cost_baseline_snapshot.approval_checkpoint''"
    "ev_EntityID e = cb_ID s"
proof -
  let ?r = "appendApprovalCheckpointForUserTx sha256 recode (le_Checkpoint env) (le_SignedAt env) (tb_audit t)
      (cb_ProjectID s) ''cost_baseline_snapshot'' (cb_ID s) ''cost_baseline_approved'' (baselineJSON s) (cb_ApprovedBy s)"
  obtain e rows where r: "?r = Inr (e, rows)" and t': "t' = t\<lparr>tb_audit := rows\<rparr>"
    using assms by (cases ?r) (auto simp: recordCheckpoint_def)
  obtain i where app: "appendAuditEventTx sha256 recode (le_Checkpoint env) (tb_audit t) i = Inr (e, rows)"
    and i: "in_ProjectID i = cb_ProjectID s" "in_EventType i = ''cost_baseline_snapshot.approval_checkpoint''"
      "in_EntityID i = cb_ID s"
    using r by (auto simp: appendApprovalCheckpointForUserTx_def Let_def split: option.splits)
  have "rows = tb_audit t @ [e]" by (rule appendTx_InrD(1) [OF app])
  with that [of e] t' i appendTx_step [OF app] appendTx_InrD(2) [OF app] appendTx_fields [OF app] show thesis by simp
qed

subsection \<open>What one committed call changes\<close>

abbreviation grown :: "Tables \<Rightarrow> AuditEvent list \<Rightarrow> Tables" where
  "grown t es \<equiv> t\<lparr>tb_audit := tb_audit t @ es\<rparr>"

lemma upsertTx_InrD:
  assumes "upsertTx sha256 recode formatFloat env t p = Inr (after, t')"
  obtains e where
    "t' = t\<lparr>tb_project := upsertRow (le_Now env) p (tb_project t), tb_audit := tb_audit t @ [e]\<rparr>"
    "auditStep sha256 (tb_audit t) (tb_audit t @ [e])"
    "ev_ProjectID e = proj_ID after" "ev_EntityID e = proj_ID after"
    "\<And>r. find (\<lambda>r. proj_ID r = proj_ID p) (tb_project t) = Some r \<Longrightarrow> moneyRecorded t (proj_ID p)
      \<Longrightarrow> proj_CurrencyCode (normalizeProject r) = proj_CurrencyCode p"
proof -
  let ?t = "t\<lparr>tb_project := upsertRow (le_Now env) p (tb_project t)\<rparr>"
  have free: "\<not> (\<exists>b. getProjectByIDTx t (proj_ID p) = Some b \<and> proj_CurrencyCode b \<noteq> proj_CurrencyCode p
      \<and> (moneyRecorded t (proj_ID p) \<or> proj_BudgetMinorUnits b \<noteq> 0))"
    using assms by (auto simp: upsertTx_def Let_def split: if_splits)
  obtain ty b a where rec: "recordEvent sha256 recode env
      (eventInput (proj_ID after) ty ''project'' (proj_ID after) b a []) ?t = Inr t'"
    using assms by (auto simp: upsertTx_def Let_def and_then_Inr_iff split: if_splits option.splits)
  show thesis
    by (rule recordEvent_InrD [OF rec])
      (use that free in \<open>auto simp: recordedAs_def eventInput_def getProjectByIDTx_def\<close>)
qed

lemma insertSeeds_InrD:
  assumes "insertSeeds env pid k ss t = Inr t'"
  shows "\<exists>new. t' = t\<lparr>tb_types := tb_types t @ new\<rparr>"
  using assms
proof (induction ss arbitrary: k t)
  case (Cons seed ss)
  then obtain tid t1 where t1: "insertType tid pid seed t = Inr t1" and t': "insertSeeds env pid (Suc k) ss t1 = Inr t'"
    by (auto simp: and_then_Inr_iff split: if_splits)
  obtain a where "t1 = t\<lparr>tb_types := tb_types t @ a\<rparr>"
    using t1 that [of "[]"] by (auto simp: insertType_def split: if_splits)
  moreover obtain b where "t' = t1\<lparr>tb_types := tb_types t1 @ b\<rparr>" using Cons.IH [OF t'] by blast
  ultimately show ?case by (intro exI [of _ "a @ b"]) simp
qed (auto intro: exI [of _ "[]"])

lemma EnsureCostTypes_change:
  assumes "EnsureCostTypes sha256 recode env t pid = (t', r)"
  obtains "t' = t" | new es where "t' = t\<lparr>tb_types := tb_types t @ new, tb_audit := tb_audit t @ es\<rparr>"
    "(auditStep sha256)\<^sup>*\<^sup>* (tb_audit t) (tb_audit t @ es)"
  using assms unfolding EnsureCostTypes_def
proof (rule transact_cases)
  fix y
  assume "(if \<not> le_Stmt env 0 \<or> \<not> le_Stmt env 1 then Inl StatementFailed
        else
          (let existing = length (filter (\<lambda>c. ct_ProjectID c = pid) (tb_types t)) in
           and_then (insertSeeds env pid 0 seeds t) (\<lambda>t'.
             if existing = 0
             then and_then (recordEvent sha256 recode env
                      (eventInput pid ''cost_type.seed'' ''cost_type'' [] []
                         (CHR ''['' # Join (map costTypeJSON seeds) '','' @ '']'') []) t')
                    (\<lambda>t''. Inr ((), t''))
             else Inr ((), t')))) = Inr (y, t')"
  then obtain t1 i where seeded: "insertSeeds env pid 0 seeds t = Inr t1"
    and t': "t' = t1 \<or> recordEvent sha256 recode env i t1 = Inr t'"
    by (auto simp: and_then_Inr_iff Let_def split: if_splits)
  obtain new where t1: "t1 = t\<lparr>tb_types := tb_types t @ new\<rparr>" using insertSeeds_InrD [OF seeded] by blast
  from t' show thesis
  proof
    assume "t' = t1" then show thesis using that(2) [where new = new and es = "[]"] t1 by simp
  next
    assume rec: "recordEvent sha256 recode env i t1 = Inr t'"
    show thesis by (rule recordEvent_InrD [OF rec]) (use that(2) [where new = new] t1 in auto)
  qed
qed (use that in auto)

lemma validateCostEntry_InrD:
  assumes "validateCostEntry e0 = Inr e"
  shows "entryOK e \<and> ce_ProjectID e = ce_ProjectID e0 \<and> ce_AmountMinorUnits e = ce_AmountMinorUnits e0
    \<and> ce_Kind e = ce_Kind e0 \<and> ce_ProjectID e \<noteq> [] \<and> ce_ID e = ce_ID e0"
  using assms
  by (auto simp: validateCostEntry_def validateCostEntryProcurementDetail_def entryOK_def Let_def split: if_splits)

lemma saveEntryTx_InrD:
  assumes "saveEntryTx sha256 recode env t e0 = Inr (e, t')"
  obtains ev where "t' = t\<lparr>tb_entries := tb_entries t @ [e], tb_audit := tb_audit t @ [ev]\<rparr>"
    "auditStep sha256 (tb_audit t) (tb_audit t @ [ev])"
    "ev_ProjectID ev = ce_ProjectID e" "ev_EventType ev = ''cost_entry.create''" "ev_EntityID ev = ce_ID e"
    "\<exists>i. e = e0\<lparr>ce_ID := i, ce_CreatedAt := le_Now env, ce_UpdatedAt := le_Now env\<rparr>"
    "projectExists t (ce_ProjectID e)" "\<forall>x \<in> set (tb_entries t). ce_ID x \<noteq> ce_ID e"
proof -
  obtain eid t1 where e: "e = e0\<lparr>ce_ID := eid, ce_CreatedAt := le_Now env, ce_UpdatedAt := le_Now env\<rparr>"
    and ins: "insertEntry e t = Inr t1"
    and rec: "recordEvent sha256 recode env
      (eventInput (ce_ProjectID e) ''cost_entry.create'' ''cost_entry'' (ce_ID e) [] (costEntryJSON e) []) t1 = Inr t'"
    using assms by (auto simp: saveEntryTx_def Let_def and_then_Inr_iff split: if_splits option.splits)
  have t1: "t1 = t\<lparr>tb_entries := tb_entries t @ [e]\<rparr>" "projectExists t (ce_ProjectID e)"
    "\<forall>x \<in> set (tb_entries t). ce_ID x \<noteq> ce_ID e"
    using ins by (auto simp: insertEntry_def list_ex_iff split: if_splits)
  show thesis
    by (rule recordEvent_InrD [OF rec]) (use that t1 e in \<open>auto simp: recordedAs_def eventInput_def\<close>)
qed

lemma saveReserveTx_InrD:
  assumes "saveReserveTx sha256 recode env t r0 = Inr (saved, t')"
  obtains r t1 e where "upsertReserve r t = Inr t1" "t' = grown t1 [e]" "auditStep sha256 (tb_audit t1) (tb_audit t1 @ [e])"
    "ev_ProjectID e = cr_ProjectID saved" "ev_EventType e = ''cost_reserve.save''" "ev_EntityID e = cr_ID saved"
    "\<exists>i. r = r0\<lparr>cr_ID := i\<rparr>" "\<exists>i. saved = r0\<lparr>cr_ID := i\<rparr>"
proof -
  obtain rid sid t1 where ups: "upsertReserve (r0\<lparr>cr_ID := rid\<rparr>) t = Inr t1"
    and saved: "saved = r0\<lparr>cr_ID := sid\<rparr>"
    and rec: "recordEvent sha256 recode env
      (eventInput (cr_ProjectID r0) ''cost_reserve.save'' ''cost_reserve'' (cr_ID saved) [] (costReserveJSON saved) []) t1 = Inr t'"
    using assms by (auto simp: saveReserveTx_def Let_def and_then_Inr_iff split: if_splits option.splits)
  show thesis
    by (rule recordEvent_InrD [OF rec]) (use that [OF ups] saved in \<open>auto simp: recordedAs_def eventInput_def\<close>)
qed

lemma baselineAmounts_InrD:
  assumes "baselineAmounts ok t pid = Inr (planned, contingency, management)"
  shows "planned = acc_total (plannedTotal t pid)" "(contingency, management) = reserveAmounts t pid"
    "is_int64 planned" "is_int64 (planned + contingency)" "0 < planned + contingency"
    "is_int64 (planned + contingency + management)"
  using assms
  by (auto simp: baselineAmounts_def Amount_Add_def Accumulator_Amount_def amountFromBigInt_def Accumulator_Add_def
        newAccumulator_def split: sum.splits prod.splits if_splits)

lemma approveTx_InrD:
  assumes "approveTx sha256 recode env t pid actor note = Inr (b, t')"
  obtains e e' p where "t' = t\<lparr>tb_baselines := tb_baselines t @ [b], tb_audit := tb_audit t @ [e, e']\<rparr>"
    "auditStep sha256 (tb_audit t) (tb_audit t @ [e])" "auditStep sha256 (tb_audit t @ [e]) (tb_audit t @ [e, e'])"
    "ev_ProjectID e = pid" "ev_EventType e = ''cost_baseline_snapshot.create''" "ev_EntityID e = cb_ID b"
    "ev_ProjectID e' = pid" "ev_EventType e' = ''cost_baseline_snapshot.approval_checkpoint''" "ev_EntityID e' = cb_ID b"
    "find (\<lambda>r. proj_ID r = pid) (tb_project t) = Some p" "cb_CurrencyCode b = proj_CurrencyCode p"
    "cb_ProjectID b = pid" "cb_Version b = nextVersion t pid"
    "\<exists>ok. baselineAmounts ok t pid = Inr (cb_PlannedMinorUnits b, cb_ContingencyMinorUnits b, cb_ManagementReserveMinorUnits b)"
    "\<forall>x \<in> set (tb_baselines t). cb_ID x \<noteq> cb_ID b"
proof -
  obtain p bid pl co ma t1 t2 where
    p: "find (\<lambda>r. proj_ID r = pid) (tb_project t) = Some p"
    and am: "baselineAmounts (le_Stmt env 3) t pid = Inr (pl, co, ma)"
    and b: "b = \<lparr>cb_ID = bid, cb_ProjectID = pid, cb_Version = nextVersion t pid,
                        cb_CurrencyCode = proj_CurrencyCode p, cb_PlannedMinorUnits = pl,
                        cb_ContingencyMinorUnits = co, cb_ManagementReserveMinorUnits = ma,
                        cb_ApprovedBy = TrimSpace actor, cb_ApprovalNote = TrimSpace note, cb_ApprovedAt = le_Now env\<rparr>"
    and ins: "insertBaseline b t = Inr t1"
    and rec: "recordEvent sha256 recode env
                (eventInput pid ''cost_baseline_snapshot.create'' ''cost_baseline_snapshot'' (cb_ID b) []
                           (baselineJSON b) (cb_ApprovedBy b)) t1 = Inr t2"
    and chk: "recordCheckpoint sha256 recode env b t2 = Inr t'"
    using assms
    by (auto simp: approveTx_def Let_def and_then_Inr_iff split: if_splits option.splits prod.splits)
  have t1: "t1 = t\<lparr>tb_baselines := tb_baselines t @ [b]\<rparr>" "\<forall>x \<in> set (tb_baselines t). cb_ID x \<noteq> cb_ID b"
    using ins by (auto simp: insertBaseline_def list_ex_iff split: if_splits)
  obtain e where e: "t2 = grown t1 [e]" "auditStep sha256 (tb_audit t) (tb_audit t @ [e])"
    "ev_ProjectID e = pid" "ev_EventType e = ''cost_baseline_snapshot.create''" "ev_EntityID e = cb_ID b"
    by (rule recordEvent_InrD [OF rec]) (auto simp: recordedAs_def eventInput_def t1)
  obtain e' where "t' = grown t2 [e']" "auditStep sha256 (tb_audit t2) (tb_audit t2 @ [e'])"
    "ev_ProjectID e' = cb_ProjectID b" "ev_EventType e' = ''cost_baseline_snapshot.approval_checkpoint''" "ev_EntityID e' = cb_ID b"
    by (rule recordCheckpoint_InrD [OF chk])
  with that [of e e' p] e t1 p am show thesis by (auto simp: b)
qed

lemma saveAttachmentTx_InrD:
  assumes "saveAttachmentTx sha256 recode env t pid eid filename contentType blob = Inr (a, t')"
  obtains e x where "t' = t\<lparr>tb_attachments := tb_attachments t @ [(a, blob)], tb_audit := tb_audit t @ [e]\<rparr>"
    "auditStep sha256 (tb_audit t) (tb_audit t @ [e])"
    "ev_ProjectID e = pid" "ev_EventType e = ''cost_entry_attachment.create''" "ev_EntityID e = at_ID a"
    "x \<in> set (tb_entries t)" "ce_ID x = eid" "ce_ProjectID x = pid"
    "at_ProjectID a = pid" "at_CostEntryID a = eid" "at_SizeBytes a = int (length blob)"
    "at_SHA256 a = hexEncode (sha256 blob)" "at_Filename a = filename"
    "length (entryAttachments t eid) < maxAttachmentsPerEntry"
    "wrap_int64 (projectBytes t pid + int (length blob)) \<le> maxAttachmentTotalBytesPerProject"
proof -
  obtain x aid t1 where
    x: "find (\<lambda>e. ce_ID e = eid) (tb_entries t) = Some x" "ce_ProjectID x = pid"
    and lim: "length (entryAttachments t eid) < maxAttachmentsPerEntry"
      "wrap_int64 (projectBytes t pid + int (length blob)) \<le> maxAttachmentTotalBytesPerProject"
    and a: "a = \<lparr>at_ID = aid, at_ProjectID = pid, at_CostEntryID = eid, at_Filename = filename,
                      at_ContentType = contentType, at_SizeBytes = int (length blob),
                      at_SHA256 = hexEncode (sha256 blob), at_CreatedAt = le_Now env\<rparr>"
    and ins: "insertAttachment a blob t = Inr t1"
    and rec: "recordEvent sha256 recode env (eventInput pid ''cost_entry_attachment.create'' ''cost_entry_attachment''
                 (at_ID a) [] (attachmentJSON a) []) t1 = Inr t'"
    using assms
    by (auto simp: saveAttachmentTx_def Let_def and_then_Inr_iff not_le not_less split: if_splits option.splits)
  have t1: "t1 = t\<lparr>tb_attachments := tb_attachments t @ [(a, blob)]\<rparr>"
    using ins by (auto simp: insertAttachment_def split: if_splits)
  have mem: "x \<in> set (tb_entries t)" "ce_ID x = eid" using x(1) by (auto simp: find_Some_iff)
  obtain e where e: "t' = grown t1 [e]" "auditStep sha256 (tb_audit t) (tb_audit t @ [e])" "ev_ProjectID e = pid"
      "ev_EventType e = ''cost_entry_attachment.create''" "ev_EntityID e = at_ID a"
    by (rule recordEvent_InrD [OF rec]) (auto simp: recordedAs_def eventInput_def t1)
  show thesis
    by (rule that [OF _ e(2-5) mem x(2) _ _ _ _ _ lim]) (simp_all add: e(1) t1 a)
qed

lemma CanonicalProjectCurrency_InrD: "CanonicalProjectCurrency code = Inr c \<Longrightarrow> validCurrencyCode c"
  by (auto simp: CanonicalProjectCurrency_def Let_def split: if_splits)

lemma preparedProject_fields [simp]:
  "proj_ID (preparedProject p pid c) = pid" "proj_CurrencyCode (preparedProject p pid c) = c"
  by (simp_all add: preparedProject_def Let_def)

lemma upsertReserve_audit: "upsertReserve r t = Inr t' \<Longrightarrow> tb_audit t' = tb_audit t"
  by (auto simp: upsertReserve_def split: if_splits)

text \<open>The changes one step can make, each with the audit events it adds.\<close>

lemma ledgerStep_cases:
  assumes "ledgerStep sha256 t t'"
  obtains (none) "t' = t"
  | (project) now p es where "t' = t\<lparr>tb_project := upsertRow now p (tb_project t), tb_audit := tb_audit t @ es\<rparr>"
      "(auditStep sha256)\<^sup>*\<^sup>* (tb_audit t) (tb_audit t @ es)" "validCurrencyCode (proj_CurrencyCode p)"
      "\<And>r. find (\<lambda>r. proj_ID r = proj_ID p) (tb_project t) = Some r \<Longrightarrow> moneyRecorded t (proj_ID p)
        \<Longrightarrow> proj_CurrencyCode (normalizeProject r) = proj_CurrencyCode p"
  | (types) new es where "t' = t\<lparr>tb_types := tb_types t @ new, tb_audit := tb_audit t @ es\<rparr>"
      "(auditStep sha256)\<^sup>*\<^sup>* (tb_audit t) (tb_audit t @ es)"
  | (entry) e es where "t' = t\<lparr>tb_entries := tb_entries t @ [e], tb_audit := tb_audit t @ es\<rparr>"
      "(auditStep sha256)\<^sup>*\<^sup>* (tb_audit t) (tb_audit t @ es)" "entryOK e" "projectExists t (ce_ProjectID e)"
      "\<forall>x \<in> set (tb_entries t). ce_ID x \<noteq> ce_ID e"
  | (reserve) r t1 es where "upsertReserve r t = Inr t1" "t' = grown t1 es" "reserveOK r"
      "(auditStep sha256)\<^sup>*\<^sup>* (tb_audit t) (tb_audit t @ es)"
  | (baseline) b p es where "t' = t\<lparr>tb_baselines := tb_baselines t @ [b], tb_audit := tb_audit t @ es\<rparr>"
      "(auditStep sha256)\<^sup>*\<^sup>* (tb_audit t) (tb_audit t @ es)"
      "find (\<lambda>r. proj_ID r = cb_ProjectID b) (tb_project t) = Some p" "cb_CurrencyCode b = proj_CurrencyCode p"
      "cb_Version b = nextVersion t (cb_ProjectID b)" "baselineOK b"
  | (attachment) a blob x es where "t' = t\<lparr>tb_attachments := tb_attachments t @ [(a, blob)], tb_audit := tb_audit t @ es\<rparr>"
      "(auditStep sha256)\<^sup>*\<^sup>* (tb_audit t) (tb_audit t @ es)" "attachmentOK sha256 (a, blob)"
      "x \<in> set (tb_entries t)" "ce_ID x = at_CostEntryID a" "ce_ProjectID x = at_ProjectID a"
      "length (entryAttachments t (at_CostEntryID a)) < maxAttachmentsPerEntry"
      "wrap_int64 (projectBytes t (at_ProjectID a) + at_SizeBytes a) \<le> maxAttachmentTotalBytesPerProject"
  using assms
proof cases
  case (upsert recode formatFloat env p r)
  from upsert [unfolded UpsertProject_def] show ?thesis
  proof (cases rule: transact_cases)
    case (2 y)
    then obtain pid c where c: "CanonicalProjectCurrency (proj_CurrencyCode p) = Inr c"
      and tx: "upsertTx sha256 recode formatFloat env t (preparedProject p pid c) = Inr (y, t')"
      by (auto simp: and_then_Inr_iff)
    show ?thesis
      by (rule upsertTx_InrD [OF tx]) (rule project, use CanonicalProjectCurrency_InrD [OF c] in auto)
  qed (rule none)
next
  case (types recode env readable pid r)
  then obtain x where "EnsureCostTypes sha256 recode env t pid = (t', x)"
    by (auto simp: ListCostTypes_def split: prod.splits sum.splits)
  then show ?thesis by (rule EnsureCostTypes_change) (auto intro: none that(3))
next
  case (entry recode env e r)
  from entry [unfolded SaveCostEntry_def] show ?thesis
  proof (cases rule: transact_cases)
    case (2 y)
    then obtain e1 where v: "validateCostEntry e = Inr e1" and tx: "saveEntryTx sha256 recode env t e1 = Inr (y, t')"
      by (auto simp: and_then_Inr_iff)
    show ?thesis
      by (rule saveEntryTx_InrD [OF tx]) (rule that(4), use validateCostEntry_InrD [OF v] in \<open>auto simp: entryOK_def\<close>)
  qed (rule none)
next
  case (reserve recode env c r)
  from reserve [unfolded SaveCostReserve_def] show ?thesis
  proof (cases rule: transact_cases)
    case (2 y)
    then have tx: "saveReserveTx sha256 recode env t c = Inr (y, t')" and ok: "reserveOK c"
      by (auto simp: reserveOK_def split: if_splits)
    show ?thesis
    proof (rule saveReserveTx_InrD [OF tx])
      fix x t1 e assume ins: "upsertReserve x t = Inr t1"
        and "t' = grown t1 [e]" "auditStep sha256 (tb_audit t1) (tb_audit t1 @ [e])" "\<exists>i. x = c\<lparr>cr_ID := i\<rparr>"
      then show ?thesis
        using ok upsertReserve_audit [OF ins] by (intro that(5) [OF ins, where es = "[e]"]) (auto simp: reserveOK_def)
    qed
  qed (rule none)
next
  case (approve recode env pid actor why r)
  from approve [unfolded ApproveCostBaseline_def] show ?thesis
  proof (cases rule: transact_cases)
    case (2 b)
    then have tx: "approveTx sha256 recode env t pid actor why = Inr (b, t')" by (auto split: if_splits)
    show ?thesis
    proof (rule approveTx_InrD [OF tx], rule baseline)
      fix e e' p
      assume "\<exists>ok. baselineAmounts ok t pid
          = Inr (cb_PlannedMinorUnits b, cb_ContingencyMinorUnits b, cb_ManagementReserveMinorUnits b)"
      then obtain ok where "baselineAmounts ok t pid
          = Inr (cb_PlannedMinorUnits b, cb_ContingencyMinorUnits b, cb_ManagementReserveMinorUnits b)" ..
      note baselineAmounts_InrD(3-6) [OF this]
      then show "baselineOK b" by (simp add: baselineOK_def)
    qed (auto intro: converse_rtranclp_into_rtranclp)
  qed (rule none)
next
  case (attach recode env pid eid filename contentType blob r)
  from attach [unfolded SaveCostEntryAttachment_def] show ?thesis
  proof (cases rule: transact_cases)
    case (2 a)
    then obtain name ct where blob: "blob \<noteq> []" "int (length blob) \<le> maxAttachmentBytes"
      and tx: "saveAttachmentTx sha256 recode env t pid eid name ct blob = Inr (a, t')"
      by (auto simp: and_then_Inr_iff not_less split: if_splits)
    show ?thesis
      by (rule saveAttachmentTx_InrD [OF tx]) (rule attachment, use blob in \<open>auto simp: attachmentOK_def\<close>)
  qed (rule none)
qed

subsection \<open>Invariants\<close>

definition currencyOf :: "Tables \<Rightarrow> string \<Rightarrow> string option" where
  "currencyOf t pid = map_option proj_CurrencyCode (find (\<lambda>r. proj_ID r = pid) (tb_project t))"

definition projectsOK :: "Tables \<Rightarrow> bool" where
  "projectsOK t \<longleftrightarrow> (\<forall>r \<in> set (tb_project t). validCurrencyCode (proj_CurrencyCode r))"

definition entriesOK :: "Tables \<Rightarrow> bool" where
  "entriesOK t \<longleftrightarrow>
     distinct (map ce_ID (tb_entries t))
     \<and> (\<forall>e \<in> set (tb_entries t). entryOK e \<and> currencyOf t (ce_ProjectID e) \<noteq> None)"

definition reservesOK :: "Tables \<Rightarrow> bool" where
  "reservesOK t \<longleftrightarrow>
     distinct (map (\<lambda>r. (cr_ProjectID r, cr_Kind r)) (tb_reserves t)) \<and> (\<forall>r \<in> set (tb_reserves t). reserveOK r)"

definition versionsOf :: "Tables \<Rightarrow> string \<Rightarrow> int list" where
  "versionsOf t pid = map cb_Version (filter (\<lambda>b. cb_ProjectID b = pid) (tb_baselines t))"

definition baselinesOK :: "Tables \<Rightarrow> bool" where
  "baselinesOK t \<longleftrightarrow>
     (\<forall>b \<in> set (tb_baselines t). baselineOK b \<and> currencyOf t (cb_ProjectID b) = Some (cb_CurrencyCode b))
     \<and> (\<forall>pid. versionsOf t pid = [1..int (length (versionsOf t pid))])"

definition attachmentsOK :: "Digest \<Rightarrow> Tables \<Rightarrow> bool" where
  "attachmentsOK sha256 t \<longleftrightarrow>
     (\<forall>row \<in> set (tb_attachments t). attachmentOK sha256 row
        \<and> (\<exists>x \<in> set (tb_entries t). ce_ID x = at_CostEntryID (fst row) \<and> ce_ProjectID x = at_ProjectID (fst row)))
     \<and> (\<forall>eid. length (entryAttachments t eid) \<le> maxAttachmentsPerEntry)
     \<and> (\<forall>pid. projectBytes t pid \<le> maxAttachmentTotalBytesPerProject)"

definition ledgerOK :: "Digest \<Rightarrow> Tables \<Rightarrow> bool" where
  "ledgerOK sha256 t \<longleftrightarrow>
     projectsOK t \<and> entriesOK t \<and> reservesOK t \<and> baselinesOK t \<and> attachmentsOK sha256 t \<and> allChained sha256 (tb_audit t)"

lemma currencyOf_None: "currencyOf t pid = None \<longleftrightarrow> \<not> projectExists t pid"
  by (auto simp: currencyOf_def projectExists_def find_None_iff list_ex_iff)

lemma find_upsertRow:
  "find (\<lambda>r. proj_ID r = pid) (upsertRow now p rows) =
     (if pid = proj_ID p
      then Some (case find (\<lambda>r. proj_ID r = pid) rows of
             None \<Rightarrow> p\<lparr>proj_CreatedAt := now, proj_UpdatedAt := now\<rparr>
           | Some r \<Rightarrow> p\<lparr>proj_CreatedAt := proj_CreatedAt r, proj_UpdatedAt := now\<rparr>)
      else find (\<lambda>r. proj_ID r = pid) rows)"
proof -
  have app: "find P (xs @ ys) = (case find P xs of None \<Rightarrow> find P ys | Some x \<Rightarrow> Some x)"
    for P and xs ys :: "Project list" by (induction xs) auto
  have upd: "find (\<lambda>r. proj_ID r = pid) (map (\<lambda>r. if proj_ID r = proj_ID p
        then p\<lparr>proj_CreatedAt := proj_CreatedAt r, proj_UpdatedAt := now\<rparr> else r) rows)
      = map_option (\<lambda>r. if pid = proj_ID p
          then p\<lparr>proj_CreatedAt := proj_CreatedAt r, proj_UpdatedAt := now\<rparr> else r) (find (\<lambda>r. proj_ID r = pid) rows)"
    by (induction rows) auto
  have ex: "list_ex (\<lambda>r. proj_ID r = proj_ID p) rows \<longleftrightarrow> find (\<lambda>r. proj_ID r = proj_ID p) rows \<noteq> None"
    by (auto simp: find_None_iff list_ex_iff)
  show ?thesis
  proof (cases "list_ex (\<lambda>r. proj_ID r = proj_ID p) rows")
    case True
    then show ?thesis using ex upd
      by (cases "pid = proj_ID p"; cases "find (\<lambda>r. proj_ID r = pid) rows") (auto simp: upsertRow_def)
  next
    case False
    then show ?thesis using ex by (auto simp: upsertRow_def app split: option.splits)
  qed
qed

text \<open>A project's currency stays as it is while entries or baselines are recorded in it.\<close>

lemma ledgerStep_currency:
  assumes "ledgerStep sha256 t t'" and "projectsOK t" and "moneyRecorded t pid"
    and "currencyOf t pid = Some c"
  shows "currencyOf t' pid = Some c"
  using assms(1)
proof (cases rule: ledgerStep_cases)
  case (project now p es)
  obtain r where r: "find (\<lambda>r. proj_ID r = pid) (tb_project t) = Some r" "c = proj_CurrencyCode r"
    using assms(4) by (auto simp: currencyOf_def)
  then have "r \<in> set (tb_project t)" by (auto simp: find_Some_iff)
  then have "validCurrencyCode (proj_CurrencyCode r)" using assms(2) by (simp add: projectsOK_def)
  then have "proj_CurrencyCode r \<noteq> []" by (auto simp: validCurrencyCode_def supportedProjectCurrencies_def)
  then have norm: "proj_CurrencyCode (normalizeProject r) = proj_CurrencyCode r" by (simp add: normalizeProject_def Let_def)
  with project(4) [of r] r assms(3) show ?thesis
    by (auto simp: currencyOf_def project(1) find_upsertRow)
next
  case (reserve r t1 es)
  then have "tb_project t' = tb_project t" by (auto simp: upsertReserve_def split: if_splits)
  then show ?thesis using assms(4) by (simp add: currencyOf_def)
qed (use assms(4) in \<open>simp_all add: currencyOf_def\<close>)

lemma upsertReserve_only:
  assumes "upsertReserve r t = Inr t'"
  shows "tb_project t' = tb_project t" "tb_entries t' = tb_entries t" "tb_baselines t' = tb_baselines t"
    "tb_attachments t' = tb_attachments t"
  using assms by (auto simp: upsertReserve_def split: if_splits)

lemma ledgerStep_keeps_project:
  assumes "ledgerStep sha256 t t'" and "currencyOf t pid \<noteq> None"
  shows "currencyOf t' pid \<noteq> None"
  using assms(1)
proof (cases rule: ledgerStep_cases)
  case (project now p es)
  then show ?thesis using assms(2) by (simp add: currencyOf_def find_upsertRow)
next
  case (reserve r t1 es)
  then show ?thesis using assms(2) upsertReserve_only [OF reserve(1)] by (simp add: currencyOf_def)
qed (use assms(2) in \<open>simp_all add: currencyOf_def\<close>)

lemma ledgerStep_projectsOK: "ledgerStep sha256 t t' \<Longrightarrow> projectsOK t \<Longrightarrow> projectsOK t'"
proof (erule ledgerStep_cases)
  fix r t1 es assume "projectsOK t" "upsertReserve r t = Inr t1" "t' = grown t1 es"
  then show "projectsOK t'" by (auto simp: projectsOK_def upsertReserve_def split: if_splits)
qed (auto simp: projectsOK_def upsertRow_def split: if_splits)

text \<open>The tables that are only appended to.\<close>

interpretation entries: append_log tb_entries "ledgerStep sha256"
proof
  fix t t' assume "ledgerStep sha256 t t'"
  then show "\<exists>new. tb_entries t' = tb_entries t @ new"
    by (rule ledgerStep_cases) (auto dest: upsertReserve_only)
qed

interpretation baselines: append_log tb_baselines "ledgerStep sha256"
proof
  fix t t' assume "ledgerStep sha256 t t'"
  then show "\<exists>new. tb_baselines t' = tb_baselines t @ new"
    by (rule ledgerStep_cases) (auto dest: upsertReserve_only)
qed

interpretation attachments: append_log tb_attachments "ledgerStep sha256"
proof
  fix t t' assume "ledgerStep sha256 t t'"
  then show "\<exists>new. tb_attachments t' = tb_attachments t @ new"
    by (rule ledgerStep_cases) (auto dest: upsertReserve_only)
qed

lemma ledgerStep_audit: "ledgerStep sha256 t t' \<Longrightarrow> (auditStep sha256)\<^sup>*\<^sup>* (tb_audit t) (tb_audit t')"
  by (erule ledgerStep_cases) (auto dest: upsertReserve_audit)

lemma ledgerStep_entriesOK:
  assumes "ledgerStep sha256 t t'" and "entriesOK t"
  shows "entriesOK t'"
proof -
  have keep: "currencyOf t' (ce_ProjectID e) \<noteq> None" if "e \<in> set (tb_entries t)" for e
    using assms(2) that ledgerStep_keeps_project [OF assms(1)] by (simp add: entriesOK_def)
  from assms(1) show ?thesis
  proof (cases rule: ledgerStep_cases)
    case (entry e es)
    then have "currencyOf t' (ce_ProjectID e) \<noteq> None"
      using ledgerStep_keeps_project [OF assms(1)] currencyOf_None by blast
    with entry assms(2) keep show ?thesis by (auto simp: entriesOK_def)
  next
    case (reserve r t1 es)
    then show ?thesis using assms(2) keep upsertReserve_only [OF reserve(1)] by (simp add: entriesOK_def)
  qed (use assms(2) keep in \<open>simp_all add: entriesOK_def\<close>)
qed

lemma upsertReserve_OK:
  assumes "upsertReserve r t = Inr t'" and "reservesOK t" and "reserveOK r"
  shows "reservesOK t'"
proof (cases "list_ex (sameReserve r) (tb_reserves t)")
  case True
  let ?f = "\<lambda>x. if sameReserve r x
      then x\<lparr>cr_AmountMinorUnits := cr_AmountMinorUnits r, cr_Description := cr_Description r\<rparr> else x"
  have t': "tb_reserves t' = map ?f (tb_reserves t)" using assms(1) True by (auto simp: upsertReserve_def)
  have "map (\<lambda>r. (cr_ProjectID r, cr_Kind r)) (map ?f xs) = map (\<lambda>r. (cr_ProjectID r, cr_Kind r)) xs" for xs
    by (induction xs) auto
  then show ?thesis using assms(2,3) by (auto simp: reservesOK_def t' reserveOK_def simp del: map_map)
next
  case False
  then show ?thesis using assms
    by (auto simp: reservesOK_def upsertReserve_def list_ex_iff sameReserve_def split: if_splits) blast
qed

lemma ledgerStep_reservesOK: "ledgerStep sha256 t t' \<Longrightarrow> reservesOK t \<Longrightarrow> reservesOK t'"
proof (erule ledgerStep_cases)
  fix r t1 es assume "reservesOK t" "upsertReserve r t = Inr t1" "t' = grown t1 es" "reserveOK r"
  then show "reservesOK t'" using upsertReserve_OK [of r t t1] by (simp add: reservesOK_def)
qed (auto simp: reservesOK_def)

lemma fold_max_upto: "fold max [1..int n] 0 = int n"
proof (induction n)
  case (Suc n)
  have "[1..int (Suc n)] = [1..int n] @ [int (Suc n)]" by (simp add: upto_rec2)
  with Suc show ?case by simp
qed simp

lemma nextVersion_eq: "baselinesOK t \<Longrightarrow> nextVersion t pid = int (length (versionsOf t pid)) + 1"
  unfolding nextVersion_def versionsOf_def [symmetric] using fold_max_upto by (metis baselinesOK_def)

lemma ledgerStep_baselinesOK:
  assumes "ledgerStep sha256 t t'" and "projectsOK t" and "baselinesOK t"
  shows "baselinesOK t'"
proof -
  have keep: "currencyOf t' (cb_ProjectID b) = Some (cb_CurrencyCode b)" if "b \<in> set (tb_baselines t)" for b
    using assms(3) that
    by (intro ledgerStep_currency [OF assms(1,2)]) (auto simp: moneyRecorded_def list_ex_iff baselinesOK_def)
  have same: "baselinesOK t'" if "tb_baselines t' = tb_baselines t"
    using assms(3) keep by (simp add: baselinesOK_def versionsOf_def that)
  from assms(1) show ?thesis
  proof (cases rule: ledgerStep_cases)
    case (baseline b p es)
    have cur: "currencyOf t' (cb_ProjectID b) = Some (cb_CurrencyCode b)" using baseline by (simp add: currencyOf_def)
    have "versionsOf t' pid = [1..int (length (versionsOf t' pid))]" for pid
    proof (cases "pid = cb_ProjectID b")
      case True
      have "versionsOf t' pid = versionsOf t pid @ [int (length (versionsOf t pid)) + 1]"
        using baseline nextVersion_eq [OF assms(3)] True by (simp add: versionsOf_def)
      moreover have "versionsOf t pid = [1..int (length (versionsOf t pid))]" using assms(3) by (simp add: baselinesOK_def)
      moreover have "[1..int n] @ [int n + 1] = [1..int n + 1]" for n by (simp add: upto_rec2)
      ultimately show ?thesis by (metis length_append_singleton of_nat_Suc add.commute)
    next
      case False
      then have "versionsOf t' pid = versionsOf t pid" using baseline(1) by (simp add: versionsOf_def)
      then show ?thesis using assms(3) by (simp add: baselinesOK_def)
    qed
    with keep cur baseline(1,6) assms(3) show ?thesis by (auto simp: baselinesOK_def)
  next
    case (reserve r t1 es)
    then show ?thesis using same upsertReserve_only [OF reserve(1)] by simp
  qed (use same in simp_all)
qed

lemma projectBytes_nonneg:
  assumes "attachmentsOK sha256 t" shows "0 \<le> projectBytes t pid"
proof -
  have "0 \<le> at_SizeBytes a" if "a \<in> set (map fst (tb_attachments t))" for a
    using assms that by (auto simp: attachmentsOK_def attachmentOK_def intro: less_imp_le)
  then show ?thesis unfolding projectBytes_def by (intro sum_list_nonneg) auto
qed

lemma ledgerStep_attachmentsOK:
  assumes "ledgerStep sha256 t t'" and "attachmentsOK sha256 t"
  shows "attachmentsOK sha256 t'"
  using assms(1)
proof (cases rule: ledgerStep_cases)
  case (attachment a blob x es)
  have size: "0 < at_SizeBytes a" "at_SizeBytes a \<le> 10485760"
    using attachment(3) by (auto simp: attachmentOK_def maxAttachmentBytes_def)
  have "0 \<le> projectBytes t (at_ProjectID a)" "projectBytes t (at_ProjectID a) \<le> 209715200"
    using projectBytes_nonneg [OF assms(2)] assms(2) by (auto simp: attachmentsOK_def maxAttachmentTotalBytesPerProject_def)
  then have "wrap_int64 (projectBytes t (at_ProjectID a) + at_SizeBytes a) = projectBytes t (at_ProjectID a) + at_SizeBytes a"
    using size by (intro wrap_int64_id) (simp add: is_int64_def MinInt64_def MaxInt64_def)
  then have "projectBytes t' pid \<le> maxAttachmentTotalBytesPerProject" for pid
    using attachment(1,8) assms(2) by (auto simp: projectBytes_def attachmentsOK_def)
  moreover have "length (entryAttachments t' eid) \<le> maxAttachmentsPerEntry" for eid
    using attachment(1,7) assms(2) by (auto simp: entryAttachments_def attachmentsOK_def)
  moreover have "attachmentOK sha256 row
      \<and> (\<exists>x \<in> set (tb_entries t'). ce_ID x = at_CostEntryID (fst row) \<and> ce_ProjectID x = at_ProjectID (fst row))"
    if "row \<in> set (tb_attachments t')" for row
    using that attachment(1,3-6) assms(2) by (auto simp: attachmentsOK_def)
  ultimately show ?thesis by (simp add: attachmentsOK_def)
next
  case (reserve r t1 es)
  then show ?thesis using assms(2) upsertReserve_only [OF reserve(1)]
    by (simp add: attachmentsOK_def entryAttachments_def projectBytes_def)
qed (use assms(2) in \<open>auto simp: attachmentsOK_def entryAttachments_def projectBytes_def\<close>)

interpretation ledger: consistent_log tb_audit "ledgerStep sha256" "ledgerOK sha256"
proof
  fix t t' assume step: "ledgerStep sha256 t t'"
  then show "\<exists>new. tb_audit t' = tb_audit t @ new" using audit.history_appends [OF ledgerStep_audit] by blast
  assume ok: "ledgerOK sha256 t"
  then have "allChained sha256 (tb_audit t')" using audit.history_consistent [OF ledgerStep_audit [OF step]] by (simp add: ledgerOK_def)
  with ok show "ledgerOK sha256 t'"
    using ledgerStep_projectsOK [OF step] ledgerStep_entriesOK [OF step] ledgerStep_reservesOK [OF step]
      ledgerStep_baselinesOK [OF step] ledgerStep_attachmentsOK [OF step] by (simp add: ledgerOK_def)
qed

lemma ledgerOK_empty: "ledgerOK sha256 emptyTables"
  by (auto simp: ledgerOK_def emptyTables_def projectsOK_def entriesOK_def reservesOK_def baselinesOK_def versionsOf_def
        attachmentsOK_def entryAttachments_def projectBytes_def allChained_def rowsOf_def
        maxAttachmentTotalBytesPerProject_def)

lemma history_audit: "(ledgerStep sha256)\<^sup>*\<^sup>* t t' \<Longrightarrow> (auditStep sha256)\<^sup>*\<^sup>* (tb_audit t) (tb_audit t')"
  by (induction rule: rtranclp_induct) (auto intro: rtranclp_trans ledgerStep_audit)

lemma history_currency:
  assumes "(ledgerStep sha256)\<^sup>*\<^sup>* t t'" and "ledgerOK sha256 t" and "e \<in> set (tb_entries t)"
  shows "currencyOf t' (ce_ProjectID e) = currencyOf t (ce_ProjectID e)"
  using assms(1)
proof (induction rule: rtranclp_induct)
  case (step u v)
  have ok: "ledgerOK sha256 u" by (rule ledger.history_consistent [OF step.hyps(1) assms(2)])
  obtain new where "tb_entries u = tb_entries t @ new" using entries.history_appends [OF step.hyps(1)] by blast
  then have rec: "moneyRecorded u (ce_ProjectID e)" "e \<in> set (tb_entries u)"
    using assms(3) by (auto simp: moneyRecorded_def list_ex_iff)
  then obtain c where c: "currencyOf u (ce_ProjectID e) = Some c" using ok by (auto simp: ledgerOK_def entriesOK_def)
  have "projectsOK u" using ok by (simp add: ledgerOK_def)
  from ledgerStep_currency [OF step.hyps(2) this rec(1) c] c step.IH show ?case by simp
qed simp

text \<open>
  C21. The cost ledger is append-only and bounded. In every history of cost control calls,
  failed ones included, later calls only add entries, baselines and attachments behind the
  earlier ones; every entry is well formed, every baseline is positive and fits
  \<^verbatim>\<open>int64\<close> with both reserves, the baselines of a project are numbered 1, 2, 3
  without a gap, no entry has more than ten attachments and no project more than 200 MiB of
  them; and the audit chain of every project verifies.
\<close>

theorem ledger_append_only:
  assumes "(ledgerStep sha256)\<^sup>*\<^sup>* emptyTables t" and "(ledgerStep sha256)\<^sup>*\<^sup>* t t'"
    and "int (length (tb_audit t)) < MaxInt64"
  shows "(\<exists>new. tb_entries t' = tb_entries t @ new) \<and> (\<exists>new. tb_baselines t' = tb_baselines t @ new)
    \<and> (\<exists>new. tb_attachments t' = tb_attachments t @ new)
    \<and> (\<forall>e \<in> set (tb_entries t). entryOK e) \<and> (\<forall>b \<in> set (tb_baselines t). baselineOK b)
    \<and> versionsOf t p = [1..int (length (versionsOf t p))]
    \<and> length (entryAttachments t eid) \<le> maxAttachmentsPerEntry \<and> projectBytes t p \<le> maxAttachmentTotalBytesPerProject
    \<and> av_Valid (VerifyAuditChain sha256 (tb_audit t) p)"
proof -
  have ok: "ledgerOK sha256 t" by (rule ledger.history_consistent [OF assms(1) ledgerOK_empty])
  have len: "int (length (rowsOf p (tb_audit t))) < MaxInt64" using length_rowsOf [of p "tb_audit t"] assms(3) by linarith
  have "chained sha256 (rowsOf p (tb_audit t))" using ok assms(3) by (simp add: ledgerOK_def allChained_def)
  then have "av_Valid (VerifyAuditChain sha256 (tb_audit t) p)" using verify_valid_iff [OF len] by blast
  moreover note entries.history_appends [OF assms(2)] baselines.history_appends [OF assms(2)]
    attachments.history_appends [OF assms(2)]
  ultimately show ?thesis
    using ok by (simp add: ledgerOK_def entriesOK_def baselinesOK_def attachmentsOK_def)
qed


end
