(* ===== verification/CostBaseline.thy ===== *)
theory CostBaseline
  imports LedgerHistory
begin

text \<open>
  What the single calls of cost control promise: every call changes the tables and records
  its audit events together or not at all, and an approved baseline holds the exact sums of
  the plan and the reserves, or the error that says which sum does not fit.
\<close>

subsection \<open>All or nothing\<close>

lemma SaveCostEntry_result:
  assumes "SaveCostEntry sha256 recode env t e0 = (t', r)"
  shows "(\<exists>err. r = Inl err \<and> t' = t)
    \<or> (\<exists>e ev. r = Inr e \<and> t' = t\<lparr>tb_entries := tb_entries t @ [e], tb_audit := tb_audit t @ [ev]\<rparr>
        \<and> recordedAs (eventInput (ce_ProjectID e0) ''cost_entry.create'' ''cost_entry'' (ce_ID e) [] [] []) ev
        \<and> ce_AmountMinorUnits e = ce_AmountMinorUnits e0 \<and> ce_Kind e = ce_Kind e0)"
  using assms unfolding SaveCostEntry_def
proof (cases rule: transact_cases)
  case (2 y)
  then obtain e1 where v: "validateCostEntry e0 = Inr e1" and tx: "saveEntryTx sha256 recode env t e1 = Inr (y, t')"
    by (auto simp: and_then_Inr_iff)
  show ?thesis
    by (rule saveEntryTx_InrD [OF tx])
      (use 2 validateCostEntry_InrD [OF v] in \<open>auto simp: recordedAs_def eventInput_def\<close>)
qed auto

lemma SaveCostReserve_result:
  assumes "SaveCostReserve sha256 recode env t c = (t', r)"
  shows "(\<exists>err. r = Inl err \<and> t' = t)
    \<or> (\<exists>s ev. r = Inr s \<and> tb_audit t' = tb_audit t @ [ev]
        \<and> recordedAs (eventInput (cr_ProjectID c) ''cost_reserve.save'' ''cost_reserve'' (cr_ID s) [] [] []) ev)"
  using assms unfolding SaveCostReserve_def
proof (cases rule: transact_cases)
  case (2 y)
  then have tx: "saveReserveTx sha256 recode env t c = Inr (y, t')" by (auto split: if_splits)
  show ?thesis
    by (rule saveReserveTx_InrD [OF tx])
      (use 2 upsertReserve_audit in \<open>fastforce simp: recordedAs_def eventInput_def\<close>)
qed auto

lemma ApproveCostBaseline_result:
  assumes "ApproveCostBaseline sha256 recode env t pid actor why = (t', r)"
  shows "(\<exists>err. r = Inl err \<and> t' = t)
    \<or> (\<exists>b ev cp. r = Inr b \<and> t' = t\<lparr>tb_baselines := tb_baselines t @ [b], tb_audit := tb_audit t @ [ev, cp]\<rparr>
        \<and> recordedAs (eventInput pid ''cost_baseline_snapshot.create'' ''cost_baseline_snapshot'' (cb_ID b) [] [] []) ev
        \<and> recordedAs (eventInput pid ''cost_baseline_snapshot.approval_checkpoint'' ''cost_baseline_snapshot'' (cb_ID b) [] [] []) cp)"
  using assms unfolding ApproveCostBaseline_def
proof (cases rule: transact_cases)
  case (2 b)
  then have tx: "approveTx sha256 recode env t pid actor why = Inr (b, t')" by (auto split: if_splits)
  show ?thesis
    by (rule approveTx_InrD [OF tx]) (use 2 in \<open>auto simp: recordedAs_def eventInput_def\<close>)
qed auto

lemma SaveCostEntryAttachment_result:
  assumes "SaveCostEntryAttachment sha256 recode env t pid eid filename contentType blob = (t', r)"
  shows "(\<exists>err. r = Inl err \<and> t' = t)
    \<or> (\<exists>a ev. r = Inr a \<and> t' = t\<lparr>tb_attachments := tb_attachments t @ [(a, blob)], tb_audit := tb_audit t @ [ev]\<rparr>
        \<and> recordedAs (eventInput pid ''cost_entry_attachment.create'' ''cost_entry_attachment'' (at_ID a) [] [] []) ev)"
  using assms unfolding SaveCostEntryAttachment_def
proof (cases rule: transact_cases)
  case (2 a)
  then obtain name ct where tx: "saveAttachmentTx sha256 recode env t pid eid name ct blob = Inr (a, t')"
    by (auto simp: and_then_Inr_iff split: if_splits)
  show ?thesis
    by (rule saveAttachmentTx_InrD [OF tx]) (use 2 in \<open>auto simp: recordedAs_def eventInput_def\<close>)
qed auto


subsection \<open>The sums of a baseline\<close>

definition plannedSum :: "Tables \<Rightarrow> string \<Rightarrow> int" where
  "plannedSum t pid =
     sum_list (map ce_AmountMinorUnits (filter (\<lambda>e. ce_ProjectID e = pid \<and> ce_Kind e = ''planned'') (tb_entries t)))"

definition reserveSum :: "Tables \<Rightarrow> string \<Rightarrow> string \<Rightarrow> int" where
  "reserveSum t pid kind =
     sum_list (map cr_AmountMinorUnits (filter (\<lambda>r. cr_ProjectID r = pid \<and> cr_Kind r = kind) (tb_reserves t)))"

lemma plannedTotal_eq: "acc_total (plannedTotal t pid) = plannedSum t pid"
proof -
  have "acc_total (foldl (\<lambda>acc e. Accumulator_Add acc \<lparr>MinorUnits = ce_AmountMinorUnits e\<rparr>) acc es)
      = acc_total acc + sum_list (map ce_AmountMinorUnits es)" for acc and es :: "CostEntry list"
    by (induction es arbitrary: acc) (simp_all add: Accumulator_Add_def)
  then show ?thesis by (simp add: plannedTotal_def plannedSum_def newAccumulator_def)
qed

lemma reserveAmounts_eq:
  assumes "reservesOK t"
  shows "reserveAmounts t pid = (reserveSum t pid ''contingency'', reserveSum t pid ''management'')"
proof -
  let ?f = "\<lambda>(contingency, management) r.
         if cr_Kind r = ''contingency'' then (cr_AmountMinorUnits r, management)
         else if cr_Kind r = ''management'' then (contingency, cr_AmountMinorUnits r)
         else (contingency, management)"
  let ?sum = "\<lambda>k rs. sum_list (map cr_AmountMinorUnits (filter (\<lambda>r. cr_Kind r = k) rs))"
  have none: "filter (\<lambda>r. cr_Kind r = k) rs = []" if "k \<notin> cr_Kind ` set rs" for k and rs :: "CostReserve list"
    using that by (auto simp: filter_empty_conv)
  have walk: "foldl ?f (c, m) rs =
      ((if ''contingency'' \<in> cr_Kind ` set rs then ?sum ''contingency'' rs else c),
       (if ''management'' \<in> cr_Kind ` set rs then ?sum ''management'' rs else m))"
    if "distinct (map cr_Kind rs)" for c m and rs :: "CostReserve list"
    using that
  proof (induction rs arbitrary: c m)
    case (Cons r rs)
    show ?case
      by (cases "cr_Kind r = ''contingency''"; cases "cr_Kind r = ''management''") (use Cons in \<open>simp_all add: none\<close>)
  qed simp
  let ?rs = "filter (\<lambda>r. cr_ProjectID r = pid) (tb_reserves t)"
  have "distinct (map (\<lambda>r. (cr_ProjectID r, cr_Kind r)) (tb_reserves t))" using assms by (simp add: reservesOK_def)
  then have "distinct (map cr_Kind ?rs)" by (induction "tb_reserves t" rule: rev_induct) (auto simp: distinct_map inj_on_def)
  from walk [OF this, of 0 0] none [of _ ?rs]
  have "foldl ?f (0, 0) ?rs = (?sum ''contingency'' ?rs, ?sum ''management'' ?rs)" by simp
  then show ?thesis by (simp add: reserveAmounts_def reserveSum_def conj_commute)
qed

text \<open>The three outcomes of the checks on the sums.\<close>

lemma baselineAmounts_eq:
  assumes "reservesOK t"
  shows "baselineAmounts True t pid =
    (let pl = plannedSum t pid; c = reserveSum t pid ''contingency''; m = reserveSum t pid ''management'' in
     if \<not> is_int64 pl \<or> \<not> is_int64 (pl + c) then Inl (MoneyError ErrOverflow)
     else if pl + c \<le> 0 then Inl BaselineNotPositive
     else if \<not> is_int64 (pl + c + m) then Inl (MoneyError ErrOverflow)
     else Inr (pl, c, m))"
  by (simp add: baselineAmounts_def reserveAmounts_eq [OF assms] Accumulator_Amount_def amountFromBigInt_def
        Amount_Add_def Accumulator_Add_def newAccumulator_def plannedTotal_eq Let_def)

text \<open>
  C26. An approved baseline is exact. With \<open>pl\<close> the sum of all planned entries of the
  project, \<open>c\<close> and \<open>m\<close> its contingency and management reserves: the approval is
  refused with an overflow exactly when \<open>pl\<close>, \<open>pl + c\<close> or, for a positive
  baseline, \<open>pl + c + m\<close> does not fit \<^verbatim>\<open>int64\<close>, and as not positive exactly
  when \<open>pl + c\<close> fits and is not; a snapshot holds exactly these three amounts, the next
  version number and the project's currency; and where the sums are in order nothing but
  missing randomness, a repeated identifier or a storage or audit failure stops it.
\<close>

theorem cost_baseline_exact:
  assumes "(ledgerStep sha256)\<^sup>*\<^sup>* emptyTables t" and "\<forall>k. le_Stmt env k" and "le_Commit env"
    and "currencyOf t pid = Some cur" and "pid \<noteq> []" "TrimSpace actor \<noteq> []" "TrimSpace why \<noteq> []"
    and "pl = plannedSum t pid" "c = reserveSum t pid ''contingency''" "m = reserveSum t pid ''management''"
    and "r = snd (ApproveCostBaseline sha256 recode env t pid actor why)"
  shows "(r = Inl (MoneyError ErrOverflow) \<longleftrightarrow>
        \<not> is_int64 pl \<or> \<not> is_int64 (pl + c) \<or> (0 < pl + c \<and> \<not> is_int64 (pl + c + m)))
    \<and> (r = Inl BaselineNotPositive \<longleftrightarrow> is_int64 pl \<and> is_int64 (pl + c) \<and> pl + c \<le> 0)
    \<and> (\<forall>b. r = Inr b \<longrightarrow> cb_PlannedMinorUnits b = pl \<and> cb_ContingencyMinorUnits b = c
         \<and> cb_ManagementReserveMinorUnits b = m \<and> cb_CurrencyCode b = cur
         \<and> cb_Version b = int (length (versionsOf t pid)) + 1)
    \<and> (\<forall>err. r = Inl err \<longrightarrow> err \<in> {MoneyError ErrOverflow, BaselineNotPositive, NoRandomBytes, ConstraintViolated}
         \<or> (\<exists>a. err = AuditFailed a))"
proof -
  have ok: "reservesOK t" "baselinesOK t"
    using ledger.history_consistent [OF assms(1) ledgerOK_empty] by (auto simp: ledgerOK_def)
  obtain p where p: "find (\<lambda>r. proj_ID r = pid) (tb_project t) = Some p" "proj_CurrencyCode p = cur"
    using assms(4) by (auto simp: currencyOf_def)
  have r: "r = map_sum (\<lambda>e. e) fst (approveTx sha256 recode env t pid actor why)"
    using assms(3,5-7,11) by (auto simp: ApproveCostBaseline_def transact_def split: sum.splits)
  have rec: "recordEvent sha256 recode env i t1 = Inl err \<Longrightarrow> \<exists>a. err = AuditFailed a" for i t1 err
    by (auto simp: recordEvent_def split: sum.splits prod.splits)
  have chk: "recordCheckpoint sha256 recode env s t1 = Inl err \<Longrightarrow> \<exists>a. err = AuditFailed a" for s t1 err
    by (auto simp: recordCheckpoint_def split: sum.splits prod.splits)
  show ?thesis
  proof (cases "baselineAmounts True t pid")
    case (Inl err)
    have "r = Inl err" using assms(2) p Inl by (simp add: r approveTx_def)
    with Inl [unfolded baselineAmounts_eq [OF ok(1)] Let_def] show ?thesis
      unfolding assms(8-10) by (auto split: if_splits)
  next
    case (Inr abc)
    have abc: "abc = (pl, c, m)" and fits: "is_int64 pl" "is_int64 (pl + c)" "0 < pl + c" "is_int64 (pl + c + m)"
      using Inr [unfolded baselineAmounts_eq [OF ok(1)] Let_def] unfolding assms(8-10) by (auto split: if_splits)
    note am = Inr [unfolded abc]
    have good: "cb_PlannedMinorUnits b = pl \<and> cb_ContingencyMinorUnits b = c \<and> cb_ManagementReserveMinorUnits b = m
        \<and> cb_CurrencyCode b = cur \<and> cb_Version b = int (length (versionsOf t pid)) + 1" if "r = Inr b" for b
      using that assms(2) p am nextVersion_eq [OF ok(2), of pid]
      by (auto simp: r approveTx_def and_then_def Let_def split: sum.splits)
    have bad: "err \<in> {NoRandomBytes, ConstraintViolated} \<or> (\<exists>a. err = AuditFailed a)" if "r = Inl err" for err
      using that assms(2) p am rec chk
      by (auto simp: r approveTx_def and_then_def freshID_def insertBaseline_def Let_def
            split: sum.splits option.splits if_splits)
    show ?thesis using fits good bad by (cases r) auto
  qed
qed

subsection \<open>A small ledger\<close>

abbreviation flat_digest :: Digest where "flat_digest \<equiv> \<lambda>_. ''d''"
abbreviation flat_recode :: Recode where "flat_recode \<equiv> \<lambda>_. Some ''x''"

definition toy_call :: "string \<Rightarrow> LedgerEnv" where
  "toy_call seed = \<lparr>le_Stmt = (\<lambda>_. True), le_Random = (\<lambda>k. Some (FormatInt (int k))), le_Now = ''t'',
     le_Audit = toy_env\<lparr>tx_Random := Some seed\<rparr>, le_Checkpoint = toy_env\<lparr>tx_Random := Some (seed @ ''c'')\<rparr>,
     le_SignedAt = ''t'', le_Commit = True\<rparr>"

definition toy_project :: Project where
  "toy_project = \<lparr>proj_ID = ''p1'', proj_Name = ''Bridge'', proj_Description = [], proj_Status = ''active'',
     proj_Phase = ''planning'', proj_StartDate = [], proj_EndDate = [], proj_Budget = 0, proj_BudgetMinorUnits = 0,
     proj_CurrencyCode = ''eur'', proj_Owner = [], proj_Industry = [], proj_SubCategory = [], proj_Methodology = [],
     proj_CountryCode = [], proj_TimeZone = [], proj_CreatedAt = [], proj_UpdatedAt = []\<rparr>"

definition toy_entry :: CostEntry where
  "toy_entry = \<lparr>ce_ID = [], ce_ProjectID = ''p1'', ce_CostTypeID = newID ''ctype'' ''0'', ce_Kind = ''planned'',
     ce_CostDate = ''2026-01-05'', ce_Description = ''steel'', ce_AmountMinorUnits = 12500, ce_QuantityMilliUnits = 2000,
     ce_Unit = ''t'', ce_ItemName = ''beam'', ce_SKU = [], ce_SupplierName = [], ce_InvoiceReference = [],
     ce_CreatedAt = [], ce_UpdatedAt = []\<rparr>"

definition toy_t1 :: Tables where
  "toy_t1 = fst (UpsertProject flat_digest flat_recode (\<lambda>_. ''0'') (toy_call ''a'') emptyTables toy_project)"
definition toy_t2 :: Tables where
  "toy_t2 = fst (ListCostTypes flat_digest flat_recode (toy_call ''b'') True toy_t1 ''p1'')"
definition toy_t3 :: Tables where
  "toy_t3 = fst (SaveCostEntry flat_digest flat_recode (toy_call ''c'') toy_t2 toy_entry)"
definition toy_t4 :: Tables where
  "toy_t4 = fst (ApproveCostBaseline flat_digest flat_recode (toy_call ''e'') toy_t3 ''p1'' ''ann'' ''agreed'')"

lemma toy_steps: "(ledgerStep flat_digest)\<^sup>*\<^sup>* emptyTables toy_t3" "(ledgerStep flat_digest)\<^sup>*\<^sup>* toy_t3 toy_t4"
proof -
  have 1: "ledgerStep flat_digest emptyTables toy_t1" unfolding toy_t1_def by (rule ledgerStep.upsert) (rule prod.collapse [symmetric])
  have 2: "ledgerStep flat_digest toy_t1 toy_t2" unfolding toy_t2_def by (rule ledgerStep.types) (rule prod.collapse [symmetric])
  have 3: "ledgerStep flat_digest toy_t2 toy_t3" unfolding toy_t3_def by (rule ledgerStep.entry) (rule prod.collapse [symmetric])
  have 4: "ledgerStep flat_digest toy_t3 toy_t4" unfolding toy_t4_def by (rule ledgerStep.approve) (rule prod.collapse [symmetric])
  from 1 2 3 show "(ledgerStep flat_digest)\<^sup>*\<^sup>* emptyTables toy_t3"
    by (meson converse_rtranclp_into_rtranclp r_into_rtranclp)
  from 4 show "(ledgerStep flat_digest)\<^sup>*\<^sup>* toy_t3 toy_t4" by (rule r_into_rtranclp)
qed

text \<open>With a constant digest and encoding the events need not be computed.\<close>

definition toy_audit :: "string list \<Rightarrow> AuditTable \<Rightarrow> bool" where
  "toy_audit ks rows \<longleftrightarrow> map ev_ID rows = map (newID ''audit'') ks
     \<and> map ev_SequenceNumber rows = [1..int (length ks)] \<and> list_all (\<lambda>e. ev_ProjectID e = ''p1'') rows"

lemma toy_audit_append:
  assumes "toy_audit ks rows" and "newID ''audit'' seed \<notin> set (map (newID ''audit'') ks)" and "length ks < 10"
    and "in_ProjectID i = ''p1''" "in_EventType i \<noteq> []" "in_EntityType i \<noteq> []"
  shows "\<exists>e. appendAuditEventTx flat_digest flat_recode (toy_env\<lparr>tx_Random := Some seed\<rparr>) rows i = Inr (e, rows @ [e])
    \<and> toy_audit (ks @ [seed]) (rows @ [e])"
proof -
  have len: "length rows = length ks" using assms(1) by (metis toy_audit_def length_map)
  have seq: "map ev_SequenceNumber rows = [1..int (length rows)]" using assms(1) len by (simp add: toy_audit_def)
  have p: "filter (\<lambda>e. ev_ProjectID e = ''p1'') rows = rows" using assms(1) by (simp add: toy_audit_def list_all_iff)
  have "sorted (map ev_SequenceNumber rows)" unfolding seq by (rule sorted_upto)
  then have rows: "rowsOf ''p1'' rows = rows" by (simp add: rowsOf_def p sort_key_id_if_sorted)
  have link: "snd (nextLink rows) = int (length rows) + 1"
  proof (cases rows rule: rev_cases)
    case (snoc xs x)
    then have "ev_SequenceNumber x = int (length rows)"
      using arg_cong [OF seq, of last] by (simp add: upto_rec2)
    then show ?thesis using len assms(3)
      by (simp add: nextLink_def snoc wrap_int64_id is_int64_def MinInt64_def MaxInt64_def)
  qed (simp add: nextLink_def)
  have fresh: "ev_ID x \<noteq> newID ''audit'' seed" "ev_SequenceNumber x \<noteq> int (length rows) + 1" if "x \<in> set rows" for x
  proof -
    show "ev_ID x \<noteq> newID ''audit'' seed"
      using that assms(1,2) unfolding toy_audit_def by (metis image_eqI list.set_map)
    have "ev_SequenceNumber x \<in> set [1..int (length rows)]" using that seq by (metis image_eqI list.set_map)
    then show "ev_SequenceNumber x \<noteq> int (length rows) + 1" by simp
  qed
  have "[1..int n] @ [int n + 1] = [1..int n + 1]" for n by (simp add: upto_rec2)
  then show ?thesis
    using assms(1,4-6) fresh len
    by (auto simp: appendAuditEventTx_def canonicalJSON_def toy_env_def buildEvent_def insertRow_def list_ex_iff rows link
          toy_audit_def Let_def add.commute)
qed

lemma toy_record:
  assumes "toy_audit ks (tb_audit t)" and "newID ''audit'' seed \<notin> set (map (newID ''audit'') ks)" and "length ks < 10"
    and "in_ProjectID i = ''p1''" "in_EventType i \<noteq> []" "in_EntityType i \<noteq> []"
  shows "\<exists>e. recordEvent flat_digest flat_recode (toy_call seed) i t = Inr (grown t [e]) \<and> toy_audit (ks @ [seed]) (tb_audit t @ [e])"
  using toy_audit_append [OF assms] by (auto simp: recordEvent_def toy_call_def)

lemma toy_event [simp]:
  "in_ProjectID (eventInput p ev en k b a u) = p" "in_EventType (eventInput p ev en k b a u) = ev"
  "in_EntityType (eventInput p ev en k b a u) = en"
  by (simp_all add: eventInput_def)

lemma toy_call_simps [simp]:
  "le_Stmt (toy_call s) k" "le_Commit (toy_call s)" "le_Random (toy_call s) k = Some (FormatInt (int k))"
  by (simp_all add: toy_call_def)

lemma toy_eur: "CanonicalProjectCurrency ''eur'' = Inr ''EUR''" by code_simp

lemma toy_seed_ids:
  "map (\<lambda>k. newID ''ctype'' (FormatInt (int k))) [0, Suc 0, Suc (Suc 0), Suc (Suc (Suc 0)), Suc (Suc (Suc (Suc 0))),
       Suc (Suc (Suc (Suc (Suc 0)))), Suc (Suc (Suc (Suc (Suc (Suc 0))))), Suc (Suc (Suc (Suc (Suc (Suc (Suc 0))))))]
     = [''ctype_30'', ''ctype_31'', ''ctype_32'', ''ctype_33'', ''ctype_34'', ''ctype_35'', ''ctype_36'', ''ctype_37'']"
  by code_simp

lemma toy_audit_ids:
  "map (newID ''audit'') [''a'', ''b'', ''c'', ''e'', ''ec''] = [''audit_61'', ''audit_62'', ''audit_63'', ''audit_65'', ''audit_6563'']"
  by code_simp

lemma toy_t1: "\<exists>p e. toy_t1 = emptyTables\<lparr>tb_project := [p], tb_audit := [e]\<rparr> \<and> proj_ID p = ''p1'' \<and> proj_CurrencyCode p = ''EUR''
    \<and> toy_audit [''a''] [e]"
proof -
  let ?p = "preparedProject toy_project ''p1'' ''EUR''"
  let ?t = "emptyTables\<lparr>tb_project := upsertRow ''t'' ?p []\<rparr>"
  have fresh: "toy_audit [] (tb_audit ?t)" by (simp add: toy_audit_def emptyTables_def)
  obtain q where q: "tb_project ?t = [q]" "proj_ID q = ''p1''" "proj_CurrencyCode q = ''EUR''"
    by (simp add: upsertRow_def)
  have id: "proj_ID (normalizeProject x) = proj_ID x" for x by (simp add: normalizeProject_def Let_def)
  have after: "getProjectByIDTx ?t ''p1'' = Some (normalizeProject q)" by (simp only: getProjectByIDTx_def q(1)) (simp add: q)
  let ?i = "eventInput ''p1'' ''project.create'' ''project'' ''p1'' [] (projectAuditJSON (\<lambda>_. ''0'') (normalizeProject q)) []"
  obtain e where e: "recordEvent flat_digest flat_recode (toy_call ''a'') ?i ?t = Inr (grown ?t [e])" "toy_audit [''a''] [e]"
    using toy_record [OF fresh, of "''a''" ?i] by (auto simp: emptyTables_def)
  have given: "proj_ID toy_project = ''p1''" "proj_CurrencyCode toy_project = ''eur''" by (simp_all add: toy_project_def)
  have none: "getProjectByIDTx emptyTables ''p1'' = None" "tb_project emptyTables = []" "tb_audit emptyTables = []"
    by (simp_all add: getProjectByIDTx_def emptyTables_def)
  have "le_Now (toy_call ''a'') = ''t''" by (simp add: toy_call_def)
  then have "toy_t1 = grown ?t [e]"
    using after e(1) id q(2)
    by (simp add: toy_t1_def UpsertProject_def givenID_def given toy_eur transact_def upsertTx_def none Let_def)
  then have "toy_t1 = emptyTables\<lparr>tb_project := [q], tb_audit := [e]\<rparr>" using q(1) none by simp
  then show ?thesis using q e(2) by blast
qed

lemma toy_t2: "\<exists>p ts es. toy_t2 = emptyTables\<lparr>tb_project := [p], tb_types := ts, tb_audit := es\<rparr> \<and> proj_ID p = ''p1''
    \<and> proj_CurrencyCode p = ''EUR'' \<and> toy_audit [''a'', ''b''] es
    \<and> (\<exists>c. find (\<lambda>c. ct_ID c = ''ctype_30'' \<and> ct_ProjectID c = ''p1'') ts = Some c \<and> ct_Active c)"
proof -
  obtain p e where t1: "toy_t1 = emptyTables\<lparr>tb_project := [p], tb_audit := [e]\<rparr>" and p: "proj_ID p = ''p1''" "proj_CurrencyCode p = ''EUR''"
    and a: "toy_audit [''a''] [e]" using toy_t1 by blast
  have seeded: "\<exists>ts. insertSeeds (toy_call ''b'') ''p1'' 0 seeds toy_t1 = Inr (toy_t1\<lparr>tb_types := ts\<rparr>)
      \<and> (\<exists>c. find (\<lambda>c. ct_ID c = ''ctype_30'' \<and> ct_ProjectID c = ''p1'') ts = Some c \<and> ct_Active c)"
    using toy_seed_ids
    by (simp add: seeds_def t1 insertType_def seedType_def freshID_def projectExists_def p emptyTables_def)
  then obtain ts where ts: "insertSeeds (toy_call ''b'') ''p1'' 0 seeds toy_t1 = Inr (toy_t1\<lparr>tb_types := ts\<rparr>)"
    "\<exists>c. find (\<lambda>c. ct_ID c = ''ctype_30'' \<and> ct_ProjectID c = ''p1'') ts = Some c \<and> ct_Active c" by blast
  let ?t = "toy_t1\<lparr>tb_types := ts\<rparr>"
  let ?i = "eventInput ''p1'' ''cost_type.seed'' ''cost_type'' [] []
              (CHR ''['' # Join (map costTypeJSON seeds) '','' @ '']'') []"
  obtain f where f: "recordEvent flat_digest flat_recode (toy_call ''b'') ?i ?t = Inr (grown ?t [f])" "toy_audit [''a'', ''b''] [e, f]"
    using toy_record [of "[''a'']" ?t "''b''" ?i] a toy_audit_ids by (auto simp: t1)
  have "toy_t2 = grown ?t [f]"
    using ts(1) f(1) by (simp add: toy_t2_def ListCostTypes_def EnsureCostTypes_def transact_def t1 emptyTables_def)
  then have "toy_t2 = emptyTables\<lparr>tb_project := [p], tb_types := ts, tb_audit := [e, f]\<rparr>" by (simp add: t1)
  then show ?thesis using p f(2) ts(2) by blast
qed

lemma toy_entry_valid: "validateCostEntry toy_entry = Inr toy_entry"
  by code_simp

lemma toy_t3: "\<exists>p ts x es. toy_t3 = emptyTables\<lparr>tb_project := [p], tb_types := ts, tb_entries := [x], tb_audit := es\<rparr>
    \<and> proj_ID p = ''p1'' \<and> proj_CurrencyCode p = ''EUR'' \<and> toy_audit [''a'', ''b'', ''c''] es
    \<and> ce_ProjectID x = ''p1'' \<and> ce_Kind x = ''planned'' \<and> ce_AmountMinorUnits x = 12500
    \<and> ce_Description x = ''steel'' \<and> ce_ItemName x = ''beam'' \<and> ce_Unit x = ''t'' \<and> ce_QuantityMilliUnits x = 2000"
proof -
  obtain p ts es c where t2: "toy_t2 = emptyTables\<lparr>tb_project := [p], tb_types := ts, tb_audit := es\<rparr>"
    and p: "proj_ID p = ''p1''" "proj_CurrencyCode p = ''EUR''" and a: "toy_audit [''a'', ''b''] es"
    and c: "find (\<lambda>c. ct_ID c = ''ctype_30'' \<and> ct_ProjectID c = ''p1'') ts = Some c" "ct_Active c"
    using toy_t2 by blast
  have type: "newID ''ctype'' ''0'' = ''ctype_30''" by code_simp
  let ?x = "toy_entry\<lparr>ce_ID := newID ''cost'' (FormatInt 0), ce_CreatedAt := ''t'', ce_UpdatedAt := ''t''\<rparr>"
  let ?t = "toy_t2\<lparr>tb_entries := [?x]\<rparr>"
  let ?i = "eventInput ''p1'' ''cost_entry.create'' ''cost_entry'' (newID ''cost'' (FormatInt 0)) [] (costEntryJSON ?x) []"
  obtain f where f: "recordEvent flat_digest flat_recode (toy_call ''c'') ?i ?t = Inr (grown ?t [f])"
    "toy_audit [''a'', ''b'', ''c''] (es @ [f])"
    using toy_record [of "[''a'', ''b'']" ?t "''c''" ?i] a toy_audit_ids by (auto simp: t2)
  have entry: "ce_ID toy_entry = []" "ce_ProjectID toy_entry = ''p1''" "ce_CostTypeID toy_entry = ''ctype_30''"
    by (simp_all add: toy_entry_def type)
  have ins: "insertEntry ?x toy_t2 = Inr ?t"
    by (simp add: insertEntry_def t2 projectExists_def p entry emptyTables_def)
  have now: "le_Now (toy_call ''c'') = ''t''" by (simp add: toy_call_def)
  have "toy_t3 = grown ?t [f]"
    using f(1) ins c
    by (simp add: toy_t3_def SaveCostEntry_def toy_entry_valid saveEntryTx_def entry t2 givenID_def freshID_def now transact_def Let_def)
  then have "toy_t3 = emptyTables\<lparr>tb_project := [p], tb_types := ts, tb_entries := [?x], tb_audit := es @ [f]\<rparr>" by (simp add: t2)
  moreover have "ce_ProjectID ?x = ''p1''" "ce_Kind ?x = ''planned''" "ce_AmountMinorUnits ?x = 12500"
    "ce_Description ?x = ''steel''" "ce_ItemName ?x = ''beam''" "ce_Unit ?x = ''t''" "ce_QuantityMilliUnits ?x = 2000"
    by (simp_all add: toy_entry_def)
  ultimately show ?thesis using p f(2) by blast
qed

lemma toy_ledger_size: "int (length (tb_audit toy_t3)) < MaxInt64"
proof -
  obtain p ts x es where t3: "toy_t3 = emptyTables\<lparr>tb_project := [p], tb_types := ts, tb_entries := [x], tb_audit := es\<rparr>"
    and a: "toy_audit [''a'', ''b'', ''c''] es" using toy_t3 by blast
  have "tb_audit toy_t3 = es" by (simp add: t3)
  with a have "map ev_ID (tb_audit toy_t3) = map (newID ''audit'') [''a'', ''b'', ''c'']" by (simp add: toy_audit_def)
  from arg_cong [OF this, of length] show ?thesis by (simp add: MaxInt64_def)
qed

lemma toy_sums: "plannedSum toy_t3 ''p1'' = 12500" "reserveSum toy_t3 ''p1'' k = 0" "currencyOf toy_t3 ''p1'' = Some ''EUR''"
proof -
  obtain p ts x es where t3: "toy_t3 = emptyTables\<lparr>tb_project := [p], tb_types := ts, tb_entries := [x], tb_audit := es\<rparr>"
    and p: "proj_ID p = ''p1''" "proj_CurrencyCode p = ''EUR''"
    and x: "ce_ProjectID x = ''p1''" "ce_Kind x = ''planned''" "ce_AmountMinorUnits x = 12500"
    using toy_t3 by blast
  show "plannedSum toy_t3 ''p1'' = 12500" "reserveSum toy_t3 ''p1'' k = 0" "currencyOf toy_t3 ''p1'' = Some ''EUR''"
    unfolding t3 using p x by (simp_all add: plannedSum_def reserveSum_def currencyOf_def emptyTables_def)
qed

lemma checkpoint_input:
  assumes "raw \<noteq> []"
  shows "\<exists>i. appendApprovalCheckpointForUserTx sha256 flat_recode env signedAt rows pid et eid ty raw u
      = appendAuditEventTx sha256 flat_recode env rows i
    \<and> in_ProjectID i = pid \<and> in_EventType i = et @ ''.approval_checkpoint'' \<and> in_EntityType i = et"
  unfolding appendApprovalCheckpointForUserTx_def canonicalJSON_def
  by (simp add: assms Let_def) (intro exI conjI, rule refl, simp_all)

text \<open>The approval of the small ledger succeeds.\<close>

lemma toy_approved: "\<exists>b. snd (ApproveCostBaseline flat_digest flat_recode (toy_call ''e'') toy_t3 ''p1'' ''ann'' ''agreed'') = Inr b"
proof -
  obtain p ts x es where t3: "toy_t3 = emptyTables\<lparr>tb_project := [p], tb_types := ts, tb_entries := [x], tb_audit := es\<rparr>"
    and p: "proj_ID p = ''p1''" "proj_CurrencyCode p = ''EUR''" and a: "toy_audit [''a'', ''b'', ''c''] es"
    using toy_t3 by blast
  have trim: "TrimSpace ''ann'' = ''ann''" "TrimSpace ''agreed'' = ''agreed''" by code_simp+
  have ok: "reservesOK toy_t3" by (simp add: reservesOK_def t3 emptyTables_def)
  have am: "baselineAmounts True toy_t3 ''p1'' = Inr (12500, 0, 0)"
    by (simp add: baselineAmounts_eq [OF ok] toy_sums is_int64_def MinInt64_def MaxInt64_def)
  have ver: "nextVersion toy_t3 ''p1'' = 1" by (simp add: nextVersion_def t3 emptyTables_def)
  define b where "b = \<lparr>cb_ID = newID ''costbase'' (FormatInt 0), cb_ProjectID = ''p1'', cb_Version = 1, cb_CurrencyCode = ''EUR'',
     cb_PlannedMinorUnits = 12500, cb_ContingencyMinorUnits = 0, cb_ManagementReserveMinorUnits = 0,
     cb_ApprovedBy = ''ann'', cb_ApprovalNote = ''agreed'', cb_ApprovedAt = ''t''\<rparr>"
  let ?t = "toy_t3\<lparr>tb_baselines := [b]\<rparr>"
  let ?i = "eventInput ''p1'' ''cost_baseline_snapshot.create'' ''cost_baseline_snapshot'' (cb_ID b) [] (baselineJSON b) ''ann''"
  have ins: "insertBaseline b toy_t3 = Inr ?t"
    by (simp add: insertBaseline_def t3 projectExists_def p emptyTables_def b_def)
  obtain f where f: "recordEvent flat_digest flat_recode (toy_call ''e'') ?i ?t = Inr (grown ?t [f])"
    "toy_audit [''a'', ''b'', ''c'', ''e''] (es @ [f])"
    using toy_record [of "[''a'', ''b'', ''c'']" ?t "''e''" ?i] a toy_audit_ids by (auto simp: t3)
  have "\<exists>t'. recordCheckpoint flat_digest flat_recode (toy_call ''e'') b (grown ?t [f]) = Inr t'"
  proof -
    have "baselineJSON b \<noteq> []" by (simp add: baselineJSON_def jsonObject_def)
    from checkpoint_input [OF this] obtain i where i:
      "appendApprovalCheckpointForUserTx flat_digest flat_recode (toy_env\<lparr>tx_Random := Some ''ec''\<rparr>) ''t'' (es @ [f]) ''p1''
         ''cost_baseline_snapshot'' (cb_ID b) ''cost_baseline_approved'' (baselineJSON b) ''ann''
       = appendAuditEventTx flat_digest flat_recode (toy_env\<lparr>tx_Random := Some ''ec''\<rparr>) (es @ [f]) i"
      "in_ProjectID i = ''p1''" "in_EventType i \<noteq> []" "in_EntityType i \<noteq> []" by fastforce
    from toy_audit_append [OF f(2), of "''ec''" i] toy_audit_ids i(2-4)
    obtain g where "appendAuditEventTx flat_digest flat_recode (toy_env\<lparr>tx_Random := Some ''ec''\<rparr>) (es @ [f]) i = Inr g" by auto
    then show ?thesis by (cases g) (use i(1) in \<open>simp add: recordCheckpoint_def toy_call_def t3 b_def\<close>)
  qed
  then obtain t' where chk: "recordCheckpoint flat_digest flat_recode (toy_call ''e'') b (grown ?t [f]) = Inr t'" ..
  have now: "le_Now (toy_call ''e'') = ''t''" by (simp add: toy_call_def)
  have pr: "find (\<lambda>r. proj_ID r = ''p1'') (tb_project toy_t3) = Some p" by (simp add: t3 p emptyTables_def)
  have "approveTx flat_digest flat_recode (toy_call ''e'') toy_t3 ''p1'' ''ann'' ''agreed'' = Inr (b, t')"
    using ins f(1) chk unfolding b_def by (simp add: approveTx_def pr p am ver trim freshID_def now Let_def)
  then show ?thesis by (simp add: ApproveCostBaseline_def trim transact_def)
qed

lemma toy_entries: "\<exists>x. tb_entries toy_t3 = [x] \<and> ce_ProjectID x = ''p1'' \<and> ce_Description x = ''steel'' \<and> ce_ItemName x = ''beam''
    \<and> ce_Unit x = ''t'' \<and> ce_QuantityMilliUnits x = 2000"
proof -
  obtain p ts x es where t3: "toy_t3 = emptyTables\<lparr>tb_project := [p], tb_types := ts, tb_entries := [x], tb_audit := es\<rparr>"
    and x: "ce_ProjectID x = ''p1''" "ce_Description x = ''steel''" "ce_ItemName x = ''beam''" "ce_Unit x = ''t''"
      "ce_QuantityMilliUnits x = 2000" using toy_t3 by blast
  have "tb_entries toy_t3 = [x]" by (simp add: t3)
  with x show ?thesis by blast
qed

theorem ledger_append_only_witness:
  "length (tb_entries toy_t3) = 1 \<and> (\<exists>new. tb_entries toy_t4 = tb_entries toy_t3 @ new)
   \<and> av_Valid (VerifyAuditChain flat_digest (tb_audit toy_t3) ''p1'')"
  using ledger_append_only [OF toy_steps toy_ledger_size, of "''p1''" "[]"] toy_entries by auto


theorem cost_baseline_exact_witness:
  "\<exists>b. snd (ApproveCostBaseline flat_digest flat_recode (toy_call ''e'') toy_t3 ''p1'' ''ann'' ''agreed'') = Inr b
     \<and> cb_PlannedMinorUnits b = 12500 \<and> cb_CurrencyCode b = ''EUR''"
proof -
  have trim: "TrimSpace ''ann'' \<noteq> []" "TrimSpace ''agreed'' \<noteq> []" by code_simp+
  obtain b where b: "snd (ApproveCostBaseline flat_digest flat_recode (toy_call ''e'') toy_t3 ''p1'' ''ann'' ''agreed'') = Inr b"
    using toy_approved by blast
  have "cb_PlannedMinorUnits b = plannedSum toy_t3 ''p1'' \<and> cb_CurrencyCode b = ''EUR''"
    using cost_baseline_exact [OF toy_steps(1) _ _ toy_sums(3) _ trim refl refl refl b [symmetric]] by simp
  with b toy_sums(1) show ?thesis by auto
qed

end
