(* ===== verification/CostQueries.thy ===== *)
theory CostQueries
  imports CostBaseline "HOL-Library.Sublist"
begin

text \<open>
  The reading side of cost control in \<^verbatim>\<open>internal/db/cost_control.go\<close>: the ledger
  listing, its search and the quantity rollup. The \<^verbatim>\<open>LIKE\<close> operator of SQL is given
  by its defining clauses. The lemmas show that a search is exactly a case-insensitive
  substring search, whatever wildcard characters the query contains, and that the rollup
  holds the exact sum of every item and unit and cannot overflow.
\<close>

subsection \<open>Model: listing\<close>

definition costEntrySelectColumns :: "string list" where
  "costEntrySelectColumns = [''id'', ''project_id'', ''cost_type_id'', ''kind'', ''amount_minor_units'', ''cost_date'',
     ''description'', ''quantity_milli_units'', ''unit'', ''item_name'', ''sku'', ''supplier_name'', ''invoice_reference'',
     ''created_at'', ''updated_at'']"

definition entryDefaults :: "string list" where
  "entryDefaults = [''quantity_milli_units'', ''unit'', ''item_name'', ''sku'', ''supplier_name'', ''invoice_reference'']"

text \<open>\<^verbatim>\<open>legacyReadColumns\<close>: an absent column with a default reads as its default.\<close>

definition legacyRead :: "string list \<Rightarrow> CostEntry \<Rightarrow> CostEntry" where
  "legacyRead present e =
     e\<lparr>ce_QuantityMilliUnits := (if ''quantity_milli_units'' \<in> set present then ce_QuantityMilliUnits e else 0),
       ce_Unit := (if ''unit'' \<in> set present then ce_Unit e else []),
       ce_ItemName := (if ''item_name'' \<in> set present then ce_ItemName e else []),
       ce_SKU := (if ''sku'' \<in> set present then ce_SKU e else []),
       ce_SupplierName := (if ''supplier_name'' \<in> set present then ce_SupplierName e else []),
       ce_InvoiceReference := (if ''invoice_reference'' \<in> set present then ce_InvoiceReference e else [])\<rparr>"

definition newestFirst :: "CostEntry list \<Rightarrow> CostEntry list" where
  "newestFirst es = rev (sort_key (\<lambda>e. (ce_CostDate e, ce_CreatedAt e)) es)"

definition projectEntries :: "Tables \<Rightarrow> string \<Rightarrow> CostEntry list" where
  "projectEntries t pid = filter (\<lambda>e. ce_ProjectID e = pid) (tb_entries t)"

definition ListCostEntries :: "string list \<Rightarrow> Tables \<Rightarrow> string \<Rightarrow> ledger_error + CostEntry list" where
  "ListCostEntries present t pid =
     (if present = [] then Inr []
      else if list_ex (\<lambda>c. c \<notin> set present \<and> c \<notin> set entryDefaults) costEntrySelectColumns then Inl StatementFailed
      else Inr (newestFirst (map (legacyRead present) (projectEntries t pid))))"

subsection \<open>Model: search\<close>

definition maxSearchLength :: nat where "maxSearchLength = 200"
definition maxSearchResults :: nat where "maxSearchResults = 200"

definition ledgerSearchNeedle :: "string \<Rightarrow> string" where
  "ledgerSearchNeedle query =
     ''%'' @ concat (map (\<lambda>c. if c \<in> {CHR 0x5C, CHR ''%'', CHR ''_''} then [CHR 0x5C, c] else [c]) query) @ ''%''"

text \<open>
  \<^verbatim>\<open>s LIKE pattern ESCAPE '\'\<close>: \<^verbatim>\<open>%\<close> stands for any text, \<^verbatim>\<open>_\<close>
  for one character, a character behind the escape and every other one for itself, up to
  the case of ASCII letters.
\<close>

fun sqlLike :: "string \<Rightarrow> string \<Rightarrow> bool" where
  "sqlLike [] s = (s = [])"
| "sqlLike (c # p) [] = (c = CHR ''%'' \<and> sqlLike p [])"
| "sqlLike (c # p) (x # s) =
     (if c = CHR ''%'' then sqlLike p (x # s) \<or> sqlLike (c # p) s
      else if c = CHR ''_'' then sqlLike p s
      else if c = CHR 0x5C then (case p of [] \<Rightarrow> False | d # p' \<Rightarrow> lower_byte d = lower_byte x \<and> sqlLike p' s)
      else lower_byte c = lower_byte x \<and> sqlLike p s)"

definition searched :: "CostEntry \<Rightarrow> string list" where
  "searched e = [ce_Description e, ce_ItemName e, ce_SKU e, ce_SupplierName e, ce_InvoiceReference e]"

definition SearchCostEntries :: "string list \<Rightarrow> Tables \<Rightarrow> string \<Rightarrow> string \<Rightarrow> ledger_error + CostEntry list" where
  "SearchCostEntries present t pid query0 =
     (let query = TrimSpace query0 in
      if query = [] then ListCostEntries present t pid
      else if length query > maxSearchLength then Inl QueryTooLong
      else if list_ex (\<lambda>c. c \<notin> set present) costEntrySelectColumns then Inl StatementFailed
      else Inr (take maxSearchResults
             (newestFirst (filter (\<lambda>e. list_ex (sqlLike (ledgerSearchNeedle query)) (searched e)) (projectEntries t pid)))))"

subsection \<open>Model: quantities\<close>

record CostQuantityAggregate =
  cq_ItemName :: string
  cq_Unit :: string
  cq_TotalQuantityMilliUnits :: int
  cq_EntryCount :: nat

record bucket =
  bk_itemName :: string
  bk_unit :: string
  bk_total :: Accumulator
  bk_count :: nat

definition quantityRows :: "Tables \<Rightarrow> string \<Rightarrow> CostEntry list" where
  "quantityRows t pid =
     sort_key (\<lambda>e. (ce_ItemName e, ce_Unit e))
       (filter (\<lambda>e. ce_ItemName e \<noteq> [] \<and> ce_Unit e \<noteq> [] \<and> ce_QuantityMilliUnits e > 0) (projectEntries t pid))"

definition bucketKey :: "CostEntry \<Rightarrow> string" where
  "bucketKey e = ce_ItemName e @ CHR 0x00 # ce_Unit e"

text \<open>The map \<^verbatim>\<open>byKey\<close> with the keys in the order \<^verbatim>\<open>order\<close> gives them.\<close>

definition addToBucket :: "(string \<times> bucket) list \<Rightarrow> CostEntry \<Rightarrow> (string \<times> bucket) list" where
  "addToBucket byKey e =
     (let key = bucketKey e;
          byKey' = (case map_of byKey key of None \<Rightarrow> byKey @ [(key, \<lparr>bk_itemName = ce_ItemName e, bk_unit = ce_Unit e,
                                                              bk_total = newAccumulator, bk_count = 0\<rparr>)]
                    | Some _ \<Rightarrow> byKey)
      in map (\<lambda>(k, b). if k = key
            then (k, b\<lparr>bk_total := Accumulator_Add (bk_total b) \<lparr>MinorUnits = ce_QuantityMilliUnits e\<rparr>, bk_count := bk_count b + 1\<rparr>)
            else (k, b)) byKey')"

fun bucketTotals :: "(string \<times> bucket) list \<Rightarrow> ledger_error + CostQuantityAggregate list" where
  "bucketTotals [] = Inr []"
| "bucketTotals ((_, b) # bs) =
     (case Accumulator_Amount (bk_total b) of Inl err \<Rightarrow> Inl (QuantityOverflow (bk_itemName b) (bk_unit b))
      | Inr tot \<Rightarrow> and_then (bucketTotals bs) (\<lambda>out.
          Inr (\<lparr>cq_ItemName = bk_itemName b, cq_Unit = bk_unit b, cq_TotalQuantityMilliUnits = MinorUnits tot,
                cq_EntryCount = bk_count b\<rparr> # out)))"

definition AggregateCostEntryQuantities :: "Tables \<Rightarrow> string \<Rightarrow> ledger_error + CostQuantityAggregate list" where
  "AggregateCostEntryQuantities t pid = bucketTotals (foldl addToBucket [] (quantityRows t pid))"

subsection \<open>A search is a substring search\<close>

lemma sqlLike_literal:
  assumes "c \<notin> {CHR ''%'', CHR ''_'', CHR 0x5C}"
  shows "sqlLike (c # p) s \<longleftrightarrow> (\<exists>x s'. s = x # s' \<and> lower_byte c = lower_byte x \<and> sqlLike p s')"
  using assms by (cases s) auto

lemma sqlLike_escaped: "sqlLike (CHR 0x5C # c # p) s \<longleftrightarrow> (\<exists>x s'. s = x # s' \<and> lower_byte c = lower_byte x \<and> sqlLike p s')"
  by (cases s) auto

lemma sqlLike_percent: "sqlLike (CHR ''%'' # p) s \<longleftrightarrow> (\<exists>a b. s = a @ b \<and> sqlLike p b)"
proof (induction s)
  case (Cons x s)
  show ?case by (auto simp: Cons Cons_eq_append_conv)
qed auto

lemma sqlLike_quoted:
  "sqlLike (concat (map (\<lambda>c. if c \<in> {CHR 0x5C, CHR ''%'', CHR ''_''} then [CHR 0x5C, c] else [c]) q) @ p) s \<longleftrightarrow>
     (\<exists>a b. s = a @ b \<and> ToLower a = ToLower q \<and> sqlLike p b)"
proof (induction q arbitrary: s)
  case (Cons c q)
  let ?rest = "concat (map (\<lambda>c. if c \<in> {CHR 0x5C, CHR ''%'', CHR ''_''} then [CHR 0x5C, c] else [c]) q) @ p"
  have "sqlLike ((if c \<in> {CHR 0x5C, CHR ''%'', CHR ''_''} then [CHR 0x5C, c] else [c]) @ ?rest) s \<longleftrightarrow>
      (\<exists>x s'. s = x # s' \<and> lower_byte c = lower_byte x \<and> sqlLike ?rest s')"
    using sqlLike_escaped [of c ?rest s] sqlLike_literal [of c ?rest s] by auto
  also have "\<dots> \<longleftrightarrow> (\<exists>a b. s = a @ b \<and> ToLower a = ToLower (c # q) \<and> sqlLike p b)" (is "?l \<longleftrightarrow> ?r")
  proof
    assume ?l
    then obtain x a b where "s = (x # a) @ b" "lower_byte c = lower_byte x" "ToLower a = ToLower q" "sqlLike p b"
      using Cons by auto
    then show ?r by (intro exI [of _ "x # a"] exI [of _ b]) (simp add: ToLower_def)
  next
    assume ?r
    then obtain a b where "s = a @ b" "ToLower a = ToLower (c # q)" "sqlLike p b" by blast
    moreover from this obtain x l where "a = x # l" by (cases a) (auto simp: ToLower_def)
    moreover from calculation have "sqlLike ?rest (l @ b)" unfolding Cons by (auto simp: ToLower_def)
    ultimately show ?l by (auto simp: ToLower_def)
  qed
  finally show ?case by simp
qed (simp add: ToLower_def)

lemma sqlLike_needle: "sqlLike (ledgerSearchNeedle q) s \<longleftrightarrow> sublist (ToLower q) (ToLower s)"
proof -
  have "sqlLike (ledgerSearchNeedle q) s \<longleftrightarrow> (\<exists>a m b. s = a @ m @ b \<and> ToLower m = ToLower q)"
    by (auto simp: ledgerSearchNeedle_def sqlLike_percent sqlLike_quoted [simplified])
  also have "\<dots> \<longleftrightarrow> sublist (ToLower q) (ToLower s)"
  proof
    assume "\<exists>a m b. s = a @ m @ b \<and> ToLower m = ToLower q"
    then show "sublist (ToLower q) (ToLower s)" by (auto simp: sublist_def ToLower_def) metis
  next
    assume "sublist (ToLower q) (ToLower s)"
    then obtain ps ss where "ToLower s = ps @ ToLower q @ ss" by (auto simp: sublist_def)
    then obtain a m b where "s = a @ m @ b" "ToLower m = ToLower q"
      unfolding ToLower_def by (auto simp: map_eq_append_conv append_eq_map_conv)
    then show "\<exists>a m b. s = a @ m @ b \<and> ToLower m = ToLower q" by blast
  qed
  finally show ?thesis .
qed


subsection \<open>The rollup is exact\<close>

abbreviation pairOf :: "CostEntry \<Rightarrow> string \<times> string" where
  "pairOf e \<equiv> (ce_ItemName e, ce_Unit e)"

definition noNul :: "string \<Rightarrow> bool" where "noNul s \<longleftrightarrow> CHR 0x00 \<notin> set s"

lemma bucketKey_inj:
  assumes "noNul (ce_ItemName e)" "noNul (ce_ItemName f)" "bucketKey e = bucketKey f"
  shows "pairOf e = pairOf f"
proof -
  have split: "takeWhile (\<lambda>c. c \<noteq> CHR 0x00) (bucketKey x) = ce_ItemName x"
    "dropWhile (\<lambda>c. c \<noteq> CHR 0x00) (bucketKey x) = CHR 0x00 # ce_Unit x" if "noNul (ce_ItemName x)" for x
    using that by (auto simp: bucketKey_def noNul_def takeWhile_append2 dropWhile_append2 takeWhile_append dropWhile_append)
  from split [OF assms(1)] split [OF assms(2)] assms(3) show ?thesis by simp
qed

definition quantityOf :: "CostEntry list \<Rightarrow> string \<times> string \<Rightarrow> int" where
  "quantityOf rs p = sum_list (map ce_QuantityMilliUnits (filter (\<lambda>e. pairOf e = p) rs))"

definition countOf :: "CostEntry list \<Rightarrow> string \<times> string \<Rightarrow> nat" where
  "countOf rs p = length (filter (\<lambda>e. pairOf e = p) rs)"

definition bucketOf :: "CostEntry list \<Rightarrow> string \<times> string \<Rightarrow> string \<times> bucket" where
  "bucketOf rs p = (fst p @ CHR 0x00 # snd p,
     \<lparr>bk_itemName = fst p, bk_unit = snd p, bk_total = \<lparr>acc_total = quantityOf rs p\<rparr>, bk_count = countOf rs p\<rparr>)"

text \<open>The pairs of a list of rows, each where it first occurs.\<close>

definition pairs :: "CostEntry list \<Rightarrow> (string \<times> string) list" where
  "pairs rs = rev (remdups (rev (map pairOf rs)))"

lemma pairs_snoc: "pairs (rs @ [e]) = (if pairOf e \<in> set (pairs rs) then pairs rs else pairs rs @ [pairOf e])"
  by (auto simp: pairs_def)

lemma set_pairs: "set (pairs rs) = pairOf ` set rs"
  by (simp add: pairs_def)

lemma sorted_pairs: "sorted (map pairOf rs) \<Longrightarrow> sorted_wrt (<) (pairs rs)"
proof (induction rs rule: rev_induct)
  case (snoc e rs)
  then have "sorted_wrt (<) (pairs rs)" by (simp add: sorted_append)
  moreover have "p < pairOf e" if "p \<in> set (pairs rs)" "pairOf e \<notin> set (pairs rs)" for p
  proof -
    have "p \<le> pairOf e" using snoc.prems that(1) by (auto simp: sorted_append set_pairs)
    with that show ?thesis by (cases "p = pairOf e") auto
  qed
  ultimately show ?case by (auto simp: pairs_snoc sorted_wrt_append)
qed (simp add: pairs_def)

lemma bucketOf_snoc:
  "bucketOf (rs @ [e]) p = (if p = pairOf e
     then (fst (bucketOf rs p), (snd (bucketOf rs p))\<lparr>bk_total := Accumulator_Add (bk_total (snd (bucketOf rs p)))
             \<lparr>MinorUnits = ce_QuantityMilliUnits e\<rparr>, bk_count := bk_count (snd (bucketOf rs p)) + 1\<rparr>)
     else bucketOf rs p)"
  by (auto simp: bucketOf_def quantityOf_def countOf_def Accumulator_Add_def)

lemma buckets_eq:
  assumes "\<forall>e \<in> set rs. noNul (ce_ItemName e)"
  shows "foldl addToBucket [] rs = map (bucketOf rs) (pairs rs)"
  using assms
proof (induction rs rule: rev_induct)
  case (snoc e rs)
  let ?key = "bucketKey e"
  have nul: "noNul (ce_ItemName e)" "\<forall>x \<in> set rs. noNul (ce_ItemName x)" using snoc.prems by auto
  have key: "fst (bucketOf rs p) = ?key \<longleftrightarrow> p = pairOf e" if p: "p = pairOf e \<or> p \<in> set (pairs rs)" for p
  proof -
    obtain x where x: "p = pairOf x" "noNul (ce_ItemName x)" using p nul unfolding set_pairs by blast
    have "fst (bucketOf rs p) = bucketKey x" by (simp add: x(1) bucketOf_def bucketKey_def)
    moreover have "bucketKey x = ?key \<longleftrightarrow> pairOf x = pairOf e"
      using bucketKey_inj [OF x(2) nul(1)] by (metis bucketKey_def prod.inject)
    ultimately show ?thesis using x(1) by simp
  qed
  have found: "map_of (map (bucketOf rs) (pairs rs)) ?key = None \<longleftrightarrow> pairOf e \<notin> set (pairs rs)"
    unfolding map_of_eq_None_iff set_map image_image using key by (metis (no_types, lifting) image_iff)
  have upd: "map (\<lambda>(k, b). if k = ?key then (k, b\<lparr>bk_total := Accumulator_Add (bk_total b) \<lparr>MinorUnits = ce_QuantityMilliUnits e\<rparr>,
            bk_count := bk_count b + 1\<rparr>) else (k, b)) (map (bucketOf rs) ps) = map (bucketOf (rs @ [e])) ps"
    if "set ps \<subseteq> set (pairs rs) \<union> {pairOf e}" for ps
  proof (simp only: map_map, rule map_cong [OF refl])
    fix p assume "p \<in> set ps"
    then have p: "p = pairOf e \<or> p \<in> set (pairs rs)" using that by blast
    obtain k b where kb: "bucketOf rs p = (k, b)" by (cases "bucketOf rs p")
    show "((\<lambda>(k, b). if k = ?key then (k, b\<lparr>bk_total := Accumulator_Add (bk_total b) \<lparr>MinorUnits = ce_QuantityMilliUnits e\<rparr>,
            bk_count := bk_count b + 1\<rparr>) else (k, b)) \<circ> bucketOf rs) p = bucketOf (rs @ [e]) p"
      using key [OF p] kb by (cases "p = pairOf e") (simp_all add: bucketOf_snoc)
  qed
  have zero: "bucketOf rs (pairOf e) = (?key, \<lparr>bk_itemName = ce_ItemName e, bk_unit = ce_Unit e, bk_total = newAccumulator, bk_count = 0\<rparr>)"
    if "pairOf e \<notin> set (pairs rs)"
  proof -
    have "filter (\<lambda>x. pairOf x = pairOf e) rs = []"
      using that by (auto simp: set_pairs image_iff filter_empty_conv)
    then show ?thesis by (simp add: bucketOf_def bucketKey_def quantityOf_def countOf_def newAccumulator_def)
  qed
  have "foldl addToBucket [] (rs @ [e]) = addToBucket (map (bucketOf rs) (pairs rs)) e" using snoc nul by simp
  also have "\<dots> = map (bucketOf (rs @ [e])) (pairs (rs @ [e]))"
  proof (cases "pairOf e \<in> set (pairs rs)")
    case True
    then obtain b where "map_of (map (bucketOf rs) (pairs rs)) ?key = Some b" using found by blast
    then show ?thesis using True upd [OF Un_upper1] by (simp only: addToBucket_def Let_def pairs_snoc option.case if_True)
  next
    case False
    then have "map_of (map (bucketOf rs) (pairs rs)) ?key = None" using found by blast
    moreover have "set (pairs rs @ [pairOf e]) \<subseteq> set (pairs rs) \<union> {pairOf e}" by auto
    note upd [OF this]
    ultimately show ?thesis using False zero [OF False]
      by (simp only: addToBucket_def Let_def pairs_snoc option.case if_False map_append list.map)
  qed
  finally show ?case .
qed (simp add: pairs_def)

definition aggregateOf :: "CostEntry list \<Rightarrow> string \<times> string \<Rightarrow> CostQuantityAggregate" where
  "aggregateOf rs p = \<lparr>cq_ItemName = fst p, cq_Unit = snd p, cq_TotalQuantityMilliUnits = quantityOf rs p, cq_EntryCount = countOf rs p\<rparr>"

lemma bucketTotals_eq:
  "\<forall>p \<in> set ps. is_int64 (quantityOf rs p) \<Longrightarrow> bucketTotals (map (bucketOf rs) ps) = Inr (map (aggregateOf rs) ps)"
  by (induction ps) (auto simp: bucketOf_def aggregateOf_def Accumulator_Amount_def amountFromBigInt_def)

text \<open>The bound that makes the overflow error unreachable.\<close>

lemma quantityOf_bounded:
  assumes "\<forall>e \<in> set rs. 0 \<le> ce_QuantityMilliUnits e \<and> ce_QuantityMilliUnits e \<le> maxQuantityMilliUnits"
    and "length rs \<le> 9000000"
  shows "is_int64 (quantityOf rs p)"
proof -
  let ?qs = "map ce_QuantityMilliUnits (filter (\<lambda>e. pairOf e = p) rs)"
  have "sum_list ?qs \<le> int (length ?qs) * maxQuantityMilliUnits"
    using sum_list_mono [of ?qs "\<lambda>q. q" "\<lambda>_. maxQuantityMilliUnits"] assms(1)
    by (auto simp: sum_list_triv comp_def)
  also have "\<dots> \<le> 9000000 * maxQuantityMilliUnits"
  proof (rule mult_right_mono)
    have "length ?qs \<le> length rs" by simp
    with assms(2) show "int (length ?qs) \<le> 9000000" by linarith
  qed (simp add: maxQuantityMilliUnits_def maxQuantityMajorUnits_def)
  finally have "sum_list ?qs \<le> 9000000 * maxQuantityMilliUnits" .
  moreover have "0 \<le> sum_list ?qs" using assms(1) by (intro sum_list_nonneg) auto
  ultimately show ?thesis
    by (simp add: quantityOf_def is_int64_def MinInt64_def MaxInt64_def maxQuantityMilliUnits_def maxQuantityMajorUnits_def)
qed

text \<open>
  The quantity rollup is exact and cannot overflow. In every ledger the operations can
  produce, with at most nine million entries and no item name that holds a zero byte, the
  rollup succeeds; it lists every pair of item and unit that has a quantity once, in
  ascending order, with the exact sum of its quantities and the number of its entries.
\<close>

theorem quantity_rollup_exact:
  assumes "(ledgerStep sha256)\<^sup>*\<^sup>* emptyTables t" and "length (tb_entries t) \<le> 9000000"
    and "\<forall>e \<in> set (quantityRows t pid). noNul (ce_ItemName e)"
  shows "\<exists>aggs. AggregateCostEntryQuantities t pid = Inr aggs
    \<and> sorted_wrt (<) (map (\<lambda>a. (cq_ItemName a, cq_Unit a)) aggs)
    \<and> (\<lambda>a. (cq_ItemName a, cq_Unit a)) ` set aggs = pairOf ` set (quantityRows t pid)
    \<and> (\<forall>a \<in> set aggs. cq_TotalQuantityMilliUnits a = quantityOf (quantityRows t pid) (cq_ItemName a, cq_Unit a)
         \<and> cq_EntryCount a = countOf (quantityRows t pid) (cq_ItemName a, cq_Unit a))"
proof -
  let ?rs = "quantityRows t pid"
  have ok: "ledgerOK sha256 t" by (rule ledger.history_consistent [OF assms(1) ledgerOK_empty])
  have sub: "set ?rs \<subseteq> set (tb_entries t)" "length ?rs \<le> length (tb_entries t)"
    by (auto simp: quantityRows_def projectEntries_def intro!: le_trans [OF length_filter_le])
  have "\<forall>e \<in> set ?rs. 0 \<le> ce_QuantityMilliUnits e \<and> ce_QuantityMilliUnits e \<le> maxQuantityMilliUnits"
    using ok sub(1) by (auto simp: ledgerOK_def entriesOK_def entryOK_def)
  then have fits: "is_int64 (quantityOf ?rs p)" for p
    by (rule quantityOf_bounded) (use sub(2) assms(2) in linarith)
  have agg: "AggregateCostEntryQuantities t pid = Inr (map (aggregateOf ?rs) (pairs ?rs))"
    using fits by (simp add: AggregateCostEntryQuantities_def buckets_eq [OF assms(3)] bucketTotals_eq)
  have names: "(\<lambda>a. (cq_ItemName a, cq_Unit a)) \<circ> aggregateOf ?rs = (\<lambda>p. p)" by (auto simp: aggregateOf_def)
  have "sorted (map pairOf ?rs)" by (simp add: quantityRows_def)
  then have "sorted_wrt (<) (map (\<lambda>a. (cq_ItemName a, cq_Unit a)) (map (aggregateOf ?rs) (pairs ?rs)))"
    using sorted_pairs by (simp add: names)
  moreover have "(\<lambda>a. (cq_ItemName a, cq_Unit a)) ` set (map (aggregateOf ?rs) (pairs ?rs)) = pairOf ` set ?rs"
    by (simp add: image_image aggregateOf_def set_pairs)
  moreover have "\<forall>a \<in> set (map (aggregateOf ?rs) (pairs ?rs)).
      cq_TotalQuantityMilliUnits a = quantityOf ?rs (cq_ItemName a, cq_Unit a) \<and> cq_EntryCount a = countOf ?rs (cq_ItemName a, cq_Unit a)"
    by (auto simp: aggregateOf_def)
  ultimately show ?thesis using agg by blast
qed

subsection \<open>The small ledger\<close>


theorem quantity_rollup_exact_witness:
  "\<exists>aggs. AggregateCostEntryQuantities toy_t3 ''p1'' = Inr aggs
     \<and> (\<lambda>a. (cq_ItemName a, cq_Unit a)) ` set aggs = {(''beam'', ''t'')} \<and> length (tb_entries toy_t3) = 1"
proof -
  obtain x where t: "tb_entries toy_t3 = [x]" and x: "ce_ProjectID x = ''p1''" "ce_ItemName x = ''beam''" "ce_Unit x = ''t''"
    "ce_QuantityMilliUnits x = 2000" using toy_entries by blast
  have rows: "quantityRows toy_t3 ''p1'' = [x]" by (simp add: quantityRows_def projectEntries_def t x)
  have nul: "noNul ''beam''" by (simp add: noNul_def)
  show ?thesis using quantity_rollup_exact [OF toy_steps(1), of "''p1''"] unfolding rows by (auto simp: t x nul)
qed

text \<open>
  The zero byte matters: two different pairs of item and unit share a bucket when an item
  name holds one, and their quantities are added up under the first of them.
\<close>

definition nul_entry :: "string \<Rightarrow> string \<Rightarrow> string \<Rightarrow> CostEntry" where
  "nul_entry k item u = \<lparr>ce_ID = k, ce_ProjectID = ''p1'', ce_CostTypeID = ''c'', ce_Kind = ''planned'', ce_CostDate = ''2026-01-05'',
     ce_Description = ''x'', ce_AmountMinorUnits = 1, ce_QuantityMilliUnits = 1000, ce_Unit = u, ce_ItemName = item, ce_SKU = [],
     ce_SupplierName = [], ce_InvoiceReference = [], ce_CreatedAt = [], ce_UpdatedAt = []\<rparr>"

lemma quantity_nul_collision:
  "map_sum id (map (\<lambda>a. (cq_ItemName a, cq_Unit a, cq_TotalQuantityMilliUnits a)))
     (AggregateCostEntryQuantities
        (emptyTables\<lparr>tb_entries := [nul_entry ''1'' ''a'' [CHR ''b'', CHR 0x00, CHR ''c''],
                                   nul_entry ''2'' [CHR ''a'', CHR 0x00, CHR ''b''] ''c'']\<rparr>) ''p1'')
   = Inr [(''a'', [CHR ''b'', CHR 0x00, CHR ''c''], 2000)]"
  by code_simp

end
