(* ===== verification/Portfolio.thy ===== *)
theory Portfolio
  imports Money "HOL-Library.Word"
begin

text \<open>
  The portfolio totals of \<^verbatim>\<open>internal/analytics/rollup.go\<close>: five figures per project,
  added up in signed 128-bit accumulators made of two machine words. The lemmas relate an
  accumulator to the integer it stands for; the property shows that the totals are exact and
  that only a total that is itself out of range is an error.
\<close>

subsection \<open>Model: the accumulator\<close>

text \<open>\<^verbatim>\<open>acc128\<close>: the high word is read as signed (an \<^verbatim>\<open>int64\<close>).\<close>

record acc128 =
  acc_hi :: uint64
  acc_lo :: uint64

text \<open>\<^verbatim>\<open>bits.Add64\<close>: the wrapped sum and the carry.\<close>

definition Add64 :: "uint64 \<Rightarrow> uint64 \<Rightarrow> uint64 \<Rightarrow> uint64 \<times> uint64" where
  "Add64 x y c = (x + y + c, if uint x + uint y + uint c \<ge> 2 ^ 64 then 1 else 0)"

definition acc_add :: "acc128 \<Rightarrow> int \<Rightarrow> acc128" where
  "acc_add a v =
     (let (l, carry) = Add64 (acc_lo a) (word_of_int v) 0 in
      \<lparr>acc_hi = acc_hi a + (signed_drop_bit 63 (word_of_int v) + carry), acc_lo = l\<rparr>)"

definition acc_int64 :: "acc128 \<Rightarrow> int \<times> bool" where
  "acc_int64 a = (sint (acc_lo a), acc_hi a = signed_drop_bit 63 (acc_lo a))"

definition acc_zero :: acc128 where "acc_zero = \<lparr>acc_hi = 0, acc_lo = 0\<rparr>"

subsection \<open>Model: the rollup\<close>

record ProjectMetrics =
  pm_ProjectID :: string
  pm_Name :: string
  pm_BudgetedCost :: float64
  pm_CommittedCost :: float64
  pm_ActualCost :: float64
  pm_EarnedValue :: float64
  pm_PlannedValue :: float64
  pm_BudgetedCostMinorUnits :: int
  pm_CommittedCostMinorUnits :: int
  pm_ActualCostMinorUnits :: int
  pm_EarnedValueMinorUnits :: int
  pm_PlannedValueMinorUnits :: int
  pm_PercentComplete :: float64
  pm_EVMAvailable :: bool

record PortfolioSummary =
  ps_ProjectCount :: int
  ps_EVMProjectCount :: int
  ps_EVMUnavailableProjectCount :: int
  ps_AsOfDate :: string
  ps_TotalBudgetedCost :: float64
  ps_TotalCommittedCost :: float64
  ps_TotalActualCost :: float64
  ps_TotalEarnedValue :: float64
  ps_TotalPlannedValue :: float64
  ps_TotalBudgetedCostMinorUnits :: int
  ps_TotalCommittedCostMinorUnits :: int
  ps_TotalActualCostMinorUnits :: int
  ps_TotalEarnedValueMinorUnits :: int
  ps_TotalPlannedValueMinorUnits :: int
  ps_SchedulePerformanceIndex :: float64
  ps_CostPerformanceIndex :: float64

datatype rollup_error = ErrRollupOverflow string

definition rollupNames :: "string list" where
  "rollupNames = [''budgeted cost'', ''committed cost'', ''actual cost'', ''earned value'', ''planned value'']"

definition minorUnits :: "int \<Rightarrow> float64 \<Rightarrow> int" where
  "minorUnits minor major = (if minor = 0 \<and> major \<noteq> 0 then MinorUnits (FromMajorFloat major) else minor)"

definition figures :: "ProjectMetrics \<Rightarrow> int list" where
  "figures p =
     [minorUnits (pm_BudgetedCostMinorUnits p) (pm_BudgetedCost p),
      minorUnits (pm_CommittedCostMinorUnits p) (pm_CommittedCost p),
      minorUnits (pm_ActualCostMinorUnits p) (pm_ActualCost p),
      minorUnits (pm_EarnedValueMinorUnits p) (pm_EarnedValue p),
      minorUnits (pm_PlannedValueMinorUnits p) (pm_PlannedValue p)]"

text \<open>The body of the loop: cost counts for every project, the earned-value figures where there are any.\<close>

definition counted :: "nat \<Rightarrow> ProjectMetrics \<Rightarrow> bool" where
  "counted f p \<longleftrightarrow> \<not> (f \<ge> 2 \<and> \<not> pm_EVMAvailable p)"

definition addFigures :: "ProjectMetrics \<Rightarrow> acc128 list \<Rightarrow> acc128 list" where
  "addFigures p accs = map (\<lambda>f. if counted f p then acc_add (accs ! f) (figures p ! f) else accs ! f) [0..<5]"

definition addProject :: "int \<times> int \<times> acc128 list \<Rightarrow> ProjectMetrics \<Rightarrow> int \<times> int \<times> acc128 list" where
  "addProject = (\<lambda>(n, e, accs) p. (n + 1, if pm_EVMAvailable p then e + 1 else e, addFigures p accs))"

fun totalsOf :: "(string \<times> acc128) list \<Rightarrow> rollup_error + int list" where
  "totalsOf [] = Inr []"
| "totalsOf ((name, a) # rest) =
     (let (t, ok) = acc_int64 a in
      if \<not> ok then Inl (ErrRollupOverflow name) else map_sum id (\<lambda>ts. t # ts) (totalsOf rest))"

definition summarize :: "int \<Rightarrow> int \<Rightarrow> int list \<Rightarrow> PortfolioSummary" where
  "summarize n e totals =
     (let major = (\<lambda>f. MajorFloat \<lparr>MinorUnits = totals ! f\<rparr>) in
      \<lparr>ps_ProjectCount = n, ps_EVMProjectCount = e, ps_EVMUnavailableProjectCount = n - e, ps_AsOfDate = [],
       ps_TotalBudgetedCost = major 0, ps_TotalCommittedCost = major 1, ps_TotalActualCost = major 2,
       ps_TotalEarnedValue = major 3, ps_TotalPlannedValue = major 4,
       ps_TotalBudgetedCostMinorUnits = totals ! 0, ps_TotalCommittedCostMinorUnits = totals ! 1,
       ps_TotalActualCostMinorUnits = totals ! 2, ps_TotalEarnedValueMinorUnits = totals ! 3,
       ps_TotalPlannedValueMinorUnits = totals ! 4,
       ps_SchedulePerformanceIndex = (if major 4 \<noteq> 0 then fdiv (major 3) (major 4) else 0),
       ps_CostPerformanceIndex = (if major 2 \<noteq> 0 then fdiv (major 3) (major 2) else 0)\<rparr>)"

definition PortfolioRollup :: "ProjectMetrics list \<Rightarrow> rollup_error + PortfolioSummary" where
  "PortfolioRollup projects =
     (let (n, e, accs) = foldl addProject (0, 0, replicate 5 acc_zero) projects in
      map_sum id (summarize n e) (totalsOf (zip rollupNames accs)))"

subsection \<open>The accumulator as an integer\<close>

definition acc_val :: "acc128 \<Rightarrow> int" where "acc_val a = sint (acc_hi a) * 2 ^ 64 + uint (acc_lo a)"

lemma sint_of_int: "- (2 ^ 63) \<le> k \<Longrightarrow> k < 2 ^ 63 \<Longrightarrow> sint (word_of_int k :: uint64) = k"
  by (simp add: int_word_sint)

lemma uint64_bounds: "0 \<le> uint (w :: uint64)" "uint (w :: uint64) < 2 ^ 64"
  using uint_bounded [of w] by simp_all

lemma sint64_bounds: "- (2 ^ 63) \<le> sint (w :: uint64)" "sint (w :: uint64) < 2 ^ 63"
  using sint_ge [of w] sint_lt [of w] by simp_all

lemma sint_inj: "sint (a :: uint64) = sint b \<longleftrightarrow> a = b"
  by (auto intro: signed_word_eqI)

lemma sign_word: "- (2 ^ 63) \<le> k \<Longrightarrow> k < 2 ^ 63 \<Longrightarrow> signed_drop_bit 63 (word_of_int k :: uint64) = word_of_int (if k < 0 then - 1 else 0)"
proof -
  assume k: "- (2 ^ 63) \<le> k" "k < 2 ^ 63"
  have "sint (signed_drop_bit 63 (word_of_int k :: uint64)) = k div 2 ^ 63"
    using k by (simp add: sint_signed_drop_bit_eq sint_of_int drop_bit_eq_div)
  moreover have "k div 2 ^ 63 = (if k < 0 then - 1 else 0)"
    using k by (auto simp: div_pos_pos_trivial intro: div_pos_neg_trivial)
  moreover have "sint (word_of_int (if k < 0 then - 1 else 0) :: uint64) = (if k < 0 then - 1 else 0)" by (rule sint_of_int) simp_all
  ultimately have "sint (signed_drop_bit 63 (word_of_int k :: uint64)) = sint (word_of_int (if k < 0 then - 1 else 0) :: uint64)" by (simp only:)
  then show ?thesis unfolding sint_inj .
qed

lemma uint_of_int:
  assumes "- (2 ^ 63) \<le> k" "k < 2 ^ 63"
  shows "uint (word_of_int k :: uint64) = k - (if k < 0 then - 1 else 0) * 2 ^ 64"
proof (cases "k < 0")
  case True
  have "k mod 2 ^ 64 = (k + 2 ^ 64) mod 2 ^ 64" by simp
  also have "\<dots> = k + 2 ^ 64" using assms True by (intro mod_pos_pos_trivial) simp_all
  finally show ?thesis using True by (simp add: uint_word_of_int)
next
  case False
  then show ?thesis using assms by (simp add: uint_word_of_int)
qed

lemma high_bounds:
  fixes x l v :: int
  assumes "x * 2 ^ 64 + l = v" "- (2 ^ 127) \<le> v" "v < 2 ^ 127" "0 \<le> l" "l < 2 ^ 64"
  shows "- (2 ^ 63) \<le> x" "x < 2 ^ 63"
  using assms by simp_all

lemma acc_val_add:
  assumes v: "is_int64 v" and r: "- (2 ^ 127) \<le> acc_val a + v" "acc_val a + v < 2 ^ 127"
  shows "acc_val (acc_add a v) = acc_val a + v"
proof -
  let ?w = "word_of_int v :: uint64" and ?s = "if v < 0 then - 1 else 0 :: int"
  let ?c = "if uint (acc_lo a) + uint ?w \<ge> 2 ^ 64 then 1 else 0 :: int"
  let ?h = "sint (acc_hi a) + ?s + ?c"
  have v': "- (2 ^ 63) \<le> v" "v < 2 ^ 63" using v by (simp_all add: is_int64_def MinInt64_def MaxInt64_def)
  have lo: "uint (acc_lo a + ?w) + ?c * 2 ^ 64 = uint (acc_lo a) + uint ?w"
    using uint64_bounds [of "acc_lo a"] uint64_bounds [of ?w] by (simp add: uint_plus_if')
  have hi: "acc_hi a + (signed_drop_bit 63 ?w + (if uint (acc_lo a) + uint ?w \<ge> 2 ^ 64 then 1 else 0)) = word_of_int ?h"
    using v' by (simp add: sign_word)
  have sum: "?h * 2 ^ 64 + uint (acc_lo a + ?w) = acc_val a + v"
    unfolding distrib_right acc_val_def using lo uint_of_int [OF v'] by linarith
  from high_bounds [OF this r uint64_bounds] have "sint (word_of_int ?h :: uint64) = ?h" by (rule sint_of_int)
  moreover have "acc_add a v = \<lparr>acc_hi = word_of_int ?h, acc_lo = acc_lo a + ?w\<rparr>"
    unfolding hi [symmetric] by (simp add: acc_add_def Add64_def)
  ultimately show ?thesis unfolding sum [symmetric] by (simp only: acc_val_def acc128.simps)
qed

lemma low_word:
  fixes h r k :: int
  assumes "k = 0 \<or> k = - 1" "- (2 ^ 63) \<le> r" "r < 2 ^ 63"
  shows "is_int64 (h * 2 ^ 64 + (r - k * 2 ^ 64)) \<longleftrightarrow> h = k"
  using assms by (auto simp: is_int64_def MinInt64_def MaxInt64_def)

lemma acc_int64_val:
  "acc_int64 a = (if is_int64 (acc_val a) then (acc_val a, True) else (sint (acc_lo a), False))"
proof -
  let ?r = "sint (acc_lo a)" and ?s = "if sint (acc_lo a) < 0 then - 1 else 0 :: int"
  note r = sint64_bounds [of "acc_lo a"]
  have s: "signed_drop_bit 63 (acc_lo a) = word_of_int ?s" using sign_word [OF r] by simp
  have u: "uint (acc_lo a) = ?r - ?s * 2 ^ 64" using uint_of_int [OF r] by simp
  have "sint (word_of_int ?s :: uint64) = ?s" by (rule sint_of_int) simp_all
  then have h: "acc_hi a = signed_drop_bit 63 (acc_lo a) \<longleftrightarrow> sint (acc_hi a) = ?s"
    unfolding s sint_inj [symmetric] by (simp only:)
  have "is_int64 (acc_val a) \<longleftrightarrow> sint (acc_hi a) = ?s"
    unfolding acc_val_def u using r by (intro low_word) simp_all
  then show ?thesis using h by (auto simp: acc_int64_def acc_val_def u)
qed

subsection \<open>The totals\<close>

definition exactTotal :: "nat \<Rightarrow> ProjectMetrics list \<Rightarrow> int" where
  "exactTotal f ps = sum_list (map (\<lambda>p. if counted f p then figures p ! f else 0) ps)"

text \<open>The minor-unit fields are \<^verbatim>\<open>int64\<close> values.\<close>

definition validMetrics :: "ProjectMetrics \<Rightarrow> bool" where
  "validMetrics p \<longleftrightarrow> is_int64 (pm_BudgetedCostMinorUnits p) \<and> is_int64 (pm_CommittedCostMinorUnits p)
     \<and> is_int64 (pm_ActualCostMinorUnits p) \<and> is_int64 (pm_EarnedValueMinorUnits p) \<and> is_int64 (pm_PlannedValueMinorUnits p)"

lemma float_limits: "float_of_int MaxInt64 = 2 ^ 63" "float_of_int MinInt64 = - (2 ^ 63)"
  by code_simp+

lemma FromMajorFloat_int64: "is_int64 (MinorUnits (FromMajorFloat v))"
proof -
  have "is_int64 k" if "\<not> 2 ^ 63 \<le> (of_int k :: rat)" "\<not> of_int k \<le> - ((2 :: rat) ^ 63)" for k
  proof -
    have "(of_int k :: rat) < of_int (2 ^ 63)" "(of_int (- (2 ^ 63)) :: rat) < of_int k" using that by simp_all
    then show ?thesis unfolding of_int_less_iff by (simp add: is_int64_def MinInt64_def MaxInt64_def)
  qed
  then show ?thesis by (simp add: FromMajorFloat_def Let_def float_limits)
qed

lemma minorUnits_int64: "is_int64 m \<Longrightarrow> is_int64 (minorUnits m v)"
  by (simp add: minorUnits_def FromMajorFloat_int64)

lemma figures_int64:
  assumes "validMetrics p" and "f < 5"
  shows "is_int64 (figures p ! f)"
proof -
  have "list_all is_int64 (figures p)" using assms(1) by (simp add: figures_def validMetrics_def minorUnits_int64)
  moreover have "f < length (figures p)" using assms(2) by (simp add: figures_def)
  ultimately show ?thesis by (simp add: list_all_length)
qed

lemma foldl_addProject:
  assumes "list_all validMetrics ps" and "length accs0 = 5"
    and "\<And>f. f < 5 \<Longrightarrow> \<bar>acc_val (accs0 ! f)\<bar> + int (length ps) * 2 ^ 63 < 2 ^ 127"
  shows "\<exists>accs. foldl addProject (n, e, accs0) ps = (n + int (length ps), e + int (length (filter pm_EVMAvailable ps)), accs)
    \<and> length accs = 5 \<and> (\<forall>f < 5. acc_val (accs ! f) = acc_val (accs0 ! f) + exactTotal f ps)"
  using assms
proof (induction ps arbitrary: n e accs0)
  case Nil
  then show ?case by (simp add: exactTotal_def)
next
  case (Cons p ps)
  let ?accs = "addFigures p accs0"
  have step: "acc_val (?accs ! f) = acc_val (accs0 ! f) + (if counted f p then figures p ! f else 0) \<and>
      \<bar>acc_val (?accs ! f)\<bar> \<le> \<bar>acc_val (accs0 ! f)\<bar> + 2 ^ 63" if f: "f < 5" for f
  proof -
    have v: "is_int64 (figures p ! f)" using figures_int64 Cons.prems(1) f by simp
    then have b: "- (2 ^ 63) \<le> figures p ! f" "figures p ! f \<le> 2 ^ 63" by (simp_all add: is_int64_def MinInt64_def MaxInt64_def)
    have "\<bar>acc_val (accs0 ! f)\<bar> + 2 ^ 63 < 2 ^ 127" using Cons.prems(3) [OF f] by simp
    then have "acc_val (acc_add (accs0 ! f) (figures p ! f)) = acc_val (accs0 ! f) + figures p ! f"
      using b by (intro acc_val_add [OF v]) linarith+
    then show ?thesis using f b by (auto simp: addFigures_def)
  qed
  have "\<bar>acc_val (?accs ! f)\<bar> + int (length ps) * 2 ^ 63 < 2 ^ 127" if "f < 5" for f
  proof -
    have "int (length (p # ps)) * 2 ^ 63 = int (length ps) * 2 ^ 63 + 2 ^ 63" by (simp add: distrib_right)
    then show ?thesis using step [OF that] Cons.prems(3) [OF that] by linarith
  qed
  note bound = this
  have "list_all validMetrics ps" "length ?accs = 5" using Cons.prems(1) by (simp_all add: addFigures_def)
  from Cons.IH [OF this bound, of "n + 1" "if pm_EVMAvailable p then e + 1 else e"]
  obtain accs where "foldl addProject (n + 1, if pm_EVMAvailable p then e + 1 else e, ?accs) ps
      = (n + 1 + int (length ps), (if pm_EVMAvailable p then e + 1 else e) + int (length (filter pm_EVMAvailable ps)), accs)"
    "length accs = 5" "\<forall>f < 5. acc_val (accs ! f) = acc_val (?accs ! f) + exactTotal f ps" by blast
  then show ?case using step by (auto simp: addProject_def exactTotal_def)
qed

lemma totalsOf_eq:
  "totalsOf xs = (case List.find (\<lambda>(n, a). \<not> is_int64 (acc_val a)) xs of
     Some (n, a) \<Rightarrow> Inl (ErrRollupOverflow n) | None \<Rightarrow> Inr (map (\<lambda>(n, a). acc_val a) xs))"
  by (induction xs rule: totalsOf.induct) (auto simp: acc_int64_val split: option.splits)

lemma find_map: "List.find P (map g xs) = map_option g (List.find (\<lambda>x. P (g x)) xs)"
  by (induction xs) auto

text \<open>
  C40. The portfolio totals are exact: whatever the intermediate sums, the rollup returns the
  exact sum of every figure over the projects that count for it, with the counts and the
  indices drawn from them, or, where a final sum is not an \<^verbatim>\<open>int64\<close>, the error
  that names the first such figure.
\<close>

theorem portfolio_rollup_exact:
  assumes "list_all validMetrics ps" and "length ps < 2 ^ 63"
  shows "PortfolioRollup ps =
    (case List.find (\<lambda>f. \<not> is_int64 (exactTotal f ps)) [0..<5] of
       Some f \<Rightarrow> Inl (ErrRollupOverflow (rollupNames ! f))
     | None \<Rightarrow> Inr (summarize (int (length ps)) (int (length (filter pm_EVMAvailable ps))) (map (\<lambda>f. exactTotal f ps) [0..<5])))"
proof -
  have "int (length ps) * 2 ^ 63 < 2 ^ 127" using assms(2) by simp
  then obtain accs where f: "foldl addProject (0, 0, replicate 5 acc_zero) ps
      = (int (length ps), int (length (filter pm_EVMAvailable ps)), accs)"
    and a: "length accs = 5" "\<forall>f < 5. acc_val (accs ! f) = exactTotal f ps"
    using foldl_addProject [OF assms(1), of "replicate 5 acc_zero" 0 0] by (auto simp: acc_val_def acc_zero_def)
  have z: "zip rollupNames accs = map (\<lambda>f. (rollupNames ! f, accs ! f)) [0..<5]"
    using a(1) by (intro nth_equalityI) (simp_all add: rollupNames_def)
  have find: "List.find (\<lambda>f. \<not> is_int64 (acc_val (accs ! f))) [0..<5] = List.find (\<lambda>f. \<not> is_int64 (exactTotal f ps)) [0..<5]"
    using a(2) by (intro find_cong) auto
  have totals: "map (\<lambda>f. acc_val (accs ! f)) [0..<5] = map (\<lambda>f. exactTotal f ps) [0..<5]" using a(2) by simp
  show ?thesis
    unfolding PortfolioRollup_def f Let_def prod.case z totalsOf_eq find_map map_map comp_def find totals
    by (simp split: option.split)
qed

definition aProject :: "int \<Rightarrow> int \<Rightarrow> bool \<Rightarrow> ProjectMetrics" where
  "aProject budget earned evm = \<lparr>pm_ProjectID = ''p'', pm_Name = ''n'', pm_BudgetedCost = 0, pm_CommittedCost = 0, pm_ActualCost = 0,
     pm_EarnedValue = 0, pm_PlannedValue = 0, pm_BudgetedCostMinorUnits = budget, pm_CommittedCostMinorUnits = 0,
     pm_ActualCostMinorUnits = 0, pm_EarnedValueMinorUnits = earned, pm_PlannedValueMinorUnits = 0, pm_PercentComplete = 0,
     pm_EVMAvailable = evm\<rparr>"

text \<open>The sum leaves the range of \<^verbatim>\<open>int64\<close> on the way and comes back; and one that does not.\<close>

theorem portfolio_rollup_exact_witness:
  "map_sum id ps_TotalBudgetedCostMinorUnits (PortfolioRollup [aProject MaxInt64 7 True, aProject 1 9 False, aProject (- 3) 0 True]) = Inr (MaxInt64 - 2)
   \<and> PortfolioRollup [aProject 0 MaxInt64 True, aProject 0 1 True] = Inl (ErrRollupOverflow ''earned value'')"
proof -
  have "list_all validMetrics [aProject MaxInt64 7 True, aProject 1 9 False, aProject (- 3) 0 True]"
    "list_all validMetrics [aProject 0 MaxInt64 True, aProject 0 1 True]" by code_simp+
  from this [THEN portfolio_rollup_exact] show ?thesis
    by (simp add: upt_rec exactTotal_def counted_def figures_def aProject_def minorUnits_def is_int64_def MinInt64_def MaxInt64_def
        summarize_def Let_def rollupNames_def)
qed

end
