(* ===== verification/TextCodes.thy ===== *)
theory TextCodes
  imports Encoding
begin

text \<open>
  The base 32 and base 64 encodings of the Go standard library, as
  \<^verbatim>\<open>internal/users\<close> and \<^verbatim>\<open>internal/auth\<close> use them: key wraps
  (\<^verbatim>\<open>base64.StdEncoding\<close>), password hashes (\<^verbatim>\<open>base64.RawStdEncoding\<close>)
  and recovery codes (\<^verbatim>\<open>base32.StdEncoding\<close> without padding). Both spell a byte
  string as its bits, cut into groups of \<open>k\<close> bits that index an alphabet; the decoders
  skip carriage returns and line feeds, as Go's do, and drop the bits left over.
\<close>

subsection \<open>Model: bits\<close>

definition bitsVal :: "bool list \<Rightarrow> nat" where
  "bitsVal bs = foldl (\<lambda>n b. 2 * n + (if b then 1 else 0)) 0 bs"

fun valBits :: "nat \<Rightarrow> nat \<Rightarrow> bool list" where
  "valBits 0 n = []"
| "valBits (Suc k) n = valBits k (n div 2) @ [odd n]"

definition byteBits :: "string \<Rightarrow> bool list" where
  "byteBits s = concat (map (\<lambda>c. valBits 8 (of_char c)) s)"

function groups :: "nat \<Rightarrow> 'a list \<Rightarrow> 'a list list" where
  "groups k xs = (if k = 0 \<or> xs = [] then [] else take k xs # groups k (drop k xs))"
  by pat_completeness auto
termination by (relation "measure (\<lambda>(k, xs). length xs)") auto

declare groups.simps [simp del]

definition padTo :: "nat \<Rightarrow> bool list \<Rightarrow> bool list" where
  "padTo k g = g @ replicate (k - length g) False"

definition bytesOf :: "bool list \<Rightarrow> string" where
  "bytesOf bs = map (\<lambda>g. char_of (bitsVal g)) (groups 8 (take (8 * (length bs div 8)) bs))"

subsection \<open>Model: alphabets\<close>

definition base32Alphabet :: string where "base32Alphabet = ''ABCDEFGHIJKLMNOPQRSTUVWXYZ234567''"

definition base64Alphabet :: string where
  "base64Alphabet = ''ABCDEFGHIJKLMNOPQRSTUVWXYZabcdefghijklmnopqrstuvwxyz0123456789+/''"

definition encodeWith :: "string \<Rightarrow> nat \<Rightarrow> string \<Rightarrow> string" where
  "encodeWith alphabet k s = map (\<lambda>g. alphabet ! bitsVal (padTo k g)) (groups k (byteBits s))"

definition symbolIndex :: "string \<Rightarrow> char \<Rightarrow> nat option" where
  "symbolIndex alphabet c = map_of (zip alphabet [0..<length alphabet]) c"

fun symbolBits :: "string \<Rightarrow> nat \<Rightarrow> string \<Rightarrow> bool list option" where
  "symbolBits alphabet k [] = Some []"
| "symbolBits alphabet k (c # cs) =
     (case symbolIndex alphabet c of
        None \<Rightarrow> None
      | Some i \<Rightarrow> map_option (\<lambda>bs. valBits k i @ bs) (symbolBits alphabet k cs))"

definition decodeWith :: "string \<Rightarrow> nat \<Rightarrow> string \<Rightarrow> string option" where
  "decodeWith alphabet k s = map_option bytesOf (symbolBits alphabet k s)"

definition dropNewlines :: "string \<Rightarrow> string" where
  "dropNewlines s = filter (\<lambda>c. c \<noteq> CHR 0x0A \<and> c \<noteq> CHR 0x0D) s"

text \<open>\<^verbatim>\<open>base64.RawStdEncoding\<close>: no padding, and a single symbol cannot end the text.\<close>

definition rawBase64 :: "string \<Rightarrow> string" where "rawBase64 s = encodeWith base64Alphabet 6 s"

definition fromRawBase64 :: "string \<Rightarrow> string option" where
  "fromRawBase64 s0 =
     (let s = dropNewlines s0 in
      if length s mod 4 = 1 then None else decodeWith base64Alphabet 6 s)"

text \<open>\<^verbatim>\<open>base64.StdEncoding\<close>: padded to a multiple of four symbols.\<close>

definition stdBase64 :: "string \<Rightarrow> string" where
  "stdBase64 s = (let t = rawBase64 s in t @ replicate ((4 - length t mod 4) mod 4) (CHR ''=''))"

definition fromStdBase64 :: "string \<Rightarrow> string option" where
  "fromStdBase64 s0 =
     (let s = dropNewlines s0;
          t = (if length s \<ge> 2 \<and> last s = CHR ''='' \<and> last (butlast s) = CHR ''='' then butlast (butlast s)
               else if s \<noteq> [] \<and> last s = CHR ''='' then butlast s else s)
      in if length s mod 4 \<noteq> 0 \<or> length t mod 4 = 1 then None else decodeWith base64Alphabet 6 t)"

text \<open>
  \<^verbatim>\<open>base32.StdEncoding.WithPadding(NoPadding)\<close> on whole groups of eight symbols,
  the only texts the sources decode (32 symbols for 20 bytes).
\<close>

definition rawBase32 :: "string \<Rightarrow> string" where "rawBase32 s = encodeWith base32Alphabet 5 s"

definition fromRawBase32 :: "string \<Rightarrow> string option" where
  "fromRawBase32 s = (if length s mod 8 = 0 then decodeWith base32Alphabet 5 s else None)"

subsection \<open>Bits and groups\<close>

lemma length_valBits [simp]: "length (valBits k n) = k"
  by (induction k arbitrary: n) auto

lemma bitsVal_snoc [simp]: "bitsVal (bs @ [b]) = 2 * bitsVal bs + (if b then 1 else 0)"
  by (simp add: bitsVal_def)

lemma bitsVal_Nil [simp]: "bitsVal [] = 0"
  by (simp add: bitsVal_def)

lemma bitsVal_valBits: "n < 2 ^ k \<Longrightarrow> bitsVal (valBits k n) = n"
proof (induction k arbitrary: n)
  case (Suc k)
  then have "n div 2 < 2 ^ k" by auto
  with Suc.IH show ?case by simp
qed simp

lemma valBits_bitsVal: "valBits (length bs) (bitsVal bs) = bs"
  by (induction bs rule: rev_induct) auto

lemma bitsVal_less: "bitsVal bs < 2 ^ length bs"
  by (induction bs rule: rev_induct) auto

lemma length_byteBits [simp]: "length (byteBits s) = 8 * length s"
  by (induction s) (auto simp: byteBits_def)

lemma groups_Nil [simp]: "groups k [] = []"
  by (subst groups.simps) simp

lemma groups_append:
  "0 < k \<Longrightarrow> length g = k \<Longrightarrow> groups k (g @ xs) = g # groups k xs"
  by (subst groups.simps) auto

lemma groups_byteBits: "groups 8 (byteBits s) = map (\<lambda>c. valBits 8 (of_char c)) s"
  by (induction s) (auto simp: byteBits_def groups_append)

lemma groups_facts:
  assumes "0 < k"
  shows "concat (groups k xs) = xs" and "\<And>g. g \<in> set (groups k xs) \<Longrightarrow> length g \<le> k"
    and "length (groups k xs) = (length xs + (k - 1)) div k"
  using assms
proof (induction k xs rule: groups.induct)
  case (1 k xs)
  { case 1 show ?case using 1 "1.IH"(1) by (subst groups.simps) auto }
  { case 2 then show ?case using "1.IH"(2) by (subst (asm) groups.simps) (auto split: if_splits) }
  { case 3
    show ?case
    proof (cases "xs = []")
      case False
      with 3 have "length (groups k xs) = Suc ((length (drop k xs) + (k - 1)) div k)"
        using "1.IH"(3) by (subst groups.simps) simp
      also have "\<dots> = (length xs + (k - 1)) div k"
      proof (cases "length xs \<ge> k")
        case True
        then have "length xs + (k - 1) = k + (length (drop k xs) + (k - 1))" using 3 by simp
        then show ?thesis using 3 by (metis add.commute add_Suc_right div_add_self1 less_nat_zero_code One_nat_def plus_1_eq_Suc)
      next
        case short: False
        then have "length xs + (k - 1) = k + (length xs - 1)" using False 3 by (cases xs) auto
        moreover have "(k + (length xs - 1)) div k = Suc ((length xs - 1) div k)" using 3 by (simp add: div_add_self1)
        moreover have "(length xs - 1) div k = 0" using short by auto
        ultimately show ?thesis using short 3 by simp
      qed
      finally show ?thesis .
    qed (use 3 in simp) }
qed


subsection \<open>Round trips\<close>

lemma map_of_zip_upt:
  assumes "distinct alphabet" and "i < length alphabet"
  shows "map_of (zip alphabet [0..<length alphabet]) (alphabet ! i) = Some i"
  using assms by (metis add.left_neutral distinct_Ex1 length_upt map_of_zip_nth minus_nat.diff_0 nth_upt)

lemma symbolBits_map:
  assumes "distinct alphabet" and "length alphabet = 2 ^ k" and "\<And>g. g \<in> set gs \<Longrightarrow> length g \<le> k"
  shows "symbolBits alphabet k (map (\<lambda>g. alphabet ! bitsVal (padTo k g)) gs) = Some (concat (map (padTo k) gs))"
  using assms(3)
proof (induction gs)
  case (Cons g gs)
  have l: "length (padTo k g) = k" using Cons.prems by (simp add: padTo_def)
  then have "bitsVal (padTo k g) < length alphabet" using bitsVal_less [of "padTo k g"] assms(2) by simp
  then have "symbolIndex alphabet (alphabet ! bitsVal (padTo k g)) = Some (bitsVal (padTo k g))"
    unfolding symbolIndex_def by (rule map_of_zip_upt [OF assms(1)])
  moreover have "valBits k (bitsVal (padTo k g)) = padTo k g" using valBits_bitsVal [of "padTo k g"] l by simp
  ultimately show ?case using Cons by simp
qed simp

lemma padded_groups:
  assumes "0 < k"
  shows "\<exists>zs. concat (map (padTo k) (groups k xs)) = xs @ zs \<and> length zs < k"
  using assms
proof (induction k xs rule: groups.induct)
  case (1 k xs)
  show ?case
  proof (cases "length xs > k")
    case True
    then obtain zs where "concat (map (padTo k) (groups k (drop k xs))) = drop k xs @ zs" "length zs < k"
      using 1 by (cases "xs = []") auto
    moreover have "padTo k (take k xs) = take k xs" using True by (simp add: padTo_def)
    ultimately show ?thesis using True 1(2) by (subst groups.simps) (auto simp flip: append_assoc)
  next
    case False
    show ?thesis
    proof (cases "xs = []")
      case True then show ?thesis using 1(2) by simp
    next
      case nonempty: False
      then have "groups k xs = [xs]" using False 1(2) by (subst groups.simps) simp
      with nonempty False show ?thesis by (cases xs) (auto simp: padTo_def)
    qed
  qed
qed

lemma bytesOf_bits:
  assumes "length zs < 8"
  shows "bytesOf (byteBits s @ zs) = s"
proof -
  have "length (byteBits s @ zs) div 8 = length s" using assms by simp
  then have "bytesOf (byteBits s @ zs) = map (\<lambda>c. char_of (bitsVal (valBits 8 (of_char c)))) s"
    by (simp only: bytesOf_def) (simp add: groups_byteBits)
  also have "\<dots> = s" by (induction s) (auto simp: bitsVal_valBits)
  finally show ?thesis .
qed

theorem decode_encode:
  assumes "distinct alphabet" and "length alphabet = 2 ^ k" and "0 < k" and "k \<le> 8"
  shows "decodeWith alphabet k (encodeWith alphabet k s) = Some s"
proof -
  have "symbolBits alphabet k (encodeWith alphabet k s) = Some (concat (map (padTo k) (groups k (byteBits s))))"
    unfolding encodeWith_def by (intro symbolBits_map [OF assms(1,2)]) (rule groups_facts(2) [OF assms(3)])
  moreover obtain zs where "concat (map (padTo k) (groups k (byteBits s))) = byteBits s @ zs" "length zs < k"
    using padded_groups [OF assms(3)] by blast
  ultimately show ?thesis using bytesOf_bits [of zs s] assms(4) by (simp add: decodeWith_def)
qed

lemma length_encodeWith: "0 < k \<Longrightarrow> length (encodeWith alphabet k s) = (8 * length s + (k - 1)) div k"
  by (simp add: encodeWith_def groups_facts(3))

lemma set_encodeWith:
  assumes "length alphabet = 2 ^ k" and "0 < k"
  shows "set (encodeWith alphabet k s) \<subseteq> set alphabet"
proof -
  have "alphabet ! bitsVal (padTo k g) \<in> set alphabet" if "g \<in> set (groups k (byteBits s))" for g
  proof -
    have "length (padTo k g) = k" using groups_facts(2) [OF assms(2) that] by (simp add: padTo_def)
    then show ?thesis using bitsVal_less [of "padTo k g"] assms(1) by simp
  qed
  then show ?thesis by (auto simp: encodeWith_def)
qed

lemma base64Alphabet_facts: "distinct base64Alphabet" "length base64Alphabet = 2 ^ 6"
  "CHR ''='' \<notin> set base64Alphabet" "CHR 0x0A \<notin> set base64Alphabet" "CHR 0x0D \<notin> set base64Alphabet"
  "CHR ''$'' \<notin> set base64Alphabet"
  by (simp_all add: base64Alphabet_def)

lemma base32Alphabet_facts: "distinct base32Alphabet" "length base32Alphabet = 2 ^ 5"
  by (simp_all add: base32Alphabet_def)

lemma set_rawBase64: "set (rawBase64 s) \<subseteq> set base64Alphabet"
  unfolding rawBase64_def by (rule set_encodeWith [OF base64Alphabet_facts(2)]) simp

lemma dropNewlines_rawBase64: "dropNewlines (rawBase64 s) = rawBase64 s"
  unfolding dropNewlines_def using set_rawBase64 [of s] base64Alphabet_facts(4,5)
  by (auto simp: filter_id_conv)

lemma fromRawBase64_raw [simp]: "fromRawBase64 (rawBase64 s) = Some s"
proof -
  have "(8 * n + 5) div 6 mod 4 \<noteq> 1" for n :: nat by presburger
  then have "length (rawBase64 s) mod 4 \<noteq> 1" by (simp add: rawBase64_def length_encodeWith)
  then show ?thesis
    using decode_encode [OF base64Alphabet_facts(1,2)]
    by (simp add: fromRawBase64_def Let_def dropNewlines_rawBase64) (simp add: rawBase64_def)
qed

lemma fromStdBase64_std [simp]: "fromStdBase64 (stdBase64 s) = Some s"
proof -
  let ?t = "rawBase64 s" and ?u = "stdBase64 s"
  have dec: "decodeWith base64Alphabet 6 ?t = Some s"
    using decode_encode [OF base64Alphabet_facts(1,2)] by (simp add: rawBase64_def)
  have "(8 * n + 5) div 6 mod 4 \<noteq> 1" for n :: nat by presburger
  then have l: "length ?t mod 4 \<noteq> 1" by (simp add: rawBase64_def length_encodeWith)
  have eq: "CHR ''='' \<notin> set ?t" using set_rawBase64 [of s] base64Alphabet_facts(3) by auto
  have nl: "dropNewlines ?u = ?u"
    using dropNewlines_rawBase64 [of s] by (simp add: stdBase64_def dropNewlines_def Let_def)
  consider "length ?t mod 4 = 0" | "length ?t mod 4 = 2" | "length ?t mod 4 = 3"
    using l mod_less_divisor [of 4 "length ?t"] by linarith
  then show ?thesis
  proof cases
    case 1
    then have u: "?u = ?t" by (simp add: stdBase64_def)
    have "?t = [] \<or> last ?t \<noteq> CHR ''=''" using eq last_in_set [of ?t] by metis
    with 1 dec nl show ?thesis unfolding fromStdBase64_def u by auto
  next
    case 2
    then have u: "?u = ?t @ [CHR ''='', CHR ''='']" by (simp add: stdBase64_def) (simp add: numeral_2_eq_2)
    have "(length ?t + 2) mod 4 = 0" using 2 by presburger
    with 2 dec nl show ?thesis unfolding fromStdBase64_def by (simp add: u butlast_append)
  next
    case 3
    then have u: "?u = ?t @ [CHR ''='']" by (simp add: stdBase64_def)
    have ne: "?t \<noteq> []" using 3 by auto
    then have "last ?t \<noteq> CHR ''=''" using eq last_in_set [of ?t] by metis
    moreover have "Suc (length ?t) mod 4 = 0" using 3 by presburger
    ultimately show ?thesis using 3 dec nl ne unfolding fromStdBase64_def by (simp add: u butlast_append)
  qed
qed

lemma fromRawBase32_raw: "5 dvd length s \<Longrightarrow> fromRawBase32 (rawBase32 s) = Some s"
proof -
  assume "5 dvd length s"
  then obtain n where "length s = 5 * n" by blast
  moreover have "(40 * n + 4) div 5 mod 8 = 0" by presburger
  ultimately have "length (rawBase32 s) mod 8 = 0" by (simp add: rawBase32_def length_encodeWith)
  then show ?thesis using decode_encode [OF base32Alphabet_facts]
    by (simp add: fromRawBase32_def rawBase32_def)
qed

end
