(* ===== verification/EscrowCrypto.thy ===== *)
theory EscrowCrypto
  imports TextCodes
begin

text \<open>
  The key handling of \<^verbatim>\<open>internal/crypto\<close>: wrapping a data encryption key (DEK)
  under a password (\<^verbatim>\<open>encrypt.go\<close>, \<^verbatim>\<open>keywrap.go\<close>), subkeys
  (\<^verbatim>\<open>subkey.go\<close>) and the values of administrator escrow
  (\<^verbatim>\<open>escrow.go\<close>). The primitives of the Go libraries (HPKE,
  AES-GCM, HMAC, HKDF, Argon2id) are the fields of a \<open>Suite\<close>, each with its randomness
  as an argument; \<open>SuiteLaws\<close> says what is relied on. A draw of random bytes is an
  \<open>option\<close>, \<open>None\<close> when the source of randomness fails.
\<close>

subsection \<open>Model: the primitives\<close>

record Suite =
  kemPublic :: "string \<Rightarrow> string option"
  kemValid :: "string \<Rightarrow> bool"
  hpkeSeal :: "string \<Rightarrow> string \<Rightarrow> string \<Rightarrow> string \<Rightarrow> string"
  hpkeOpen :: "string \<Rightarrow> string \<Rightarrow> string \<Rightarrow> string option"
  hmacSHA256 :: "string \<Rightarrow> string \<Rightarrow> string"
  hkdfKey :: "string \<Rightarrow> string \<Rightarrow> string"
  gcmSeal :: "string \<Rightarrow> string \<Rightarrow> string \<Rightarrow> string \<Rightarrow> string"
  gcmOpen :: "string \<Rightarrow> string \<Rightarrow> string \<Rightarrow> string \<Rightarrow> string option"
  argonIDKey :: "string \<Rightarrow> string \<Rightarrow> nat \<Rightarrow> nat \<Rightarrow> nat \<Rightarrow> nat \<Rightarrow> string"

text \<open>
  What the Go documentation promises: a sealed value opens with the matching private key and
  the same context, a GCM ciphertext opens under its key, nonce and additional data and is
  the plaintext with a 16-byte tag, the public key of a private key is valid, HMAC-SHA256
  gives 32 bytes and Argon2id as many as asked for.
\<close>

definition SuiteLaws :: "Suite \<Rightarrow> bool" where
  "SuiteLaws S \<longleftrightarrow>
     (\<forall>rnd sk pk info pt. kemPublic S sk = Some pk \<longrightarrow>
        kemValid S pk \<and> hpkeOpen S sk info (hpkeSeal S rnd pk info pt) = Some pt)
     \<and> (\<forall>key nonce pt ad. gcmOpen S key nonce (gcmSeal S key nonce pt ad) ad = Some pt
          \<and> length (gcmSeal S key nonce pt ad) = length pt + 16)
     \<and> (\<forall>key msg. length (hmacSHA256 S key msg) = 32)
     \<and> (\<forall>pw salt t m p n. length (argonIDKey S pw salt t m p n) = n)"

text \<open>Authenticated encryption: a value sealed for one context does not open in another.\<close>

definition SuiteBinds :: "Suite \<Rightarrow> bool" where
  "SuiteBinds S \<longleftrightarrow>
     (\<forall>rnd sk pk info info' pt. kemPublic S sk = Some pk \<and> info' \<noteq> info \<longrightarrow>
        hpkeOpen S sk info' (hpkeSeal S rnd pk info pt) = None)"

datatype crypto_error =
  ErrBadDEK | ErrEscrowOpen | ErrEmptyContext | BadPrivateKey | BadPublicKey | EmptyPrivateKey
| NoEntropy | EmptyPassword | CiphertextTooShort | DecryptFailed | NotBase64 | BadRecoveryCodeSize

definition drawn :: "string option \<Rightarrow> crypto_error + string" where
  "drawn rnd = (case rnd of None \<Rightarrow> Inl NoEntropy | Some b \<Rightarrow> Inr b)"

subsection \<open>Model: password encryption and key wraps\<close>

definition saltLen :: nat where "saltLen = 16"
definition nonceSize :: nat where "nonceSize = 12"
definition DEKSize :: nat where "DEKSize = 32"

definition passwordKey :: "Suite \<Rightarrow> string \<Rightarrow> string \<Rightarrow> string" where
  "passwordKey S password salt = argonIDKey S password salt 1 (64 * 1024) 4 32"

definition EncryptBuffer :: "Suite \<Rightarrow> string option \<Rightarrow> string option \<Rightarrow> string \<Rightarrow> string \<Rightarrow> crypto_error + string" where
  "EncryptBuffer S saltDraw nonceDraw data password =
     (if password = [] then Inl EmptyPassword
      else and_then (drawn saltDraw) (\<lambda>salt. and_then (drawn nonceDraw) (\<lambda>nonce.
        Inr (salt @ nonce @ gcmSeal S (passwordKey S password salt) nonce data []))))"

definition DecryptBuffer :: "Suite \<Rightarrow> string \<Rightarrow> string \<Rightarrow> crypto_error + string" where
  "DecryptBuffer S blob password =
     (if password = [] then Inl EmptyPassword
      else if length blob < saltLen + 12 + 16 then Inl CiphertextTooShort
      else let salt = take saltLen blob; rest = drop saltLen blob in
        if length rest < nonceSize then Inl CiphertextTooShort
        else case gcmOpen S (passwordKey S password salt) (take nonceSize rest) (drop nonceSize rest) [] of
               None \<Rightarrow> Inl DecryptFailed | Some pt \<Rightarrow> Inr pt)"

definition GenerateDEK :: "string option \<Rightarrow> crypto_error + string" where
  "GenerateDEK rnd = drawn rnd"

definition WrapKey :: "Suite \<Rightarrow> string option \<Rightarrow> string option \<Rightarrow> string \<Rightarrow> string \<Rightarrow> crypto_error + string" where
  "WrapKey S saltDraw nonceDraw dek secret =
     (if length dek \<noteq> DEKSize then Inl ErrBadDEK
      else and_then (EncryptBuffer S saltDraw nonceDraw dek secret) (\<lambda>blob. Inr (stdBase64 blob)))"

definition UnwrapKey :: "Suite \<Rightarrow> string \<Rightarrow> string \<Rightarrow> crypto_error + string" where
  "UnwrapKey S wrapped secret =
     (case fromStdBase64 wrapped of
        None \<Rightarrow> Inl NotBase64
      | Some blob \<Rightarrow> and_then (DecryptBuffer S blob secret) (\<lambda>dek.
          if length dek \<noteq> DEKSize then Inl ErrBadDEK else Inr dek))"

definition DeriveSubkey :: "Suite \<Rightarrow> string \<Rightarrow> string \<Rightarrow> crypto_error + string" where
  "DeriveSubkey S dek context =
     (if length dek \<noteq> DEKSize then Inl ErrBadDEK
      else if context = [] then Inl ErrEmptyContext
      else Inr (hmacSHA256 S dek context))"

subsection \<open>Model: escrow values\<close>

definition escrowDEKLabel :: string where "escrowDEKLabel = ''gopmgr/escrow/dek/v1''"
definition escrowGrantLabel :: string where "escrowGrantLabel = ''gopmgr/escrow/grant/v1''"
definition escrowPersonalKeyLabel :: string where "escrowPersonalKeyLabel = ''gopmgr/escrow/personal-key/v1''"
definition escrowPinLabel :: string where "escrowPinLabel = ''gopmgr/escrow/pin/v1''"
definition escrowAttestKeyLabel :: string where "escrowAttestKeyLabel = ''gopmgr/escrow/attest-key/v1''"
definition escrowAttestLabel :: string where "escrowAttestLabel = ''gopmgr/escrow/attest/v1''"
definition escrowRecoveryLabel :: string where "escrowRecoveryLabel = ''gopmgr/escrow/recovery/v1''"

definition uint32Bytes :: "nat \<Rightarrow> string" where
  "uint32Bytes n = [char_of (n div 2 ^ 24), char_of (n div 2 ^ 16), char_of (n div 2 ^ 8), char_of n]"

definition appendField :: "string \<Rightarrow> string \<Rightarrow> string" where
  "appendField out field = out @ uint32Bytes (length field) @ field"

definition bindFields :: "string \<Rightarrow> string list \<Rightarrow> string" where
  "bindFields label fs = foldl appendField (appendField [] label) fs"

definition GenerateEscrowKeyPair :: "Suite \<Rightarrow> string option \<Rightarrow> crypto_error + string \<times> string" where
  "GenerateEscrowKeyPair S rnd =
     and_then (drawn rnd) (\<lambda>priv. case kemPublic S priv of None \<Rightarrow> Inl BadPrivateKey | Some pub \<Rightarrow> Inr (priv, pub))"

definition EscrowPublicKey :: "Suite \<Rightarrow> string \<Rightarrow> crypto_error + string" where
  "EscrowPublicKey S priv = (case kemPublic S priv of None \<Rightarrow> Inl BadPrivateKey | Some pub \<Rightarrow> Inr pub)"

definition NewEscrowKeyID :: "string option \<Rightarrow> crypto_error + string" where
  "NewEscrowKeyID rnd = and_then (drawn rnd) (\<lambda>b. Inr (hexEncode b))"

definition sealTo :: "Suite \<Rightarrow> string option \<Rightarrow> string \<Rightarrow> string \<Rightarrow> string \<Rightarrow> crypto_error + string" where
  "sealTo S rnd publicKey info plaintext =
     (if \<not> kemValid S publicKey then Inl BadPublicKey
      else and_then (drawn rnd) (\<lambda>r. Inr (hpkeSeal S r publicKey info plaintext)))"

definition openWith :: "Suite \<Rightarrow> string \<Rightarrow> string \<Rightarrow> string \<Rightarrow> crypto_error + string" where
  "openWith S privateKey info sealed =
     (if kemPublic S privateKey = None then Inl BadPrivateKey
      else case hpkeOpen S privateKey info sealed of None \<Rightarrow> Inl ErrEscrowOpen | Some pt \<Rightarrow> Inr pt)"

definition SealDEK :: "Suite \<Rightarrow> string option \<Rightarrow> string \<Rightarrow> string \<Rightarrow> string \<Rightarrow> string \<Rightarrow> crypto_error + string" where
  "SealDEK S rnd escrowPublicKey escrowKeyID username dek =
     (if length dek \<noteq> DEKSize then Inl ErrBadDEK
      else sealTo S rnd escrowPublicKey (bindFields escrowDEKLabel [escrowKeyID, username]) dek)"

definition OpenDEK :: "Suite \<Rightarrow> string \<Rightarrow> string \<Rightarrow> string \<Rightarrow> string \<Rightarrow> crypto_error + string" where
  "OpenDEK S escrowPrivateKey escrowKeyID username sealed =
     and_then (openWith S escrowPrivateKey (bindFields escrowDEKLabel [escrowKeyID, username]) sealed) (\<lambda>dek.
       if length dek \<noteq> DEKSize then Inl ErrBadDEK else Inr dek)"

definition SealGrant :: "Suite \<Rightarrow> string option \<Rightarrow> string \<Rightarrow> string \<Rightarrow> string \<Rightarrow> string \<Rightarrow> crypto_error + string" where
  "SealGrant S rnd adminPublicKey escrowKeyID admin escrowPrivateKey =
     sealTo S rnd adminPublicKey (bindFields escrowGrantLabel [escrowKeyID, admin]) escrowPrivateKey"

definition OpenGrant :: "Suite \<Rightarrow> string \<Rightarrow> string \<Rightarrow> string \<Rightarrow> string \<Rightarrow> crypto_error + string" where
  "OpenGrant S adminPrivateKey escrowKeyID admin sealed =
     openWith S adminPrivateKey (bindFields escrowGrantLabel [escrowKeyID, admin]) sealed"

definition WrapPersonalKey :: "Suite \<Rightarrow> string option \<Rightarrow> string \<Rightarrow> string \<Rightarrow> string \<Rightarrow> crypto_error + string" where
  "WrapPersonalKey S nonceDraw dek username privateKey =
     and_then (DeriveSubkey S dek escrowPersonalKeyLabel) (\<lambda>key. and_then (drawn nonceDraw) (\<lambda>nonce.
       Inr (nonce @ gcmSeal S key nonce privateKey (bindFields escrowPersonalKeyLabel [username]))))"

definition gcmUnwrap :: "Suite \<Rightarrow> string \<Rightarrow> string \<Rightarrow> string \<Rightarrow> crypto_error + string" where
  "gcmUnwrap S key ad wrapped =
     (if length wrapped < nonceSize then Inl ErrEscrowOpen
      else case gcmOpen S key (take nonceSize wrapped) (drop nonceSize wrapped) ad of
             None \<Rightarrow> Inl ErrEscrowOpen | Some pt \<Rightarrow> Inr pt)"

definition UnwrapPersonalKey :: "Suite \<Rightarrow> string \<Rightarrow> string \<Rightarrow> string \<Rightarrow> crypto_error + string" where
  "UnwrapPersonalKey S dek username wrapped =
     and_then (DeriveSubkey S dek escrowPersonalKeyLabel) (\<lambda>key.
       gcmUnwrap S key (bindFields escrowPersonalKeyLabel [username]) wrapped)"

definition EscrowRecoveryCodeSize :: nat where "EscrowRecoveryCodeSize = 20"

definition recoveryAEAD :: "Suite \<Rightarrow> string \<Rightarrow> string \<Rightarrow> crypto_error + string" where
  "recoveryAEAD S code escrowKeyID =
     (if length code \<noteq> EscrowRecoveryCodeSize then Inl BadRecoveryCodeSize
      else Inr (hkdfKey S code (bindFields escrowRecoveryLabel [escrowKeyID])))"

definition WrapEscrowRecovery :: "Suite \<Rightarrow> string option \<Rightarrow> string \<Rightarrow> string \<Rightarrow> string \<Rightarrow> crypto_error + string" where
  "WrapEscrowRecovery S nonceDraw code escrowKeyID escrowPrivateKey =
     and_then (recoveryAEAD S code escrowKeyID) (\<lambda>key. and_then (drawn nonceDraw) (\<lambda>nonce.
       Inr (nonce @ gcmSeal S key nonce escrowPrivateKey (bindFields escrowRecoveryLabel [escrowKeyID]))))"

definition OpenEscrowRecovery :: "Suite \<Rightarrow> string \<Rightarrow> string \<Rightarrow> string \<Rightarrow> crypto_error + string" where
  "OpenEscrowRecovery S code escrowKeyID wrapped =
     and_then (recoveryAEAD S code escrowKeyID) (\<lambda>key.
       gcmUnwrap S key (bindFields escrowRecoveryLabel [escrowKeyID]) wrapped)"

definition EscrowPin :: "Suite \<Rightarrow> string \<Rightarrow> string \<Rightarrow> string \<Rightarrow> string \<Rightarrow> crypto_error + string" where
  "EscrowPin S dek username escrowKeyID escrowPublicKey =
     and_then (DeriveSubkey S dek escrowPinLabel) (\<lambda>key.
       Inr (hmacSHA256 S key (bindFields escrowPinLabel [username, escrowKeyID, escrowPublicKey])))"

definition VerifyEscrowPin :: "Suite \<Rightarrow> string \<Rightarrow> string \<Rightarrow> string \<Rightarrow> string \<Rightarrow> string \<Rightarrow> crypto_error + bool" where
  "VerifyEscrowPin S dek username escrowKeyID escrowPublicKey pin =
     and_then (EscrowPin S dek username escrowKeyID escrowPublicKey) (\<lambda>want. Inr (want = pin))"

definition Attestation :: "Suite \<Rightarrow> string \<Rightarrow> string \<Rightarrow> string \<Rightarrow> crypto_error + string" where
  "Attestation S escrowPrivateKey username personalPublicKey =
     (if escrowPrivateKey = [] then Inl EmptyPrivateKey
      else Inr (hmacSHA256 S (hmacSHA256 S escrowPrivateKey escrowAttestKeyLabel)
                  (bindFields escrowAttestLabel [username, personalPublicKey])))"

definition VerifyAttestation :: "Suite \<Rightarrow> string \<Rightarrow> string \<Rightarrow> string \<Rightarrow> string \<Rightarrow> crypto_error + bool" where
  "VerifyAttestation S escrowPrivateKey username personalPublicKey attestation =
     and_then (Attestation S escrowPrivateKey username personalPublicKey) (\<lambda>want. Inr (want = attestation))"


subsection \<open>Context binding\<close>

lemma of_char_of_nat: "(of_char (char_of n :: char) :: nat) = n mod 256"
  by (simp add: of_char_of take_bit_eq_mod)

lemma uint32Bytes_inj:
  assumes "uint32Bytes m = uint32Bytes n" and "m < 2 ^ 32" and "n < 2 ^ 32"
  shows "m = n"
proof -
  have e: "m div 2 ^ 24 mod 256 = n div 2 ^ 24 mod 256" "m div 2 ^ 16 mod 256 = n div 2 ^ 16 mod 256"
    "m div 2 ^ 8 mod 256 = n div 2 ^ 8 mod 256" "m mod 256 = n mod 256"
    using assms(1) unfolding uint32Bytes_def by (metis list.inject of_char_of_nat)+
  have "k = 256 * (256 * (256 * (k div 2 ^ 24 mod 256) + k div 2 ^ 16 mod 256) + k div 2 ^ 8 mod 256) + k mod 256"
    if "k < 2 ^ 32" for k :: nat
  proof -
    have "k div 2 ^ 24 < 256" using that by (simp add: less_mult_imp_div_less)
    then have "256 * (k div 2 ^ 24 mod 256) + k div 2 ^ 16 mod 256 = k div 2 ^ 16"
      using mult_div_mod_eq [of 256 "k div 2 ^ 16"] by (simp flip: div_mult2_eq)
    moreover have "256 * (k div 2 ^ 16) + k div 2 ^ 8 mod 256 = k div 2 ^ 8"
      using mult_div_mod_eq [of 256 "k div 2 ^ 8"] by (simp flip: div_mult2_eq)
    moreover have "256 * (k div 2 ^ 8) + k mod 256 = k"
      using mult_div_mod_eq [of 256 k] by simp
    ultimately show ?thesis by simp
  qed
  from this [OF assms(2)] this [OF assms(3)] e show ?thesis by metis
qed

definition fieldBytes :: "string \<Rightarrow> string" where "fieldBytes f = uint32Bytes (length f) @ f"

lemma bindFields_concat: "bindFields label fs = concat (map fieldBytes (label # fs))"
proof -
  have "foldl appendField acc fs = acc @ concat (map fieldBytes fs)" for acc
    by (induction fs arbitrary: acc) (simp_all add: appendField_def fieldBytes_def)
  then show ?thesis by (simp add: bindFields_def appendField_def fieldBytes_def)
qed

lemma length_uint32Bytes [simp]: "length (uint32Bytes n) = 4"
  by (simp add: uint32Bytes_def)

lemma fieldBytes_prefix:
  assumes "fieldBytes f @ r = fieldBytes g @ q" and "length f < 2 ^ 32" and "length g < 2 ^ 32"
  shows "f = g \<and> r = q"
proof -
  have "uint32Bytes (length f) = uint32Bytes (length g)" and fg: "f @ r = g @ q"
    using assms(1) by (simp_all add: fieldBytes_def)
  then have "length f = length g" using assms(2,3) uint32Bytes_inj by blast
  with fg show ?thesis by simp
qed

lemma concat_fields_inj:
  assumes "concat (map fieldBytes fs) = concat (map fieldBytes gs)"
    and "\<forall>f \<in> set fs \<union> set gs. length f < 2 ^ 32"
  shows "fs = gs"
  using assms
proof (induction fs arbitrary: gs)
  case Nil
  then show ?case by (cases gs) (auto simp: fieldBytes_def uint32Bytes_def)
next
  case (Cons f fs)
  then obtain g gs' where gs: "gs = g # gs'" by (cases gs) (auto simp: fieldBytes_def uint32Bytes_def)
  with Cons.prems have "f = g \<and> concat (map fieldBytes fs) = concat (map fieldBytes gs')"
    by (intro fieldBytes_prefix) auto
  with Cons gs show ?case by auto
qed

text \<open>The lengths in front of the parts make the encoding injective.\<close>

lemma bindFields_inj:
  assumes "bindFields label fs = bindFields label' fs'"
    and "\<forall>f \<in> set (label # fs) \<union> set (label' # fs'). length f < 2 ^ 32"
  shows "label = label' \<and> fs = fs'"
proof -
  have "label # fs = label' # fs'"
    using assms unfolding bindFields_concat by (intro concat_fields_inj)
  then show ?thesis by simp
qed

subsection \<open>Round trips of wrapped and sealed values\<close>

named_theorems crypto_simps \<open>what opens, opens to what was sealed\<close>

lemma SuiteLaws_hpke:
  assumes "SuiteLaws S" and "kemPublic S sk = Some pk"
  shows "kemValid S pk" and "hpkeOpen S sk info (hpkeSeal S rnd pk info pt) = Some pt"
  using assms unfolding SuiteLaws_def by blast+

lemma SuiteLaws_gcm:
  assumes "SuiteLaws S"
  shows "gcmOpen S key nonce (gcmSeal S key nonce pt ad) ad = Some pt"
    and "length (gcmSeal S key nonce pt ad) = length pt + 16"
  using assms unfolding SuiteLaws_def by blast+

lemma OpenDEK_SealDEK [crypto_simps]:
  assumes "SuiteLaws S" and "kemPublic S sk = Some pk" and "SealDEK S rnd pk i u dek = Inr sealed"
  shows "OpenDEK S sk i u sealed = Inr dek"
  using assms(3) SuiteLaws_hpke [OF assms(1,2)] assms(2)
  by (auto simp: SealDEK_def OpenDEK_def sealTo_def openWith_def and_then_Inr_iff split: if_splits)

lemma SealDEK_succeeds:
  assumes "SuiteLaws S" and "kemPublic S sk = Some pk" and "rnd = Some r" and "length dek = DEKSize"
  obtains sealed where "SealDEK S rnd pk i u dek = Inr sealed"
  using SuiteLaws_hpke(1) [OF assms(1,2)] assms(3,4) by (auto simp: SealDEK_def sealTo_def drawn_def)

lemma OpenGrant_SealGrant [crypto_simps]:
  assumes "SuiteLaws S" and "kemPublic S sk = Some pk" and "SealGrant S rnd pk i u priv = Inr sealed"
  shows "OpenGrant S sk i u sealed = Inr priv"
  using assms(3) SuiteLaws_hpke [OF assms(1,2)] assms(2)
  by (auto simp: SealGrant_def OpenGrant_def sealTo_def openWith_def and_then_Inr_iff split: if_splits)

lemma gcmUnwrap_wrapped:
  assumes "SuiteLaws S" and "length nonce = nonceSize"
  shows "gcmUnwrap S key ad (nonce @ gcmSeal S key nonce pt ad) = Inr pt"
  using assms SuiteLaws_gcm [OF assms(1)] by (simp add: gcmUnwrap_def)

lemma UnwrapPersonalKey_Wrap [crypto_simps]:
  assumes "SuiteLaws S" and "\<And>b. rnd = Some b \<Longrightarrow> length b = nonceSize" and "WrapPersonalKey S rnd dek u priv = Inr w"
  shows "UnwrapPersonalKey S dek u w = Inr priv"
  using assms(2,3) gcmUnwrap_wrapped [OF assms(1)]
  by (auto simp: WrapPersonalKey_def UnwrapPersonalKey_def and_then_Inr_iff drawn_def split: option.splits)

lemma OpenEscrowRecovery_Wrap [crypto_simps]:
  assumes "SuiteLaws S" and "\<And>b. rnd = Some b \<Longrightarrow> length b = nonceSize" and "WrapEscrowRecovery S rnd code i priv = Inr w"
  shows "OpenEscrowRecovery S code i w = Inr priv"
  using assms(2,3) gcmUnwrap_wrapped [OF assms(1)]
  by (auto simp: WrapEscrowRecovery_def OpenEscrowRecovery_def and_then_Inr_iff drawn_def split: option.splits)

lemma VerifyEscrowPin_iff [simp]:
  "VerifyEscrowPin S dek u i pub pin = Inr True \<longleftrightarrow> EscrowPin S dek u i pub = Inr pin"
  by (auto simp: VerifyEscrowPin_def and_then_Inr_iff)

lemma UnwrapKey_WrapKey [crypto_simps]:
  assumes laws: "SuiteLaws S" and "\<And>b. salt = Some b \<Longrightarrow> length b = saltLen"
    and "\<And>b. nonce = Some b \<Longrightarrow> length b = nonceSize" and w: "WrapKey S salt nonce dek secret = Inr w"
  shows "UnwrapKey S w secret = Inr dek"
proof -
  from w obtain b c where d: "length dek = DEKSize" "secret \<noteq> []" "salt = Some b" "nonce = Some c"
    and w': "w = stdBase64 (b @ c @ gcmSeal S (passwordKey S secret b) c dek [])"
    by (auto simp: WrapKey_def EncryptBuffer_def and_then_Inr_iff drawn_def split: if_splits option.splits)
  have l: "length b = saltLen" "length c = nonceSize" using assms(2,3) d by simp_all
  have "length (b @ c @ gcmSeal S (passwordKey S secret b) c dek []) \<ge> saltLen + 12 + 16"
    using l SuiteLaws_gcm(2) [OF laws] by (simp add: nonceSize_def)
  then show ?thesis using d l SuiteLaws_gcm(1) [OF laws]
    by (simp add: UnwrapKey_def DecryptBuffer_def w' Let_def del: length_append) (simp add: nonceSize_def)
qed

end
