(* ===== verification/PasswordHash.thy ===== *)
theory PasswordHash
  imports EscrowCrypto
begin

text \<open>
  The password hashes of \<^verbatim>\<open>internal/auth/password.go\<close>: a PHC string with the
  Argon2id parameters, the salt and the key. \<^verbatim>\<open>fmt.Sscanf\<close> is modelled for the two
  formats the code scans: a literal, then a decimal number after optional blanks, with the
  rest of the text ignored.
\<close>

datatype auth_error = ErrInvalidHash | ErrMismatch | EmptyHashPassword | NoHashSalt

subsection \<open>Model: scanning\<close>

function splitOn :: "char \<Rightarrow> string \<Rightarrow> string list" where
  "splitOn c s = (if c \<in> set s then takeWhile (\<lambda>x. x \<noteq> c) s # splitOn c (tl (dropWhile (\<lambda>x. x \<noteq> c) s)) else [s])"
  by pat_completeness auto
termination
proof (relation "measure (\<lambda>(c, s). length s)")
  fix c :: char and s :: string
  assume "c \<in> set s"
  then have "dropWhile (\<lambda>x. x \<noteq> c) s \<noteq> []" by auto
  then show "((c, tl (dropWhile (\<lambda>x. x \<noteq> c) s)), (c, s)) \<in> measure (\<lambda>(c, s). length s)"
    using length_dropWhile_le [of "\<lambda>x. x \<noteq> c" s] \<open>c \<in> set s\<close> by (cases "dropWhile (\<lambda>x. x \<noteq> c) s") auto
qed simp

declare splitOn.simps [simp del]

definition skipBlanks :: "string \<Rightarrow> string" where
  "skipBlanks s = drop_spaces (length s) (filter (\<lambda>e. e \<noteq> [CHR 0x0A]) space_encodings) s"

definition scanLiteral :: "string \<Rightarrow> string \<Rightarrow> string option" where
  "scanLiteral lit s = (if has_prefix s lit then Some (drop (length lit) s) else None)"

definition scanDigits :: "nat \<Rightarrow> string \<Rightarrow> (nat \<times> string) option" where
  "scanDigits limit s =
     (let ds = takeWhile is_digit s in
      if ds = [] \<or> parse_nat ds \<ge> limit then None else Some (parse_nat ds, dropWhile is_digit s))"

definition scanUint32 :: "string \<Rightarrow> (nat \<times> string) option" where
  "scanUint32 s = scanDigits (2 ^ 32) (skipBlanks s)"

definition scanInt :: "string \<Rightarrow> (int \<times> string) option" where
  "scanInt s0 =
     (case skipBlanks s0 of
        [] \<Rightarrow> None
      | c # s \<Rightarrow> if c = CHR ''-'' then map_option (\<lambda>(n, r). (- int n, r)) (scanDigits (2 ^ 63 + 1) s)
                else map_option (\<lambda>(n, r). (int n, r)) (scanDigits (2 ^ 63) (if c = CHR ''+'' then s else c # s)))"

definition scanVersion :: "string \<Rightarrow> int option" where
  "scanVersion s = Option.bind (scanLiteral ''v='' s) (\<lambda>r. map_option fst (scanInt r))"

definition scanParams :: "string \<Rightarrow> (nat \<times> nat \<times> nat) option" where
  "scanParams s =
     Option.bind (scanLiteral ''m='' s) (\<lambda>s1. Option.bind (scanUint32 s1) (\<lambda>(m, s2).
     Option.bind (scanLiteral '',t='' s2) (\<lambda>s3. Option.bind (scanUint32 s3) (\<lambda>(t, s4).
     Option.bind (scanLiteral '',p='' s4) (\<lambda>s5. Option.bind (scanUint32 s5) (\<lambda>(p, s6). Some (m, t, p)))))))"

subsection \<open>Model: hashes\<close>

definition pwTime :: nat where "pwTime = 3"
definition pwMemory :: nat where "pwMemory = 64 * 1024"
definition pwThreads :: nat where "pwThreads = 4"
definition pwKeyLen :: nat where "pwKeyLen = 32"
definition maxArgon2Threads :: nat where "maxArgon2Threads = 2 ^ 8 - 1"
definition maxArgon2KeyLen :: nat where "maxArgon2KeyLen = 2 ^ 32 - 1"
definition argonVersion :: int where "argonVersion = 19"

definition HashPassword :: "Suite \<Rightarrow> string option \<Rightarrow> string \<Rightarrow> auth_error + string" where
  "HashPassword S saltDraw password =
     (if password = [] then Inl EmptyHashPassword
      else case saltDraw of
        None \<Rightarrow> Inl NoHashSalt
      | Some salt \<Rightarrow>
          (let key = argonIDKey S password salt pwTime pwMemory pwThreads pwKeyLen in
           Inr (''$argon2id$v='' @ FormatInt argonVersion @ ''$m='' @ format_nat pwMemory
                @ '',t='' @ format_nat pwTime @ '',p='' @ format_nat pwThreads
                @ ''$'' @ rawBase64 salt @ ''$'' @ rawBase64 key)))"

definition VerifyPassword :: "Suite \<Rightarrow> string \<Rightarrow> string \<Rightarrow> auth_error + unit" where
  "VerifyPassword S password encoded =
     (let parts = splitOn (CHR ''$'') encoded in
      if length parts \<noteq> 6 \<or> parts ! 1 \<noteq> ''argon2id'' then Inl ErrInvalidHash
      else if scanVersion (parts ! 2) \<noteq> Some argonVersion then Inl ErrInvalidHash
      else case scanParams (parts ! 3) of
        None \<Rightarrow> Inl ErrInvalidHash
      | Some (memory, time, threads) \<Rightarrow>
         (case (fromRawBase64 (parts ! 4), fromRawBase64 (parts ! 5)) of
            (Some salt, Some want) \<Rightarrow>
              if memory = 0 \<or> time = 0 \<or> threads = 0 \<or> threads > maxArgon2Threads then Inl ErrInvalidHash
              else if salt = [] \<or> want = [] \<or> length want > maxArgon2KeyLen then Inl ErrInvalidHash
              else if argonIDKey S password salt time memory threads (length want) = want then Inr ()
              else Inl ErrMismatch
          | _ \<Rightarrow> Inl ErrInvalidHash))"

definition NeedsRehash :: "string \<Rightarrow> bool" where
  "NeedsRehash encoded =
     (let parts = splitOn (CHR ''$'') encoded in
      if length parts \<noteq> 6 \<or> parts ! 1 \<noteq> ''argon2id'' then True
      else case scanParams (parts ! 3) of
             None \<Rightarrow> True
           | Some (memory, time, threads) \<Rightarrow> memory < pwMemory \<or> time < pwTime \<or> threads < pwThreads)"

subsection \<open>A fresh hash\<close>

lemma splitOn_append: "c \<notin> set s \<Longrightarrow> splitOn c (s @ c # t) = s # splitOn c t"
  by (subst splitOn.simps) (auto simp: takeWhile_append2 dropWhile_append)

lemma splitOn_last: "c \<notin> set s \<Longrightarrow> splitOn c s = [s]"
  by (subst splitOn.simps) simp

definition phcParams :: string where
  "phcParams = ''m='' @ format_nat pwMemory @ '',t='' @ format_nat pwTime @ '',p='' @ format_nat pwThreads"

lemma phcParams_text: "phcParams = ''m=65536,t=3,p=4''"
  by (simp add: phcParams_def pwMemory_def pwTime_def pwThreads_def format_nat.simps digit_char_def char_of_def bit_simps)

lemma version_text: "FormatInt argonVersion = ''19''"
  by (simp add: FormatInt_def argonVersion_def format_nat.simps digit_char_def char_of_def bit_simps)

lemma skipBlanks_digit: "is_digit c \<Longrightarrow> skipBlanks (c # s) = c # s"
proof -
  assume "is_digit c"
  then have "leading_space (filter (\<lambda>e. e \<noteq> [CHR 0x0A]) space_encodings) (c # s) = None"
    using space_encodings_ends digit_is_token by (intro leading_space_None) auto
  then show ?thesis by (simp add: skipBlanks_def drop_spaces_id)
qed

lemma digit_constants: "is_digit (CHR ''6'')" "is_digit (CHR ''5'')" "is_digit (CHR ''3'')" "is_digit (CHR ''4'')"
  "is_digit (CHR ''1'')" "is_digit (CHR ''9'')" "\<not> is_digit (CHR '','')"
  by (simp_all add: is_digit_iff)

lemma scan_fresh: "scanParams phcParams = Some (pwMemory, pwTime, pwThreads)"
  "scanVersion (''v='' @ FormatInt argonVersion) = Some argonVersion"
  unfolding phcParams_text version_text
  by (simp_all add: scanParams_def scanVersion_def scanUint32_def scanInt_def scanLiteral_def scanDigits_def
      has_prefix_def skipBlanks_digit digit_constants parse_nat_def digit_val_def pwMemory_def pwTime_def
      pwThreads_def argonVersion_def)

lemma HashPassword_parts:
  assumes "HashPassword S draw password = Inr h"
  obtains salt where "draw = Some salt" "password \<noteq> []"
    "splitOn (CHR ''$'') h = [[], ''argon2id'', ''v='' @ FormatInt argonVersion, phcParams, rawBase64 salt,
       rawBase64 (argonIDKey S password salt pwTime pwMemory pwThreads pwKeyLen)]"
proof -
  from assms obtain salt where s: "draw = Some salt" "password \<noteq> []"
    and h: "h = ''$argon2id$v='' @ FormatInt argonVersion @ ''$'' @ phcParams
                @ ''$'' @ rawBase64 salt @ ''$'' @ rawBase64 (argonIDKey S password salt pwTime pwMemory pwThreads pwKeyLen)"
    by (auto simp: HashPassword_def phcParams_def Let_def split: if_splits option.splits)
  have d: "CHR ''$'' \<notin> set (rawBase64 x)" for x using set_rawBase64 [of x] base64Alphabet_facts(6) by auto
  have "splitOn (CHR ''$'') h = [[], ''argon2id'', ''v='' @ FormatInt argonVersion, phcParams, rawBase64 salt,
       rawBase64 (argonIDKey S password salt pwTime pwMemory pwThreads pwKeyLen)]"
    using splitOn_append [of "CHR ''$''" "[]"] splitOn_append [of "CHR ''$''" "''argon2id''"]
      splitOn_append [of "CHR ''$''" "''v='' @ FormatInt argonVersion"] splitOn_append [of "CHR ''$''" phcParams]
      splitOn_append [of "CHR ''$''" "rawBase64 salt"] splitOn_last [of "CHR ''$''"] d
    by (simp add: h phcParams_text version_text)
  with s show ?thesis by (rule that)
qed

text \<open>
  A fresh hash verifies exactly the passwords whose Argon2id key under its salt is the same,
  and needs no strengthening.
\<close>

lemma hash_verifies:
  assumes laws: "SuiteLaws S" and h: "HashPassword S (Some salt) password = Inr h" and "salt \<noteq> []"
  shows "VerifyPassword S other h =
     (if argonIDKey S other salt pwTime pwMemory pwThreads pwKeyLen
         = argonIDKey S password salt pwTime pwMemory pwThreads pwKeyLen then Inr () else Inl ErrMismatch)"
    and "\<not> NeedsRehash h"
proof -
  obtain "splitOn (CHR ''$'') h = [[], ''argon2id'', ''v='' @ FormatInt argonVersion, phcParams, rawBase64 salt,
       rawBase64 (argonIDKey S password salt pwTime pwMemory pwThreads pwKeyLen)]"
    using HashPassword_parts [OF h] by blast
  note parts = this
  have len: "length (argonIDKey S password salt pwTime pwMemory pwThreads pwKeyLen) = pwKeyLen"
    using laws unfolding SuiteLaws_def by blast
  then have ne: "argonIDKey S password salt pwTime pwMemory pwThreads pwKeyLen \<noteq> []" by (auto simp: pwKeyLen_def)
  show "\<not> NeedsRehash h" by (simp add: NeedsRehash_def parts Let_def scan_fresh)
  show "VerifyPassword S other h =
     (if argonIDKey S other salt pwTime pwMemory pwThreads pwKeyLen
         = argonIDKey S password salt pwTime pwMemory pwThreads pwKeyLen then Inr () else Inl ErrMismatch)"
    using assms(3) ne len
    by (simp add: VerifyPassword_def parts Let_def scan_fresh [simplified])
       (simp add: pwMemory_def pwTime_def pwThreads_def pwKeyLen_def maxArgon2Threads_def maxArgon2KeyLen_def)
qed

end
