(* ===== verification/AccountStore.thy ===== *)
theory AccountStore
  imports PasswordHash
begin

text \<open>
  The machine's account database, \<^verbatim>\<open>system.db\<close>, and the transactions on it:
  \<^verbatim>\<open>internal/users/store.go\<close>, \<^verbatim>\<open>account_status.go\<close>,
  \<^verbatim>\<open>account_identity.go\<close> and the tables of \<^verbatim>\<open>escrow.go\<close>,
  \<^verbatim>\<open>super_admin.go\<close>, \<^verbatim>\<open>succession.go\<close> and
  \<^verbatim>\<open>recovery.go\<close>. A table is the list of its rows; the foreign keys, unique
  indexes and triggers of the schema are part of the writes below. A step of a transaction is
  a function of the state that returns a result or an error together with the state it leaves,
  so that a caller can handle an error and keep what was written before it, as Go code does;
  \<open>inWriteTx\<close> undoes everything but the folders on an error.

  Times are nanoseconds since the zero \<^verbatim>\<open>time.Time\<close>. A text column that holds a
  time is \<open>None\<close> where the text is empty or does not parse. One call reads its clock,
  its random bytes, the outcome of opening and committing its transaction and the error of a
  folder operation, if any, from an \<open>AcctEnv\<close>; any other statement is refused only by
  the schema.
\<close>

type_synonym Time = int
type_synonym Stamp = "Time option"

subsection \<open>Model: tables\<close>

record UserRow =
  ur_Username :: string
  ur_DisplayName :: string
  ur_PasswordHash :: string
  ur_WrappedDEK :: string
  ur_DataDir :: string
  ur_CreatedAt :: Stamp
  ur_LastLogin :: Stamp
  ur_IsAdmin :: bool
  ur_Disabled :: bool
  ur_LastExportDirectory :: string

record AccountEvent =
  av_ID :: int
  av_OccurredAt :: Stamp
  av_Actor :: string
  av_Username :: string
  av_Action :: string
  av_Detail :: string

record IdentityRow =
  ai_ID :: string
  ai_Username :: "string option"
  ai_Generation :: "int option"

record SuccessionRow =
  sr_Standby :: "string option"
  sr_Days :: int
  sr_ChangedAt :: Stamp
  sr_NamedAt :: Stamp

record ProtectionRow =
  pr_Username :: string
  pr_Reason :: string
  pr_Note :: string
  pr_Until :: Stamp
  pr_TakenOverBy :: string
  pr_CreatedAt :: Stamp

record EscrowKey =
  ek_ID :: string
  ek_Public :: string
  ek_CreatedAt :: Stamp
  ek_RetiredAt :: Stamp

record PersonalKey =
  pk_Username :: string
  pk_Public :: string
  pk_Wrapped :: string
  pk_Attestation :: string
  pk_AttestedKeyID :: string
  pk_CreatedAt :: Stamp

record SealedDEK =
  sd_Username :: string
  sd_KeyID :: string
  sd_Sealed :: string
  sd_SealedAt :: Stamp

record EscrowPinRow =
  ep_Username :: string
  ep_KeyID :: string
  ep_Pin :: string

record EscrowGrant =
  eg_Admin :: string
  eg_KeyID :: string
  eg_Sealed :: string
  eg_GrantedAt :: Stamp

record EscrowRecoveryRow =
  er_KeyID :: string
  er_Wrapped :: string
  er_Confirmed :: bool
  er_CreatedAt :: Stamp
  er_CreatedBy :: string

record RecoveryCodeRow =
  rc_ID :: int
  rc_Username :: string
  rc_Hash :: string
  rc_Used :: bool
  rc_UsedAt :: Stamp
  rc_CreatedAt :: Stamp
  rc_WrappedDEK :: string

text \<open>
  \<open>sy_super\<close> is the one row of \<^verbatim>\<open>super_admin\<close>, \<open>sy_pending\<close> the
  one row of \<^verbatim>\<open>escrow_rotation_pending\<close>; \<open>sy_nextEvent\<close> and
  \<open>sy_nextCode\<close> are the \<^verbatim>\<open>AUTOINCREMENT\<close> counters; \<open>sy_folders\<close> are
  the account folders in the data root, which are not part of the database.
\<close>

record Sys =
  sy_users :: "UserRow list"
  sy_events :: "AccountEvent list"
  sy_nextEvent :: int
  sy_identity :: "IdentityRow list"
  sy_super :: "(string \<times> Stamp) option"
  sy_succession :: "SuccessionRow option"
  sy_protection :: "ProtectionRow list"
  sy_keys :: "EscrowKey list"
  sy_personal :: "PersonalKey list"
  sy_sealed :: "SealedDEK list"
  sy_pins :: "EscrowPinRow list"
  sy_grants :: "EscrowGrant list"
  sy_notices :: "(string \<times> int) list"
  sy_pending :: "(string \<times> Stamp) option"
  sy_recovery :: "EscrowRecoveryRow list"
  sy_codes :: "RecoveryCodeRow list"
  sy_nextCode :: int
  sy_folders :: "string list"

definition emptySys :: Sys where
  "emptySys = \<lparr>sy_users = [], sy_events = [], sy_nextEvent = 1, sy_identity = [], sy_super = None,
     sy_succession = None, sy_protection = [], sy_keys = [], sy_personal = [], sy_sealed = [], sy_pins = [],
     sy_grants = [], sy_notices = [], sy_pending = None, sy_recovery = [], sy_codes = [], sy_nextCode = 1,
     sy_folders = []\<rparr>"

datatype users_error =
    ErrNoSuchUser | ErrInvalidUsername | ErrUserExists | ErrUserFolderExists | ErrReservedUsername
  | ErrWindowsDeviceName | ErrNotAdmin | ErrLastAdmin | ErrAdminExists | ErrAccountDisabled
  | ErrFolderShared | ErrPurgeIncomplete | ErrPasswordTooShort | ErrPasswordChangedElsewhere
  | ErrPasswordWrapCorrupt | ErrInvalidRecoveryCode | ErrLegacyRecoveryCode | ErrRecoveryWrapCorrupt
  | ErrRecoveryCodesChanged | ErrSignInContended | ErrStaleCredentials | ErrAccountIdentity
  | ErrNotSuper | ErrTargetIsSuper | ErrTargetNotAdmin | ErrNoPersonalKey | ErrNoEscrowGrant
  | ErrEscrowMismatch | ErrPersonalKeyNotAttested | ErrStandbyChanged | ErrTakeoverPeriod
  | ErrTakeoverNotDue | ErrNotStandby | ErrTakeoverReason | ErrTakeoverNoteRequired | ErrTakeoverNoteTooLong
  | ErrProtected string string Time
  | ErrAccessReasonRequired | ErrAccessReasonTooLong | ErrSelfAccess | ErrNotEnrolled
  | ErrAcknowledgeUnknownAccess | ErrNewKeyReasonRequired | ErrNewKeyReasonTooLong | ErrHoldsEscrowKey
  | ErrKeyStillHeld string bool | ErrNoRecoveryCode | ErrInvalidEscrowRecoveryCode
  | UnknownAction string | FolderFailed | BeginFailed | CommitFailed | SchemaRefused
  | CryptoError crypto_error | AuthError auth_error

subsection \<open>Model: transactions\<close>

type_synonym 'a tx = "Sys \<Rightarrow> (users_error + 'a) \<times> Sys"

definition succeed :: "'a \<Rightarrow> 'a tx" where "succeed x s = (Inr x, s)"
definition fail :: "users_error \<Rightarrow> 'a tx" where "fail e s = (Inl e, s)"
definition query :: "(Sys \<Rightarrow> 'a) \<Rightarrow> 'a tx" where "query f s = (Inr (f s), s)"
definition exec :: "(Sys \<Rightarrow> Sys) \<Rightarrow> unit tx" where "exec f s = (Inr (), f s)"

text \<open>\<^verbatim>\<open>if err != nil { return err }\<close>: what was written so far stays written.\<close>

definition andThen :: "'a tx \<Rightarrow> ('a \<Rightarrow> 'b tx) \<Rightarrow> 'b tx" where
  "andThen m f s = (case m s of (Inl e, s') \<Rightarrow> (Inl e, s') | (Inr x, s') \<Rightarrow> f x s')"

text \<open>The result or the error of a step, as a value to look at.\<close>

definition attempt :: "'a tx \<Rightarrow> (users_error + 'a) tx" where
  "attempt m s = (case m s of (r, s') \<Rightarrow> (Inr r, s'))"

definition check :: "users_error + 'a \<Rightarrow> 'a tx" where
  "check r = (case r of Inl e \<Rightarrow> fail e | Inr x \<Rightarrow> succeed x)"

definition crypto :: "crypto_error + 'a \<Rightarrow> 'a tx" where
  "crypto r = (case r of Inl e \<Rightarrow> fail (CryptoError e) | Inr x \<Rightarrow> succeed x)"

fun forEach :: "('a \<Rightarrow> unit tx) \<Rightarrow> 'a list \<Rightarrow> unit tx" where
  "forEach f [] = succeed ()"
| "forEach f (x # xs) = andThen (f x) (\<lambda>_. forEach f xs)"

record AcctEnv =
  en_Suite :: Suite
  en_Now :: Time
  en_Rand :: "nat \<Rightarrow> string option"
  en_Begin :: bool
  en_Commit :: bool
  en_Root :: string
  en_FolderError :: "string option"

text \<open>The folders are outside the database: a rollback does not restore them.\<close>

definition inWriteTx :: "AcctEnv \<Rightarrow> 'a tx \<Rightarrow> 'a tx" where
  "inWriteTx env m s =
     (if \<not> en_Begin env then (Inl BeginFailed, s)
      else case m s of
        (Inl e, s') \<Rightarrow> (Inl e, s\<lparr>sy_folders := sy_folders s'\<rparr>)
      | (Inr x, s') \<Rightarrow> if en_Commit env then (Inr x, s') else (Inl CommitFailed, s\<lparr>sy_folders := sy_folders s'\<rparr>))"

text \<open>A savepoint: an error inside undoes what was written inside, and is returned as a value.\<close>

definition savepoint :: "'a tx \<Rightarrow> (users_error + 'a) tx" where
  "savepoint m s = (case m s of (Inl e, s') \<Rightarrow> (Inr (Inl e), s) | (Inr x, s') \<Rightarrow> (Inr (Inr x), s'))"

text \<open>A statement that a trigger aborts changes nothing; the transaction goes on with the error.\<close>

definition statement :: "'a tx \<Rightarrow> 'a tx" where
  "statement m s = (case m s of (Inl e, s') \<Rightarrow> (Inl e, s) | (Inr x, s') \<Rightarrow> (Inr x, s'))"

subsection \<open>Model: rows\<close>

definition rowBy :: "('r \<Rightarrow> 'k) \<Rightarrow> 'k \<Rightarrow> 'r list \<Rightarrow> 'r option" where
  "rowBy key k rows = List.find (\<lambda>r. key r = k) rows"

definition upsertBy :: "('r \<Rightarrow> 'k) \<Rightarrow> 'r \<Rightarrow> 'r list \<Rightarrow> 'r list" where
  "upsertBy key r rows =
     (if rowBy key (key r) rows = None then rows @ [r] else map (\<lambda>x. if key x = key r then r else x) rows)"

definition deleteBy :: "('r \<Rightarrow> 'k) \<Rightarrow> 'k \<Rightarrow> 'r list \<Rightarrow> 'r list" where
  "deleteBy key k rows = filter (\<lambda>r. key r \<noteq> k) rows"

definition modifyBy :: "('r \<Rightarrow> 'k) \<Rightarrow> 'k \<Rightarrow> ('r \<Rightarrow> 'r) \<Rightarrow> 'r list \<Rightarrow> 'r list" where
  "modifyBy key k f rows = map (\<lambda>x. if key x = k then f x else x) rows"

abbreviation userRow :: "string \<Rightarrow> Sys \<Rightarrow> UserRow option" where
  "userRow username s \<equiv> rowBy ur_Username username (sy_users s)"

text \<open>A foreign key to \<^verbatim>\<open>users(username)\<close>.\<close>

definition references :: "string \<Rightarrow> unit tx" where
  "references username = andThen (query (userRow username)) (\<lambda>u. if u = None then fail SchemaRefused else succeed ())"

subsection \<open>Model: account events\<close>

definition AccountCreated :: string where "AccountCreated = ''created''"
definition AccountPromoted :: string where "AccountPromoted = ''promoted''"
definition AccountDemoted :: string where "AccountDemoted = ''demoted''"
definition AccountDisabled :: string where "AccountDisabled = ''disabled''"
definition AccountEnabled :: string where "AccountEnabled = ''enabled''"
definition AccountPurged :: string where "AccountPurged = ''purged''"
definition AccountFolderNotRemoved :: string where "AccountFolderNotRemoved = ''folder_not_removed''"
definition AccountAdminAccess :: string where "AccountAdminAccess = ''admin_access''"
definition AccountEscrowKeyMismatch :: string where "AccountEscrowKeyMismatch = ''escrow_key_mismatch''"
definition AccountEscrowReenrolled :: string where "AccountEscrowReenrolled = ''escrow_reenrolled''"
definition AccountPersonalKeyRepaired :: string where "AccountPersonalKeyRepaired = ''personal_key_repaired''"
definition AccountEscrowRotated :: string where "AccountEscrowRotated = ''escrow_rotated''"
definition AccountPersonalKeyTrusted :: string where "AccountPersonalKeyTrusted = ''personal_key_trusted''"
definition AccountAccessNoticeRead :: string where "AccountAccessNoticeRead = ''access_notice_read''"
definition AccountEscrowRecoveryCreated :: string where "AccountEscrowRecoveryCreated = ''escrow_recovery_code_created''"
definition AccountEscrowRecovered :: string where "AccountEscrowRecovered = ''escrow_key_recovered''"
definition AccountEscrowKeyNew :: string where "AccountEscrowKeyNew = ''escrow_key_new''"
definition AccountSuperAssigned :: string where "AccountSuperAssigned = ''super_admin_assigned''"
definition AccountSuperHandedOver :: string where "AccountSuperHandedOver = ''super_admin_handed_over''"
definition AccountStandbyNamed :: string where "AccountStandbyNamed = ''super_standby_named''"
definition AccountStandbyRemoved :: string where "AccountStandbyRemoved = ''super_standby_removed''"
definition AccountTakeoverPeriodChanged :: string where "AccountTakeoverPeriodChanged = ''super_takeover_period_changed''"
definition AccountSuperTakenOver :: string where "AccountSuperTakenOver = ''super_admin_taken_over''"

definition accountEventActions :: "string list" where
  "accountEventActions =
     [AccountCreated, AccountPromoted, AccountDemoted, AccountDisabled,
      AccountEnabled, AccountPurged, AccountFolderNotRemoved, AccountAdminAccess,
      AccountEscrowKeyMismatch, AccountEscrowReenrolled, AccountPersonalKeyRepaired, AccountEscrowRotated,
      AccountPersonalKeyTrusted, AccountAccessNoticeRead, AccountEscrowRecoveryCreated, AccountEscrowRecovered,
      AccountEscrowKeyNew, AccountSuperAssigned, AccountSuperHandedOver, AccountStandbyNamed,
      AccountStandbyRemoved, AccountTakeoverPeriodChanged, AccountSuperTakenOver]"

lemmas action_defs = AccountCreated_def AccountPromoted_def AccountDemoted_def AccountDisabled_def
  AccountEnabled_def AccountPurged_def AccountFolderNotRemoved_def AccountAdminAccess_def
  AccountEscrowKeyMismatch_def AccountEscrowReenrolled_def AccountPersonalKeyRepaired_def AccountEscrowRotated_def
  AccountPersonalKeyTrusted_def AccountAccessNoticeRead_def AccountEscrowRecoveryCreated_def AccountEscrowRecovered_def
  AccountEscrowKeyNew_def AccountSuperAssigned_def AccountSuperHandedOver_def AccountStandbyNamed_def
  AccountStandbyRemoved_def AccountTakeoverPeriodChanged_def AccountSuperTakenOver_def

definition recordAccountEvent :: "AcctEnv \<Rightarrow> string \<Rightarrow> string \<Rightarrow> string \<Rightarrow> string \<Rightarrow> unit tx" where
  "recordAccountEvent env actor username action detail =
     (if action \<notin> set accountEventActions then fail (UnknownAction action)
      else exec (\<lambda>s. s\<lparr>sy_events := sy_events s @
             [\<lparr>av_ID = sy_nextEvent s, av_OccurredAt = Some (en_Now env), av_Actor = actor, av_Username = username,
               av_Action = action, av_Detail = detail\<rparr>],
             sy_nextEvent := sy_nextEvent s + 1\<rparr>))"

subsection \<open>Model: account identities\<close>

text \<open>
  The registry and its triggers: an identity is allocated once, its generation steps by one
  whenever the role, the status, the password or the key wrap of its account changes, and it
  is retired, never reused, when the account is deleted.
\<close>

definition identityID :: "string \<Rightarrow> bool" where
  "identityID i \<longleftrightarrow> length i = 68 \<and> take 4 i = ''ac1:'' \<and> list_all (\<lambda>c. c \<in> set ''0123456789abcdef'') (drop 4 i)"

definition allocateAccountIdentity :: "AcctEnv \<Rightarrow> string \<Rightarrow> unit tx" where
  "allocateAccountIdentity env username =
     (case en_Rand env 0 of
        None \<Rightarrow> fail (CryptoError NoEntropy)
      | Some random \<Rightarrow>
         (let i = ''ac1:'' @ hexEncode random in
          andThen (query sy_identity) (\<lambda>rows.
          if \<not> identityID i \<or> list_ex (\<lambda>r. ai_ID r = i \<or> ai_Username r = Some username) rows
          then fail SchemaRefused
          else exec (\<lambda>s. s\<lparr>sy_identity := sy_identity s @
                 [\<lparr>ai_ID = i, ai_Username = Some username, ai_Generation = Some 1\<rparr>]\<rparr>))))"

definition identityOf :: "string \<Rightarrow> Sys \<Rightarrow> IdentityRow option" where
  "identityOf username s = rowBy ai_Username (Some username) (sy_identity s)"

definition bumpGeneration :: "string \<Rightarrow> unit tx" where
  "bumpGeneration username =
     andThen (query (identityOf username)) (\<lambda>row.
     case row of
       None \<Rightarrow> fail SchemaRefused
     | Some r \<Rightarrow> (case ai_Generation r of
         None \<Rightarrow> fail SchemaRefused
       | Some g \<Rightarrow> if g < 1 \<or> g \<ge> MaxInt64 then fail SchemaRefused
                  else exec (\<lambda>s. s\<lparr>sy_identity := modifyBy ai_Username (Some username)
                                (\<lambda>r. r\<lparr>ai_Generation := Some (g + 1)\<rparr>) (sy_identity s)\<rparr>)))"

subsection \<open>Model: writes to the accounts\<close>

text \<open>The columns whose change steps the generation.\<close>

definition authState :: "UserRow \<Rightarrow> bool \<times> bool \<times> string \<times> string" where
  "authState u = (ur_Disabled u, ur_IsAdmin u, ur_PasswordHash u, ur_WrappedDEK u)"

definition updateUser :: "string \<Rightarrow> (UserRow \<Rightarrow> UserRow) \<Rightarrow> unit tx" where
  "updateUser username f =
     andThen (query (userRow username)) (\<lambda>u.
     case u of
       None \<Rightarrow> succeed ()
     | Some u \<Rightarrow>
         statement (andThen (exec (\<lambda>s. s\<lparr>sy_users := modifyBy ur_Username username f (sy_users s)\<rparr>)) (\<lambda>_.
         if authState (f u) = authState u then succeed () else bumpGeneration username)))"

definition insertUser :: "UserRow \<Rightarrow> unit tx" where
  "insertUser u =
     andThen (query (\<lambda>s. (userRow (ur_Username u) s, identityOf (ur_Username u) s))) (\<lambda>(old, row).
     if old \<noteq> None \<or> Option.bind row ai_Generation \<noteq> Some 1 then fail SchemaRefused
     else exec (\<lambda>s. s\<lparr>sy_users := sy_users s @ [u]\<rparr>))"

text \<open>
  Deleting an account retires its identity and, by the foreign keys, deletes its escrow rows,
  recovery codes, notice and protection and clears it as standby. The super administrator's
  row has no such action: an account it names cannot be deleted.
\<close>

definition deleteUser :: "string \<Rightarrow> unit tx" where
  "deleteUser username =
     andThen (query (\<lambda>s. map_option fst (sy_super s))) (\<lambda>super.
     if super = Some username then fail SchemaRefused
     else exec (\<lambda>s. s\<lparr>
        sy_users := deleteBy ur_Username username (sy_users s),
        sy_identity := modifyBy ai_Username (Some username) (\<lambda>r. r\<lparr>ai_Username := None, ai_Generation := None\<rparr>) (sy_identity s),
        sy_succession := map_option (\<lambda>r. if sr_Standby r = Some username then r\<lparr>sr_Standby := None\<rparr> else r) (sy_succession s),
        sy_protection := deleteBy pr_Username username (sy_protection s),
        sy_personal := deleteBy pk_Username username (sy_personal s),
        sy_sealed := deleteBy sd_Username username (sy_sealed s),
        sy_pins := deleteBy ep_Username username (sy_pins s),
        sy_grants := deleteBy eg_Admin username (sy_grants s),
        sy_notices := deleteBy fst username (sy_notices s),
        sy_codes := deleteBy rc_Username username (sy_codes s)\<rparr>))"

subsection \<open>Model: usernames\<close>

definition usernameChar :: "char \<Rightarrow> bool" where
  "usernameChar c \<longleftrightarrow> CHR ''A'' \<le> c \<and> c \<le> CHR ''Z'' \<or> CHR ''a'' \<le> c \<and> c \<le> CHR ''z'' \<or> is_digit c
     \<or> c = CHR ''_'' \<or> c = CHR ''-''"

definition ValidateUsername :: "string \<Rightarrow> users_error + unit" where
  "ValidateUsername name =
     (if 3 \<le> length name \<and> length name \<le> 32 \<and> list_all usernameChar name then Inr () else Inl ErrInvalidUsername)"

definition reservedFolderNames :: "string list" where "reservedFolderNames = [''logs'']"

definition windowsDeviceNames :: "string list" where
  "windowsDeviceNames =
     [''con'', ''prn'', ''aux'', ''nul'',
      ''com0'', ''com1'', ''com2'', ''com3'', ''com4'', ''com5'', ''com6'', ''com7'', ''com8'', ''com9'',
      ''lpt0'', ''lpt1'', ''lpt2'', ''lpt3'', ''lpt4'', ''lpt5'', ''lpt6'', ''lpt7'', ''lpt8'', ''lpt9'']"

text \<open>
  \<^verbatim>\<open>strings.EqualFold\<close>: beside the ASCII letters, U+017F folds to s and U+212A to k. Other
  letters beyond ASCII are left as they are: they match nothing in the ASCII names compared.
\<close>

fun foldChunk :: "chunk \<Rightarrow> string" where
  "foldChunk (Ascii c) = [lower_byte c]"
| "foldChunk (Rune r) =
     (if r = [CHR 0xC5, CHR 0xBF] then ''s'' else if r = [CHR 0xE2, CHR 0x84, CHR 0xAA] then ''k'' else r)"
| "foldChunk Invalid = [CHR 0xEF, CHR 0xBF, CHR 0xBD]"

definition EqualFold :: "string \<Rightarrow> string \<Rightarrow> bool" where
  "EqualFold a b \<longleftrightarrow> concat (map foldChunk (chunks a)) = concat (map foldChunk (chunks b))"

definition MinPasswordLength :: nat where "MinPasswordLength = 8"

definition ValidatePassword :: "string \<Rightarrow> users_error + unit" where
  "ValidatePassword password = (if length password < MinPasswordLength then Inl ErrPasswordTooShort else Inr ())"

subsection \<open>Model: roles\<close>

definition enabledAdmin :: "UserRow \<Rightarrow> bool" where "enabledAdmin u \<longleftrightarrow> ur_IsAdmin u \<and> \<not> ur_Disabled u"

definition enabledAdminCount :: "nat tx" where
  "enabledAdminCount = query (\<lambda>s. length (filter enabledAdmin (sy_users s)))"

definition accountRole :: "string \<Rightarrow> (bool \<times> bool) tx" where
  "accountRole username =
     andThen (query (userRow username)) (\<lambda>u.
     case u of None \<Rightarrow> fail ErrNoSuchUser | Some u \<Rightarrow> succeed (ur_IsAdmin u, ur_Disabled u))"

definition guardLastEnabledAdmin :: "bool \<Rightarrow> bool \<Rightarrow> unit tx" where
  "guardLastEnabledAdmin isAdmin disabled =
     (if \<not> isAdmin \<or> disabled then succeed ()
      else andThen enabledAdminCount (\<lambda>n. if n \<le> 1 then fail ErrLastAdmin else succeed ()))"

definition requireEnabledAdmin :: "string \<Rightarrow> unit tx" where
  "requireEnabledAdmin actor =
     andThen (attempt (accountRole actor)) (\<lambda>r.
     case r of
       Inl e \<Rightarrow> if e = ErrNoSuchUser then fail ErrNotAdmin else fail e
     | Inr (isAdmin, disabled) \<Rightarrow> if \<not> isAdmin \<or> disabled then fail ErrNotAdmin else succeed ())"

definition HasAnyAdmin :: "Sys \<Rightarrow> bool" where "HasAnyAdmin s \<longleftrightarrow> length (filter enabledAdmin (sy_users s)) > 0"
definition HasAnyAccount :: "Sys \<Rightarrow> bool" where "HasAnyAccount s \<longleftrightarrow> sy_users s \<noteq> []"

subsection \<open>Model: the account history\<close>

definition AccountEvents :: "Sys \<Rightarrow> AccountEvent list" where "AccountEvents s = rev (sy_events s)"

end
