(* ===== verification/AccountRoles.thy ===== *)
theory AccountRoles
  imports AccountStore Float64
begin

text \<open>
  Who may do what: the super administrator of \<^verbatim>\<open>internal/users/super_admin.go\<close>,
  the standby, the takeover period and the protection after a takeover of
  \<^verbatim>\<open>succession.go\<close>, and of \<^verbatim>\<open>escrow_rotation.go\<close> the marks that a
  change of role leaves for the administrator key.
\<close>

subsection \<open>Model: the administrator key on disk\<close>

definition activeEscrowKey :: "EscrowKey option tx" where
  "activeEscrowKey = query (\<lambda>s. rowBy ek_RetiredAt None (sy_keys s))"

definition markRotationPendingTx :: "AcctEnv \<Rightarrow> string \<Rightarrow> unit tx" where
  "markRotationPendingTx env reason =
     andThen activeEscrowKey (\<lambda>k.
     if k = None then succeed ()
     else exec (\<lambda>s. s\<lparr>sy_pending := Some (reason, Some (en_Now env))\<rparr>))"

definition rotationPendingTx :: "string tx" where
  "rotationPendingTx = query (\<lambda>s. case sy_pending s of None \<Rightarrow> [] | Some (reason, _) \<Rightarrow> reason)"

definition holdsAnyGrantTx :: "string \<Rightarrow> bool tx" where
  "holdsAnyGrantTx username = query (\<lambda>s. rowBy eg_Admin username (sy_grants s) \<noteq> None)"

definition holdsActiveGrantTx :: "string \<Rightarrow> bool tx" where
  "holdsActiveGrantTx username =
     query (\<lambda>s. list_ex (\<lambda>g. eg_Admin g = username \<and>
       list_ex (\<lambda>k. ek_ID k = eg_KeyID g \<and> ek_RetiredAt k = None) (sy_keys s)) (sy_grants s))"

definition removeGrantTx :: "string \<Rightarrow> unit tx" where
  "removeGrantTx admin = exec (\<lambda>s. s\<lparr>sy_grants := deleteBy eg_Admin admin (sy_grants s)\<rparr>)"

definition revokeGrantTx :: "AcctEnv \<Rightarrow> string \<Rightarrow> string \<Rightarrow> unit tx" where
  "revokeGrantTx env username reason =
     andThen (holdsAnyGrantTx username) (\<lambda>held.
     if \<not> held then succeed ()
     else andThen (removeGrantTx username) (\<lambda>_. markRotationPendingTx env reason))"

subsection \<open>Model: the super administrator\<close>

definition earliest :: "string \<times> Time \<Rightarrow> UserRow \<Rightarrow> string \<times> Time" where
  "earliest = (\<lambda>(best, bestAt) u.
     let name = ur_Username u; created = (case ur_CreatedAt u of None \<Rightarrow> 0 | Some t \<Rightarrow> t) in
     if best = [] \<or> created < bestAt \<or> created = bestAt \<and> name < best then (name, created) else (best, bestAt))"

definition earliestEnabledAdmin :: "string tx" where
  "earliestEnabledAdmin = query (\<lambda>s. fst (foldl earliest ([], 0) (filter enabledAdmin (sy_users s))))"

definition superRow :: "Sys \<Rightarrow> string" where
  "superRow s = (case sy_super s of None \<Rightarrow> [] | Some (u, _) \<Rightarrow> u)"

definition assignSuper :: "AcctEnv \<Rightarrow> string \<Rightarrow> string tx" where
  "assignSuper env current =
     andThen earliestEnabledAdmin (\<lambda>chosen.
     if chosen = [] then succeed []
     else andThen (exec (\<lambda>s. s\<lparr>sy_super := Some (chosen, Some (en_Now env))\<rparr>)) (\<lambda>_.
          andThen (recordAccountEvent env chosen chosen AccountSuperAssigned
             (if current = [] then ''the earliest administrator''
              else ''the earliest administrator, since '' @ current @ '' is no longer an administrator who can sign in'')) (\<lambda>_.
          succeed chosen)))"

definition ensureSuperTx :: "AcctEnv \<Rightarrow> string tx" where
  "ensureSuperTx env =
     andThen (query superRow) (\<lambda>current.
     if current = [] then assignSuper env current
     else andThen (attempt (requireEnabledAdmin current)) (\<lambda>r.
          case r of
            Inr _ \<Rightarrow> succeed current
          | Inl e \<Rightarrow> if e \<noteq> ErrNotAdmin then fail e else assignSuper env current))"

definition requireSuperTx :: "AcctEnv \<Rightarrow> string \<Rightarrow> unit tx" where
  "requireSuperTx env actor =
     andThen (requireEnabledAdmin actor) (\<lambda>_.
     andThen (ensureSuperTx env) (\<lambda>super.
     if super \<noteq> actor then fail ErrNotSuper else succeed ()))"

definition requireAccountActionTx :: "AcctEnv \<Rightarrow> string \<Rightarrow> string \<Rightarrow> bool \<Rightarrow> unit tx" where
  "requireAccountActionTx env actor username targetIsAdmin =
     (if \<not> targetIsAdmin then requireEnabledAdmin actor
      else andThen (requireSuperTx env actor) (\<lambda>_.
           if username = actor then fail ErrTargetIsSuper else succeed ()))"

definition RequireSuper :: "AcctEnv \<Rightarrow> string \<Rightarrow> unit tx" where
  "RequireSuper env actor = inWriteTx env (requireSuperTx env actor)"

subsection \<open>Model: takeover reasons and times\<close>

definition DefaultTakeoverDays :: int where "DefaultTakeoverDays = 30"
definition MinTakeoverDays :: int where "MinTakeoverDays = 7"
definition MaxTakeoverDays :: int where "MaxTakeoverDays = 365"

record TakeoverReason =
  tr_Code :: string
  tr_Label :: string
  tr_Days :: int

definition TakeoverReasons :: "TakeoverReason list" where
  "TakeoverReasons =
     [\<lparr>tr_Code = ''vacation'', tr_Label = ''Vacation'', tr_Days = 30\<rparr>,
      \<lparr>tr_Code = ''parental_leave'', tr_Label = ''Parental leave (maternity or paternity)'', tr_Days = 180\<rparr>,
      \<lparr>tr_Code = ''medical_leave'', tr_Label = ''Medical or convalescence leave'', tr_Days = 90\<rparr>,
      \<lparr>tr_Code = ''left_employment'', tr_Label = ''No longer an employee'', tr_Days = 7\<rparr>,
      \<lparr>tr_Code = ''other'', tr_Label = ''Other'', tr_Days = 30\<rparr>]"

definition MaxTakeoverNoteLength :: nat where "MaxTakeoverNoteLength = 500"

definition takeoverReason :: "string \<Rightarrow> TakeoverReason option" where
  "takeoverReason code = rowBy tr_Code code TakeoverReasons"

definition reasonLabel :: "string \<Rightarrow> string" where
  "reasonLabel code = (case takeoverReason code of Some r \<Rightarrow> tr_Label r | None \<Rightarrow> code)"

definition dayNanos :: int where "dayNanos = 24 * 60 * 60 * 10 ^ 9"
definition hourNanos :: int where "hourNanos = 60 * 60 * 10 ^ 9"

definition addDays :: "Time \<Rightarrow> int \<Rightarrow> Time" where "addDays t n = t + n * dayNanos"

definition laterStamp :: "Stamp list \<Rightarrow> Time" where
  "laterStamp stamps = foldl (\<lambda>latest st. case st of None \<Rightarrow> latest | Some t \<Rightarrow> if t > latest then t else latest) 0 stamps"

text \<open>
  \<^verbatim>\<open>int(now.Sub(t).Hours() / 24)\<close>: the difference saturates at the largest
  \<^verbatim>\<open>Duration\<close>; the hours and their fraction are floating-point numbers.
\<close>

definition durationHours :: "int \<Rightarrow> float64" where
  "durationHours d = fadd (float_of_int (d div hourNanos)) (fdiv (float_of_int (d mod hourNanos)) (float_of_int hourNanos))"

definition wholeDaysSince :: "Time \<Rightarrow> Time \<Rightarrow> int" where
  "wholeDaysSince t now =
     (if t = 0 \<or> \<not> now > t then 0
      else math_Floor (fdiv (durationHours (min (now - t) MaxInt64)) 24))"

subsection \<open>Model: the standby and the protection after a takeover\<close>

definition clearStandbyTx :: "AcctEnv \<Rightarrow> string \<Rightarrow> string \<Rightarrow> string \<Rightarrow> unit tx" where
  "clearStandbyTx env actor username detail =
     andThen (query sy_succession) (\<lambda>row.
     case row of
       None \<Rightarrow> succeed ()
     | Some r \<Rightarrow>
         if sr_Standby r \<noteq> Some username then succeed ()
         else andThen (exec (\<lambda>s. s\<lparr>sy_succession := Some (r\<lparr>sr_Standby := None, sr_ChangedAt := Some (en_Now env)\<rparr>)\<rparr>)) (\<lambda>_.
              recordAccountEvent env actor username AccountStandbyRemoved detail))"

definition protectionTx :: "string \<Rightarrow> Time \<Rightarrow> (string \<times> string \<times> Time) option tx" where
  "protectionTx username now =
     query (\<lambda>s. case rowBy pr_Username username (sy_protection s) of
       None \<Rightarrow> None
     | Some p \<Rightarrow> (case pr_Until p of
         None \<Rightarrow> None
       | Some t \<Rightarrow> if \<not> now < t then None else Some (username, reasonLabel (pr_Reason p), t)))"

definition requireUnprotectedTx :: "AcctEnv \<Rightarrow> string \<Rightarrow> unit tx" where
  "requireUnprotectedTx env username =
     andThen (protectionTx username (en_Now env)) (\<lambda>p.
     case p of None \<Rightarrow> succeed () | Some (u, reason, t) \<Rightarrow> fail (ErrProtected u reason t))"

definition clearProtectionTx :: "string \<Rightarrow> unit tx" where
  "clearProtectionTx username = exec (\<lambda>s. s\<lparr>sy_protection := deleteBy pr_Username username (sy_protection s)\<rparr>)"

fun activeProtections :: "string list \<Rightarrow> Time \<Rightarrow> (string \<times> string \<times> Time) list tx" where
  "activeProtections [] now = succeed []"
| "activeProtections (name # names) now =
     andThen (protectionTx name now) (\<lambda>p.
     andThen (activeProtections names now) (\<lambda>ps. succeed (case p of None \<Rightarrow> ps | Some q \<Rightarrow> q # ps)))"

definition activeProtectionsTx :: "Time \<Rightarrow> (string \<times> string \<times> Time) list tx" where
  "activeProtectionsTx now =
     andThen (query (\<lambda>s. sort (map pr_Username (sy_protection s)))) (\<lambda>names. activeProtections names now)"

record successionState =
  ss_super :: string
  ss_standby :: string
  ss_days :: int
  ss_lastActive :: Time
  ss_standbyLastActive :: Time
  ss_standbyNamedAt :: Stamp

text \<open>The standby of the row: cleared, with its grant where it cannot sign in, unless it may stand by.\<close>

definition standbyOf :: "AcctEnv \<Rightarrow> string \<Rightarrow> string \<Rightarrow> Stamp \<Rightarrow> (string \<times> Time) tx" where
  "standbyOf env super standby namedAt =
     (if standby = [] then succeed ([], 0)
      else andThen (attempt (requireEnabledAdmin standby)) (\<lambda>r.
        if standby = super
        then andThen (clearStandbyTx env super super ''became the super administrator'') (\<lambda>_. succeed ([], 0))
        else case r of
          Inl e \<Rightarrow>
            if e \<noteq> ErrNotAdmin then fail e
            else andThen (revokeGrantTx env standby (standby @ '' is no longer an administrator who can sign in'')) (\<lambda>_.
                 andThen (clearStandbyTx env super standby ''no longer an administrator who can sign in'') (\<lambda>_. succeed ([], 0)))
        | Inr _ \<Rightarrow>
            andThen (query (userRow standby)) (\<lambda>u.
            case u of None \<Rightarrow> fail SchemaRefused
                    | Some u \<Rightarrow> succeed (standby, laterStamp [ur_LastLogin u, namedAt]))))"

definition readSuccessionTx :: "AcctEnv \<Rightarrow> successionState tx" where
  "readSuccessionTx env =
     andThen (ensureSuperTx env) (\<lambda>super.
     andThen (query sy_succession) (\<lambda>row.
     let (standby0, days0, namedAt) = (case row of
           None \<Rightarrow> ([], DefaultTakeoverDays, None)
         | Some r \<Rightarrow> (case sr_Standby r of None \<Rightarrow> [] | Some u \<Rightarrow> u, sr_Days r, sr_NamedAt r));
         days = min (max days0 MinTakeoverDays) MaxTakeoverDays
     in andThen (standbyOf env super standby0 namedAt) (\<lambda>(standby, standbyLastActive).
     andThen (query (\<lambda>s. (sy_super s, userRow super s))) (\<lambda>(row, u).
     let st = \<lparr>ss_super = super, ss_standby = standby, ss_days = days, ss_lastActive = 0,
               ss_standbyLastActive = standbyLastActive, ss_standbyNamedAt = namedAt\<rparr> in
     if super = [] then succeed st
     else case (row, u) of
       (Some (_, assignedAt), Some u) \<Rightarrow> succeed (st\<lparr>ss_lastActive := laterStamp [ur_LastLogin u, assignedAt]\<rparr>)
     | _ \<Rightarrow> fail SchemaRefused))))"

definition takeoverRefusal :: "successionState \<Rightarrow> string \<Rightarrow> Time \<Rightarrow> users_error + unit" where
  "takeoverRefusal st actor now =
     (if ss_super st = [] \<or> actor = ss_super st then Inl ErrTargetIsSuper
      else if ss_standby st \<noteq> [] \<and> actor \<noteq> ss_standby st \<and> now < addDays (ss_standbyLastActive st) (ss_days st)
      then Inl ErrNotStandby
      else if now < addDays (ss_lastActive st) (ss_days st) then Inl ErrTakeoverNotDue
      else Inr ())"

end
