(* ===== verification/Escrow.thy ===== *)
theory Escrow
  imports AccountRoles
begin

text \<open>
  Administrator escrow: \<^verbatim>\<open>internal/users/escrow_enroll.go\<close> and the rotation of
  \<^verbatim>\<open>escrow_rotation.go\<close>. An account enrolls with a personal key pair, a pin of the
  escrow key it trusts and its DEK sealed to that key; an administrator holds the escrow
  private key sealed to the personal key (a grant). The random draws of a call are numbered:
  1 and 2 a personal private key and the nonce of its wrap, 3 the randomness of sealing, 4 and
  5 the identifier and private key of a new escrow key.
\<close>

record EscrowSession =
  es_id :: string
  es_public :: string
  es_private :: string

subsection \<open>Model: personal keys\<close>

definition newPersonalKey :: "AcctEnv \<Rightarrow> string \<Rightarrow> string \<Rightarrow> bool \<Rightarrow> (bool \<times> string) tx" where
  "newPersonalKey env username dek existed =
     andThen (crypto (GenerateEscrowKeyPair (en_Suite env) (en_Rand env 1))) (\<lambda>(priv, pub).
     andThen (crypto (WrapPersonalKey (en_Suite env) (en_Rand env 2) dek username priv)) (\<lambda>wrapped.
     andThen (references username) (\<lambda>_.
     andThen (exec (\<lambda>s. s\<lparr>sy_personal := sy_personal s @
        [\<lparr>pk_Username = username, pk_Public = pub, pk_Wrapped = wrapped, pk_Attestation = [],
          pk_AttestedKeyID = [], pk_CreatedAt = Some (en_Now env)\<rparr>]\<rparr>)) (\<lambda>_.
     succeed (existed, pub)))))"

definition ensurePersonalKey :: "AcctEnv \<Rightarrow> string \<Rightarrow> string \<Rightarrow> (bool \<times> string) tx" where
  "ensurePersonalKey env username dek =
     andThen (query (\<lambda>s. rowBy pk_Username username (sy_personal s))) (\<lambda>row.
     case row of
       None \<Rightarrow> newPersonalKey env username dek False
     | Some r \<Rightarrow> (case UnwrapPersonalKey (en_Suite env) dek username (pk_Wrapped r) of
         Inr priv \<Rightarrow>
           andThen (crypto (EscrowPublicKey (en_Suite env) priv)) (\<lambda>derived.
           if derived = pk_Public r then succeed (True, derived)
           else andThen (exec (\<lambda>s. s\<lparr>sy_personal := modifyBy pk_Username username
                   (\<lambda>r. r\<lparr>pk_Public := derived, pk_Attestation := [], pk_AttestedKeyID := []\<rparr>) (sy_personal s)\<rparr>)) (\<lambda>_.
                andThen (recordAccountEvent env username username AccountPersonalKeyRepaired []) (\<lambda>_.
                succeed (True, derived))))
       | Inl _ \<Rightarrow>
           andThen (exec (\<lambda>s. s\<lparr>sy_personal := deleteBy pk_Username username (sy_personal s)\<rparr>)) (\<lambda>_.
           andThen (recordAccountEvent env username username AccountPersonalKeyRepaired
              ''the stored key could not be opened, so a new one was made'') (\<lambda>_.
           newPersonalKey env username dek True))))"

definition attestTx :: "AcctEnv \<Rightarrow> EscrowSession \<Rightarrow> string \<Rightarrow> string \<Rightarrow> unit tx" where
  "attestTx env session username personalPublic =
     andThen (crypto (Attestation (en_Suite env) (es_private session) username personalPublic)) (\<lambda>attestation.
     exec (\<lambda>s. s\<lparr>sy_personal := modifyBy pk_Username username
        (\<lambda>r. r\<lparr>pk_Attestation := attestation, pk_AttestedKeyID := es_id session\<rparr>) (sy_personal s)\<rparr>))"

definition requirePersonalKeyTx :: "string \<Rightarrow> unit tx" where
  "requirePersonalKeyTx username =
     andThen (query (\<lambda>s. rowBy pk_Username username (sy_personal s))) (\<lambda>r.
     if r = None then fail ErrNoPersonalKey else succeed ())"

subsection \<open>Model: enrollment\<close>

text \<open>The pin: checked where the account has one, made otherwise. False: the key is not the pinned one.\<close>

definition pinTx :: "AcctEnv \<Rightarrow> string \<Rightarrow> string \<Rightarrow> string \<Rightarrow> string \<Rightarrow> (bool \<times> bool) tx" where
  "pinTx env username dek keyID keyPublic =
     andThen (query (\<lambda>s. rowBy ep_Username username (sy_pins s))) (\<lambda>row.
     case row of
       Some p \<Rightarrow>
         if ep_KeyID p \<noteq> keyID then succeed (True, False)
         else andThen (crypto (VerifyEscrowPin (en_Suite env) dek username keyID keyPublic (ep_Pin p))) (\<lambda>ok. succeed (True, ok))
     | None \<Rightarrow>
         andThen (crypto (EscrowPin (en_Suite env) dek username keyID keyPublic)) (\<lambda>pin.
         andThen (references username) (\<lambda>_.
         andThen (exec (\<lambda>s. s\<lparr>sy_pins := sy_pins s @ [\<lparr>ep_Username = username, ep_KeyID = keyID, ep_Pin = pin\<rparr>]\<rparr>)) (\<lambda>_.
         succeed (False, True)))))"

definition sealDEKTx :: "AcctEnv \<Rightarrow> string \<Rightarrow> string \<Rightarrow> string \<Rightarrow> string \<Rightarrow> unit tx" where
  "sealDEKTx env username dek keyID keyPublic =
     andThen (query (\<lambda>s. rowBy sd_Username username (sy_sealed s))) (\<lambda>row.
     if (case row of None \<Rightarrow> [] | Some r \<Rightarrow> sd_KeyID r) = keyID then succeed ()
     else andThen (crypto (SealDEK (en_Suite env) (en_Rand env 3) keyPublic keyID username dek)) (\<lambda>sealed.
          andThen (references username) (\<lambda>_.
          exec (\<lambda>s. s\<lparr>sy_sealed := upsertBy sd_Username
             \<lparr>sd_Username = username, sd_KeyID = keyID, sd_Sealed = sealed, sd_SealedAt = Some (en_Now env)\<rparr> (sy_sealed s)\<rparr>))))"

text \<open>The key to enroll against: the session's while it is still the active one.\<close>

definition currentSession :: "EscrowSession option \<Rightarrow> EscrowKey \<Rightarrow> EscrowSession option" where
  "currentSession session active =
     (case session of Some ss \<Rightarrow> if es_id ss = ek_ID active then Some ss else None | None \<Rightarrow> None)"

definition enrollTx :: "AcctEnv \<Rightarrow> string \<Rightarrow> string \<Rightarrow> EscrowSession option \<Rightarrow> string tx" where
  "enrollTx env username dek session0 =
     andThen activeEscrowKey (\<lambda>k.
     case k of
       None \<Rightarrow> succeed []
     | Some active \<Rightarrow>
        (let session = currentSession session0 active;
             keyID = ek_ID active;
             keyPublic = (case session of Some ss \<Rightarrow> es_public ss | None \<Rightarrow> ek_Public active) in
         andThen (ensurePersonalKey env username dek) (\<lambda>(hadPersonalKey, personalPublic).
         andThen (pinTx env username dek keyID keyPublic) (\<lambda>(hadPin, trusted).
         if \<not> trusted
         then andThen (recordAccountEvent env username username AccountEscrowKeyMismatch
                ''the administrator key in system.db is not the one this account trusts, so nothing was sealed'') (\<lambda>_. succeed [])
         else
         andThen (if hadPin \<noteq> hadPersonalKey
                  then recordAccountEvent env username username AccountEscrowReenrolled [] else succeed ()) (\<lambda>_.
         andThen (sealDEKTx env username dek keyID keyPublic) (\<lambda>_.
         andThen (case session of None \<Rightarrow> succeed () | Some ss \<Rightarrow> attestTx env ss username personalPublic) (\<lambda>_.
         succeed personalPublic)))))))"

definition enrollInSavepoint :: "AcctEnv \<Rightarrow> string \<Rightarrow> string \<Rightarrow> EscrowSession option \<Rightarrow> (users_error + string) tx" where
  "enrollInSavepoint env username dek session = savepoint (enrollTx env username dek session)"

definition EnrollSession :: "AcctEnv \<Rightarrow> string \<Rightarrow> string \<Rightarrow> unit tx" where
  "EnrollSession env username dek = inWriteTx env (andThen (enrollTx env username dek None) (\<lambda>_. succeed ()))"

subsection \<open>Model: grants\<close>

definition unusable :: "AcctEnv \<Rightarrow> string \<Rightarrow> string \<Rightarrow> 'a tx" where
  "unusable env admin detail =
     andThen (removeGrantTx admin) (\<lambda>_.
     andThen (recordAccountEvent env admin admin AccountEscrowKeyMismatch detail) (\<lambda>_. fail ErrEscrowMismatch))"

definition pinMatches :: "AcctEnv \<Rightarrow> string \<Rightarrow> string \<Rightarrow> EscrowPinRow \<Rightarrow> string \<Rightarrow> string \<Rightarrow> bool" where
  "pinMatches env dek admin p keyID public \<longleftrightarrow>
     ep_KeyID p = keyID \<and> VerifyEscrowPin (en_Suite env) dek admin keyID public (ep_Pin p) = Inr True"

definition openGrantTx :: "AcctEnv \<Rightarrow> string \<Rightarrow> string \<Rightarrow> EscrowSession tx" where
  "openGrantTx env admin dek =
     andThen activeEscrowKey (\<lambda>k.
     case k of
       None \<Rightarrow> fail ErrNoEscrowGrant
     | Some active \<Rightarrow>
         andThen (query (\<lambda>s. (List.find (\<lambda>g. eg_Admin g = admin \<and> eg_KeyID g = ek_ID active) (sy_grants s),
                              rowBy pk_Username admin (sy_personal s), rowBy ep_Username admin (sy_pins s)))) (\<lambda>rows.
         case rows of
           (Some g, Some r, Some p) \<Rightarrow>
            (case UnwrapPersonalKey (en_Suite env) dek admin (pk_Wrapped r) of
               Inl _ \<Rightarrow> unusable env admin
                 ''this administrator's account key does not open, so their copy of the administrator key was removed''
             | Inr personal \<Rightarrow>
              (case OpenGrant (en_Suite env) personal (ek_ID active) admin (eg_Sealed g) of
                 Inl _ \<Rightarrow> unusable env admin
                   ''this administrator's copy of the administrator key does not open and was removed''
               | Inr private \<Rightarrow>
                (case EscrowPublicKey (en_Suite env) private of
                   Inr public \<Rightarrow>
                     if pinMatches env dek admin p (ek_ID active) public
                     then succeed \<lparr>es_id = ek_ID active, es_public = public, es_private = private\<rparr>
                     else unusable env admin
                       ''this administrator's copy of the administrator key is not the real one and was removed''
                 | Inl _ \<Rightarrow> unusable env admin
                     ''this administrator's copy of the administrator key is not the real one and was removed'')))
         | _ \<Rightarrow> fail ErrNoEscrowGrant))"

definition noUsableGrant :: "users_error \<Rightarrow> bool" where
  "noUsableGrant e \<longleftrightarrow> e = ErrNoEscrowGrant \<or> e = ErrEscrowMismatch"

definition grantTx :: "AcctEnv \<Rightarrow> EscrowSession \<Rightarrow> string \<Rightarrow> string \<Rightarrow> unit tx" where
  "grantTx env session admin personalPublic =
     (if personalPublic = [] then fail ErrNoPersonalKey
      else andThen (crypto (SealGrant (en_Suite env) (en_Rand env 3) personalPublic (es_id session) admin (es_private session))) (\<lambda>sealed.
           andThen (references admin) (\<lambda>_.
           exec (\<lambda>s. s\<lparr>sy_grants := upsertBy eg_Admin
              \<lparr>eg_Admin = admin, eg_KeyID = es_id session, eg_Sealed = sealed, eg_GrantedAt = Some (en_Now env)\<rparr> (sy_grants s)\<rparr>))))"

definition attestAndGrantTx :: "AcctEnv \<Rightarrow> EscrowSession \<Rightarrow> string \<Rightarrow> PersonalKey \<Rightarrow> unit tx" where
  "attestAndGrantTx env session actor r =
     (let username = pk_Username r in
      if pk_AttestedKeyID r = es_id session
      then andThen (crypto (VerifyAttestation (en_Suite env) (es_private session) username (pk_Public r) (pk_Attestation r))) (\<lambda>ok.
           if \<not> ok then fail ErrPersonalKeyNotAttested else grantTx env session username (pk_Public r))
      else andThen (attestTx env session username (pk_Public r)) (\<lambda>_.
           andThen (recordAccountEvent env actor username AccountPersonalKeyTrusted []) (\<lambda>_.
           grantTx env session username (pk_Public r))))"

definition passKeyTx :: "AcctEnv \<Rightarrow> string \<Rightarrow> string \<Rightarrow> string \<Rightarrow> bool tx" where
  "passKeyTx env actor actorDEK target =
     andThen activeEscrowKey (\<lambda>k.
     if k = None then succeed False
     else andThen (attempt (openGrantTx env actor actorDEK)) (\<lambda>r.
       case r of
         Inl e \<Rightarrow> if noUsableGrant e then succeed False else fail e
       | Inr session \<Rightarrow>
           andThen (query (\<lambda>s. rowBy pk_Username target (sy_personal s))) (\<lambda>row.
           case row of
             None \<Rightarrow> fail SchemaRefused
           | Some p \<Rightarrow> andThen (attestAndGrantTx env session actor p) (\<lambda>_. succeed True))))"

definition removeSubordinateGrantTx :: "AcctEnv \<Rightarrow> string \<Rightarrow> unit tx" where
  "removeSubordinateGrantTx env admin =
     andThen (query (\<lambda>s. rowBy eg_Admin admin (sy_grants s))) (\<lambda>row.
     andThen (removeGrantTx admin) (\<lambda>_.
     if row = None then succeed ()
     else andThen (recordAccountEvent env admin admin AccountEscrowKeyMismatch
                     ''a subordinate administrator held the administrator key; it was removed'') (\<lambda>_.
          markRotationPendingTx env (''a subordinate administrator, '' @ admin @ '', held the administrator key''))))"

subsection \<open>Model: the escrow key\<close>

definition insertEscrowKey :: "EscrowKey \<Rightarrow> unit tx" where
  "insertEscrowKey k =
     andThen (query sy_keys) (\<lambda>keys.
     if rowBy ek_ID (ek_ID k) keys \<noteq> None \<or> rowBy ek_RetiredAt None keys \<noteq> None then fail SchemaRefused
     else exec (\<lambda>s. s\<lparr>sy_keys := sy_keys s @ [k]\<rparr>))"

definition newEscrowSession :: "AcctEnv \<Rightarrow> EscrowSession tx" where
  "newEscrowSession env =
     andThen (crypto (NewEscrowKeyID (en_Rand env 4))) (\<lambda>i.
     andThen (crypto (GenerateEscrowKeyPair (en_Suite env) (en_Rand env 5))) (\<lambda>(priv, pub).
     succeed \<lparr>es_id = i, es_public = pub, es_private = priv\<rparr>))"

definition storeEscrowKey :: "AcctEnv \<Rightarrow> EscrowSession \<Rightarrow> unit tx" where
  "storeEscrowKey env ss =
     insertEscrowKey \<lparr>ek_ID = es_id ss, ek_Public = es_public ss, ek_CreatedAt = Some (en_Now env), ek_RetiredAt = None\<rparr>"

definition bootstrapTx :: "AcctEnv \<Rightarrow> string \<Rightarrow> string \<Rightarrow> unit tx" where
  "bootstrapTx env admin dek =
     andThen (newEscrowSession env) (\<lambda>session.
     andThen (storeEscrowKey env session) (\<lambda>_.
     andThen (enrollTx env admin dek (Some session)) (\<lambda>personal.
     grantTx env session admin personal)))"

subsection \<open>Model: the checks of an administrator session\<close>

definition sealedMismatch :: string where
  "sealedMismatch = ''the account's sealed key does not open with the administrator key; it is sealed again at the account's next sign-in''"

definition attestMismatch :: string where
  "attestMismatch = ''the account key is not the one an administrator checked''"

definition checkSealedDEKsTx :: "AcctEnv \<Rightarrow> EscrowSession \<Rightarrow> unit tx" where
  "checkSealedDEKsTx env session =
     andThen (query (\<lambda>s. map sd_Username (filter (\<lambda>r. sd_KeyID r = es_id session \<and>
        (case OpenDEK (en_Suite env) (es_private session) (es_id session) (sd_Username r) (sd_Sealed r) of
           Inl _ \<Rightarrow> True | Inr _ \<Rightarrow> False)) (sy_sealed s)))) (\<lambda>bad.
     forEach (\<lambda>username.
       andThen (exec (\<lambda>s. s\<lparr>sy_sealed := deleteBy sd_Username username (sy_sealed s)\<rparr>)) (\<lambda>_.
       andThen (exec (\<lambda>s. s\<lparr>sy_pins := deleteBy ep_Username username (sy_pins s)\<rparr>)) (\<lambda>_.
       recordAccountEvent env username username AccountEscrowKeyMismatch sealedMismatch))) bad)"

definition adminDutiesTx :: "AcctEnv \<Rightarrow> EscrowSession \<Rightarrow> unit tx" where
  "adminDutiesTx env session =
     andThen (query (\<lambda>s. filter (\<lambda>r. pk_AttestedKeyID r = es_id session) (sy_personal s))) (\<lambda>attested.
     andThen (forEach (\<lambda>r.
        andThen (crypto (VerifyAttestation (en_Suite env) (es_private session) (pk_Username r) (pk_Public r) (pk_Attestation r))) (\<lambda>ok.
        if ok then succeed ()
        else recordAccountEvent env (pk_Username r) (pk_Username r) AccountEscrowKeyMismatch attestMismatch)) attested) (\<lambda>_.
     checkSealedDEKsTx env session))"

end
