(* ===== verification/EscrowRotation.thy ===== *)
theory EscrowRotation
  imports Escrow
begin

text \<open>
  Replacing the administrator key: \<^verbatim>\<open>internal/users/escrow_rotation.go\<close>, the
  administrator session of \<^verbatim>\<open>escrow_enroll.go\<close> that runs a pending replacement, and
  the new key of \<^verbatim>\<open>escrow_new_key.go\<close> for a machine where nobody holds the old one.
\<close>

record RotationResult =
  rr_Resealed :: nat
  rr_Reenroll :: nat

subsection \<open>Model: rotation\<close>

definition resealRow :: "AcctEnv \<Rightarrow> EscrowSession \<Rightarrow> EscrowSession \<Rightarrow> SealedDEK \<Rightarrow> nat tx" where
  "resealRow env old nxt r =
     (case OpenDEK (en_Suite env) (es_private old) (es_id old) (sd_Username r) (sd_Sealed r) of
        Inl _ \<Rightarrow>
          andThen (recordAccountEvent env (sd_Username r) (sd_Username r) AccountEscrowKeyMismatch sealedMismatch) (\<lambda>_. succeed 0)
      | Inr dek \<Rightarrow>
          andThen (crypto (SealDEK (en_Suite env) (en_Rand env 3) (es_public nxt) (es_id nxt) (sd_Username r) dek)) (\<lambda>resealed.
          andThen (crypto (EscrowPin (en_Suite env) dek (sd_Username r) (es_id nxt) (es_public nxt))) (\<lambda>pin.
          andThen (exec (\<lambda>s. s\<lparr>sy_sealed := modifyBy sd_Username (sd_Username r)
             (\<lambda>x. x\<lparr>sd_KeyID := es_id nxt, sd_Sealed := resealed, sd_SealedAt := Some (en_Now env)\<rparr>) (sy_sealed s)\<rparr>)) (\<lambda>_.
          andThen (exec (\<lambda>s. s\<lparr>sy_pins := upsertBy ep_Username
             \<lparr>ep_Username = sd_Username r, ep_KeyID = es_id nxt, ep_Pin = pin\<rparr> (sy_pins s)\<rparr>)) (\<lambda>_.
          succeed 1)))))"

fun resealRows :: "AcctEnv \<Rightarrow> EscrowSession \<Rightarrow> EscrowSession \<Rightarrow> SealedDEK list \<Rightarrow> nat tx" where
  "resealRows env old nxt [] = succeed 0"
| "resealRows env old nxt (r # rs) =
     andThen (resealRow env old nxt r) (\<lambda>n. andThen (resealRows env old nxt rs) (\<lambda>m. succeed (n + m)))"

definition resealTx :: "AcctEnv \<Rightarrow> EscrowSession \<Rightarrow> EscrowSession \<Rightarrow> RotationResult tx" where
  "resealTx env old nxt =
     andThen (query (\<lambda>s. filter (\<lambda>r. sd_KeyID r = es_id old) (sy_sealed s))) (\<lambda>sealed.
     andThen (resealRows env old nxt sealed) (\<lambda>resealed.
     andThen (query (\<lambda>s. length (filter (\<lambda>p. ep_KeyID p \<noteq> es_id nxt) (sy_pins s)))) (\<lambda>stale.
     andThen (exec (\<lambda>s. s\<lparr>sy_pins := filter (\<lambda>p. ep_KeyID p = es_id nxt) (sy_pins s)\<rparr>)) (\<lambda>_.
     andThen (exec (\<lambda>s. s\<lparr>sy_sealed := filter (\<lambda>r. sd_KeyID r = es_id nxt) (sy_sealed s)\<rparr>)) (\<lambda>_.
     succeed \<lparr>rr_Resealed = resealed, rr_Reenroll = stale\<rparr>)))))"

definition reattestTx :: "AcctEnv \<Rightarrow> EscrowSession \<Rightarrow> EscrowSession \<Rightarrow> unit tx" where
  "reattestTx env old nxt =
     andThen (query (\<lambda>s. filter (\<lambda>r. pk_AttestedKeyID r = es_id old) (sy_personal s))) (\<lambda>attested.
     forEach (\<lambda>r.
       andThen (crypto (VerifyAttestation (en_Suite env) (es_private old) (pk_Username r) (pk_Public r) (pk_Attestation r))) (\<lambda>ok.
       if \<not> ok
       then andThen (recordAccountEvent env (pk_Username r) (pk_Username r) AccountEscrowKeyMismatch attestMismatch) (\<lambda>_.
            exec (\<lambda>s. s\<lparr>sy_personal := modifyBy pk_Username (pk_Username r)
               (\<lambda>x. x\<lparr>pk_AttestedKeyID := es_id nxt\<rparr>) (sy_personal s)\<rparr>))
       else attestTx env nxt (pk_Username r) (pk_Public r))) attested)"

definition recipients :: "string \<Rightarrow> string list \<Rightarrow> string list" where
  "recipients actor keep = foldl (\<lambda>rs name. if name \<noteq> [] \<and> name \<notin> set rs then rs @ [name] else rs) [actor] keep"

definition grantRecipient :: "AcctEnv \<Rightarrow> EscrowSession \<Rightarrow> string \<Rightarrow> string \<Rightarrow> unit tx" where
  "grantRecipient env nxt actor name =
     andThen (query (\<lambda>s. rowBy pk_Username name (sy_personal s))) (\<lambda>row.
     case row of
       None \<Rightarrow> if name = actor then fail ErrNoPersonalKey else succeed ()
     | Some r \<Rightarrow>
         andThen (attempt (attestAndGrantTx env nxt actor r)) (\<lambda>res.
         case res of
           Inr _ \<Rightarrow> succeed ()
         | Inl e \<Rightarrow>
             if e = ErrPersonalKeyNotAttested \<and> name \<noteq> actor
             then recordAccountEvent env actor name AccountEscrowKeyMismatch
                    ''the account key is not the one an administrator checked, so it was not given the new administrator key''
             else fail e))"

definition rotationDetail :: "string \<Rightarrow> RotationResult \<Rightarrow> string" where
  "rotationDetail reason res =
     reason @ ''; '' @ format_nat (rr_Resealed res) @ '' accounts sealed to the new key''
       @ (if rr_Reenroll res > 0 then ''; '' @ format_nat (rr_Reenroll res) @ '' sealed again at their next sign-in'' else [])"

definition rotateTx ::
  "AcctEnv \<Rightarrow> EscrowSession \<Rightarrow> string \<Rightarrow> string \<Rightarrow> string list \<Rightarrow> string \<Rightarrow> (EscrowSession \<times> RotationResult) tx" where
  "rotateTx env old actor actorDEK keep reason =
     andThen (newEscrowSession env) (\<lambda>nxt.
     andThen (exec (\<lambda>s. s\<lparr>sy_keys := modifyBy ek_ID (es_id old) (\<lambda>k. k\<lparr>ek_RetiredAt := Some (en_Now env)\<rparr>) (sy_keys s)\<rparr>)) (\<lambda>_.
     andThen (storeEscrowKey env nxt) (\<lambda>_.
     andThen (resealTx env old nxt) (\<lambda>res.
     andThen (reattestTx env old nxt) (\<lambda>_.
     andThen (exec (\<lambda>s. s\<lparr>sy_grants := []\<rparr>)) (\<lambda>_.
     andThen (forEach (grantRecipient env nxt actor) (recipients actor keep)) (\<lambda>_.
     andThen (openGrantTx env actor actorDEK) (\<lambda>_.
     andThen (exec (\<lambda>s. s\<lparr>sy_pending := None\<rparr>)) (\<lambda>_.
     andThen (exec (\<lambda>s. s\<lparr>sy_recovery := []\<rparr>)) (\<lambda>_.
     andThen (recordAccountEvent env actor actor AccountEscrowRotated (rotationDetail reason res)) (\<lambda>_.
     succeed (nxt, res))))))))))))"

definition rotateInSavepointTx ::
  "AcctEnv \<Rightarrow> EscrowSession \<Rightarrow> string \<Rightarrow> string \<Rightarrow> string list \<Rightarrow> string \<Rightarrow> (EscrowSession \<times> RotationResult) option tx" where
  "rotateInSavepointTx env old actor actorDEK keep reason =
     andThen (savepoint (rotateTx env old actor actorDEK keep reason)) (\<lambda>r.
     case r of
       Inr (nxt, res) \<Rightarrow> succeed (Some (nxt, res))
     | Inl _ \<Rightarrow> andThen (markRotationPendingTx env reason) (\<lambda>_. succeed None))"

definition rotateWithOwnKeyTx :: "AcctEnv \<Rightarrow> string \<Rightarrow> string \<Rightarrow> string list \<Rightarrow> string \<Rightarrow> unit tx" where
  "rotateWithOwnKeyTx env actor actorDEK keep reason =
     andThen (attempt (openGrantTx env actor actorDEK)) (\<lambda>r.
     case r of
       Inl e \<Rightarrow> if noUsableGrant e then markRotationPendingTx env reason else fail e
     | Inr session \<Rightarrow> andThen (rotateInSavepointTx env session actor actorDEK keep reason) (\<lambda>_. succeed ()))"

definition rotatorTx :: "AcctEnv \<Rightarrow> string \<Rightarrow> bool tx" where
  "rotatorTx env actor =
     andThen (readSuccessionTx env) (\<lambda>st.
     if actor = ss_super st then succeed True
     else if actor \<noteq> ss_standby st \<or> ss_super st = [] then succeed False
     else andThen (holdsAnyGrantTx (ss_super st)) (\<lambda>superHolds. succeed (\<not> superHolds)))"

definition runPendingRotationTx :: "AcctEnv \<Rightarrow> EscrowSession \<Rightarrow> string \<Rightarrow> string \<Rightarrow> EscrowSession tx" where
  "runPendingRotationTx env session actor actorDEK =
     andThen rotationPendingTx (\<lambda>reason.
     if reason = [] then succeed session
     else andThen (rotatorTx env actor) (\<lambda>ok.
       if \<not> ok then succeed session
       else andThen (rotateInSavepointTx env session actor actorDEK [] reason) (\<lambda>r.
            succeed (case r of Some (nxt, _) \<Rightarrow> nxt | None \<Rightarrow> session))))"

definition RunPendingRotation :: "AcctEnv \<Rightarrow> string \<Rightarrow> string \<Rightarrow> unit tx" where
  "RunPendingRotation env actor dek = inWriteTx env (
     andThen rotationPendingTx (\<lambda>reason.
     if reason = [] then succeed ()
     else andThen (attempt (openGrantTx env actor dek)) (\<lambda>r.
       case r of
         Inl e \<Rightarrow> if noUsableGrant e then succeed () else fail e
       | Inr session \<Rightarrow> andThen (runPendingRotationTx env session actor dek) (\<lambda>_. succeed ()))))"

text \<open>
  \<^verbatim>\<open>ReplaceEscrowKey\<close>: \<open>None\<close> inside the transaction is the caller without a
  usable key, whose recorded mismatch is committed.
\<close>

definition ReplaceEscrowKey :: "AcctEnv \<Rightarrow> string \<Rightarrow> string \<Rightarrow> string \<Rightarrow> RotationResult tx" where
  "ReplaceEscrowKey env actor dek keepStandby =
     andThen (inWriteTx env (
       andThen (requireSuperTx env actor) (\<lambda>_.
       andThen (if keepStandby = [] then succeed ()
                else andThen (readSuccessionTx env) (\<lambda>st.
                     if keepStandby \<noteq> ss_standby st then fail ErrStandbyChanged else succeed ())) (\<lambda>_.
       andThen (attempt (openGrantTx env actor dek)) (\<lambda>r.
       case r of
         Inl e \<Rightarrow> if noUsableGrant e then succeed None else fail e
       | Inr session \<Rightarrow>
           andThen (rotateTx env session actor dek [keepStandby] ''replaced by the super administrator'') (\<lambda>(_, res).
           succeed (Some res))))))) (\<lambda>out.
     case out of None \<Rightarrow> fail ErrNoEscrowGrant | Some res \<Rightarrow> succeed res)"

subsection \<open>Model: the administrator session\<close>

definition standbySessionTx :: "AcctEnv \<Rightarrow> string \<Rightarrow> string \<Rightarrow> unit tx" where
  "standbySessionTx env admin dek =
     andThen (enrollTx env admin dek None) (\<lambda>_.
     andThen (attempt (openGrantTx env admin dek)) (\<lambda>r.
     case r of
       Inl e \<Rightarrow> if noUsableGrant e then succeed () else fail e
     | Inr session \<Rightarrow> andThen (runPendingRotationTx env session admin dek) (\<lambda>_. succeed ())))"

definition superSessionTx :: "AcctEnv \<Rightarrow> string \<Rightarrow> string \<Rightarrow> unit tx" where
  "superSessionTx env admin dek =
     andThen (query sy_keys) (\<lambda>keys.
     if keys = [] then bootstrapTx env admin dek
     else andThen activeEscrowKey (\<lambda>active.
       if active = None
       then recordAccountEvent env admin admin AccountEscrowKeyMismatch ''system.db has no current administrator key''
       else andThen (enrollTx env admin dek None) (\<lambda>_.
            andThen (attempt (openGrantTx env admin dek)) (\<lambda>r.
            case r of
              Inl e \<Rightarrow> if noUsableGrant e then succeed () else fail e
            | Inr session \<Rightarrow>
                andThen (runPendingRotationTx env session admin dek) (\<lambda>session'. adminDutiesTx env session')))))"

definition enrollAdminSessionTx :: "AcctEnv \<Rightarrow> string \<Rightarrow> string \<Rightarrow> unit tx" where
  "enrollAdminSessionTx env admin dek =
     andThen (attempt (requireEnabledAdmin admin)) (\<lambda>r.
     case r of
       Inl e \<Rightarrow> if e = ErrNotAdmin then andThen (enrollTx env admin dek None) (\<lambda>_. succeed ()) else fail e
     | Inr _ \<Rightarrow>
         andThen (readSuccessionTx env) (\<lambda>st.
         if admin = ss_standby st then standbySessionTx env admin dek
         else if admin \<noteq> ss_super st
         then andThen (removeSubordinateGrantTx env admin) (\<lambda>_.
              andThen (enrollTx env admin dek None) (\<lambda>_. succeed ()))
         else superSessionTx env admin dek))"

definition EnrollAdminSession :: "AcctEnv \<Rightarrow> string \<Rightarrow> string \<Rightarrow> unit tx" where
  "EnrollAdminSession env admin dek = inWriteTx env (enrollAdminSessionTx env admin dek)"

subsection \<open>Model: a new key when nobody holds the old one\<close>

definition MaxNewKeyReasonLength :: nat where "MaxNewKeyReasonLength = 500"

text \<open>\<^verbatim>\<open>utf8.RuneCountInString\<close>: a byte that starts no valid encoding counts as one.\<close>

definition RuneCount :: "string \<Rightarrow> nat" where "RuneCount s = length (chunks s)"

definition newEscrowKeyTx :: "AcctEnv \<Rightarrow> string \<Rightarrow> string \<Rightarrow> string \<Rightarrow> nat tx" where
  "newEscrowKeyTx env actor dek reason =
     andThen (newEscrowSession env) (\<lambda>session.
     andThen (exec (\<lambda>s. s\<lparr>sy_keys := modifyBy ek_RetiredAt None (\<lambda>k. k\<lparr>ek_RetiredAt := Some (en_Now env)\<rparr>) (sy_keys s)\<rparr>)) (\<lambda>_.
     andThen (storeEscrowKey env session) (\<lambda>_.
     andThen (exec (\<lambda>s. s\<lparr>sy_grants := [], sy_sealed := [], sy_recovery := [], sy_pending := None\<rparr>)) (\<lambda>_.
     andThen (exec (\<lambda>s. s\<lparr>sy_pins := filter (\<lambda>p. ep_Username p = actor) (sy_pins s)\<rparr>)) (\<lambda>_.
     andThen (crypto (EscrowPin (en_Suite env) dek actor (es_id session) (es_public session))) (\<lambda>pin.
     andThen (references actor) (\<lambda>_.
     andThen (exec (\<lambda>s. s\<lparr>sy_pins := upsertBy ep_Username
        \<lparr>ep_Username = actor, ep_KeyID = es_id session, ep_Pin = pin\<rparr> (sy_pins s)\<rparr>)) (\<lambda>_.
     andThen (enrollTx env actor dek (Some session)) (\<lambda>personal.
     andThen (grantTx env session actor personal) (\<lambda>_.
     andThen (query (\<lambda>s. sort (filter (\<lambda>u. u \<noteq> actor) (map ur_Username (sy_users s))))) (\<lambda>others.
     andThen (forEach (\<lambda>name. recordAccountEvent env actor name AccountEscrowKeyNew reason) others) (\<lambda>_.
     andThen (recordAccountEvent env actor actor AccountEscrowKeyNew
        (if length others = 1 then reason @ ''; 1 account sealed to it at its next sign-in''
         else reason @ ''; '' @ format_nat (length others) @ '' accounts sealed to it at their next sign-in'')) (\<lambda>_.
     succeed (length others))))))))))))))"

definition activeHolders :: "Sys \<Rightarrow> string list" where
  "activeHolders s = sort (map eg_Admin (filter (\<lambda>g.
     list_ex (\<lambda>k. ek_ID k = eg_KeyID g \<and> ek_RetiredAt k = None) (sy_keys s)
     \<and> (case userRow (eg_Admin g) s of None \<Rightarrow> False | Some u \<Rightarrow> enabledAdmin u)) (sy_grants s)))"

definition CreateNewEscrowKey :: "AcctEnv \<Rightarrow> string \<Rightarrow> string \<Rightarrow> string \<Rightarrow> nat tx" where
  "CreateNewEscrowKey env actor dek reason0 =
     (let reason = TrimSpace reason0 in
      if reason = [] then fail ErrNewKeyReasonRequired
      else if RuneCount reason > MaxNewKeyReasonLength then fail ErrNewKeyReasonTooLong
      else inWriteTx env (
        andThen (requireSuperTx env actor) (\<lambda>_.
        andThen (query sy_keys) (\<lambda>keys.
        if keys = [] then fail ErrNoEscrowGrant
        else andThen (attempt (openGrantTx env actor dek)) (\<lambda>r.
        case r of
          Inr _ \<Rightarrow> fail ErrHoldsEscrowKey
        | Inl e \<Rightarrow>
            if \<not> noUsableGrant e then fail e
            else andThen (query (\<lambda>s. filter (\<lambda>h. h \<noteq> actor) (activeHolders s))) (\<lambda>holders.
              case holders of
                holder # _ \<Rightarrow> andThen (readSuccessionTx env) (\<lambda>st. fail (ErrKeyStillHeld holder (holder = ss_standby st)))
              | [] \<Rightarrow> newEscrowKeyTx env actor dek reason))))))"

end
