(* ===== verification/AccountAdmin.thy ===== *)
theory AccountAdmin
  imports EscrowRotation
begin

text \<open>
  What administrators do to accounts: creating, promoting, demoting, disabling and deleting
  them (\<^verbatim>\<open>internal/users/store.go\<close>, \<^verbatim>\<open>account_status.go\<close>,
  \<^verbatim>\<open>escrow_enroll.go\<close>), handing over the super administrator role
  (\<^verbatim>\<open>super_admin.go\<close>), naming a standby and taking over
  (\<^verbatim>\<open>succession.go\<close>). Each operation is one write transaction; those that do more
  after it take a second environment.
\<close>

record Account =
  ac_Username :: string
  ac_DisplayName :: string
  ac_DataDir :: string
  ac_LastExportDirectory :: string
  ac_CreatedAt :: Time
  ac_LastLogin :: Time
  ac_IsAdmin :: bool
  ac_Disabled :: bool

record Principal =
  pn_id :: string
  pn_username :: string
  pn_generation :: int

subsection \<open>Model: roles and status\<close>

definition setDisabledTx :: "AcctEnv \<Rightarrow> string \<Rightarrow> string \<Rightarrow> bool \<Rightarrow> unit tx" where
  "setDisabledTx env actor username disabled =
     andThen (requireEnabledAdmin actor) (\<lambda>_.
     andThen (accountRole username) (\<lambda>(isAdmin, current).
     andThen (requireAccountActionTx env actor username isAdmin) (\<lambda>_.
     if current = disabled then succeed ()
     else
     andThen (if \<not> disabled then succeed () else
       andThen (requireUnprotectedTx env username) (\<lambda>_.
       andThen (guardLastEnabledAdmin isAdmin current) (\<lambda>_.
       andThen (revokeGrantTx env username (username @ '' was disabled'')) (\<lambda>_.
       clearStandbyTx env actor username ''disabled'')))) (\<lambda>_.
     andThen (updateUser username (\<lambda>u. u\<lparr>ur_Disabled := disabled\<rparr>)) (\<lambda>_.
     recordAccountEvent env actor username (if disabled then AccountDisabled else AccountEnabled) [])))))"

definition SetDisabled :: "AcctEnv \<Rightarrow> string \<Rightarrow> string \<Rightarrow> bool \<Rightarrow> unit tx" where
  "SetDisabled env actor username disabled = inWriteTx env (setDisabledTx env actor username disabled)"

definition setAdminTx :: "AcctEnv \<Rightarrow> string \<Rightarrow> string \<Rightarrow> bool \<Rightarrow> unit tx" where
  "setAdminTx env actor username isAdmin =
     andThen (requireEnabledAdmin actor) (\<lambda>_.
     andThen (accountRole username) (\<lambda>(targetIsAdmin, targetDisabled).
     if targetIsAdmin = isAdmin then succeed ()
     else
     andThen (requireAccountActionTx env actor username True) (\<lambda>_.
     andThen (if isAdmin then succeed () else
       andThen (requireUnprotectedTx env username) (\<lambda>_.
       andThen (guardLastEnabledAdmin targetIsAdmin targetDisabled) (\<lambda>_.
       andThen (revokeGrantTx env username (username @ '' is no longer an administrator'')) (\<lambda>_.
       clearStandbyTx env actor username ''no longer an administrator'')))) (\<lambda>_.
     andThen (updateUser username (\<lambda>u. u\<lparr>ur_IsAdmin := isAdmin\<rparr>)) (\<lambda>_.
     recordAccountEvent env actor username (if isAdmin then AccountPromoted else AccountDemoted) [])))))"

definition SetAdmin :: "AcctEnv \<Rightarrow> string \<Rightarrow> string \<Rightarrow> bool \<Rightarrow> unit tx" where
  "SetAdmin env actor username isAdmin = inWriteTx env (setAdminTx env actor username isAdmin)"

definition PromoteAdmin :: "AcctEnv \<Rightarrow> string \<Rightarrow> string \<Rightarrow> unit tx" where
  "PromoteAdmin env actor username = inWriteTx env (
     andThen (requireSuperTx env actor) (\<lambda>_.
     andThen (accountRole username) (\<lambda>(isAdmin, _).
     if isAdmin then succeed ()
     else andThen (requirePersonalKeyTx username) (\<lambda>_.
          andThen (updateUser username (\<lambda>u. u\<lparr>ur_IsAdmin := True\<rparr>)) (\<lambda>_.
          recordAccountEvent env actor username AccountPromoted [])))))"

definition ClaimAdmin :: "AcctEnv \<Rightarrow> string \<Rightarrow> unit tx" where
  "ClaimAdmin env username = inWriteTx env (
     andThen enabledAdminCount (\<lambda>n.
     if n > 0 then fail ErrAdminExists
     else andThen (accountRole username) (\<lambda>(_, disabled).
       if disabled then fail ErrAccountDisabled
       else andThen (updateUser username (\<lambda>u. u\<lparr>ur_IsAdmin := True\<rparr>)) (\<lambda>_.
            andThen (recordAccountEvent env username username AccountPromoted
                       ''claimed with no administrator on the machine'') (\<lambda>_.
            andThen (ensureSuperTx env) (\<lambda>_. succeed ()))))))"

definition SetLastExportDirectory :: "string \<Rightarrow> string \<Rightarrow> unit tx" where
  "SetLastExportDirectory username dir = updateUser username (\<lambda>u. u\<lparr>ur_LastExportDirectory := dir\<rparr>)"

subsection \<open>Model: deleting accounts\<close>

definition userDir :: "AcctEnv \<Rightarrow> string \<Rightarrow> string" where "userDir env username = en_Root env @ ''/'' @ username"

definition purgeTx :: "AcctEnv \<Rightarrow> string \<Rightarrow> string \<Rightarrow> unit tx" where
  "purgeTx env actor username =
     andThen (requireEnabledAdmin actor) (\<lambda>_.
     andThen (accountRole username) (\<lambda>(isAdmin, disabled).
     andThen (requireAccountActionTx env actor username isAdmin) (\<lambda>_.
     andThen (query (\<lambda>s. length (filter (\<lambda>u. ToLower (ur_Username u) = ToLower username \<and> ur_Username u \<noteq> username) (sy_users s)))) (\<lambda>caseVariants.
     if caseVariants > 0 then fail ErrFolderShared
     else
     andThen (requireUnprotectedTx env username) (\<lambda>_.
     andThen (guardLastEnabledAdmin isAdmin disabled) (\<lambda>_.
     andThen (clearStandbyTx env actor username ''deleted'') (\<lambda>_.
     andThen (revokeGrantTx env username (username @ '' was deleted'')) (\<lambda>_.
     andThen (deleteUser username) (\<lambda>_.
     recordAccountEvent env actor username AccountPurged [])))))))))"

text \<open>The folder goes after the commit; where it cannot be removed a second event says so.\<close>

definition PurgeAccount :: "AcctEnv \<Rightarrow> AcctEnv \<Rightarrow> string \<Rightarrow> string \<Rightarrow> unit tx" where
  "PurgeAccount env env2 actor username =
     (if list_ex (EqualFold username) reservedFolderNames then fail ErrReservedUsername
      else if ValidateUsername username \<noteq> Inr () then fail ErrNoSuchUser
      else andThen (inWriteTx env (purgeTx env actor username)) (\<lambda>_.
        case en_FolderError env of
          None \<Rightarrow> exec (\<lambda>s. s\<lparr>sy_folders := removeAll (userDir env username) (sy_folders s)\<rparr>)
        | Some err \<Rightarrow>
            andThen (attempt (inWriteTx env2 (recordAccountEvent env2 actor username AccountFolderNotRemoved
               (userDir env username @ '': '' @ err)))) (\<lambda>_. fail ErrPurgeIncomplete)))"

subsection \<open>Model: creating accounts\<close>

definition createUserFolder :: "AcctEnv \<Rightarrow> string \<Rightarrow> unit tx" where
  "createUserFolder env dir =
     andThen (query sy_folders) (\<lambda>folders.
     if dir \<in> set folders then fail ErrUserFolderExists
     else if en_FolderError env \<noteq> None then fail FolderFailed
     else exec (\<lambda>s. s\<lparr>sy_folders := sy_folders s @ [dir]\<rparr>))"

definition removeNewUserFolder :: "string \<Rightarrow> unit tx" where
  "removeNewUserFolder dir = exec (\<lambda>s. s\<lparr>sy_folders := removeAll dir (sy_folders s)\<rparr>)"

definition orRemove :: "string \<Rightarrow> 'a tx \<Rightarrow> 'a tx" where
  "orRemove dir m =
     andThen (attempt m) (\<lambda>r. case r of
       Inr x \<Rightarrow> succeed x
     | Inl e \<Rightarrow> andThen (removeNewUserFolder dir) (\<lambda>_. fail e))"

definition insertAccount :: "AcctEnv \<Rightarrow> string \<Rightarrow> string \<Rightarrow> string \<Rightarrow> bool \<Rightarrow> Account tx" where
  "insertAccount env username displayName hash isAdmin =
     andThen (query (\<lambda>s. length (filter (\<lambda>u. ToLower (ur_Username u) = ToLower username) (sy_users s)))) (\<lambda>taken.
     if taken > 0 then fail ErrUserExists
     else if list_ex (EqualFold username) reservedFolderNames then fail ErrReservedUsername
     else if list_ex (EqualFold username) windowsDeviceNames then fail ErrWindowsDeviceName
     else
     let dataDir = userDir env username in
     andThen (createUserFolder env dataDir) (\<lambda>_.
     andThen (orRemove dataDir (allocateAccountIdentity env username)) (\<lambda>_.
     andThen (orRemove dataDir (insertUser
        \<lparr>ur_Username = username, ur_DisplayName = TrimSpace displayName, ur_PasswordHash = hash, ur_WrappedDEK = [],
         ur_DataDir = dataDir, ur_CreatedAt = Some (en_Now env), ur_LastLogin = None, ur_IsAdmin = isAdmin,
         ur_Disabled = False, ur_LastExportDirectory = []\<rparr>)) (\<lambda>_.
     succeed \<lparr>ac_Username = username, ac_DisplayName = TrimSpace displayName, ac_DataDir = dataDir,
              ac_LastExportDirectory = [], ac_CreatedAt = en_Now env, ac_LastLogin = 0, ac_IsAdmin = isAdmin,
              ac_Disabled = False\<rparr>))))"

definition auth :: "auth_error + 'a \<Rightarrow> 'a tx" where
  "auth r = (case r of Inl e \<Rightarrow> fail (AuthError e) | Inr x \<Rightarrow> succeed x)"

text \<open>
  After a failed transaction the folder is removed where this call had made it:
  \<^verbatim>\<open>insertAccount\<close> undoes its own failures, so that is when the folder is there now
  and was not before.
\<close>

definition removingFolder :: "string \<Rightarrow> 'a tx \<Rightarrow> 'a tx" where
  "removingFolder dir m =
     andThen (query sy_folders) (\<lambda>before.
     andThen (attempt m) (\<lambda>r. case r of
       Inr x \<Rightarrow> succeed x
     | Inl e \<Rightarrow> if dir \<in> set before then fail e else andThen (removeNewUserFolder dir) (\<lambda>_. fail e)))"

definition CreateAccount :: "AcctEnv \<Rightarrow> string \<Rightarrow> string \<Rightarrow> string \<Rightarrow> bool \<Rightarrow> Account tx" where
  "CreateAccount env username displayName password isAdmin =
     andThen (check (ValidateUsername username)) (\<lambda>_.
     andThen (auth (HashPassword (en_Suite env) (en_Rand env 11) password)) (\<lambda>hash.
     removingFolder (userDir env username) (inWriteTx env (insertAccount env username displayName hash isAdmin))))"

text \<open>The rule of the machine: the first account is an administrator, later ones need an administrator.\<close>

definition accountRule :: "AcctEnv \<Rightarrow> string \<Rightarrow> bool \<Rightarrow> (bool \<times> bool) tx" where
  "accountRule env caller isAdmin =
     andThen (query (\<lambda>s. length (sy_users s))) (\<lambda>existing.
     if existing = 0 then succeed (True, True)
     else andThen (attempt (accountRole caller)) (\<lambda>r.
       case r of
         Inl e \<Rightarrow> if e = ErrNoSuchUser then fail ErrNotAdmin else fail e
       | Inr (callerIsAdmin, callerDisabled) \<Rightarrow>
           if \<not> callerIsAdmin \<or> callerDisabled then fail ErrNotAdmin
           else andThen (if isAdmin then requireSuperTx env caller else succeed ()) (\<lambda>_. succeed (False, isAdmin))))"

definition createAccountTx ::
  "AcctEnv \<Rightarrow> string \<Rightarrow> string \<Rightarrow> string \<Rightarrow> string \<Rightarrow> string \<Rightarrow> string \<Rightarrow> bool \<Rightarrow> EscrowSession option \<Rightarrow> (Account \<times> Principal) tx" where
  "createAccountTx env caller username displayName hash dek wrapped isAdmin session =
     andThen (accountRule env caller isAdmin) (\<lambda>(first, admin).
     andThen (insertAccount env username displayName hash admin) (\<lambda>acc.
     andThen (recordAccountEvent env (if first then username else caller) username AccountCreated
        (if ac_IsAdmin acc then ''administrator'' else ''standard'')) (\<lambda>_.
     andThen (updateUser username (\<lambda>u. u\<lparr>ur_WrappedDEK := wrapped\<rparr>)) (\<lambda>_.
     andThen (enrollInSavepoint env username dek session) (\<lambda>_.
     andThen (query (identityOf username)) (\<lambda>row.
     case row of
       Some r \<Rightarrow> (case ai_Generation r of
           Some g \<Rightarrow> succeed (acc, \<lparr>pn_id = ai_ID r, pn_username = username, pn_generation = g\<rparr>)
         | None \<Rightarrow> fail SchemaRefused)
     | None \<Rightarrow> fail SchemaRefused))))))"

definition CreateAccountWithPrincipal ::
  "AcctEnv \<Rightarrow> string \<Rightarrow> string \<Rightarrow> string \<Rightarrow> string \<Rightarrow> bool \<Rightarrow> EscrowSession option \<Rightarrow> (Account \<times> Principal \<times> string) tx" where
  "CreateAccountWithPrincipal env caller username displayName password isAdmin session =
     andThen (check (ValidateUsername username)) (\<lambda>_.
     andThen (check (ValidatePassword password)) (\<lambda>_.
     andThen (auth (HashPassword (en_Suite env) (en_Rand env 11) password)) (\<lambda>hash.
     andThen (crypto (GenerateDEK (en_Rand env 8))) (\<lambda>dek.
     andThen (crypto (WrapKey (en_Suite env) (en_Rand env 9) (en_Rand env 10) dek password)) (\<lambda>wrapped.
     andThen (removingFolder (userDir env username)
        (inWriteTx env (createAccountTx env caller username displayName hash dek wrapped isAdmin session))) (\<lambda>(acc, principal).
     succeed (acc, principal, dek)))))))"

definition CreateAccountWithKey ::
  "AcctEnv \<Rightarrow> string \<Rightarrow> string \<Rightarrow> string \<Rightarrow> string \<Rightarrow> bool \<Rightarrow> EscrowSession option \<Rightarrow> (Account \<times> string) tx" where
  "CreateAccountWithKey env caller username displayName password isAdmin session =
     andThen (CreateAccountWithPrincipal env caller username displayName password isAdmin session) (\<lambda>(acc, _, dek).
     succeed (acc, dek))"

definition CreateAccountAs :: "AcctEnv \<Rightarrow> string \<Rightarrow> string \<Rightarrow> string \<Rightarrow> string \<Rightarrow> bool \<Rightarrow> Account tx" where
  "CreateAccountAs env caller username displayName password isAdmin =
     andThen (CreateAccountWithKey env caller username displayName password isAdmin None) (\<lambda>(acc, _). succeed acc)"

definition timeOf :: "Stamp \<Rightarrow> Time" where "timeOf st = (case st of None \<Rightarrow> 0 | Some t \<Rightarrow> t)"

definition accountOf :: "AcctEnv \<Rightarrow> UserRow \<Rightarrow> Account" where
  "accountOf env u =
     \<lparr>ac_Username = ur_Username u, ac_DisplayName = ur_DisplayName u, ac_DataDir = userDir env (ur_Username u),
      ac_LastExportDirectory = ur_LastExportDirectory u, ac_CreatedAt = timeOf (ur_CreatedAt u),
      ac_LastLogin = timeOf (ur_LastLogin u), ac_IsAdmin = ur_IsAdmin u, ac_Disabled = ur_Disabled u\<rparr>"

definition ListAccounts :: "AcctEnv \<Rightarrow> Sys \<Rightarrow> Account list" where
  "ListAccounts env s = map (accountOf env) (sort_key ur_Username (sy_users s))"

end
