(* ===== verification/AccountSuccession.thy ===== *)
theory AccountSuccession
  imports AccountAdmin
begin

text \<open>
  The super administrator role changing hands: \<^verbatim>\<open>HandOverSuper\<close>
  (\<^verbatim>\<open>internal/users/super_admin.go\<close>), \<^verbatim>\<open>SetStandby\<close>,
  \<^verbatim>\<open>TakeOverSuper\<close> and \<^verbatim>\<open>Succession\<close>
  (\<^verbatim>\<open>succession.go\<close>).
\<close>

subsection \<open>Model: handing over\<close>

definition keyDetail :: "bool \<Rightarrow> string \<Rightarrow> string \<Rightarrow> string" where
  "keyDetail passed yes no = (if passed then yes else no)"

definition moveSuper :: "AcctEnv \<Rightarrow> string \<Rightarrow> unit tx" where
  "moveSuper env target =
     andThen (references target) (\<lambda>_.
     exec (\<lambda>s. s\<lparr>sy_super := map_option (\<lambda>_. (target, Some (en_Now env))) (sy_super s)\<rparr>))"

text \<open>A target that must be an enabled administrator: \<^verbatim>\<open>ErrNotAdmin\<close> of the check is the target's.\<close>

definition requireTargetAdmin :: "string \<Rightarrow> unit tx" where
  "requireTargetAdmin target =
     andThen (attempt (requireEnabledAdmin target)) (\<lambda>r.
     case r of Inr _ \<Rightarrow> succeed () | Inl e \<Rightarrow> if e = ErrNotAdmin then fail ErrTargetNotAdmin else fail e)"

definition handOverTx :: "AcctEnv \<Rightarrow> string \<Rightarrow> string \<Rightarrow> string \<Rightarrow> bool tx" where
  "handOverTx env actor actorDEK target =
     andThen (requireSuperTx env actor) (\<lambda>_.
     if target = actor then fail ErrTargetIsSuper
     else
     andThen (requireTargetAdmin target) (\<lambda>_.
     andThen (requirePersonalKeyTx target) (\<lambda>_.
     andThen (passKeyTx env actor actorDEK target) (\<lambda>_.
     andThen (holdsActiveGrantTx target) (\<lambda>keyPassed.
     andThen (moveSuper env target) (\<lambda>_.
     andThen (clearStandbyTx env actor target ''became the super administrator'') (\<lambda>_.
     andThen (clearProtectionTx target) (\<lambda>_.
     andThen (removeGrantTx actor) (\<lambda>_.
     andThen (markRotationPendingTx env (''the super administrator role was handed to '' @ target)) (\<lambda>_.
     andThen (recordAccountEvent env actor target AccountSuperHandedOver
        (keyDetail keyPassed ''administrator key passed'' ''the administrator key could not be passed'')) (\<lambda>_.
     succeed keyPassed)))))))))))"

text \<open>A refused attestation is recorded in a transaction of its own, whose failure is only logged.\<close>

definition recordingRefusal :: "AcctEnv \<Rightarrow> string \<Rightarrow> string \<Rightarrow> 'a tx \<Rightarrow> 'a tx" where
  "recordingRefusal env2 actor username m =
     andThen (attempt m) (\<lambda>r. case r of
       Inr x \<Rightarrow> succeed x
     | Inl e \<Rightarrow>
         if e = ErrPersonalKeyNotAttested
         then andThen (attempt (inWriteTx env2 (recordAccountEvent env2 actor username AccountEscrowKeyMismatch attestMismatch))) (\<lambda>_. fail e)
         else fail e)"

definition HandOverSuper :: "AcctEnv \<Rightarrow> AcctEnv \<Rightarrow> string \<Rightarrow> string \<Rightarrow> string \<Rightarrow> bool tx" where
  "HandOverSuper env env2 actor actorDEK target =
     recordingRefusal env2 actor target (inWriteTx env (handOverTx env actor actorDEK target))"

subsection \<open>Model: the standby\<close>

text \<open>Whether the standby that is replaced held the key; its grant goes and it is cleared.\<close>

definition replaceStandby :: "AcctEnv \<Rightarrow> string \<Rightarrow> string \<Rightarrow> string \<Rightarrow> bool tx" where
  "replaceStandby env actor old standby =
     (if old = [] \<or> old = standby then succeed False
      else andThen (holdsAnyGrantTx old) (\<lambda>held.
           andThen (removeGrantTx old) (\<lambda>_.
           andThen (clearStandbyTx env actor old
              (if standby \<noteq> [] then ''replaced by '' @ standby else ''removed by the super administrator'')) (\<lambda>_.
           succeed held))))"

definition storeStandby :: "AcctEnv \<Rightarrow> string \<Rightarrow> int \<Rightarrow> Stamp \<Rightarrow> unit tx" where
  "storeStandby env standby days namedAt =
     andThen (if standby = [] then succeed () else references standby) (\<lambda>_.
     exec (\<lambda>s. s\<lparr>sy_succession := Some \<lparr>sr_Standby = (if standby = [] then None else Some standby), sr_Days = days,
        sr_ChangedAt = Some (en_Now env), sr_NamedAt = namedAt\<rparr>\<rparr>))"

definition setStandbyTx :: "AcctEnv \<Rightarrow> string \<Rightarrow> string \<Rightarrow> string \<Rightarrow> int \<Rightarrow> bool tx" where
  "setStandbyTx env actor actorDEK standby days =
     andThen (requireSuperTx env actor) (\<lambda>_.
     andThen (readSuccessionTx env) (\<lambda>st.
     andThen (if standby = [] then succeed ()
              else if standby = actor then fail ErrTargetIsSuper
              else andThen (requireTargetAdmin standby) (\<lambda>_. requirePersonalKeyTx standby)) (\<lambda>_.
     andThen (replaceStandby env actor (ss_standby st) standby) (\<lambda>oldStandbyHeld.
     andThen (if standby = [] then succeed False else passKeyTx env actor actorDEK standby) (\<lambda>_.
     andThen (storeStandby env standby days
        (if standby = [] then None else if standby \<noteq> ss_standby st then Some (en_Now env) else ss_standbyNamedAt st)) (\<lambda>_.
     andThen (if \<not> oldStandbyHeld then succeed ()
              else rotateWithOwnKeyTx env actor actorDEK [standby]
                     (''the standby '' @ ss_standby st @ (if standby \<noteq> [] then '' was replaced'' else '' was removed''))) (\<lambda>_.
     if standby \<noteq> []
     then andThen (holdsActiveGrantTx standby) (\<lambda>keyPassed.
          andThen (recordAccountEvent env actor standby AccountStandbyNamed
             (''takes over after '' @ FormatInt days @ '' days without a sign-in by the super administrator; ''
              @ keyDetail keyPassed ''administrator key passed'' ''the administrator key could not be passed'')) (\<lambda>_.
          succeed keyPassed))
     else if days \<noteq> ss_days st
     then andThen (recordAccountEvent env actor actor AccountTakeoverPeriodChanged (FormatInt days @ '' days'')) (\<lambda>_. succeed False)
     else succeed False)))))))"

definition SetStandby :: "AcctEnv \<Rightarrow> AcctEnv \<Rightarrow> string \<Rightarrow> string \<Rightarrow> string \<Rightarrow> int \<Rightarrow> bool tx" where
  "SetStandby env env2 actor actorDEK standby days =
     (if days < MinTakeoverDays \<or> days > MaxTakeoverDays then fail ErrTakeoverPeriod
      else recordingRefusal env2 actor standby (inWriteTx env (setStandbyTx env actor actorDEK standby days)))"

subsection \<open>Model: taking over\<close>

definition protect :: "AcctEnv \<Rightarrow> string \<Rightarrow> TakeoverReason \<Rightarrow> string \<Rightarrow> string \<Rightarrow> unit tx" where
  "protect env former reason note0 actor =
     andThen (references former) (\<lambda>_.
     exec (\<lambda>s. s\<lparr>sy_protection := upsertBy pr_Username
        \<lparr>pr_Username = former, pr_Reason = tr_Code reason, pr_Note = note0,
         pr_Until = Some (addDays (en_Now env) (tr_Days reason)), pr_TakenOverBy = actor,
         pr_CreatedAt = Some (en_Now env)\<rparr> (sy_protection s)\<rparr>))"

definition takeoverDetail :: "AcctEnv \<Rightarrow> successionState \<Rightarrow> string \<Rightarrow> TakeoverReason \<Rightarrow> string \<Rightarrow> bool \<Rightarrow> string" where
  "takeoverDetail env st actor reason note0 keyHeld =
     Join ([if ss_lastActive st = 0 then ''no sign-in on record''
            else ''no sign-in for at least '' @ FormatInt (wholeDaysSince (ss_lastActive st) (en_Now env)) @ '' days'']
       @ (if ss_standby st \<noteq> [] \<and> actor \<noteq> ss_standby st
          then [''the standby, '' @ ss_standby st @ '', had no sign-in for at least ''
                 @ FormatInt (wholeDaysSince (ss_standbyLastActive st) (en_Now env)) @ '' days''] else [])
       @ [''reason: '' @ tr_Label reason @ (if note0 \<noteq> [] then '': '' @ note0 else []),
          keyDetail keyHeld ''administrator key held'' ''the new super administrator does not hold the administrator key''])
       ''; ''"

definition takeOverTx :: "AcctEnv \<Rightarrow> string \<Rightarrow> string \<Rightarrow> TakeoverReason \<Rightarrow> string \<Rightarrow> bool tx" where
  "takeOverTx env actor actorDEK reason note0 =
     andThen (requireEnabledAdmin actor) (\<lambda>_.
     andThen (readSuccessionTx env) (\<lambda>st.
     andThen (check (takeoverRefusal st actor (en_Now env))) (\<lambda>_.
     andThen (moveSuper env actor) (\<lambda>_.
     andThen (clearStandbyTx env actor actor ''became the super administrator'') (\<lambda>_.
     andThen (holdsAnyGrantTx (ss_super st)) (\<lambda>formerHeld.
     andThen (removeGrantTx (ss_super st)) (\<lambda>_.
     andThen (clearProtectionTx actor) (\<lambda>_.
     andThen (protect env (ss_super st) reason note0 actor) (\<lambda>_.
     andThen (attempt (openGrantTx env actor actorDEK)) (\<lambda>r.
     andThen (case r of Inr ss \<Rightarrow> succeed (Some ss) | Inl e \<Rightarrow> if noUsableGrant e then succeed None else fail e) (\<lambda>session.
     andThen (recordAccountEvent env actor (ss_super st) AccountSuperTakenOver
        (takeoverDetail env st actor reason note0 (session \<noteq> None))) (\<lambda>_.
     andThen (if \<not> formerHeld then succeed ()
              else let rotation = ''the super administrator role was taken over from '' @ ss_super st in
                case session of
                  None \<Rightarrow> markRotationPendingTx env rotation
                | Some ss \<Rightarrow> andThen (rotateInSavepointTx env ss actor actorDEK [] rotation) (\<lambda>_. succeed ())) (\<lambda>_.
     succeed (session \<noteq> None))))))))))))))"

definition TakeOverSuper :: "AcctEnv \<Rightarrow> string \<Rightarrow> string \<Rightarrow> string \<Rightarrow> string \<Rightarrow> bool tx" where
  "TakeOverSuper env actor actorDEK reasonCode note0 =
     (case takeoverReason reasonCode of
        None \<Rightarrow> fail ErrTakeoverReason
      | Some reason \<Rightarrow>
         (let note1 = TrimSpace note0 in
          if RuneCount note1 > MaxTakeoverNoteLength then fail ErrTakeoverNoteTooLong
          else if tr_Code reason = ''other'' \<and> note1 = [] then fail ErrTakeoverNoteRequired
          else inWriteTx env (takeOverTx env actor actorDEK reason note1)))"

subsection \<open>Model: the roles as an administrator sees them\<close>

record Succession =
  su_Super :: string
  su_Standby :: string
  su_StandbyHoldsKey :: bool
  su_TakeoverDays :: int
  su_SuperInactiveDays :: int
  su_StandbyInactiveDays :: int
  su_Protections :: "(string \<times> string \<times> Time) list"
  su_CanTakeOver :: bool
  su_SuperHoldsKey :: bool
  su_RotationPending :: bool
  su_RecoveryCodeExists :: bool
  su_RecoveryCodeConfirmed :: bool

definition recoveryStateTx :: "(bool \<times> bool) tx" where
  "recoveryStateTx =
     andThen activeEscrowKey (\<lambda>k.
     case k of
       None \<Rightarrow> succeed (False, False)
     | Some active \<Rightarrow> query (\<lambda>s. case rowBy er_KeyID (ek_ID active) (sy_recovery s) of
         None \<Rightarrow> (False, False) | Some r \<Rightarrow> (True, er_Confirmed r)))"

definition successionTx :: "AcctEnv \<Rightarrow> string \<Rightarrow> Succession tx" where
  "successionTx env actor =
     andThen (requireEnabledAdmin actor) (\<lambda>_.
     andThen (readSuccessionTx env) (\<lambda>st.
     andThen (if ss_standby st = [] then succeed False else holdsActiveGrantTx (ss_standby st)) (\<lambda>standbyHolds.
     andThen (if ss_super st = [] then succeed False else holdsActiveGrantTx (ss_super st)) (\<lambda>superHolds.
     andThen rotationPendingTx (\<lambda>reason.
     andThen recoveryStateTx (\<lambda>(exists, confirmed).
     andThen (activeProtectionsTx (en_Now env)) (\<lambda>protections.
     succeed \<lparr>su_Super = ss_super st, su_Standby = ss_standby st, su_StandbyHoldsKey = standbyHolds,
        su_TakeoverDays = ss_days st, su_SuperInactiveDays = wholeDaysSince (ss_lastActive st) (en_Now env),
        su_StandbyInactiveDays = wholeDaysSince (ss_standbyLastActive st) (en_Now env), su_Protections = protections,
        su_CanTakeOver = (takeoverRefusal st actor (en_Now env) = Inr ()), su_SuperHoldsKey = superHolds,
        su_RotationPending = (reason \<noteq> []), su_RecoveryCodeExists = exists, su_RecoveryCodeConfirmed = confirmed\<rparr>)))))))"

definition GetSuccession :: "AcctEnv \<Rightarrow> string \<Rightarrow> Succession tx" where
  "GetSuccession env actor = inWriteTx env (successionTx env actor)"

end
