(* ===== verification/EscrowAccess.thy ===== *)
theory EscrowAccess
  imports AccountSuccession
begin

text \<open>
  Using the administrator key: the recorded access of
  \<^verbatim>\<open>internal/users/escrow_access.go\<close>, the sign-in notices of
  \<^verbatim>\<open>access_notice.go\<close> and the recovery code of the key
  (\<^verbatim>\<open>escrow_recovery.go\<close>). A transaction that commits a recorded refusal returns
  it as a value (\<open>Inl\<close>), which becomes the error of the call after the commit.
\<close>

definition afterCommit :: "AcctEnv \<Rightarrow> (users_error + 'a) tx \<Rightarrow> 'a tx" where
  "afterCommit env m = andThen (inWriteTx env m) check"

subsection \<open>Model: access to another account's data\<close>

definition MaxAccessReasonLength :: nat where "MaxAccessReasonLength = 500"

definition openUserTx :: "AcctEnv \<Rightarrow> string \<Rightarrow> string \<Rightarrow> string \<Rightarrow> string \<Rightarrow> (users_error + string) tx" where
  "openUserTx env actor actorDEK target reason =
     andThen (requireSuperTx env actor) (\<lambda>_.
     andThen (accountRole target) (\<lambda>_.
     andThen activeEscrowKey (\<lambda>k.
     case k of
       None \<Rightarrow> fail ErrNotEnrolled
     | Some active \<Rightarrow>
         andThen (query (\<lambda>s. List.find (\<lambda>r. sd_Username r = target \<and> sd_KeyID r = ek_ID active) (sy_sealed s))) (\<lambda>row.
         case row of
           None \<Rightarrow> fail ErrNotEnrolled
         | Some r \<Rightarrow>
             andThen (attempt (openGrantTx env actor actorDEK)) (\<lambda>g.
             case g of
               Inl e \<Rightarrow> if e = ErrEscrowMismatch then succeed (Inl e) else fail e
             | Inr session \<Rightarrow>
                (case OpenDEK (en_Suite env) (es_private session) (es_id session) target (sd_Sealed r) of
                   Inl _ \<Rightarrow>
                     andThen (exec (\<lambda>s. s\<lparr>sy_sealed := deleteBy sd_Username target (sy_sealed s)\<rparr>)) (\<lambda>_.
                     andThen (exec (\<lambda>s. s\<lparr>sy_pins := deleteBy ep_Username target (sy_pins s)\<rparr>)) (\<lambda>_.
                     andThen (recordAccountEvent env target target AccountEscrowKeyMismatch sealedMismatch) (\<lambda>_.
                     succeed (Inl ErrEscrowMismatch))))
                 | Inr opened \<Rightarrow>
                     andThen (recordAccountEvent env actor target AccountAdminAccess reason) (\<lambda>_. succeed (Inr opened))))))))"

definition OpenUserForAdmin :: "AcctEnv \<Rightarrow> string \<Rightarrow> string \<Rightarrow> string \<Rightarrow> string \<Rightarrow> string tx" where
  "OpenUserForAdmin env actor actorDEK target reason0 =
     (let reason = TrimSpace reason0 in
      if reason = [] then fail ErrAccessReasonRequired
      else if RuneCount reason > MaxAccessReasonLength then fail ErrAccessReasonTooLong
      else if EqualFold actor target then fail ErrSelfAccess
      else afterCommit env (openUserTx env actor actorDEK target reason))"

text \<open>\<^verbatim>\<open>OpenEscrow\<close>: a mismatch is committed.\<close>

definition OpenEscrow :: "AcctEnv \<Rightarrow> string \<Rightarrow> string \<Rightarrow> EscrowSession tx" where
  "OpenEscrow env admin dek = afterCommit env (
     andThen (attempt (openGrantTx env admin dek)) (\<lambda>r.
     case r of Inl e \<Rightarrow> if e = ErrEscrowMismatch then succeed (Inl e) else fail e | Inr ss \<Rightarrow> succeed (Inr ss)))"

subsection \<open>Model: notices\<close>

definition noticeFilter :: "AccountEvent \<Rightarrow> bool" where
  "noticeFilter e \<longleftrightarrow> av_Action e = AccountAdminAccess \<or> av_Action e = AccountEscrowKeyNew \<and> av_Actor e \<noteq> av_Username e"

definition AccessHistory :: "string \<Rightarrow> Sys \<Rightarrow> AccountEvent list" where
  "AccessHistory username s =
     rev (filter (\<lambda>e. av_Username e = username \<and> av_Action e = AccountAdminAccess) (sy_events s))"

definition acknowledged :: "string \<Rightarrow> Sys \<Rightarrow> int" where
  "acknowledged username s = (case rowBy fst username (sy_notices s) of None \<Rightarrow> 0 | Some (_, n) \<Rightarrow> n)"

definition UnreadAccessNotices :: "string \<Rightarrow> Sys \<Rightarrow> AccountEvent list" where
  "UnreadAccessNotices username s =
     rev (filter (\<lambda>e. av_Username e = username \<and> noticeFilter e \<and> av_ID e > acknowledged username s) (sy_events s))"

definition noticeReadDetail :: "nat \<Rightarrow> nat \<Rightarrow> string" where
  "noticeReadDetail accesses keys =
     Join ((if accesses = 1 then [''1 access''] else if accesses > 1 then [format_nat accesses @ '' accesses''] else [])
         @ (if keys = 1 then [''1 new administrator key''] else if keys > 1 then [format_nat keys @ '' new administrator keys''] else []))
       '' and ''"

definition AcknowledgeAccessNotices :: "AcctEnv \<Rightarrow> string \<Rightarrow> int \<Rightarrow> unit tx" where
  "AcknowledgeAccessNotices env username throughID = inWriteTx env (
     andThen (query (\<lambda>s. list_ex (\<lambda>e. av_ID e = throughID \<and> av_Username e = username \<and> noticeFilter e) (sy_events s))) (\<lambda>exists.
     if \<not> exists then fail ErrAcknowledgeUnknownAccess
     else andThen (query (acknowledged username)) (\<lambda>current.
       if throughID \<le> current then succeed ()
       else andThen (query (\<lambda>s. filter (\<lambda>e. av_Username e = username \<and> noticeFilter e \<and> av_ID e > current \<and> av_ID e \<le> throughID) (sy_events s))) (\<lambda>seen.
            andThen (references username) (\<lambda>_.
            andThen (exec (\<lambda>s. s\<lparr>sy_notices := upsertBy fst (username, throughID) (sy_notices s)\<rparr>)) (\<lambda>_.
            recordAccountEvent env username username AccountAccessNoticeRead
              (noticeReadDetail (length (filter (\<lambda>e. av_Action e = AccountAdminAccess) seen))
                                (length (filter (\<lambda>e. av_Action e = AccountEscrowKeyNew) seen)))))))))"

subsection \<open>Model: recovery codes as text\<close>

text \<open>
  \<^verbatim>\<open>canonicalise\<close>: upper case, without white space and dashes. A byte that starts no
  valid encoding becomes U+FFFD. The upper case of U+0131 is I and that of U+017F is S; other
  letters beyond ASCII, which no code contains, keep their case.
\<close>

fun canonicalChunk :: "chunk \<Rightarrow> string" where
  "canonicalChunk (Ascii c) = (if c = CHR ''-'' \<or> [c] \<in> set space_encodings then [] else [upper_byte c])"
| "canonicalChunk (Rune r) =
     (if r \<in> set space_encodings then []
      else if r = [CHR 0xC4, CHR 0xB1] then ''I'' else if r = [CHR 0xC5, CHR 0xBF] then ''S'' else r)"
| "canonicalChunk Invalid = [CHR 0xEF, CHR 0xBF, CHR 0xBD]"

definition canonicalise :: "string \<Rightarrow> string" where
  "canonicalise s = concat (map canonicalChunk (chunks s))"

definition showCode :: "string \<Rightarrow> string" where
  "showCode enc = take 8 enc @ ''-'' @ take 8 (drop 8 enc) @ ''-'' @ take 8 (drop 16 enc) @ ''-'' @ take 8 (drop 24 enc)"

definition newEscrowRecoveryCode :: "string option \<Rightarrow> crypto_error + string \<times> string" where
  "newEscrowRecoveryCode rnd = and_then (drawn rnd) (\<lambda>raw. Inr (raw, showCode (rawBase32 raw)))"

definition lookalike :: "char \<Rightarrow> char" where
  "lookalike c = (if c = CHR ''0'' then CHR ''O'' else if c = CHR ''1'' then CHR ''I'' else if c = CHR ''8'' then CHR ''B'' else c)"

definition parseEscrowRecoveryCode :: "string \<Rightarrow> users_error + string" where
  "parseEscrowRecoveryCode typed =
     (let c = map lookalike (canonicalise typed) in
      if length c \<noteq> 32 then Inl ErrInvalidEscrowRecoveryCode
      else case fromRawBase32 c of
        None \<Rightarrow> Inl ErrInvalidEscrowRecoveryCode
      | Some raw \<Rightarrow> if length raw \<noteq> EscrowRecoveryCodeSize then Inl ErrInvalidEscrowRecoveryCode else Inr raw)"

subsection \<open>Model: recovering the key\<close>

definition CreateEscrowRecoveryCode :: "AcctEnv \<Rightarrow> string \<Rightarrow> string \<Rightarrow> string tx" where
  "CreateEscrowRecoveryCode env actor dek = afterCommit env (
     andThen (requireSuperTx env actor) (\<lambda>_.
     andThen (attempt (openGrantTx env actor dek)) (\<lambda>r.
     case r of
       Inl e \<Rightarrow> if noUsableGrant e then succeed (Inl ErrNoEscrowGrant) else fail e
     | Inr session \<Rightarrow>
         andThen (crypto (newEscrowRecoveryCode (en_Rand env 7))) (\<lambda>(raw, display).
         andThen (crypto (WrapEscrowRecovery (en_Suite env) (en_Rand env 6) raw (es_id session) (es_private session))) (\<lambda>wrapped.
         andThen (query sy_recovery) (\<lambda>earlier.
         andThen (exec (\<lambda>s. s\<lparr>sy_recovery := [\<lparr>er_KeyID = es_id session, er_Wrapped = wrapped, er_Confirmed = False,
            er_CreatedAt = Some (en_Now env), er_CreatedBy = actor\<rparr>]\<rparr>)) (\<lambda>_.
         andThen (recordAccountEvent env actor actor AccountEscrowRecoveryCreated
            (if earlier \<noteq> [] then ''replaces the earlier one'' else [])) (\<lambda>_.
         succeed (Inr display)))))))))"

definition openRecoveryTx :: "AcctEnv \<Rightarrow> string \<Rightarrow> (EscrowKey \<times> string) tx" where
  "openRecoveryTx env typed =
     andThen activeEscrowKey (\<lambda>k.
     case k of
       None \<Rightarrow> fail ErrNoRecoveryCode
     | Some active \<Rightarrow>
         andThen (query (\<lambda>s. rowBy er_KeyID (ek_ID active) (sy_recovery s))) (\<lambda>row.
         case row of
           None \<Rightarrow> fail ErrNoRecoveryCode
         | Some r \<Rightarrow>
             andThen (check (parseEscrowRecoveryCode typed)) (\<lambda>raw.
             case OpenEscrowRecovery (en_Suite env) raw (ek_ID active) (er_Wrapped r) of
               Inl _ \<Rightarrow> fail ErrInvalidEscrowRecoveryCode
             | Inr priv \<Rightarrow> succeed (active, priv))))"

definition CheckEscrowRecoveryCode :: "AcctEnv \<Rightarrow> string \<Rightarrow> string \<Rightarrow> unit tx" where
  "CheckEscrowRecoveryCode env actor typed = inWriteTx env (
     andThen (requireSuperTx env actor) (\<lambda>_. andThen (openRecoveryTx env typed) (\<lambda>_. succeed ())))"

definition ConfirmEscrowRecoveryCode :: "AcctEnv \<Rightarrow> string \<Rightarrow> string \<Rightarrow> unit tx" where
  "ConfirmEscrowRecoveryCode env actor typed = inWriteTx env (
     andThen (requireSuperTx env actor) (\<lambda>_.
     andThen (openRecoveryTx env typed) (\<lambda>(active, _).
     exec (\<lambda>s. s\<lparr>sy_recovery := modifyBy er_KeyID (ek_ID active) (\<lambda>r. r\<lparr>er_Confirmed := True\<rparr>) (sy_recovery s)\<rparr>))))"

definition refuse :: "AcctEnv \<Rightarrow> string \<Rightarrow> users_error \<Rightarrow> string \<Rightarrow> (users_error + unit) tx" where
  "refuse env actor err detail =
     andThen (recordAccountEvent env actor actor AccountEscrowKeyMismatch detail) (\<lambda>_. succeed (Inl err))"

definition restoreKeyTx :: "AcctEnv \<Rightarrow> string \<Rightarrow> string \<Rightarrow> EscrowKey \<Rightarrow> string \<Rightarrow> string \<Rightarrow> (users_error + unit) tx" where
  "restoreKeyTx env actor dek active derived priv =
     andThen (ensurePersonalKey env actor dek) (\<lambda>(_, personal).
     let session = \<lparr>es_id = ek_ID active, es_public = derived, es_private = priv\<rparr> in
     andThen (attestTx env session actor personal) (\<lambda>_.
     andThen (grantTx env session actor personal) (\<lambda>_.
     andThen (recordAccountEvent env actor actor AccountEscrowRecovered []) (\<lambda>_.
     andThen (runPendingRotationTx env session actor dek) (\<lambda>_. succeed (Inr ()))))))"

definition recoverEscrowKeyTx :: "AcctEnv \<Rightarrow> string \<Rightarrow> string \<Rightarrow> string \<Rightarrow> (users_error + unit) tx" where
  "recoverEscrowKeyTx env actor dek typed =
     andThen (requireSuperTx env actor) (\<lambda>_.
     andThen (attempt (openRecoveryTx env typed)) (\<lambda>r.
     case r of
       Inl e \<Rightarrow>
         if e = ErrInvalidEscrowRecoveryCode
         then refuse env actor e ''a recovery code that does not open the administrator key was entered''
         else fail e
     | Inr (active, priv) \<Rightarrow>
        (case EscrowPublicKey (en_Suite env) priv of
           Inl _ \<Rightarrow> refuse env actor ErrEscrowMismatch ''the recovery code opened something that is not an administrator key''
         | Inr derived \<Rightarrow>
             andThen (query (\<lambda>s. rowBy ep_Username actor (sy_pins s))) (\<lambda>row.
             case row of
               None \<Rightarrow> refuse env actor ErrEscrowMismatch
                 ''the super administrator's account does not yet trust this administrator key; sign in again, then use the recovery code''
             | Some p \<Rightarrow>
                 if ep_KeyID p \<noteq> ek_ID active
                 then refuse env actor ErrEscrowMismatch
                   ''the super administrator's account does not yet trust this administrator key; sign in again, then use the recovery code''
                 else andThen (crypto (VerifyEscrowPin (en_Suite env) dek actor (ek_ID active) derived (ep_Pin p))) (\<lambda>ok.
                   if \<not> ok then refuse env actor ErrEscrowMismatch
                     ''the key the recovery code opened is not the administrator key this account trusts''
                   else if derived \<noteq> ek_Public active then refuse env actor ErrEscrowMismatch
                     ''system.db's record of the administrator key was changed outside GoPMgr''
                   else restoreKeyTx env actor dek active derived priv)))))"

definition RecoverEscrowKey :: "AcctEnv \<Rightarrow> string \<Rightarrow> string \<Rightarrow> string \<Rightarrow> unit tx" where
  "RecoverEscrowKey env actor dek typed = afterCommit env (recoverEscrowKeyTx env actor dek typed)"

end
