(* ===== verification/Credentials.thy ===== *)
theory Credentials
  imports EscrowAccess
begin

text \<open>
  Passwords and recovery codes: the sign-in of \<^verbatim>\<open>internal/users/credentials.go\<close>,
  \<^verbatim>\<open>password_change.go\<close>, \<^verbatim>\<open>recovery.go\<close>,
  \<^verbatim>\<open>recovery_rotation.go\<close> and \<^verbatim>\<open>dek.go\<close>. The slow password work runs
  between a read and the transaction that writes; \<open>other i\<close> is what other processes do
  to the database in between, in attempt \<open>i\<close>. Random draws: 8 a DEK, 9 and 10 salt and
  nonce of a key wrap, 11 the salt of a password hash, from 20 on those of recovery codes.
\<close>

subsection \<open>Model: reading credentials\<close>

record credentialRow =
  cw_account :: Account
  cw_id :: string
  cw_generation :: int
  cw_hash :: string
  cw_wrapped :: string

record credentialWork =
  wk_dek :: string
  wk_newHash :: string
  wk_newWrap :: string

definition credentialOf :: "AcctEnv \<Rightarrow> UserRow \<Rightarrow> IdentityRow option \<Rightarrow> credentialRow" where
  "credentialOf env u row =
     \<lparr>cw_account = accountOf env u, cw_id = (case row of None \<Rightarrow> [] | Some r \<Rightarrow> ai_ID r),
      cw_generation = (case Option.bind row ai_Generation of None \<Rightarrow> 0 | Some g \<Rightarrow> g),
      cw_hash = ur_PasswordHash u, cw_wrapped = ur_WrappedDEK u\<rparr>"

definition readCredentialRow :: "AcctEnv \<Rightarrow> string \<Rightarrow> credentialRow tx" where
  "readCredentialRow env username =
     andThen (query (\<lambda>s. (userRow username s, identityOf username s))) (\<lambda>(u, row).
     case u of None \<Rightarrow> fail ErrNoSuchUser | Some u \<Rightarrow> succeed (credentialOf env u row))"

definition checkPassword :: "AcctEnv \<Rightarrow> credentialRow \<Rightarrow> string \<Rightarrow> users_error + unit" where
  "checkPassword env snapshot password =
     (case VerifyPassword (en_Suite env) password (cw_hash snapshot) of
        Inl e \<Rightarrow> Inl (AuthError e)
      | Inr _ \<Rightarrow> if cw_id snapshot = [] then Inl ErrAccountIdentity else Inr ())"

definition cryptoErr :: "crypto_error + 'a \<Rightarrow> users_error + 'a" where
  "cryptoErr r = (case r of Inl e \<Rightarrow> Inl (CryptoError e) | Inr x \<Rightarrow> Inr x)"

definition authErr :: "auth_error + 'a \<Rightarrow> users_error + 'a" where
  "authErr r = (case r of Inl e \<Rightarrow> Inl (AuthError e) | Inr x \<Rightarrow> Inr x)"

definition unlockKey :: "AcctEnv \<Rightarrow> credentialRow \<Rightarrow> string \<Rightarrow> users_error + credentialWork" where
  "unlockKey env snapshot password =
     (if cw_wrapped snapshot \<noteq> []
      then and_then (cryptoErr (UnwrapKey (en_Suite env) (cw_wrapped snapshot) password)) (\<lambda>dek.
           Inr \<lparr>wk_dek = dek, wk_newHash = [], wk_newWrap = []\<rparr>)
      else and_then (cryptoErr (GenerateDEK (en_Rand env 8))) (\<lambda>dek.
           and_then (cryptoErr (WrapKey (en_Suite env) (en_Rand env 9) (en_Rand env 10) dek password)) (\<lambda>wrap.
           Inr \<lparr>wk_dek = dek, wk_newHash = [], wk_newWrap = wrap\<rparr>)))"

definition prepareSignIn :: "AcctEnv \<Rightarrow> credentialRow \<Rightarrow> string \<Rightarrow> users_error + credentialWork" where
  "prepareSignIn env snapshot password =
     and_then (checkPassword env snapshot password) (\<lambda>_.
     if ac_Disabled (cw_account snapshot) then Inl ErrAccountDisabled
     else and_then (if NeedsRehash (cw_hash snapshot) then authErr (HashPassword (en_Suite env) (en_Rand env 11) password) else Inr []) (\<lambda>newHash.
          and_then (unlockKey env snapshot password) (\<lambda>w. Inr (w\<lparr>wk_newHash := newHash\<rparr>))))"

subsection \<open>Model: signing in\<close>

definition requireSameCredentialsTx :: "AcctEnv \<Rightarrow> credentialRow \<Rightarrow> credentialRow tx" where
  "requireSameCredentialsTx env snapshot =
     andThen (readCredentialRow env (ac_Username (cw_account snapshot))) (\<lambda>now.
     if cw_id now \<noteq> cw_id snapshot then fail ErrNoSuchUser
     else if cw_hash now \<noteq> cw_hash snapshot \<or> cw_wrapped now \<noteq> cw_wrapped snapshot then fail ErrStaleCredentials
     else if ac_Disabled (cw_account now) then fail ErrAccountDisabled
     else succeed now)"

text \<open>\<^verbatim>\<open>UPDATE users ... WHERE username = ? AND ...\<close>, which must change one row.\<close>

definition updateUserIf :: "string \<Rightarrow> (UserRow \<Rightarrow> bool) \<Rightarrow> (UserRow \<Rightarrow> UserRow) \<Rightarrow> users_error \<Rightarrow> unit tx" where
  "updateUserIf username p f err =
     andThen (query (userRow username)) (\<lambda>u.
     if (case u of None \<Rightarrow> False | Some u \<Rightarrow> p u) then updateUser username f else fail err)"

definition storeCredentialWorkTx :: "string \<Rightarrow> credentialRow \<Rightarrow> credentialWork \<Rightarrow> unit tx" where
  "storeCredentialWorkTx username snapshot w =
     andThen (if wk_newHash w = [] then succeed ()
              else updateUserIf username (\<lambda>u. ur_PasswordHash u = cw_hash snapshot)
                     (\<lambda>u. u\<lparr>ur_PasswordHash := wk_newHash w\<rparr>) ErrStaleCredentials) (\<lambda>_.
     if wk_newWrap w = [] then succeed ()
     else updateUserIf username (\<lambda>u. ur_WrappedDEK u = []) (\<lambda>u. u\<lparr>ur_WrappedDEK := wk_newWrap w\<rparr>) ErrStaleCredentials)"

definition generationTx :: "string \<Rightarrow> int tx" where
  "generationTx username =
     andThen (query (identityOf username)) (\<lambda>row.
     case Option.bind row ai_Generation of None \<Rightarrow> fail SchemaRefused | Some g \<Rightarrow> succeed g)"

definition signInTx :: "AcctEnv \<Rightarrow> string \<Rightarrow> credentialRow \<Rightarrow> credentialWork \<Rightarrow> bool \<Rightarrow> (Account \<times> Principal) tx" where
  "signInTx env username snapshot work adminSession =
     andThen (requireSameCredentialsTx env snapshot) (\<lambda>now.
     andThen (updateUser username (\<lambda>u. u\<lparr>ur_LastLogin := Some (en_Now env)\<rparr>)) (\<lambda>_.
     andThen (storeCredentialWorkTx username snapshot work) (\<lambda>_.
     andThen (if adminSession
              then andThen (savepoint (enrollAdminSessionTx env username (wk_dek work))) (\<lambda>_. succeed ())
              else if wk_newWrap work \<noteq> []
              then andThen (savepoint (enrollTx env username (wk_dek work) None)) (\<lambda>_. succeed ())
              else succeed ()) (\<lambda>_.
     andThen (generationTx username) (\<lambda>generation.
     succeed (cw_account now, \<lparr>pn_id = cw_id now, pn_username = username, pn_generation = generation\<rparr>))))))"

definition signInAttempts :: nat where "signInAttempts = 3"

type_synonym others = "nat \<Rightarrow> Sys \<Rightarrow> Sys"

fun signInLoop :: "nat \<Rightarrow> nat \<Rightarrow> (nat \<Rightarrow> AcctEnv) \<Rightarrow> others \<Rightarrow> string \<Rightarrow> string \<Rightarrow> bool \<Rightarrow> (Account \<times> Principal \<times> string) tx" where
  "signInLoop 0 i envs other username password adminSession = fail ErrSignInContended"
| "signInLoop (Suc n) i envs other username password adminSession =
     andThen (readCredentialRow (envs i) username) (\<lambda>snapshot.
     andThen (check (prepareSignIn (envs i) snapshot password)) (\<lambda>work.
     andThen (exec (other i)) (\<lambda>_.
     andThen (attempt (inWriteTx (envs i) (signInTx (envs i) username snapshot work adminSession))) (\<lambda>r.
     case r of
       Inr (acc, who) \<Rightarrow> succeed (acc, who, wk_dek work)
     | Inl e \<Rightarrow> if e = ErrStaleCredentials then signInLoop n (Suc i) envs other username password adminSession else fail e))))"

definition signIn :: "(nat \<Rightarrow> AcctEnv) \<Rightarrow> others \<Rightarrow> string \<Rightarrow> string \<Rightarrow> bool \<Rightarrow> (Account \<times> Principal \<times> string) tx" where
  "signIn envs other username password adminSession =
     (if ValidateUsername username \<noteq> Inr () then fail ErrNoSuchUser
      else signInLoop signInAttempts 0 envs other username password adminSession)"

definition SignIn :: "(nat \<Rightarrow> AcctEnv) \<Rightarrow> others \<Rightarrow> string \<Rightarrow> string \<Rightarrow> (Account \<times> Principal \<times> string) tx" where
  "SignIn envs other username password = signIn envs other username password True"

definition SignInHeadless :: "(nat \<Rightarrow> AcctEnv) \<Rightarrow> others \<Rightarrow> string \<Rightarrow> string \<Rightarrow> (Account \<times> Principal \<times> string) tx" where
  "SignInHeadless envs other username password = signIn envs other username password False"

subsection \<open>Model: changing the password\<close>

definition ChangePassword :: "AcctEnv \<Rightarrow> others \<Rightarrow> string \<Rightarrow> string \<Rightarrow> string \<Rightarrow> unit tx" where
  "ChangePassword env other username currentPassword newPassword =
     (if ValidateUsername username \<noteq> Inr () then fail ErrNoSuchUser
      else andThen (check (ValidatePassword newPassword)) (\<lambda>_.
      andThen (query (userRow username)) (\<lambda>u.
      case u of
        None \<Rightarrow> fail ErrNoSuchUser
      | Some u \<Rightarrow>
          andThen (auth (VerifyPassword (en_Suite env) currentPassword (ur_PasswordHash u))) (\<lambda>_.
          if ur_WrappedDEK u = [] then fail ErrPasswordWrapCorrupt
          else case UnwrapKey (en_Suite env) (ur_WrappedDEK u) currentPassword of
            Inl _ \<Rightarrow> fail ErrPasswordWrapCorrupt
          | Inr dek \<Rightarrow>
              andThen (crypto (WrapKey (en_Suite env) (en_Rand env 9) (en_Rand env 10) dek newPassword)) (\<lambda>newWrap.
              andThen (auth (HashPassword (en_Suite env) (en_Rand env 11) newPassword)) (\<lambda>newHash.
              andThen (exec (other 0)) (\<lambda>_.
              updateUserIf username (\<lambda>v. ur_PasswordHash v = ur_PasswordHash u \<and> ur_WrappedDEK v = ur_WrappedDEK u)
                (\<lambda>v. v\<lparr>ur_PasswordHash := newHash, ur_WrappedDEK := newWrap\<rparr>) ErrPasswordChangedElsewhere)))))))"

subsection \<open>Model: recovery codes\<close>

definition RecoveryCodeCount :: nat where "RecoveryCodeCount = 8"

record recoveryCodeSet =
  cs_plain :: "string list"
  cs_hashes :: "string list"
  cs_wraps :: "string list"

definition generateCode :: "string option \<Rightarrow> crypto_error + string" where
  "generateCode rnd = and_then (drawn rnd) (\<lambda>buf.
     let enc = rawBase32 buf in if length enc < 16 then Inr enc else Inr (take 8 enc @ ''-'' @ take 8 (drop 8 enc)))"

text \<open>The codes \<open>i\<close> to \<open>i + n - 1\<close>; without a DEK they carry no wrap.\<close>

fun newRecoveryCodes :: "AcctEnv \<Rightarrow> string option \<Rightarrow> nat \<Rightarrow> nat \<Rightarrow> users_error + recoveryCodeSet" where
  "newRecoveryCodes env dek i 0 = Inr \<lparr>cs_plain = [], cs_hashes = [], cs_wraps = []\<rparr>"
| "newRecoveryCodes env dek i (Suc n) =
     and_then (cryptoErr (generateCode (en_Rand env (20 + 4 * i)))) (\<lambda>code.
     and_then (authErr (HashPassword (en_Suite env) (en_Rand env (21 + 4 * i)) (canonicalise code))) (\<lambda>hash.
     and_then (case dek of
         None \<Rightarrow> Inr []
       | Some d \<Rightarrow> cryptoErr (WrapKey (en_Suite env) (en_Rand env (22 + 4 * i)) (en_Rand env (23 + 4 * i)) d (canonicalise code))) (\<lambda>wrap.
     and_then (newRecoveryCodes env dek (Suc i) n) (\<lambda>rest.
     Inr \<lparr>cs_plain = code # cs_plain rest, cs_hashes = hash # cs_hashes rest, cs_wraps = wrap # cs_wraps rest\<rparr>))))"

definition newRecoveryCodeSet :: "AcctEnv \<Rightarrow> string option \<Rightarrow> users_error + recoveryCodeSet" where
  "newRecoveryCodeSet env dek = newRecoveryCodes env dek 0 RecoveryCodeCount"

definition insertCode :: "AcctEnv \<Rightarrow> string \<Rightarrow> string \<times> string \<Rightarrow> unit tx" where
  "insertCode env username hw =
     andThen (references username) (\<lambda>_.
     exec (\<lambda>s. s\<lparr>sy_codes := sy_codes s @ [\<lparr>rc_ID = sy_nextCode s, rc_Username = username, rc_Hash = fst hw, rc_Used = False,
        rc_UsedAt = None, rc_CreatedAt = Some (en_Now env), rc_WrappedDEK = snd hw\<rparr>], sy_nextCode := sy_nextCode s + 1\<rparr>))"

definition replaceRecoveryCodes :: "AcctEnv \<Rightarrow> string \<Rightarrow> recoveryCodeSet \<Rightarrow> unit tx" where
  "replaceRecoveryCodes env username codes =
     andThen (exec (\<lambda>s. s\<lparr>sy_codes := deleteBy rc_Username username (sy_codes s)\<rparr>)) (\<lambda>_.
     forEach (insertCode env username) (zip (cs_hashes codes) (cs_wraps codes)))"

definition IssueRecoveryCodes :: "AcctEnv \<Rightarrow> string \<Rightarrow> string option \<Rightarrow> string list tx" where
  "IssueRecoveryCodes env username dek =
     andThen (check (ValidateUsername username)) (\<lambda>_.
     andThen (query (userRow username)) (\<lambda>u.
     if u = None then fail ErrNoSuchUser
     else andThen (check (newRecoveryCodeSet env dek)) (\<lambda>codes.
          andThen (inWriteTx env (replaceRecoveryCodes env username codes)) (\<lambda>_. succeed (cs_plain codes)))))"

definition unusedCodes :: "string \<Rightarrow> Sys \<Rightarrow> RecoveryCodeRow list" where
  "unusedCodes username s = filter (\<lambda>c. rc_Username c = username \<and> \<not> rc_Used c) (sy_codes s)"

definition resetTx :: "AcctEnv \<Rightarrow> string \<Rightarrow> string \<Rightarrow> string \<Rightarrow> unit tx" where
  "resetTx env username canon newPassword =
     andThen (query (\<lambda>s. List.find (\<lambda>c. VerifyPassword (en_Suite env) canon (rc_Hash c) = Inr ()) (unusedCodes username s))) (\<lambda>match.
     case match of
       None \<Rightarrow> fail ErrInvalidRecoveryCode
     | Some c \<Rightarrow>
         andThen (if rc_WrappedDEK c \<noteq> []
            then (case UnwrapKey (en_Suite env) (rc_WrappedDEK c) canon of
                    Inl _ \<Rightarrow> fail ErrRecoveryWrapCorrupt
                  | Inr dek \<Rightarrow> crypto (WrapKey (en_Suite env) (en_Rand env 9) (en_Rand env 10) dek newPassword))
            else andThen (query (userRow username)) (\<lambda>u.
                 case u of None \<Rightarrow> fail SchemaRefused
                         | Some u \<Rightarrow> if ur_WrappedDEK u \<noteq> [] then fail ErrLegacyRecoveryCode else succeed [])) (\<lambda>newWrapPW.
         andThen (exec (\<lambda>s. s\<lparr>sy_codes := modifyBy rc_ID (rc_ID c)
            (\<lambda>c. c\<lparr>rc_Used := True, rc_UsedAt := Some (en_Now env)\<rparr>) (sy_codes s)\<rparr>)) (\<lambda>_.
         andThen (auth (HashPassword (en_Suite env) (en_Rand env 11) newPassword)) (\<lambda>newHash.
         if rc_WrappedDEK c \<noteq> []
         then updateUser username (\<lambda>u. u\<lparr>ur_PasswordHash := newHash, ur_WrappedDEK := newWrapPW\<rparr>)
         else updateUserIf username (\<lambda>u. ur_WrappedDEK u = []) (\<lambda>u. u\<lparr>ur_PasswordHash := newHash\<rparr>) ErrLegacyRecoveryCode))))"

definition ResetWithRecoveryCode :: "AcctEnv \<Rightarrow> string \<Rightarrow> string \<Rightarrow> string \<Rightarrow> unit tx" where
  "ResetWithRecoveryCode env username code newPassword =
     (if ValidateUsername username \<noteq> Inr () then fail ErrInvalidRecoveryCode
      else andThen (check (ValidatePassword newPassword)) (\<lambda>_.
           inWriteTx env (resetTx env username (canonicalise code) newPassword)))"

definition RemainingRecoveryCodes :: "string \<Rightarrow> Sys \<Rightarrow> users_error + nat" where
  "RemainingRecoveryCodes username s = and_then (ValidateUsername username) (\<lambda>_. Inr (length (unusedCodes username s)))"

definition HasLegacyRecoveryCodeWraps :: "string \<Rightarrow> Sys \<Rightarrow> users_error + bool" where
  "HasLegacyRecoveryCodeWraps username s =
     and_then (ValidateUsername username) (\<lambda>_. Inr (length (filter (\<lambda>c. rc_WrappedDEK c = []) (unusedCodes username s)) > 0))"

definition RecoveryCodeStatus :: "string \<Rightarrow> Sys \<Rightarrow> users_error + nat \<times> bool" where
  "RecoveryCodeStatus username s =
     and_then (RemainingRecoveryCodes username s) (\<lambda>unused.
     and_then (HasLegacyRecoveryCodeWraps username s) (\<lambda>legacy. Inr (unused, legacy)))"

text \<open>The summary of an account's codes: how many, the newest identifier, how many used.\<close>

definition recoveryCodesBasis :: "string \<Rightarrow> Sys \<Rightarrow> nat \<times> int \<times> nat" where
  "recoveryCodesBasis username s =
     (let codes = filter (\<lambda>c. rc_Username c = username) (sy_codes s) in
      (length codes, foldr max (map rc_ID codes) 0, length (filter rc_Used codes)))"

record PendingRecoveryCodes =
  pe_username :: string
  pe_set :: recoveryCodeSet
  pe_basis :: "nat \<times> int \<times> nat"

definition PrepareRecoveryCodes :: "AcctEnv \<Rightarrow> string \<Rightarrow> string \<Rightarrow> PendingRecoveryCodes tx" where
  "PrepareRecoveryCodes env username currentPassword =
     (if ValidateUsername username \<noteq> Inr () then fail ErrNoSuchUser
      else andThen (query (userRow username)) (\<lambda>u.
      case u of
        None \<Rightarrow> fail ErrNoSuchUser
      | Some u \<Rightarrow>
          andThen (auth (VerifyPassword (en_Suite env) currentPassword (ur_PasswordHash u))) (\<lambda>_.
          if ur_WrappedDEK u = [] then fail ErrPasswordWrapCorrupt
          else case UnwrapKey (en_Suite env) (ur_WrappedDEK u) currentPassword of
            Inl _ \<Rightarrow> fail ErrPasswordWrapCorrupt
          | Inr dek \<Rightarrow>
              andThen (query (recoveryCodesBasis username)) (\<lambda>basis.
              andThen (check (newRecoveryCodeSet env (Some dek))) (\<lambda>codes.
              succeed \<lparr>pe_username = username, pe_set = codes, pe_basis = basis\<rparr>)))))"

definition ConfirmRecoveryCodes :: "AcctEnv \<Rightarrow> PendingRecoveryCodes \<Rightarrow> unit tx" where
  "ConfirmRecoveryCodes env p = inWriteTx env (
     andThen (query (recoveryCodesBasis (pe_username p))) (\<lambda>basis.
     if basis \<noteq> pe_basis p then fail ErrRecoveryCodesChanged
     else replaceRecoveryCodes env (pe_username p) (pe_set p)))"

definition issueTx :: "AcctEnv \<Rightarrow> string \<Rightarrow> string \<Rightarrow> credentialRow \<Rightarrow> credentialWork \<Rightarrow> recoveryCodeSet \<Rightarrow> unit tx" where
  "issueTx env actor username snapshot work codes =
     andThen (requireEnabledAdmin actor) (\<lambda>_.
     andThen (readCredentialRow env username) (\<lambda>now.
     if cw_id now \<noteq> cw_id snapshot then fail ErrNoSuchUser
     else if cw_hash now \<noteq> cw_hash snapshot \<or> cw_wrapped now \<noteq> cw_wrapped snapshot then fail ErrStaleCredentials
     else andThen (if ac_IsAdmin (cw_account now) then requireSuperTx env actor else succeed ()) (\<lambda>_.
     andThen (storeCredentialWorkTx username snapshot work) (\<lambda>_.
     andThen (if wk_newWrap work = [] then succeed ()
              else andThen (savepoint (enrollTx env username (wk_dek work) None)) (\<lambda>_. succeed ())) (\<lambda>_.
     replaceRecoveryCodes env username codes)))))"

fun issueLoop :: "nat \<Rightarrow> nat \<Rightarrow> (nat \<Rightarrow> AcctEnv) \<Rightarrow> others \<Rightarrow> string \<Rightarrow> string \<Rightarrow> string \<Rightarrow> string list tx" where
  "issueLoop 0 i envs other actor username password = fail ErrSignInContended"
| "issueLoop (Suc n) i envs other actor username password =
     andThen (readCredentialRow (envs i) username) (\<lambda>snapshot.
     andThen (check (checkPassword (envs i) snapshot password)) (\<lambda>_.
     andThen (case unlockKey (envs i) snapshot password of
                Inr w \<Rightarrow> succeed w
              | Inl e \<Rightarrow> if cw_wrapped snapshot \<noteq> [] then fail ErrPasswordWrapCorrupt else fail e) (\<lambda>work.
     andThen (check (newRecoveryCodeSet (envs i) (Some (wk_dek work)))) (\<lambda>codes.
     andThen (exec (other i)) (\<lambda>_.
     andThen (attempt (inWriteTx (envs i) (issueTx (envs i) actor username snapshot work codes))) (\<lambda>r.
     case r of
       Inr _ \<Rightarrow> succeed (cs_plain codes)
     | Inl e \<Rightarrow> if e = ErrStaleCredentials then issueLoop n (Suc i) envs other actor username password else fail e))))))"

definition IssueRecoveryCodesWithPassword ::
  "(nat \<Rightarrow> AcctEnv) \<Rightarrow> others \<Rightarrow> string \<Rightarrow> string \<Rightarrow> string \<Rightarrow> string list tx" where
  "IssueRecoveryCodesWithPassword envs other actor username password =
     (if ValidateUsername username \<noteq> Inr () then fail ErrNoSuchUser
      else issueLoop signInAttempts 0 envs other actor username password)"

end
