(* ===== verification/TxLogic.thy ===== *)
theory TxLogic
  imports AccountStore
begin

text \<open>
  Reasoning about transactions. \<open>keeps I m\<close> says that the step \<open>m\<close> leaves the
  predicate \<open>I\<close> true, whatever its outcome; the rules below take it through the
  combinators, so that a composite step keeps whatever its writes keep. The lemmas
  \<open>andThen_Inr\<close> and \<open>inWriteTx_Inr\<close> open up a step that succeeded.
\<close>

named_theorems keeps_rules \<open>steps that keep a predicate\<close>

definition keeps :: "(Sys \<Rightarrow> bool) \<Rightarrow> 'a tx \<Rightarrow> bool" where
  "keeps I m \<longleftrightarrow> (\<forall>s. I s \<longrightarrow> I (snd (m s)))"

lemma keepsD: "keeps I m \<Longrightarrow> I s \<Longrightarrow> I (snd (m s))"
  by (simp add: keeps_def)

lemma keepsD': "keeps I m \<Longrightarrow> m s = (r, s') \<Longrightarrow> I s \<Longrightarrow> I s'"
  using keepsD [of I m s] by simp

subsection \<open>Combinators\<close>

lemma keeps_succeed [keeps_rules]: "keeps I (succeed x)"
  by (simp add: keeps_def succeed_def)

lemma keeps_fail [keeps_rules]: "keeps I (fail e)"
  by (simp add: keeps_def fail_def)

lemma keeps_query [keeps_rules]: "keeps I (query f)"
  by (simp add: keeps_def query_def)

lemma keeps_check [keeps_rules]: "keeps I (check r)"
  by (cases r) (simp_all add: check_def keeps_rules)

lemma keeps_crypto [keeps_rules]: "keeps I (crypto r)"
  by (cases r) (simp_all add: crypto_def keeps_rules)

lemma keeps_exec: "(\<And>s. I s \<Longrightarrow> I (f s)) \<Longrightarrow> keeps I (exec f)"
  by (simp add: keeps_def exec_def)

lemma keeps_andThen [keeps_rules]:
  assumes "keeps I m" and "\<And>x. keeps I (f x)"
  shows "keeps I (andThen m f)"
  unfolding keeps_def
proof (intro allI impI)
  fix s assume "I s"
  obtain r s' where m: "m s = (r, s')" by fastforce
  from keepsD' [OF assms(1) m \<open>I s\<close>] have "I s'" .
  with assms(2) show "I (snd (andThen m f s))" by (cases r) (auto simp: andThen_def m keepsD)
qed

lemma keeps_andThen_query: "(\<And>s. keeps I (f (g s))) \<Longrightarrow> keeps I (andThen (query g) f)"
  by (simp add: keeps_def andThen_def query_def)

lemma keeps_andThen_check: "(\<And>x. r = Inr x \<Longrightarrow> keeps I (f x)) \<Longrightarrow> keeps I (andThen (check r) f)"
  by (cases r) (simp_all add: keeps_def andThen_def check_def succeed_def fail_def)

lemma keeps_attempt [keeps_rules]: "keeps I m \<Longrightarrow> keeps I (attempt m)"
  by (simp add: keeps_def attempt_def case_prod_beta)

lemma keeps_savepoint [keeps_rules]: "keeps I m \<Longrightarrow> keeps I (savepoint m)"
  unfolding keeps_def savepoint_def by (auto split: prod.splits sum.splits)

lemma keeps_statement [keeps_rules]: "keeps I m \<Longrightarrow> keeps I (statement m)"
  unfolding keeps_def statement_def by (auto split: prod.splits sum.splits)

lemma keeps_forEach [keeps_rules]: "(\<And>x. x \<in> set xs \<Longrightarrow> keeps I (f x)) \<Longrightarrow> keeps I (forEach f xs)"
  by (induction xs) (simp_all add: keeps_succeed keeps_andThen)

lemma keeps_if [keeps_rules]: "(b \<Longrightarrow> keeps I m) \<Longrightarrow> (\<not> b \<Longrightarrow> keeps I n) \<Longrightarrow> keeps I (if b then m else n)"
  by simp

lemma keeps_option [keeps_rules]:
  "(x = None \<Longrightarrow> keeps I m) \<Longrightarrow> (\<And>y. x = Some y \<Longrightarrow> keeps I (f y)) \<Longrightarrow> keeps I (case x of None \<Rightarrow> m | Some y \<Rightarrow> f y)"
  by (cases x) auto

lemma keeps_sum [keeps_rules]:
  "(\<And>e. x = Inl e \<Longrightarrow> keeps I (f e)) \<Longrightarrow> (\<And>y. x = Inr y \<Longrightarrow> keeps I (g y)) \<Longrightarrow>
   keeps I (case x of Inl e \<Rightarrow> f e | Inr y \<Rightarrow> g y)"
  by (cases x) auto

lemma keeps_prod [keeps_rules]: "(\<And>a b. x = (a, b) \<Longrightarrow> keeps I (f a b)) \<Longrightarrow> keeps I (case x of (a, b) \<Rightarrow> f a b)"
  by (cases x) auto

lemma keeps_list [keeps_rules]:
  "(x = [] \<Longrightarrow> keeps I m) \<Longrightarrow> (\<And>y ys. x = y # ys \<Longrightarrow> keeps I (f y ys)) \<Longrightarrow> keeps I (case x of [] \<Rightarrow> m | y # ys \<Rightarrow> f y ys)"
  by (cases x) auto

lemma keeps_Let [keeps_rules]: "(\<And>y. keeps I (f y)) \<Longrightarrow> keeps I (Let x f)"
  by (simp add: Let_def)

text \<open>
  \<open>commits I m\<close>: the step keeps \<open>I\<close> where it succeeds, which is what a
  transaction or a savepoint around it needs.
\<close>

definition commits :: "(Sys \<Rightarrow> bool) \<Rightarrow> 'a tx \<Rightarrow> bool" where
  "commits I m \<longleftrightarrow> (\<forall>s x t. I s \<longrightarrow> m s = (Inr x, t) \<longrightarrow> I t)"

lemma commitsI: "(\<And>s x t. I s \<Longrightarrow> m s = (Inr x, t) \<Longrightarrow> I t) \<Longrightarrow> commits I m"
  unfolding commits_def by blast

lemma commitsD: "commits I m \<Longrightarrow> I s \<Longrightarrow> m s = (Inr x, t) \<Longrightarrow> I t"
  unfolding commits_def by blast

lemma keeps_commits: "keeps I m \<Longrightarrow> commits I m"
  unfolding keeps_def commits_def by (metis snd_conv)

lemma commits_savepoint: "commits I m \<Longrightarrow> keeps I (savepoint m)"
  unfolding commits_def keeps_def savepoint_def by (auto split: prod.splits sum.splits)

lemma commits_inWriteTx:
  assumes "commits I m" and "\<And>s fs. I s \<Longrightarrow> I (s\<lparr>sy_folders := fs\<rparr>)"
  shows "keeps I (inWriteTx env m)"
  unfolding keeps_def inWriteTx_def using assms
  by (auto split: prod.splits sum.splits dest: commitsD)

text \<open>The folders survive a rollback, so a transaction keeps what does not depend on them.\<close>

lemma keeps_inWriteTx:
  assumes "keeps I m" and "\<And>s fs. I s \<Longrightarrow> I (s\<lparr>sy_folders := fs\<rparr>)"
  shows "keeps I (inWriteTx env m)"
  unfolding keeps_def inWriteTx_def using assms
  by (auto split: prod.splits sum.splits dest: keepsD')

subsection \<open>Steps that succeed\<close>

lemma andThen_Inr: "andThen m f s = (Inr y, t) \<longleftrightarrow> (\<exists>x u. m s = (Inr x, u) \<and> f x u = (Inr y, t))"
  by (auto simp: andThen_def split: prod.splits sum.splits)

lemma andThen_run: "m s = (Inr x, u) \<Longrightarrow> andThen m f s = f x u"
  by (simp add: andThen_def)

lemma andThen_assoc: "andThen (andThen m f) g = andThen m (\<lambda>x. andThen (f x) g)"
  by (auto simp: andThen_def fun_eq_iff split: prod.splits sum.splits)

lemma run_simps [simp]: "succeed x s = (Inr x, s)" "fail e s = (Inl e, s)" "query g s = (Inr (g s), s)" "exec f s = (Inr (), f s)"
  by (simp_all add: succeed_def fail_def query_def exec_def)

lemma check_Inr [simp]: "check r s = (Inr x, t) \<longleftrightarrow> r = Inr x \<and> t = s"
  by (cases r) (auto simp: check_def)

lemma crypto_Inr [simp]: "crypto r s = (Inr x, t) \<longleftrightarrow> r = Inr x \<and> t = s"
  by (cases r) (auto simp: crypto_def)

lemma attempt_run: "attempt m s = (Inr (fst (m s)), snd (m s))"
  by (simp add: attempt_def case_prod_beta)

lemma attempt_Inr [simp]: "attempt m s = (Inr r, t) \<longleftrightarrow> m s = (r, t)"
  by (auto simp: attempt_def split: prod.splits)

lemma inWriteTx_Inr: "inWriteTx env m s = (Inr x, t) \<longleftrightarrow> en_Begin env \<and> en_Commit env \<and> m s = (Inr x, t)"
  by (auto simp: inWriteTx_def split: prod.splits sum.splits if_splits)

lemma inWriteTx_Inl: "inWriteTx env m s = (Inl e, t) \<Longrightarrow> \<exists>fs. t = s\<lparr>sy_folders := fs\<rparr>"
proof (cases "en_Begin env")
  case False
  assume "inWriteTx env m s = (Inl e, t)"
  then have "t = s\<lparr>sy_folders := sy_folders s\<rparr>" using False by (simp add: inWriteTx_def)
  then show ?thesis by blast
next
  case True
  assume t: "inWriteTx env m s = (Inl e, t)"
  obtain r u where m: "m s = (r, u)" by fastforce
  have "t = s\<lparr>sy_folders := sy_folders u\<rparr>" using t True m by (cases r) (simp_all add: inWriteTx_def split: if_splits)
  then show ?thesis by blast
qed

lemma inWriteTx_cases:
  obtains (committed) x t where "m s = (Inr x, t)" "inWriteTx env m s = (Inr x, t)"
    | (refused) e fs where "inWriteTx env m s = (Inl e, s\<lparr>sy_folders := fs\<rparr>)"
proof -
  obtain r t where r: "inWriteTx env m s = (r, t)" by fastforce
  show ?thesis
  proof (cases r)
    case (Inr x) with r show ?thesis using committed inWriteTx_Inr by metis
  next
    case (Inl e) with r show ?thesis using refused inWriteTx_Inl by metis
  qed
qed

lemma savepoint_Inr: "savepoint m s = (Inr r, t) \<longleftrightarrow>
    (\<exists>e. r = Inl e \<and> t = s \<and> fst (m s) = Inl e) \<or> (\<exists>x. r = Inr x \<and> m s = (Inr x, t))"
  by (auto simp: savepoint_def split: prod.splits sum.splits)

lemma statement_Inr [simp]: "statement m s = (Inr x, t) \<longleftrightarrow> m s = (Inr x, t)"
  by (auto simp: statement_def split: prod.splits sum.splits)

subsection \<open>Triples\<close>

text \<open>
  \<open>runs P m Q\<close>: from a state with \<open>P\<close>, the step leaves \<open>Q\<close> of its
  result and its state where it succeeds.
\<close>

definition runs :: "(Sys \<Rightarrow> bool) \<Rightarrow> 'a tx \<Rightarrow> ('a \<Rightarrow> Sys \<Rightarrow> bool) \<Rightarrow> bool" where
  "runs P m Q \<longleftrightarrow> (\<forall>s x t. P s \<longrightarrow> m s = (Inr x, t) \<longrightarrow> Q x t)"

lemma runsI: "(\<And>s x t. P s \<Longrightarrow> m s = (Inr x, t) \<Longrightarrow> Q x t) \<Longrightarrow> runs P m Q"
  unfolding runs_def by blast

lemma runsD: "runs P m Q \<Longrightarrow> P s \<Longrightarrow> m s = (Inr x, t) \<Longrightarrow> Q x t"
  unfolding runs_def by blast

lemma runs_weaken: "runs P m Q \<Longrightarrow> (\<And>s. P' s \<Longrightarrow> P s) \<Longrightarrow> (\<And>x t. Q x t \<Longrightarrow> Q' x t) \<Longrightarrow> runs P' m Q'"
  unfolding runs_def by blast

lemma runs_commits: "runs I m (\<lambda>_. I) \<longleftrightarrow> commits I m"
  by (simp add: runs_def commits_def)

lemma runs_keeps: "keeps P m \<Longrightarrow> runs P m (\<lambda>_. P)"
  by (simp add: runs_commits keeps_commits)

lemma runs_andThen: "runs P m Q \<Longrightarrow> (\<And>x. runs (Q x) (f x) R) \<Longrightarrow> runs P (andThen m f) R"
  unfolding runs_def andThen_Inr by blast

lemma runs_if: "(b \<Longrightarrow> runs P m Q) \<Longrightarrow> (\<not> b \<Longrightarrow> runs P n Q) \<Longrightarrow> runs P (if b then m else n) Q"
  by simp

lemma runs_succeed: "(\<And>s. P s \<Longrightarrow> Q x s) \<Longrightarrow> runs P (succeed x) Q"
  by (simp add: runs_def)

lemma runs_fail: "runs P (fail e) Q"
  by (simp add: runs_def)

lemma runs_query: "(\<And>s. P s \<Longrightarrow> Q (f s) s) \<Longrightarrow> runs P (query f) Q"
  by (simp add: runs_def)

lemma runs_exec: "(\<And>s. P s \<Longrightarrow> Q () (f s)) \<Longrightarrow> runs P (exec f) Q"
  by (simp add: runs_def)

lemma runs_option: "(x = None \<Longrightarrow> runs P m Q) \<Longrightarrow> (\<And>y. x = Some y \<Longrightarrow> runs P (f y) Q) \<Longrightarrow>
   runs P (case x of None \<Rightarrow> m | Some y \<Rightarrow> f y) Q"
  by (cases x) auto

lemma runs_sum: "(\<And>e. x = Inl e \<Longrightarrow> runs P (f e) Q) \<Longrightarrow> (\<And>y. x = Inr y \<Longrightarrow> runs P (g y) Q) \<Longrightarrow>
   runs P (case x of Inl e \<Rightarrow> f e | Inr y \<Rightarrow> g y) Q"
  by (cases x) auto

lemma runs_list: "(x = [] \<Longrightarrow> runs P m Q) \<Longrightarrow> (\<And>y ys. x = y # ys \<Longrightarrow> runs P (f y ys) Q) \<Longrightarrow>
   runs P (case x of [] \<Rightarrow> m | y # ys \<Rightarrow> f y ys) Q"
  by (cases x) auto

lemma runs_prod: "(\<And>a b. x = (a, b) \<Longrightarrow> runs P (f a b) Q) \<Longrightarrow> runs P (case x of (a, b) \<Rightarrow> f a b) Q"
  by (cases x) auto

lemma runs_ex: "(\<And>u. runs (P u) m Q) \<Longrightarrow> runs (\<lambda>s. \<exists>u. P u s) m Q"
  by (auto simp: runs_def)

text \<open>A fact about the state before a step that depends on no state.\<close>

lemma runs_fact: "(b \<Longrightarrow> runs P m Q) \<Longrightarrow> runs (\<lambda>s. b \<and> P s) m Q"
  by (auto simp: runs_def)

subsection \<open>Tables\<close>

named_theorems table_simps \<open>lookups and writes of a table\<close>

lemma rowBy_Nil [simp]: "rowBy key k [] = None"
  by (simp add: rowBy_def)

lemma rowBy_Cons: "rowBy key k (r # rs) = (if key r = k then Some r else rowBy key k rs)"
  by (simp add: rowBy_def)

lemma rowBy_append [table_simps]:
  "rowBy key k (xs @ ys) = (case rowBy key k xs of None \<Rightarrow> rowBy key k ys | Some r \<Rightarrow> Some r)"
  by (induction xs) (auto simp: rowBy_Cons)

lemma rowBy_None: "rowBy key k rows = None \<longleftrightarrow> k \<notin> key ` set rows"
  by (induction rows) (auto simp: rowBy_Cons)

lemma rowBy_SomeD: "rowBy key k rows = Some r \<Longrightarrow> r \<in> set rows \<and> key r = k"
  by (induction rows) (auto simp: rowBy_Cons split: if_splits)

lemma rowBy_Some_iff:
  "distinct (map key rows) \<Longrightarrow> rowBy key k rows = Some r \<longleftrightarrow> r \<in> set rows \<and> key r = k"
  by (induction rows) (auto simp: rowBy_Cons image_iff)

lemma rowBy_deleteBy [table_simps]: "rowBy key k (deleteBy key j rows) = (if k = j then None else rowBy key k rows)"
  by (induction rows) (auto simp: rowBy_Cons deleteBy_def)

lemma set_deleteBy [table_simps]: "set (deleteBy key k rows) = {r \<in> set rows. key r \<noteq> k}"
  by (auto simp: deleteBy_def)

lemma rowBy_modifyBy [table_simps]:
  "(\<And>r. key (f r) = key r) \<Longrightarrow> rowBy key k (modifyBy key j f rows) = (if k = j then map_option f (rowBy key k rows) else rowBy key k rows)"
  by (induction rows) (auto simp: rowBy_Cons modifyBy_def)

lemma map_modifyBy [table_simps]: "(\<And>r. key (f r) = key r) \<Longrightarrow> map key (modifyBy key j f rows) = map key rows"
  by (auto simp: modifyBy_def)

lemma rowBy_upsertBy [table_simps]: "rowBy key k (upsertBy key r rows) = (if k = key r then Some r else rowBy key k rows)"
proof (cases "rowBy key (key r) rows")
  case None
  then show ?thesis by (auto simp: upsertBy_def rowBy_append rowBy_Cons split: option.splits)
next
  case (Some x)
  have m: "rowBy key k (map (\<lambda>x. if key x = key r then r else x) rows)
        = (if k = key r then (if rowBy key k rows = None then None else Some r) else rowBy key k rows)"
    by (induction rows) (auto simp: rowBy_Cons)
  then show ?thesis using Some by (auto simp: upsertBy_def)
qed

lemma set_upsertBy: "set (upsertBy key r rows) \<subseteq> insert r (set rows)"
  by (auto simp: upsertBy_def)

lemma distinct_upsertBy: "distinct (map key rows) \<Longrightarrow> distinct (map key (upsertBy key r rows))"
proof (cases "rowBy key (key r) rows")
  case None
  assume "distinct (map key rows)"
  then show ?thesis using None by (auto simp: upsertBy_def rowBy_None)
next
  case (Some x)
  assume "distinct (map key rows)"
  moreover have "map key (map (\<lambda>x. if key x = key r then r else x) rows) = map key rows" by auto
  ultimately show ?thesis using Some by (simp add: upsertBy_def del: map_map)
qed

lemma distinct_deleteBy: "distinct (map f rows) \<Longrightarrow> distinct (map f (deleteBy key k rows))"
  by (simp add: deleteBy_def distinct_map_filter)

end
