(* ===== verification/AccountFrames.thy ===== *)
theory AccountFrames
  imports Credentials TxLogic
begin

text \<open>
  What the steps of the account database leave alone, as a tower of locales over a predicate
  \<open>I\<close> on the state. The first level asks that \<open>I\<close> does not depend on the tables
  enrollment writes (and that an event may be appended), the next that a grant may be
  deleted, the next that the administrators in a set \<open>A\<close> may be given a grant and that
  escrow keys may change, the last that the role rows may change; each level gives that the
  steps which only make such writes keep \<open>I\<close>. \<open>role_reads\<close> stands beside the
  last two, for predicates on the role rows.
\<close>

subsection \<open>Enrollment and its checks\<close>

locale quiet_writes =
  fixes I :: "Sys \<Rightarrow> bool"
  assumes event: "I s \<Longrightarrow> av_ID e = sy_nextEvent s \<Longrightarrow> I (s\<lparr>sy_events := sy_events s @ [e], sy_nextEvent := sy_nextEvent s + 1\<rparr>)"
    and personal: "I s \<Longrightarrow> I (s\<lparr>sy_personal := keys\<rparr>)"
    and sealed: "I s \<Longrightarrow> I (s\<lparr>sy_sealed := deks\<rparr>)"
    and pins: "I s \<Longrightarrow> I (s\<lparr>sy_pins := rows\<rparr>)"
    and pending: "I s \<Longrightarrow> I (s\<lparr>sy_pending := pend\<rparr>)"
    and recovery: "I s \<Longrightarrow> I (s\<lparr>sy_recovery := recs\<rparr>)"
begin

lemmas writes = event personal sealed pins pending recovery

lemma keeps_event [keeps_rules]: "keeps I (recordAccountEvent env actor username action detail)"
  unfolding recordAccountEvent_def by (intro keeps_rules keeps_exec event) simp_all

lemma keeps_references [keeps_rules]: "keeps I (references username)"
  unfolding references_def by (intro keeps_rules)

lemma keeps_activeEscrowKey [keeps_rules]: "keeps I activeEscrowKey"
  unfolding activeEscrowKey_def by (rule keeps_query)

lemma keeps_markRotationPending [keeps_rules]: "keeps I (markRotationPendingTx env reason)"
  unfolding markRotationPendingTx_def by (intro keeps_rules keeps_exec pending)

lemma keeps_personalKey [keeps_rules]:
  "keeps I (newPersonalKey env username dek existed)" "keeps I (ensurePersonalKey env username dek)"
proof -
  show new: "keeps I (newPersonalKey env username dek existed)" for existed
    unfolding newPersonalKey_def by (intro keeps_rules keeps_exec personal)
  show "keeps I (ensurePersonalKey env username dek)"
    unfolding ensurePersonalKey_def by (intro keeps_rules keeps_exec personal new)
qed

lemma keeps_attest [keeps_rules]: "keeps I (attestTx env session username public)"
  unfolding attestTx_def by (intro keeps_rules keeps_exec personal)

lemma keeps_pin [keeps_rules]: "keeps I (pinTx env username dek keyID public)"
  unfolding pinTx_def by (intro keeps_rules keeps_exec pins)

lemma keeps_sealDEK [keeps_rules]: "keeps I (sealDEKTx env username dek keyID public)"
  unfolding sealDEKTx_def by (intro keeps_rules keeps_exec sealed)

lemma keeps_enroll [keeps_rules]:
  "keeps I (enrollTx env username dek session)" "keeps I (enrollInSavepoint env username dek session)"
proof -
  show "keeps I (enrollTx env username dek session)"
    unfolding enrollTx_def by (intro keeps_rules)
  then show "keeps I (enrollInSavepoint env username dek session)"
    unfolding enrollInSavepoint_def by (rule keeps_savepoint)
qed

lemma keeps_duties [keeps_rules]: "keeps I (checkSealedDEKsTx env session)" "keeps I (adminDutiesTx env session)"
proof -
  show c: "keeps I (checkSealedDEKsTx env session)"
    unfolding checkSealedDEKsTx_def by (intro keeps_rules keeps_exec sealed pins)
  show "keeps I (adminDutiesTx env session)"
    unfolding adminDutiesTx_def by (intro keeps_rules c)
qed

lemma keeps_reseal [keeps_rules]: "keeps I (resealTx env old nxt)"
proof -
  have row: "keeps I (resealRow env old nxt r)" for r
    unfolding resealRow_def by (intro keeps_rules keeps_exec sealed pins)
  have "keeps I (resealRows env old nxt rs)" for rs
    by (induction rs) (simp_all only: resealRows.simps, intro keeps_rules, intro keeps_rules row)
  then show ?thesis unfolding resealTx_def by (intro keeps_rules keeps_exec sealed pins)
qed

lemma keeps_reattest [keeps_rules]: "keeps I (reattestTx env old nxt)"
  unfolding reattestTx_def by (intro keeps_rules keeps_exec personal)

end

subsection \<open>Deleting grants\<close>

locale grant_writes = quiet_writes +
  assumes ungrant: "I s \<Longrightarrow> I (s\<lparr>sy_grants := filter p (sy_grants s)\<rparr>)"
begin

lemma keeps_removeGrant [keeps_rules]: "keeps I (removeGrantTx admin)"
  unfolding removeGrantTx_def deleteBy_def by (intro keeps_exec ungrant)

lemma keeps_revokeGrant [keeps_rules]: "keeps I (revokeGrantTx env username reason)"
  unfolding revokeGrantTx_def holdsAnyGrantTx_def by (intro keeps_rules)

lemma keeps_openGrant [keeps_rules]: "keeps I (openGrantTx env admin dek)"
  unfolding openGrantTx_def unusable_def by (intro keeps_rules)

lemma keeps_removeSubordinate [keeps_rules]: "keeps I (removeSubordinateGrantTx env admin)"
  unfolding removeSubordinateGrantTx_def by (intro keeps_rules)

end

subsection \<open>Reading the roles\<close>

locale role_reads = grant_writes +
  assumes ensure: "keeps I (ensureSuperTx env)"
    and read: "keeps I (readSuccessionTx env)"
    and protection: "I s \<Longrightarrow> I (s\<lparr>sy_protection := prs\<rparr>)"
begin

lemmas role_steps [keeps_rules] = ensure read

lemma keeps_accountRole [keeps_rules]:
  "keeps I (accountRole username)" "keeps I (requireEnabledAdmin username)" "keeps I enabledAdminCount"
  "keeps I (guardLastEnabledAdmin isAdmin disabled)"
  unfolding requireEnabledAdmin_def accountRole_def guardLastEnabledAdmin_def enabledAdminCount_def
  by (intro keeps_rules)+

lemma keeps_requireSuper [keeps_rules]:
  "keeps I (requireSuperTx env actor)" "keeps I (requireAccountActionTx env actor username adm)"
proof -
  show r: "keeps I (requireSuperTx env actor)" unfolding requireSuperTx_def by (intro keeps_rules)
  show "keeps I (requireAccountActionTx env actor username adm)"
    unfolding requireAccountActionTx_def by (intro keeps_rules r)
qed

lemma keeps_protection [keeps_rules]:
  "keeps I (protectionTx username now)" "keeps I (requireUnprotectedTx env username)" "keeps I (clearProtectionTx username)"
  unfolding requireUnprotectedTx_def protectionTx_def clearProtectionTx_def
  by (intro keeps_rules keeps_exec protection)+

lemma keeps_protect [keeps_rules]: "keeps I (protect env former reason nt actor)"
  unfolding protect_def by (intro keeps_rules keeps_exec protection)

lemma keeps_holds [keeps_rules]:
  "keeps I (holdsAnyGrantTx username)" "keeps I (holdsActiveGrantTx username)" "keeps I rotationPendingTx"
  "keeps I (requirePersonalKeyTx username)" "keeps I (requireTargetAdmin username)" "keeps I recoveryStateTx"
  "keeps I (rotatorTx env username)"
  unfolding holdsAnyGrantTx_def holdsActiveGrantTx_def rotationPendingTx_def requirePersonalKeyTx_def
    requireTargetAdmin_def recoveryStateTx_def rotatorTx_def
  by (intro keeps_rules)+

lemma keeps_succession [keeps_rules]: "keeps I (successionTx env actor)"
proof -
  have "keeps I (activeProtections names now)" for names now
    by (induction names) (simp_all only: activeProtections.simps, intro keeps_rules, intro keeps_rules)
  then show ?thesis unfolding successionTx_def activeProtectionsTx_def by (intro keeps_rules)
qed

lemma keeps_openUser [keeps_rules]: "keeps I (openUserTx env actor dek target reason)"
  unfolding openUserTx_def by (intro keeps_rules keeps_exec sealed pins)

lemma keeps_openRecovery [keeps_rules]: "keeps I (openRecoveryTx env typed)" "keeps I (refuse env actor err detail)"
  unfolding openRecoveryTx_def refuse_def by (intro keeps_rules)+

end

subsection \<open>Grants and keys\<close>

definition admins :: "EscrowGrant list \<Rightarrow> string set" where "admins gs = eg_Admin ` set gs"

lemma admins_simps [simp]: "admins [] = {}" "admins (filter p gs) \<subseteq> admins gs" "admins (deleteBy eg_Admin u gs) = admins gs - {u}"
  by (auto simp: admins_def deleteBy_def)

lemma admins_upsertBy: "admins (upsertBy eg_Admin g gs) \<subseteq> insert (eg_Admin g) (admins gs)"
  using set_upsertBy [of eg_Admin g gs] by (auto simp: admins_def)

lemma set_recipients: "set (recipients actor keep) \<subseteq> insert actor (set keep - {[]})"
proof -
  have "set (foldl (\<lambda>rs name. if name \<noteq> [] \<and> name \<notin> set rs then rs @ [name] else rs) rs keep) \<subseteq> set rs \<union> (set keep - {[]})" for rs
  proof (induction keep arbitrary: rs)
    case (Cons n ns)
    show ?case using Cons [of "if n \<noteq> [] \<and> n \<notin> set rs then rs @ [n] else rs"] by auto
  qed simp
  from this [of "[actor]"] show ?thesis by (simp add: recipients_def)
qed

locale escrow_writes = grant_writes +
  fixes A :: "string set"
  assumes grants: "I s \<Longrightarrow> admins gs \<subseteq> A \<union> admins (sy_grants s) \<Longrightarrow> I (s\<lparr>sy_grants := gs\<rparr>)"
    and keys: "I s \<Longrightarrow> I (s\<lparr>sy_keys := ks\<rparr>)"
begin

lemma keeps_grant [keeps_rules]: "admin \<in> A \<Longrightarrow> keeps I (grantTx env session admin public)"
  unfolding grantTx_def by (intro keeps_rules keeps_exec grants) (use admins_upsertBy in fastforce)+

lemma keeps_attestAndGrant [keeps_rules]: "pk_Username r \<in> A \<Longrightarrow> keeps I (attestAndGrantTx env session actor r)"
  unfolding attestAndGrantTx_def Let_def by (intro keeps_rules)

lemma keeps_passKey [keeps_rules]: "target \<in> A \<Longrightarrow> keeps I (passKeyTx env actor dek target)"
  unfolding passKeyTx_def
  by (intro keeps_andThen_query keeps_rules) (auto dest: rowBy_SomeD)

lemma keeps_newKey [keeps_rules]: "keeps I (newEscrowSession env)" "keeps I (storeEscrowKey env ss)"
  unfolding newEscrowSession_def storeEscrowKey_def insertEscrowKey_def by (intro keeps_rules keeps_exec keys)+

lemma keeps_bootstrap [keeps_rules]: "admin \<in> A \<Longrightarrow> keeps I (bootstrapTx env admin dek)"
  unfolding bootstrapTx_def by (intro keeps_rules)

lemma keeps_rotate [keeps_rules]:
  assumes "insert actor (set keep - {[]}) \<subseteq> A"
  shows "keeps I (rotateTx env old actor dek keep reason)" "keeps I (rotateInSavepointTx env old actor dek keep reason)"
    "keeps I (rotateWithOwnKeyTx env actor dek keep reason)"
proof -
  have g: "keeps I (grantRecipient env nxt actor name)" if "name \<in> A" for nxt name
    unfolding grantRecipient_def using that
    by (intro keeps_andThen_query keeps_rules) (auto dest: rowBy_SomeD)
  have none: "I (s\<lparr>sy_grants := []\<rparr>)" if "I s" for s using that by (intro grants) simp_all
  have in_A: "name \<in> A" if "name \<in> set (recipients actor keep)" for name using assms set_recipients that by blast
  show r: "keeps I (rotateTx env old actor dek keep reason)" for old
    unfolding rotateTx_def by (intro keeps_rules keeps_exec keys none pending recovery g in_A)
  show s: "keeps I (rotateInSavepointTx env old actor dek keep reason)" for old
    unfolding rotateInSavepointTx_def by (intro keeps_rules r)
  show "keeps I (rotateWithOwnKeyTx env actor dek keep reason)"
    unfolding rotateWithOwnKeyTx_def by (intro keeps_rules s)
qed

lemma keeps_newEscrowKey [keeps_rules]: "actor \<in> A \<Longrightarrow> keeps I (newEscrowKeyTx env actor dek reason)"
proof -
  have "I (s\<lparr>sy_grants := [], sy_sealed := [], sy_recovery := [], sy_pending := None\<rparr>)" if "I s" for s
    using pending [OF recovery [OF sealed [OF grants [OF that, of "[]"]]]] by simp
  then show "actor \<in> A \<Longrightarrow> keeps I (newEscrowKeyTx env actor dek reason)"
    unfolding newEscrowKeyTx_def by (intro keeps_rules keeps_exec keys pins)
qed

end

subsection \<open>Changing the roles\<close>

locale role_writes = escrow_writes I UNIV for I +
  assumes super: "I s \<Longrightarrow> I (s\<lparr>sy_super := su\<rparr>)"
    and succession: "I s \<Longrightarrow> I (s\<lparr>sy_succession := sc\<rparr>)"
    and protected: "I s \<Longrightarrow> I (s\<lparr>sy_protection := prs\<rparr>)"
begin

lemma clear [keeps_rules]: "keeps I (clearStandbyTx env actor username detail)"
  unfolding clearStandbyTx_def by (intro keeps_rules keeps_exec succession)

end

sublocale role_writes \<subseteq> role_reads
proof
  have admin: "keeps I (requireEnabledAdmin username)" for username
    unfolding requireEnabledAdmin_def accountRole_def by (intro keeps_rules)
  moreover have "keeps I (assignSuper env current)" for env current
    unfolding assignSuper_def earliestEnabledAdmin_def by (intro keeps_rules keeps_exec super)
  ultimately show e: "keeps I (ensureSuperTx env)" for env unfolding ensureSuperTx_def by (intro keeps_rules)
  show "keeps I (readSuccessionTx env)" for env
    unfolding readSuccessionTx_def standbyOf_def by (intro keeps_rules e admin)
  show "I (s\<lparr>sy_protection := prs\<rparr>)" if "I s" for s prs using that by (rule protected)
qed

context role_writes
begin

lemma keeps_runPendingRotation [keeps_rules]: "keeps I (runPendingRotationTx env session actor dek)"
  unfolding runPendingRotationTx_def by (intro keeps_rules subset_UNIV)

lemma keeps_adminSession [keeps_rules]: "keeps I (enrollAdminSessionTx env admin dek)"
  unfolding enrollAdminSessionTx_def standbySessionTx_def superSessionTx_def by (intro keeps_rules UNIV_I)

lemma keeps_moveSuper [keeps_rules]: "keeps I (moveSuper env target)"
  unfolding moveSuper_def by (intro keeps_rules keeps_exec super)

lemma keeps_handOver [keeps_rules]: "keeps I (handOverTx env actor dek target)"
  unfolding handOverTx_def by (intro keeps_rules UNIV_I)

lemma keeps_setStandby [keeps_rules]: "keeps I (setStandbyTx env actor dek standby days)"
  unfolding setStandbyTx_def replaceStandby_def storeStandby_def
  by (intro keeps_rules keeps_exec succession subset_UNIV UNIV_I)

lemma keeps_takeOver [keeps_rules]: "keeps I (takeOverTx env actor dek reason nt)"
  unfolding takeOverTx_def by (intro keeps_rules subset_UNIV)

lemma keeps_recoverEscrowKey [keeps_rules]: "keeps I (recoverEscrowKeyTx env actor dek typed)"
  unfolding recoverEscrowKeyTx_def restoreKeyTx_def by (intro keeps_rules UNIV_I)

lemma keeps_keyTx [keeps_rules]:
  "keeps I (rotateTx env old actor dek keep reason)" "keeps I (newEscrowKeyTx env actor dek reason)"
  by (intro keeps_rules subset_UNIV UNIV_I)+

end

end
