(* ===== verification/AccountSteps.thy ===== *)
theory AccountSteps
  imports AccountFrames
begin

text \<open>
  One step of the account database for every operation of \<^verbatim>\<open>internal/users\<close> that
  writes it, by any process on the machine and with any outcome. The operations that work
  between a read and a commit (signing in, changing a password, issuing codes) contribute
  their commit, with any snapshot: \<open>signIn_steps\<close> shows that a sign-in with other
  processes at work in between is a sequence of steps. \<open>CreateAccount\<close>, which no
  operation of the application calls, is left out.
\<close>

inductive accountStep :: "Sys \<Rightarrow> Sys \<Rightarrow> bool" where
  create: "accountStep s (snd (CreateAccountWithPrincipal env caller username displayName password isAdmin session s))"
| disable: "accountStep s (snd (SetDisabled env actor username off s))"
| set_admin: "accountStep s (snd (SetAdmin env actor username isAdmin s))"
| promote: "accountStep s (snd (PromoteAdmin env actor username s))"
| claim: "accountStep s (snd (ClaimAdmin env username s))"
| export_dir: "accountStep s (snd (SetLastExportDirectory username dir s))"
| purge: "accountStep s (snd (PurgeAccount env env2 actor username s))"
| require_super: "accountStep s (snd (RequireSuper env actor s))"
| hand_over: "accountStep s (snd (HandOverSuper env env2 actor dek target s))"
| set_standby: "accountStep s (snd (SetStandby env env2 actor dek standby days s))"
| take_over: "accountStep s (snd (TakeOverSuper env actor dek reason nt s))"
| succession: "accountStep s (snd (GetSuccession env actor s))"
| enroll: "accountStep s (snd (EnrollSession env username dek s))"
| enroll_admin: "accountStep s (snd (EnrollAdminSession env admin dek s))"
| run_rotation: "accountStep s (snd (RunPendingRotation env actor dek s))"
| replace_key: "accountStep s (snd (ReplaceEscrowKey env actor dek standby s))"
| new_key: "accountStep s (snd (CreateNewEscrowKey env actor dek reason s))"
| open_escrow: "accountStep s (snd (OpenEscrow env admin dek s))"
| open_user: "accountStep s (snd (OpenUserForAdmin env actor dek target reason s))"
| acknowledge: "accountStep s (snd (AcknowledgeAccessNotices env username n s))"
| create_code: "accountStep s (snd (CreateEscrowRecoveryCode env actor dek s))"
| check_code: "accountStep s (snd (CheckEscrowRecoveryCode env actor typed s))"
| confirm_code: "accountStep s (snd (ConfirmEscrowRecoveryCode env actor typed s))"
| recover_key: "accountStep s (snd (RecoverEscrowKey env actor dek typed s))"
| sign_in: "accountStep s (snd (inWriteTx env (signInTx env username snapshot work adminSession) s))"
| password: "accountStep s (snd (updateUserIf username p (\<lambda>v. v\<lparr>ur_PasswordHash := h, ur_WrappedDEK := w\<rparr>) err s))"
| reset: "accountStep s (snd (ResetWithRecoveryCode env username code newPassword s))"
| issue: "accountStep s (snd (IssueRecoveryCodes env username key s))"
| issue_with_password: "accountStep s (snd (inWriteTx env (issueTx env actor username snapshot work codes) s))"
| confirm_codes: "accountStep s (snd (ConfirmRecoveryCodes env pending s))"

abbreviation accountSteps :: "Sys \<Rightarrow> Sys \<Rightarrow> bool" where "accountSteps \<equiv> accountStep\<^sup>*\<^sup>*"

subsection \<open>What every operation keeps\<close>

text \<open>
  A predicate that every operation keeps: it depends on none of the tables an ordinary step
  writes, and each transaction that changes roles, accounts or grants keeps it where it
  succeeds.
\<close>

definition quietUpdate :: "(UserRow \<Rightarrow> UserRow) \<Rightarrow> bool" where
  "quietUpdate f \<longleftrightarrow> (\<forall>u. ur_Username (f u) = ur_Username u \<and> ur_IsAdmin (f u) = ur_IsAdmin u \<and> ur_Disabled (f u) = ur_Disabled u)"

locale account_commits = role_reads +
  assumes user: "quietUpdate f \<Longrightarrow> keeps I (updateUser username f)"
    and codes: "I s \<Longrightarrow> I (s\<lparr>sy_codes := cs, sy_nextCode := n\<rparr>)"
    and notices: "I s \<Longrightarrow> I (s\<lparr>sy_notices := ns\<rparr>)"
    and folders: "I s \<Longrightarrow> I (s\<lparr>sy_folders := fs\<rparr>)"
    and disabling: "commits I (setDisabledTx env actor username off)"
    and promoting: "commits I (setAdminTx env actor username isAdmin)"
    and promotion: "keeps I (PromoteAdmin env actor username)"
    and claiming: "keeps I (ClaimAdmin env username)"
    and purging: "commits I (purgeTx env actor username)"
    and creating: "ValidateUsername username = Inr () \<Longrightarrow> commits I (createAccountTx env caller username displayName hash dek wrap isAdmin session)"
    and handing_over: "commits I (handOverTx env actor dek target)"
    and naming: "commits I (setStandbyTx env actor dek standby days)"
    and taking_over: "commits I (takeOverTx env actor dek reason nt)"
    and admin_session: "commits I (enrollAdminSessionTx env admin dek)"
    and rotating: "keeps I (RunPendingRotation env actor dek)"
    and replacing: "keeps I (ReplaceEscrowKey env actor dek standby)"
    and making_key: "keeps I (CreateNewEscrowKey env actor dek why)"
    and recovering: "commits I (recoverEscrowKeyTx env actor dek typed)"
begin

lemma codes': "I s \<Longrightarrow> I (s\<lparr>sy_codes := cs\<rparr>)"
  using codes [where s = s and cs = cs and n = "sy_nextCode s"] by simp

lemma tx: "commits I m \<Longrightarrow> keeps I (inWriteTx env m)"
  by (intro commits_inWriteTx folders)

lemmas quiet = tx keeps_commits

lemma keeps_folder [keeps_rules]:
  "keeps I (createUserFolder env dir)" "keeps I (removeNewUserFolder dir)"
  "keeps I m \<Longrightarrow> keeps I (orRemove dir m)" "keeps I m \<Longrightarrow> keeps I (removingFolder dir m)"
proof -
  show "keeps I (createUserFolder env dir)" unfolding createUserFolder_def by (intro keeps_rules keeps_exec folders)
  show r: "keeps I (removeNewUserFolder dir)" unfolding removeNewUserFolder_def by (intro keeps_exec folders)
  show "keeps I (orRemove dir m)" if "keeps I m" unfolding orRemove_def by (intro keeps_rules r that)
  show "keeps I (removingFolder dir m)" if "keeps I m" unfolding removingFolder_def by (intro keeps_rules r that)
qed

lemma keeps_auth [keeps_rules]: "keeps I (auth r)"
  by (cases r) (simp_all only: auth_def sum.case, intro keeps_rules, intro keeps_rules)

lemma keeps_updateUserIf [keeps_rules]: "quietUpdate f \<Longrightarrow> keeps I (updateUserIf username p f err)"
  unfolding updateUserIf_def by (intro keeps_rules user)

lemma keeps_credentialWork [keeps_rules]: "keeps I (storeCredentialWorkTx username snapshot w)"
  unfolding storeCredentialWorkTx_def by (intro keeps_rules) (simp_all add: quietUpdate_def)

lemma keeps_readCredential [keeps_rules]: "keeps I (readCredentialRow env username)" "keeps I (generationTx username)"
  unfolding readCredentialRow_def generationTx_def by (intro keeps_rules)+

lemma keeps_signIn [keeps_rules]: "keeps I (signInTx env username snapshot work adminSession)"
  unfolding signInTx_def requireSameCredentialsTx_def
  by (intro keeps_rules commits_savepoint [OF admin_session] user) (simp add: quietUpdate_def)

lemma keeps_replaceCodes [keeps_rules]: "keeps I (replaceRecoveryCodes env username cs)"
  unfolding replaceRecoveryCodes_def insertCode_def by (intro keeps_rules keeps_exec codes codes')

lemma keeps_reset [keeps_rules]: "keeps I (resetTx env username canon newPassword)"
  unfolding resetTx_def by (intro keeps_rules keeps_exec codes' user) (simp_all add: quietUpdate_def)

lemma keeps_issue [keeps_rules]: "keeps I (issueTx env actor username snapshot work cs)"
  unfolding issueTx_def by (intro keeps_rules)

lemma keeps_afterCommit: "commits I m \<Longrightarrow> keeps I (afterCommit env m)"
  unfolding afterCommit_def by (intro keeps_rules tx)

lemma keeps_recording [keeps_rules]: "keeps I m \<Longrightarrow> keeps I (recordingRefusal env actor username m)"
  unfolding recordingRefusal_def by (intro keeps_rules quiet)

text \<open>Every step keeps the predicate.\<close>

lemma step_keeps: "accountStep s s' \<Longrightarrow> I s \<Longrightarrow> I s'"
proof (induction rule: accountStep.induct)
  case create
  show ?case using create unfolding CreateAccountWithPrincipal_def by (rule keepsD [rotated]) (rule keeps_andThen_check, intro keeps_rules tx creating, simp)
next
  case disable
  show ?case using disable unfolding SetDisabled_def by (rule keepsD [rotated]) (intro tx disabling)
next
  case set_admin
  show ?case using set_admin unfolding SetAdmin_def by (rule keepsD [rotated]) (intro tx promoting)
next
  case promote
  show ?case using promote by (rule keepsD [rotated]) (rule promotion)
next
  case claim
  show ?case using claim by (rule keepsD [rotated]) (rule claiming)
next
  case export_dir
  show ?case using export_dir unfolding SetLastExportDirectory_def by (rule keepsD [rotated]) (intro user, simp add: quietUpdate_def)
next
  case purge
  show ?case using purge unfolding PurgeAccount_def by (rule keepsD [rotated]) (intro keeps_rules tx purging quiet keeps_exec folders)
next
  case require_super
  show ?case using require_super unfolding RequireSuper_def by (rule keepsD [rotated]) (intro quiet keeps_rules)
next
  case hand_over
  show ?case using hand_over unfolding HandOverSuper_def by (rule keepsD [rotated]) (intro keeps_rules tx handing_over)
next
  case set_standby
  show ?case using set_standby unfolding SetStandby_def by (rule keepsD [rotated]) (intro keeps_rules tx naming)
next
  case take_over
  show ?case using take_over unfolding TakeOverSuper_def by (rule keepsD [rotated]) (intro keeps_rules tx taking_over)
next
  case succession
  show ?case using succession unfolding GetSuccession_def by (rule keepsD [rotated]) (intro quiet keeps_rules)
next
  case enroll
  show ?case using enroll unfolding EnrollSession_def by (rule keepsD [rotated]) (intro quiet keeps_rules)
next
  case enroll_admin
  show ?case using enroll_admin unfolding EnrollAdminSession_def by (rule keepsD [rotated]) (intro tx admin_session)
next
  case run_rotation
  show ?case using run_rotation by (rule keepsD [rotated]) (rule rotating)
next
  case replace_key
  show ?case using replace_key by (rule keepsD [rotated]) (rule replacing)
next
  case new_key
  show ?case using new_key by (rule keepsD [rotated]) (rule making_key)
next
  case open_escrow
  show ?case using open_escrow unfolding OpenEscrow_def by (rule keepsD [rotated]) (intro keeps_afterCommit keeps_commits keeps_rules)
next
  case open_user
  show ?case using open_user unfolding OpenUserForAdmin_def by (rule keepsD [rotated]) (intro keeps_rules keeps_afterCommit keeps_commits)
next
  case acknowledge
  show ?case using acknowledge unfolding AcknowledgeAccessNotices_def by (rule keepsD [rotated]) (intro quiet keeps_rules keeps_exec notices)
next
  case create_code
  show ?case using create_code unfolding CreateEscrowRecoveryCode_def by (rule keepsD [rotated]) (intro keeps_afterCommit keeps_commits keeps_rules keeps_exec recovery)
next
  case check_code
  show ?case using check_code unfolding CheckEscrowRecoveryCode_def by (rule keepsD [rotated]) (intro quiet keeps_rules)
next
  case confirm_code
  show ?case using confirm_code unfolding ConfirmEscrowRecoveryCode_def by (rule keepsD [rotated]) (intro quiet keeps_rules keeps_exec recovery)
next
  case recover_key
  show ?case using recover_key unfolding RecoverEscrowKey_def by (rule keepsD [rotated]) (intro keeps_afterCommit recovering)
next
  case sign_in
  show ?case using sign_in by (rule keepsD [rotated]) (intro quiet keeps_rules)
next
  case password
  show ?case using password by (rule keepsD [rotated]) (intro keeps_rules, simp add: quietUpdate_def)
next
  case reset
  show ?case using reset unfolding ResetWithRecoveryCode_def by (rule keepsD [rotated]) (intro keeps_rules quiet)
next
  case issue
  show ?case using issue unfolding IssueRecoveryCodes_def by (rule keepsD [rotated]) (intro keeps_rules quiet)
next
  case issue_with_password
  show ?case using issue_with_password by (rule keepsD [rotated]) (intro quiet keeps_rules)
next
  case confirm_codes
  show ?case using confirm_codes unfolding ConfirmRecoveryCodes_def by (rule keepsD [rotated]) (intro quiet keeps_rules)
qed

lemma steps_keep: "accountSteps s s' \<Longrightarrow> I s \<Longrightarrow> I s'"
  by (induction rule: rtranclp_induct) (auto intro: step_keeps)

end

text \<open>
  A predicate that does not depend on the roles and that every write to the accounts keeps
  is kept by every operation, whatever its outcome.
\<close>

locale account_writes = role_writes +
  assumes any_user: "(\<And>u. ur_Username (f u) = ur_Username u) \<Longrightarrow> keeps I (updateUser username f)"
    and delete: "keeps I (deleteUser username)"
    and allocate: "keeps I (allocateAccountIdentity env username)"
    and insert_user: "keeps I (insertUser u)"
    and any_codes: "I s \<Longrightarrow> I (s\<lparr>sy_codes := cs, sy_nextCode := n\<rparr>)"
    and any_notices: "I s \<Longrightarrow> I (s\<lparr>sy_notices := ns\<rparr>)"
    and any_folders: "I s \<Longrightarrow> I (s\<lparr>sy_folders := fs\<rparr>)"
begin

lemma keeps_status:
  "keeps I (setDisabledTx env actor username off)" "keeps I (setAdminTx env actor username isAdmin)"
proof -
  show "keeps I (setDisabledTx env actor username off)"
    unfolding setDisabledTx_def by (intro keeps_rules any_user) simp
  show "keeps I (setAdminTx env actor username isAdmin)"
    unfolding setAdminTx_def by (intro keeps_rules any_user) simp
qed

lemma keeps_purge: "keeps I (purgeTx env actor username)"
  unfolding purgeTx_def by (intro keeps_rules delete)

lemma keeps_createAccount: "keeps I (createAccountTx env caller username displayName hash dek wrap isAdmin session)"
proof -
  have "keeps I (accountRule env caller isAdmin)" unfolding accountRule_def by (intro keeps_rules)
  moreover have "keeps I (insertAccount env username displayName hash isAdmin)" for isAdmin
    unfolding insertAccount_def orRemove_def removeNewUserFolder_def createUserFolder_def
    by (intro keeps_rules keeps_exec any_folders allocate insert_user)
  ultimately show ?thesis
    unfolding createAccountTx_def by (intro keeps_rules any_user) simp_all
qed

end

sublocale account_writes \<subseteq> account_commits
proof
  have tx: "keeps I (inWriteTx env m)" if "keeps I m" for env and m :: "'a tx" using that any_folders by (rule keeps_inWriteTx)
  show "keeps I (updateUser username f)" if "quietUpdate f" for username f
    using that by (intro any_user) (simp add: quietUpdate_def)
  show "keeps I (PromoteAdmin env actor username)" for env actor username
    unfolding PromoteAdmin_def by (intro tx keeps_rules any_user) simp_all
  show "keeps I (ClaimAdmin env username)" for env username
    unfolding ClaimAdmin_def by (intro tx keeps_rules any_user) simp_all
  show "keeps I (RunPendingRotation env actor dek)" for env actor dek
    unfolding RunPendingRotation_def by (intro tx keeps_rules)
  show "keeps I (ReplaceEscrowKey env actor dek standby)" for env actor dek standby
    unfolding ReplaceEscrowKey_def by (intro keeps_rules tx)
  show "keeps I (CreateNewEscrowKey env actor dek reason)" for env actor dek reason
    unfolding CreateNewEscrowKey_def by (intro keeps_rules tx)
qed (intro any_codes any_notices any_folders keeps_commits keeps_status keeps_purge keeps_createAccount keeps_rules; assumption?)+

subsection \<open>Signing in beside other processes\<close>

lemma signInLoop_steps:
  assumes other: "\<And>i t. accountSteps t (other i t)"
  shows "accountSteps s (snd (signInLoop n i envs other username password adminSession s))"
proof (induction n arbitrary: i s)
  case (Suc n)
  show ?case
  proof (cases "fst (readCredentialRow (envs i) username s)")
    case (Inr snapshot)
    have read: "readCredentialRow (envs i) username s = (Inr snapshot, s)"
      using Inr by (auto simp: readCredentialRow_def andThen_def split: option.splits)
    show ?thesis
    proof (cases "prepareSignIn (envs i) snapshot password")
      case (Inr work)
      let ?m = "inWriteTx (envs i) (signInTx (envs i) username snapshot work adminSession)"
      let ?t = "snd (?m (other i s))"
      have "accountStep (other i s) ?t" by (rule accountStep.sign_in)
      then have t: "accountSteps s ?t" using other [of s i] by (rule rtranclp.rtrancl_into_rtrancl [rotated])
      have eq: "signInLoop (Suc n) i envs other username password adminSession s =
        (case fst (?m (other i s)) of
           Inr (acc, who) \<Rightarrow> (Inr (acc, who, wk_dek work), ?t)
         | Inl e \<Rightarrow> if e = ErrStaleCredentials then signInLoop n (Suc i) envs other username password adminSession ?t else (Inl e, ?t))"
        by (simp add: andThen_def read Inr check_def attempt_run split: sum.split)
      show ?thesis
      proof (cases "fst (?m (other i s))")
        case (Inl e)
        show ?thesis using Suc.IH [of ?t "Suc i"] t unfolding eq Inl by (auto intro: rtranclp_trans)
      next
        case (Inr p)
        then show ?thesis using t unfolding eq by (cases p) simp
      qed
    qed (simp add: andThen_def read check_def)
  next
    case (Inl e)
    then have "snd (signInLoop (Suc n) i envs other username password adminSession s) = s"
      by (auto simp: readCredentialRow_def andThen_def split: option.splits)
    then show ?thesis by simp
  qed
qed simp

lemma signIn_steps:
  assumes "\<And>i t. accountSteps t (other i t)"
  shows "accountSteps s (snd (signIn envs other username password adminSession s))"
  using signInLoop_steps [OF assms] by (simp add: signIn_def)

end
