(* ===== verification/AccountIdentity.thy ===== *)
theory AccountIdentity
  imports AccountSteps
begin

text \<open>
  Account identities: an identity belongs to one account for good, is retired with it and
  never given out again, and its generation tells whether the role, status, password or key
  wrap of the account changed since it was read.
\<close>

definition authOf :: "string \<Rightarrow> Sys \<Rightarrow> (bool \<times> bool \<times> string \<times> string) option" where
  "authOf username s = map_option authState (userRow username s)"

definition oneOwner :: "IdentityRow list \<Rightarrow> bool" where
  "oneOwner rows \<longleftrightarrow> (\<forall>r \<in> set rows. \<forall>r' \<in> set rows. \<forall>v. ai_Username r = Some v \<longrightarrow> ai_Username r' = Some v \<longrightarrow> r = r')"

definition identityOK :: "Sys \<Rightarrow> bool" where
  "identityOK s \<longleftrightarrow> distinct (map ai_ID (sy_identity s)) \<and> distinct (map ur_Username (sy_users s))
     \<and> oneOwner (sy_identity s)
     \<and> (\<forall>r \<in> set (sy_identity s). identityID (ai_ID r) \<and> (ai_Username r = None \<longleftrightarrow> ai_Generation r = None))
     \<and> (\<forall>u \<in> set (sy_users s). identityOf (ur_Username u) s \<noteq> None)"

text \<open>What became of an identity: retired, or still with its account and not a generation back.\<close>

definition follows :: "IdentityRow \<Rightarrow> Sys \<Rightarrow> IdentityRow \<Rightarrow> Sys \<Rightarrow> bool" where
  "follows r s0 r' s \<longleftrightarrow> ai_ID r' = ai_ID r \<and>
     (ai_Username r' = None \<and> ai_Generation r' = None
      \<or> (\<exists>u g g'. ai_Username r = Some u \<and> ai_Username r' = Some u \<and> ai_Generation r = Some g \<and> ai_Generation r' = Some g'
           \<and> g \<le> g' \<and> (g' = g \<and> userRow u s0 \<noteq> None \<longrightarrow> authOf u s = authOf u s0)))"

definition identitySince :: "Sys \<Rightarrow> Sys \<Rightarrow> bool" where
  "identitySince s0 s \<longleftrightarrow> identityOK s \<and> (\<forall>r \<in> set (sy_identity s0). \<exists>r' \<in> set (sy_identity s). follows r s0 r' s)"

subsection \<open>Writes to the accounts\<close>

lemma updateUser_cases:
  assumes "updateUser username f s = (r, t)"
  obtains (same) "t = s"
    | (quiet) u where "userRow username s = Some u" "authState (f u) = authState u"
        "t = s\<lparr>sy_users := modifyBy ur_Username username f (sy_users s)\<rparr>"
    | (bumped) u row g where "userRow username s = Some u" "identityOf username s = Some row" "ai_Generation row = Some g"
        "t = s\<lparr>sy_users := modifyBy ur_Username username f (sy_users s),
               sy_identity := modifyBy ai_Username (Some username) (\<lambda>r. r\<lparr>ai_Generation := Some (g + 1)\<rparr>) (sy_identity s)\<rparr>"
proof (cases "userRow username s")
  case None
  with assms show ?thesis by (intro same) (simp add: updateUser_def andThen_def)
next
  case (Some u)
  show ?thesis
  proof (cases "authState (f u) = authState u")
    case True
    with assms Some show ?thesis by (intro quiet) (auto simp: updateUser_def andThen_def statement_def)
  next
    case False
    have i: "identityOf username (s\<lparr>sy_users := us\<rparr>) = identityOf username s" for us by (simp add: identityOf_def)
    from assms Some False show ?thesis
      by (auto simp: updateUser_def andThen_def statement_def bumpGeneration_def i
          split: option.splits if_splits intro: same bumped)
  qed
qed

lemma authOf_modify:
  assumes "\<And>u. ur_Username (f u) = ur_Username u"
  shows "authOf v (s\<lparr>sy_users := modifyBy ur_Username username f (sy_users s), sy_identity := rows\<rparr>)
           = (if v = username then map_option (\<lambda>u. authState (f u)) (userRow v s) else authOf v s)"
    and "authOf v (s\<lparr>sy_users := modifyBy ur_Username username f (sy_users s)\<rparr>)
           = (if v = username then map_option (\<lambda>u. authState (f u)) (userRow v s) else authOf v s)"
  using assms by (simp_all add: authOf_def rowBy_modifyBy option.map_comp comp_def)

lemma identityOf_row:
  assumes "identityOK s"
  shows "identityOf username s = Some r \<longleftrightarrow> r \<in> set (sy_identity s) \<and> ai_Username r = Some username"
proof
  assume "identityOf username s = Some r"
  then show "r \<in> set (sy_identity s) \<and> ai_Username r = Some username" unfolding identityOf_def by (rule rowBy_SomeD)
next
  assume r: "r \<in> set (sy_identity s) \<and> ai_Username r = Some username"
  then obtain r' where r': "identityOf username s = Some r'"
    unfolding identityOf_def by (metis imageI not_None_eq rowBy_None)
  then have "r' \<in> set (sy_identity s)" "ai_Username r' = Some username" unfolding identityOf_def by (auto dest: rowBy_SomeD)
  with r r' assms show "identityOf username s = Some r" unfolding identityOK_def oneOwner_def by metis
qed

lemma follows_refl:
  assumes "identityOK s" and "r \<in> set (sy_identity s)" and "\<And>u. ai_Username r = Some u \<Longrightarrow> userRow u s \<noteq> None \<Longrightarrow> authOf u t = authOf u s"
  shows "follows r s r t"
proof (cases "ai_Username r")
  case None
  then show ?thesis using assms(1,2) by (auto simp: follows_def identityOK_def)
next
  case (Some u)
  then obtain g where "ai_Generation r = Some g" using assms(1,2) unfolding identityOK_def by (metis not_None_eq)
  with Some assms(3) show ?thesis by (simp add: follows_def)
qed

lemma follows_trans:
  assumes "follows r s0 r1 s" and "follows r1 s r2 t"
  shows "follows r s0 r2 t"
proof (cases "ai_Username r2")
  case None
  then show ?thesis using assms by (auto simp: follows_def)
next
  case (Some u)
  then obtain g1 g2 where 2: "ai_Username r1 = Some u" "ai_Generation r1 = Some g1" "ai_Generation r2 = Some g2" "g1 \<le> g2"
      "g2 = g1 \<and> userRow u s \<noteq> None \<Longrightarrow> authOf u t = authOf u s" "ai_ID r2 = ai_ID r1"
    using assms(2) by (auto simp: follows_def)
  then obtain g where 1: "ai_Username r = Some u" "ai_Generation r = Some g" "g \<le> g1"
      "g1 = g \<and> userRow u s0 \<noteq> None \<Longrightarrow> authOf u s = authOf u s0" "ai_ID r1 = ai_ID r"
    using assms(1) by (auto simp: follows_def)
  have "authOf u t = authOf u s0" if "g2 = g" "userRow u s0 \<noteq> None"
  proof -
    have g: "g1 = g" "g2 = g1" using that(1) 1(3) 2(4) by auto
    then have a: "authOf u s = authOf u s0" using 1(4) that(2) by simp
    then have "userRow u s \<noteq> None" using that(2) unfolding authOf_def by (metis option.map_disc_iff)
    with a g 2(5) show ?thesis by simp
  qed
  with 1 2 Some show ?thesis by (auto simp: follows_def)
qed

lemma keeps_identityI:
  assumes "\<And>s. identityOK s \<Longrightarrow> identitySince s (snd (m s))"
  shows "keeps (identitySince s0) m"
  unfolding keeps_def
proof (intro allI impI)
  fix s assume s: "identitySince s0 s"
  then have t: "identitySince s (snd (m s))" using assms by (simp add: identitySince_def)
  have "\<exists>r'\<in>set (sy_identity (snd (m s))). follows r s0 r' (snd (m s))" if "r \<in> set (sy_identity s0)" for r
    using s t that unfolding identitySince_def by (metis follows_trans)
  with t show "identitySince s0 (snd (m s))" by (simp add: identitySince_def)
qed

lemma since_same:
  assumes "identityOK s" and "sy_identity t = sy_identity s" and "map ur_Username (sy_users t) = map ur_Username (sy_users s)"
    and "\<And>u. authOf u t = authOf u s"
  shows "identitySince s t"
proof -
  have "ur_Username ` set (sy_users t) = ur_Username ` set (sy_users s)" using assms(3) by (metis set_map)
  then have "\<forall>u \<in> set (sy_users t). identityOf (ur_Username u) t \<noteq> None"
    using assms(1,2) unfolding identityOK_def identityOf_def by (metis (no_types, lifting) imageE imageI)
  then have "identityOK t" using assms(1) unfolding identityOK_def assms(2,3) by blast
  then show ?thesis using follows_refl [OF assms(1) _ assms(4)] assms(2) by (auto simp: identitySince_def)
qed

text \<open>One row of the registry changes: the row of one account.\<close>

lemma since_row:
  assumes ok: "identityOK s" and row: "identityOf username s = Some row"
    and f: "\<And>r. ai_ID (f r) = ai_ID r" "ai_Username (f row) \<in> {None, Some username}"
      "ai_Username (f row) = None \<longleftrightarrow> ai_Generation (f row) = None"
    and idt: "sy_identity t = modifyBy ai_Username (Some username) f (sy_identity s)"
    and users: "distinct (map ur_Username (sy_users t))"
      "\<And>u. u \<in> ur_Username ` set (sy_users t) \<Longrightarrow> u \<in> ur_Username ` set (sy_users s) \<and> (u = username \<longrightarrow> ai_Username (f row) \<noteq> None)"
    and auth: "\<And>u. u \<noteq> username \<Longrightarrow> authOf u t = authOf u s"
    and fol: "follows row s (f row) t"
  shows "identitySince s t"
proof -
  let ?h = "\<lambda>r. if ai_Username r = Some username then f r else r"
  have set: "set (sy_identity t) = ?h ` set (sy_identity s)" by (simp add: idt modifyBy_def)
  have rows: "r = row" if "r \<in> set (sy_identity s)" "ai_Username r = Some username" for r
    using identityOf_row [OF ok, of username r] row that by simp
  have rowin: "row \<in> set (sy_identity s)" "ai_Username row = Some username"
    using identityOf_row [OF ok, of username row] row by auto
  have name: "ai_Username (?h r) = Some u \<Longrightarrow> ai_Username r = Some u" if "r \<in> set (sy_identity s)" for r u
    using that rows f(2) by (auto split: if_splits)
  have uniq: "r = r'" if p: "r \<in> set (sy_identity t)" "r' \<in> set (sy_identity t)" and u: "ai_Username r = Some u" "ai_Username r' = Some u" for r r' u
  proof -
    obtain q q' where q: "q \<in> set (sy_identity s)" "r = ?h q" "q' \<in> set (sy_identity s)" "r' = ?h q'" using p(1,2) set by auto
    have "ai_Username q = Some u" "ai_Username q' = Some u"
      using name [OF q(1)] name [OF q(3)] u unfolding q(2,4) by simp_all
    then have "q = q'" using identityOf_row [OF ok, of u q] identityOf_row [OF ok, of u q'] q(1,3) by simp
    with q show ?thesis by simp
  qed
  have gen: "identityID (ai_ID r) \<and> (ai_Username r = None \<longleftrightarrow> ai_Generation r = None)" if p: "r \<in> set (sy_identity t)" for r
  proof -
    obtain q where q: "q \<in> set (sy_identity s)" "r = ?h q" using p set by auto
    then have g: "identityID (ai_ID q)" "ai_Username q = None \<longleftrightarrow> ai_Generation q = None" using ok unfolding identityOK_def by blast+
    show ?thesis
    proof (cases "ai_Username q = Some username")
      case True
      then show ?thesis using rows [OF q(1)] q(2) f(1,3) g(1) by simp
    qed (use q(2) g in simp)
  qed
  have has: "identityOf (ur_Username u) t \<noteq> None" if "u \<in> set (sy_users t)" for u
  proof -
    have us: "ur_Username u \<in> ur_Username ` set (sy_users s)" "ur_Username u = username \<Longrightarrow> ai_Username (f row) \<noteq> None"
      using users(2) that by auto
    then obtain w where "w \<in> set (sy_users s)" "ur_Username w = ur_Username u" by auto
    then have "identityOf (ur_Username u) s \<noteq> None" using ok unfolding identityOK_def by metis
    then obtain q where "identityOf (ur_Username u) s = Some q" by blast
    then have q: "q \<in> set (sy_identity s)" "ai_Username q = Some (ur_Username u)"
      using identityOf_row [OF ok, of "ur_Username u" q] by auto
    have "ai_Username (?h q) = Some (ur_Username u)"
    proof (cases "ur_Username u = username")
      case True
      then show ?thesis using us(2) rows [OF q(1)] q(2) f(2) by auto
    qed (use q(2) in simp)
    then show ?thesis using q(1) set unfolding identityOf_def rowBy_None by (metis (no_types, lifting) imageI)
  qed
  have "map ai_ID (sy_identity t) = map ai_ID (sy_identity s)" using f(1) by (simp add: idt modifyBy_def)
  then have "identityOK t" using ok users(1) uniq gen has unfolding identityOK_def oneOwner_def by auto
  moreover have "\<exists>r' \<in> set (sy_identity t). follows r s r' t" if r: "r \<in> set (sy_identity s)" for r
  proof (cases "ai_Username r = Some username")
    case True
    then show ?thesis using rows [OF r] fol set r by auto
  next
    case False
    then have "follows r s r t" using auth by (intro follows_refl [OF ok r]) auto
    then show ?thesis using set r False by force
  qed
  ultimately show ?thesis by (simp add: identitySince_def)
qed

lemma since_updateUser:
  assumes ok: "identityOK s" and f: "\<And>u. ur_Username (f u) = ur_Username u"
  shows "identitySince s (snd (updateUser username f s))"
proof -
  obtain r t where t: "updateUser username f s = (r, t)" by fastforce
  from t have "identitySince s t"
  proof (cases rule: updateUser_cases)
    case same
    then show ?thesis using since_same [OF ok] by simp
  next
    case (quiet u)
    have "authOf v t = authOf v s" for v
      using quiet authOf_modify(2) [OF f, where v = v and username = username and s = s] by (simp add: authOf_def)
    then show ?thesis using quiet f by (intro since_same [OF ok]) (simp_all add: map_modifyBy)
  next
    case (bumped u row g)
    have row: "row \<in> set (sy_identity s)" "ai_Username row = Some username"
      using identityOf_row [OF ok, of username row] bumped(2) by auto
    have auth: "authOf v t = authOf v s" if "v \<noteq> username" for v
      using authOf_modify(1) [OF f, where v = v and username = username and s = s] that by (simp add: bumped(4))
    have names: "map ur_Username (sy_users t) = map ur_Username (sy_users s)" using f by (simp add: bumped(4) map_modifyBy)
    have dist: "distinct (map ur_Username (sy_users t))" using ok names by (simp add: identityOK_def)
    have "ur_Username ` set (sy_users t) = ur_Username ` set (sy_users s)" using names by (metis set_map)
    moreover have "follows row s (row\<lparr>ai_Generation := Some (g + 1)\<rparr>) t"
      using row(2) bumped(3) by (simp add: follows_def)
    ultimately show ?thesis using row auth dist
      by (intro since_row [OF ok bumped(2), where f = "\<lambda>r. r\<lparr>ai_Generation := Some (g + 1)\<rparr>"]) (auto simp: bumped(4))
  qed
  then show ?thesis by (simp add: t)
qed

lemma since_deleteUser:
  assumes ok: "identityOK s"
  shows "identitySince s (snd (deleteUser username s))"
proof (cases "map_option fst (sy_super s) = Some username")
  case True
  then show ?thesis using since_same [OF ok] by (simp add: deleteUser_def andThen_def)
next
  case False
  define t where "t = snd (deleteUser username s)"
  let ?f = "\<lambda>r. r\<lparr>ai_Username := None, ai_Generation := None\<rparr>"
  have t: "sy_users t = deleteBy ur_Username username (sy_users s)" "sy_identity t = modifyBy ai_Username (Some username) ?f (sy_identity s)"
    using False by (simp_all add: t_def deleteUser_def andThen_def)
  have auth: "authOf u t = authOf u s" if "u \<noteq> username" for u using that by (simp add: authOf_def t(1) rowBy_deleteBy)
  show ?thesis
  proof (cases "identityOf username s")
    case None
    then have no: "username \<notin> ur_Username ` set (sy_users s)" using ok unfolding identityOK_def by (metis imageE)
    have "sy_users t = sy_users s" using no by (auto simp: t(1) deleteBy_def filter_id_conv)
    moreover have "sy_identity t = sy_identity s"
      using None unfolding t(2) modifyBy_def identityOf_def rowBy_None by (intro map_idI) (auto simp: image_iff)
    ultimately have "identitySince s t" by (intro since_same [OF ok]) (simp_all add: authOf_def)
    then show ?thesis by (simp add: t_def)
  next
    case (Some row)
    have "distinct (map ur_Username (sy_users t))" using ok by (simp add: t(1) identityOK_def distinct_deleteBy)
    moreover have "follows row s (?f row) t" by (simp add: follows_def)
    ultimately have "identitySince s t" using t auth
      by (intro since_row [OF ok Some, where f = ?f]) (auto simp: set_deleteBy)
    then show ?thesis by (simp add: t_def)
  qed
qed

lemma since_more:
  assumes ok: "identityOK s" and t: "identityOK t" "set (sy_identity s) \<subseteq> set (sy_identity t)"
    and auth: "\<And>u. userRow u s \<noteq> None \<Longrightarrow> authOf u t = authOf u s"
  shows "identitySince s t"
  using follows_refl [OF ok] t auth unfolding identitySince_def by blast

lemma since_insertUser:
  assumes ok: "identityOK s"
  shows "identitySince s (snd (insertUser u s))"
proof (cases "userRow (ur_Username u) s = None \<and> Option.bind (identityOf (ur_Username u) s) ai_Generation = Some 1")
  case False
  then have "snd (insertUser u s) = s" by (auto simp: insertUser_def andThen_def)
  then show ?thesis using since_same [OF ok] by simp
next
  case True
  let ?t = "s\<lparr>sy_users := sy_users s @ [u]\<rparr>"
  have t: "snd (insertUser u s) = ?t" using True by (simp add: insertUser_def andThen_def)
  have i: "identityOf v ?t = identityOf v s" for v by (simp add: identityOf_def)
  have "identityOf (ur_Username u) s \<noteq> None" using True by (cases "identityOf (ur_Username u) s") simp_all
  then have "\<forall>v \<in> set (sy_users ?t). identityOf (ur_Username v) ?t \<noteq> None"
    using ok unfolding i by (auto simp: identityOK_def)
  moreover have "distinct (map ur_Username (sy_users ?t))" using ok True by (auto simp: identityOK_def rowBy_None)
  ultimately have "identityOK ?t" using ok unfolding identityOK_def by auto
  then show ?thesis unfolding t
    by (intro since_more [OF ok]) (auto simp: authOf_def rowBy_append split: option.splits)
qed

lemma since_allocate:
  assumes ok: "identityOK s"
  shows "identitySince s (snd (allocateAccountIdentity env username s))"
proof -
  let ?row = "\<lambda>i. \<lparr>ai_ID = i, ai_Username = Some username, ai_Generation = Some 1\<rparr>"
  let ?t = "\<lambda>i. s\<lparr>sy_identity := sy_identity s @ [?row i]\<rparr>"
  consider "snd (allocateAccountIdentity env username s) = s"
    | i where "identityID i" "\<not> list_ex (\<lambda>r. ai_ID r = i \<or> ai_Username r = Some username) (sy_identity s)"
        "snd (allocateAccountIdentity env username s) = ?t i"
  proof (cases "en_Rand env 0")
    case None
    then show ?thesis by (intro that(1)) (simp add: allocateAccountIdentity_def)
  next
    case (Some random)
    let ?i = "''ac1:'' @ hexEncode random"
    let ?bad = "\<not> identityID ?i \<or> list_ex (\<lambda>r. ai_ID r = ?i \<or> ai_Username r = Some username) (sy_identity s)"
    have "snd (allocateAccountIdentity env username s) = (if ?bad then s else ?t ?i)"
      by (simp add: allocateAccountIdentity_def Some andThen_def Let_def del: append_Cons)
    then show ?thesis using that by (cases ?bad) auto
  qed
  then show ?thesis
  proof cases
    case 1
    then show ?thesis using since_same [OF ok] by simp
  next
    case (2 i)
    have new: "i \<notin> ai_ID ` set (sy_identity s)" "\<And>r. r \<in> set (sy_identity s) \<Longrightarrow> ai_Username r \<noteq> Some username"
      using 2(2) by (auto simp: list_ex_iff)
    have "identityOf v (?t i) \<noteq> None" if "identityOf v s \<noteq> None" for v
      using that by (auto simp: identityOf_def rowBy_append)
    then have has: "\<forall>u \<in> set (sy_users (?t i)). identityOf (ur_Username u) (?t i) \<noteq> None"
      using ok by (auto simp: identityOK_def)
    have uniq: "oneOwner (sy_identity (?t i))"
      unfolding oneOwner_def
    proof (intro ballI allI impI)
      fix r r' v assume p: "r \<in> set (sy_identity (?t i))" "r' \<in> set (sy_identity (?t i))"
        and v: "ai_Username r = Some v" "ai_Username r' = Some v"
      show "r = r'"
      proof (cases "v = username")
        case True
        then show ?thesis using p(1,2) v new(2) by auto
      next
        case False
        then have "r \<in> set (sy_identity s)" "r' \<in> set (sy_identity s)" using p(1,2) v by auto
        then show ?thesis using identityOf_row [OF ok, of v r] identityOf_row [OF ok, of v r'] v by simp
      qed
    qed
    have "identityOK (?t i)" using ok new(1) 2(1) has uniq unfolding identityOK_def by auto
    then show ?thesis unfolding 2(3) by (intro since_more [OF ok]) (auto simp: authOf_def)
  qed
qed

lemma since_other:
  assumes "identitySince s0 s" and "sy_identity t = sy_identity s" and "sy_users t = sy_users s"
  shows "identitySince s0 t"
proof -
  have a: "authOf v t = authOf v s" for v using assms(3) by (simp add: authOf_def)
  have "identitySince s t" using assms by (intro since_same) (simp_all add: identitySince_def a)
  with assms(1) show ?thesis unfolding identitySince_def by (metis follows_trans)
qed

interpretation identities: account_writes "identitySince s0" for s0
proof unfold_locales
  show "keeps (identitySince s0) (updateUser username f)" if "\<And>u. ur_Username (f u) = ur_Username u" for username f
    by (intro keeps_identityI since_updateUser that)
  show "keeps (identitySince s0) (deleteUser username)" for username by (intro keeps_identityI since_deleteUser)
  show "keeps (identitySince s0) (insertUser u)" for u by (intro keeps_identityI since_insertUser)
  show "keeps (identitySince s0) (allocateAccountIdentity env username)" for env username by (intro keeps_identityI since_allocate)
qed (rule since_other, assumption, simp, simp)+

lemma identityOK_empty: "identityOK emptySys"
  by (simp add: identityOK_def oneOwner_def emptySys_def)

lemma since_start: "identityOK s \<Longrightarrow> identitySince s s"
  using since_same by simp

lemma identityOK_reachable: "accountSteps emptySys s \<Longrightarrow> identityOK s"
  using identities.steps_keep [of emptySys s emptySys] since_start [OF identityOK_empty] by (simp add: identitySince_def)

lemma identities_since: "accountSteps emptySys s0 \<Longrightarrow> accountSteps s0 s \<Longrightarrow> identitySince s0 s"
  using identities.steps_keep [OF _ since_start [OF identityOK_reachable]] .

end
