(* ===== verification/KeyHolders.thy ===== *)
theory KeyHolders
  imports AccountIdentity
begin

text \<open>
  Who runs the machine: an enabled administrator for as long as there is an account, a super
  administrator and a standby who are enabled administrators, and nobody else with a copy of
  the administrator key. The invariant \<open>rolesOK\<close> is kept by every operation, shown
  transaction by transaction and put together by the interpretation of
  \<open>account_commits\<close>.
\<close>

definition enabledAt :: "string \<Rightarrow> Sys \<Rightarrow> bool" where
  "enabledAt u s \<longleftrightarrow> (\<exists>r. userRow u s = Some r \<and> enabledAdmin r)"

definition superOf :: "Sys \<Rightarrow> string option" where "superOf s = map_option fst (sy_super s)"

definition standbyName :: "Sys \<Rightarrow> string option" where "standbyName s = Option.bind (sy_succession s) sr_Standby"

definition keyHolders :: "Sys \<Rightarrow> string set" where
  "keyHolders s = {u. superOf s = Some u \<or> standbyName s = Some u}"

definition usersOK :: "UserRow list \<Rightarrow> bool" where
  "usersOK us \<longleftrightarrow> distinct (map ur_Username us) \<and> [] \<notin> ur_Username ` set us \<and> (us \<noteq> [] \<longrightarrow> (\<exists>u \<in> set us. enabledAdmin u))"

definition rolesOK :: "Sys \<Rightarrow> bool" where
  "rolesOK s \<longleftrightarrow> usersOK (sy_users s)
     \<and> (\<forall>u. superOf s = Some u \<longrightarrow> enabledAt u s)
     \<and> (\<forall>v. standbyName s = Some v \<longrightarrow> enabledAt v s \<and> superOf s \<noteq> None \<and> superOf s \<noteq> Some v)
     \<and> admins (sy_grants s) \<subseteq> keyHolders s"

lemmas roles_defs = superOf_def standbyName_def keyHolders_def enabledAt_def

subsection \<open>Steps that leave the roles alone\<close>

definition rolesAre :: "UserRow list \<times> (string \<times> Stamp) option \<times> SuccessionRow option \<Rightarrow> string set \<Rightarrow> Sys \<Rightarrow> bool" where
  "rolesAre k A s \<longleftrightarrow> (sy_users s, sy_super s, sy_succession s) = k \<and> admins (sy_grants s) \<subseteq> A"

interpretation same_roles: escrow_writes "rolesAre k A" A for k A
  by unfold_locales (auto simp: rolesAre_def admins_def)

lemma rolesOK_same:
  assumes "rolesOK s" "sy_users t = sy_users s" "sy_super t = sy_super s" "sy_succession t = sy_succession s"
    and "admins (sy_grants t) \<subseteq> keyHolders s"
  shows "rolesOK t"
  using assms by (simp add: rolesOK_def roles_defs)

lemma same_roles_run:
  assumes "m s = (r, t)" and "\<And>k. keeps (rolesAre k A) m" and "admins (sy_grants s) \<subseteq> A"
  shows "sy_users t = sy_users s" "sy_super t = sy_super s" "sy_succession t = sy_succession s" "admins (sy_grants t) \<subseteq> A"
  using keepsD' [OF assms(2,1), of "(sy_users s, sy_super s, sy_succession s)"] assms(3) by (simp_all add: rolesAre_def)

lemma rolesOK_grants: "rolesOK s \<Longrightarrow> admins (sy_grants s) \<subseteq> keyHolders s"
  by (simp add: rolesOK_def)

lemma rolesOK_quiet:
  "rolesOK s \<Longrightarrow> sy_users t = sy_users s \<Longrightarrow> sy_super t = sy_super s \<Longrightarrow> sy_succession t = sy_succession s \<Longrightarrow> sy_grants t = sy_grants s \<Longrightarrow> rolesOK t"
  using rolesOK_same [of s t] rolesOK_grants [of s] by simp

lemma keeps_rolesOK_quiet:
  assumes "\<And>k A. keeps (rolesAre k A) m"
  shows "keeps rolesOK m"
  unfolding keeps_def
proof (intro allI impI)
  fix s assume s: "rolesOK s"
  from same_roles_run [where m = m and s = s and r = "fst (m s)" and t = "snd (m s)", OF _ assms rolesOK_grants [OF s]] s
  show "rolesOK (snd (m s))" by (intro rolesOK_same [OF s]) simp_all
qed

subsection \<open>Reading roles\<close>

lemma requireEnabledAdmin_run: "requireEnabledAdmin a s = (if enabledAt a s then Inr () else Inl ErrNotAdmin, s)"
  by (auto simp: requireEnabledAdmin_def accountRole_def andThen_def attempt_def enabledAt_def enabledAdmin_def split: option.splits)

lemma accountRole_Inr [simp]:
  "accountRole u s = (Inr p, t) \<longleftrightarrow> t = s \<and> (\<exists>r. userRow u s = Some r \<and> p = (ur_IsAdmin r, ur_Disabled r))"
  by (auto simp: accountRole_def andThen_def split: option.splits)

lemma requireTargetAdmin_Inr [simp]: "requireTargetAdmin a s = (Inr x, t) \<longleftrightarrow> enabledAt a s \<and> t = s"
  by (auto simp: requireTargetAdmin_def andThen_def attempt_run requireEnabledAdmin_run)

lemma requireEnabledAdmin_Inr [simp]: "requireEnabledAdmin a s = (Inr x, t) \<longleftrightarrow> enabledAt a s \<and> t = s"
  by (auto simp: requireEnabledAdmin_run)

lemma requirePersonalKey_Inr [simp]:
  "requirePersonalKeyTx a s = (Inr x, t) \<longleftrightarrow> rowBy pk_Username a (sy_personal s) \<noteq> None \<and> t = s"
  by (auto simp: requirePersonalKeyTx_def andThen_def)

lemma requireUnprotected_Inr: "requireUnprotectedTx env a s = (Inr x, t) \<Longrightarrow> t = s"
  by (auto simp: requireUnprotectedTx_def protectionTx_def andThen_def split: option.splits prod.splits)

lemma usersOK_nonempty: "usersOK us \<Longrightarrow> rowBy ur_Username u us = Some r \<Longrightarrow> u \<noteq> []"
  using rowBy_SomeD [of ur_Username u us r] by (auto simp: usersOK_def image_iff)

lemma enabledAt_nonempty: "rolesOK s \<Longrightarrow> enabledAt u s \<Longrightarrow> u \<noteq> []"
  using usersOK_nonempty by (auto simp: rolesOK_def enabledAt_def)

lemma earliest_member: "fst (foldl earliest (b, t) us) \<in> insert b (ur_Username ` set us)"
proof (induction us arbitrary: b t)
  case (Cons u us)
  obtain b' t' where e: "earliest (b, t) u = (b', t')" by fastforce
  then have "b' \<in> {b, ur_Username u}" by (auto simp: earliest_def Let_def split: if_splits)
  with Cons [of b' t'] show ?case by (auto simp: e)
qed simp

lemma earliest_enabled:
  assumes "rolesOK s" and "fst (foldl earliest ([], 0) (filter enabledAdmin (sy_users s))) \<noteq> []"
  shows "enabledAt (fst (foldl earliest ([], 0) (filter enabledAdmin (sy_users s)))) s"
proof -
  obtain u where "u \<in> set (sy_users s)" "enabledAdmin u" "ur_Username u = fst (foldl earliest ([], 0) (filter enabledAdmin (sy_users s)))"
    using earliest_member [of "[]" 0 "filter enabledAdmin (sy_users s)"] assms(2) by auto
  then show ?thesis using assms(1) by (auto simp: enabledAt_def rolesOK_def usersOK_def rowBy_Some_iff)
qed

lemma superOf_None_alone: "rolesOK s \<Longrightarrow> superOf s = None \<Longrightarrow> standbyName s = None \<and> sy_grants s = []"
  by (cases "standbyName s") (auto simp: rolesOK_def keyHolders_def admins_def)

lemma ensureSuper_run:
  assumes s: "rolesOK s"
  obtains u t where "ensureSuperTx env s = (Inr u, t)" "rolesOK t" "superOf t = (if u = [] then None else Some u)"
    "sy_users t = sy_users s" "sy_succession t = sy_succession s" "superOf s \<noteq> None \<longrightarrow> t = s"
proof (cases "superOf s")
  case (Some u)
  then have "enabledAt u s" "u \<noteq> []" "superRow s = u"
    using s enabledAt_nonempty [OF s, of u] by (auto simp: rolesOK_def superRow_def superOf_def split: option.splits)
  then have "ensureSuperTx env s = (Inr u, s)" by (simp add: ensureSuperTx_def andThen_def attempt_run requireEnabledAdmin_run)
  then show ?thesis using s Some \<open>u \<noteq> []\<close> by (intro that [of u s]) simp_all
next
  case None
  let ?name = "fst (foldl earliest ([], 0) (filter enabledAdmin (sy_users s)))"
  have row: "superRow s = []" using None by (simp add: superRow_def superOf_def)
  note alone = superOf_None_alone [OF s None]
  show ?thesis
  proof (cases "?name = []")
    case True
    then have "ensureSuperTx env s = (Inr [], s)" using row
      by (simp add: ensureSuperTx_def assignSuper_def earliestEnabledAdmin_def andThen_def)
    then show ?thesis using s None by (intro that) simp_all
  next
    case False
    have e: "enabledAt ?name s" using earliest_enabled [OF s False] .
    obtain t where t: "ensureSuperTx env s = (Inr ?name, t)" "sy_users t = sy_users s" "sy_succession t = sy_succession s"
        "superOf t = Some ?name" "sy_grants t = sy_grants s"
      using row False by (simp add: ensureSuperTx_def assignSuper_def earliestEnabledAdmin_def andThen_def recordAccountEvent_def
          accountEventActions_def superOf_def)
    have "rolesOK t" using s e alone t(2-5) by (auto simp: rolesOK_def standbyName_def enabledAt_def keyHolders_def)
    with t False None show ?thesis by (intro that [OF t(1)]) simp_all
  qed
qed

lemma readSuccession_run:
  assumes s: "rolesOK s"
  obtains r t u where "readSuccessionTx env s = (r, t)" "rolesOK t" "superOf t = (if u = [] then None else Some u)"
    "sy_users t = sy_users s" "sy_succession t = sy_succession s" "superOf s \<noteq> None \<longrightarrow> t = s"
    "\<forall>st. r = Inr st \<longrightarrow> ss_super st = u \<and> standbyName t = (if ss_standby st = [] then None else Some (ss_standby st))"
proof -
  obtain u t where e: "ensureSuperTx env s = (Inr u, t)" "rolesOK t" "superOf t = (if u = [] then None else Some u)"
    "sy_users t = sy_users s" "sy_succession t = sy_succession s" "superOf s \<noteq> None \<longrightarrow> t = s" using ensureSuper_run [OF s] .
  let ?v = "case standbyName t of None \<Rightarrow> [] | Some v \<Rightarrow> v"
  have sb: "\<exists>d. standbyOf env u ?v n t = (Inr (?v, d), t)" for n
  proof (cases "standbyName t")
    case (Some v)
    then have "enabledAt v t" "superOf t = Some u" "v \<noteq> u" using e(2,3) by (auto simp: rolesOK_def split: if_splits)
    then show ?thesis using Some enabledAt_nonempty [OF e(2)]
      by (auto simp: standbyOf_def andThen_def attempt_run requireEnabledAdmin_run enabledAt_def)
  qed (simp add: standbyOf_def)
  have v: "standbyName t = (if ?v = [] then None else Some ?v)"
    using e(2) enabledAt_nonempty [OF e(2)] by (auto simp: rolesOK_def split: option.splits)
  have "\<exists>r. readSuccessionTx env s = (r, t) \<and> (\<forall>st. r = Inr st \<longrightarrow> ss_super st = u \<and> ss_standby st = ?v)"
  proof (cases "sy_succession t")
    case None
    then have "standbyOf env u [] None t = (Inr ([], 0), t)" "?v = []" by (simp_all add: standbyOf_def standbyName_def)
    then show ?thesis using None
      by (auto simp: readSuccessionTx_def andThen_def e Let_def split: option.splits prod.splits)
  next
    case (Some row)
    obtain d where "standbyOf env u ?v (sr_NamedAt row) t = (Inr (?v, d), t)" using sb by blast
    moreover have "(case sr_Standby row of None \<Rightarrow> [] | Some u \<Rightarrow> u) = ?v" using Some by (simp add: standbyName_def)
    ultimately show ?thesis using Some
      by (auto simp: readSuccessionTx_def andThen_def e Let_def split: option.splits prod.splits)
  qed
  then obtain r where r: "readSuccessionTx env s = (r, t)" "\<And>st. r = Inr st \<Longrightarrow> ss_super st = u \<and> ss_standby st = ?v" by blast
  show ?thesis using r(2) v by (intro that [OF r(1) e(2-6)]) metis
qed

lemma keeps_ensureSuper: "keeps rolesOK (ensureSuperTx env)" "keeps rolesOK (readSuccessionTx env)"
  unfolding keeps_def by (metis ensureSuper_run readSuccession_run snd_conv)+

lemma requireSuper_Inr:
  assumes s: "rolesOK s" and "requireSuperTx env actor s = (Inr x, t)"
  shows "rolesOK t" "superOf t = Some actor" "sy_users t = sy_users s" "sy_succession t = sy_succession s" "enabledAt actor s"
proof -
  obtain u t' where e: "ensureSuperTx env s = (Inr u, t')" "rolesOK t'" "superOf t' = (if u = [] then None else Some u)"
    "sy_users t' = sy_users s" "sy_succession t' = sy_succession s" "superOf s \<noteq> None \<longrightarrow> t' = s" using ensureSuper_run [OF s] .
  have a: "enabledAt actor s" "t = t'" "u = actor"
    using assms(2) e(1) by (auto simp: requireSuperTx_def andThen_Inr split: if_splits)
  then show "rolesOK t" "superOf t = Some actor" "sy_users t = sy_users s" "sy_succession t = sy_succession s" "enabledAt actor s"
    using e enabledAt_nonempty [OF s] by auto
qed

interpretation roles_read: role_reads rolesOK
proof unfold_locales
  show "rolesOK (s\<lparr>sy_grants := filter p (sy_grants s)\<rparr>)" if "rolesOK s" for s p
    using subset_trans [OF admins_simps(2) rolesOK_grants [OF that]] by (intro rolesOK_same [OF that]) simp_all
  show "keeps rolesOK (ensureSuperTx env)" "keeps rolesOK (readSuccessionTx env)" for env by (rule keeps_ensureSuper)+
qed (erule rolesOK_quiet; simp)+

subsection \<open>Changing accounts\<close>

definition otherAdmin :: "string \<Rightarrow> Sys \<Rightarrow> bool" where
  "otherAdmin username s \<longleftrightarrow> (\<exists>u \<in> set (sy_users s). enabledAdmin u \<and> ur_Username u \<noteq> username)"

lemma update_users: "updateUser username f s = (r, t) \<Longrightarrow> sy_super t = sy_super s \<and> sy_succession t = sy_succession s \<and> sy_grants t = sy_grants s
     \<and> (sy_users t = sy_users s \<or> sy_users t = modifyBy ur_Username username f (sy_users s))"
  by (erule updateUser_cases) simp_all

lemma modify_roles:
  assumes s: "rolesOK s" and t: "sy_users t = modifyBy ur_Username username f (sy_users s)"
      "sy_super t = sy_super s" "sy_succession t = sy_succession s" "sy_grants t = sy_grants s"
    and f: "\<And>u. ur_Username (f u) = ur_Username u"
    and ok: "(\<forall>u. enabledAdmin u \<longrightarrow> enabledAdmin (f u)) \<or> (username \<notin> keyHolders s \<and> otherAdmin username s)"
  shows "rolesOK t"
proof -
  have row: "userRow v t = (if v = username then map_option f (userRow v s) else userRow v s)" for v
    using f by (simp add: t(1) rowBy_modifyBy)
  have en: "enabledAt v t" if "enabledAt v s" "v \<in> keyHolders s" for v
    using that ok row [of v] by (auto simp: enabledAt_def)
  have names: "map ur_Username (sy_users t) = map ur_Username (sy_users s)" using f by (simp add: t(1) map_modifyBy)
  have "ur_Username ` set (sy_users t) = ur_Username ` set (sy_users s)" using names by (metis set_map)
  moreover have "\<exists>u \<in> set (sy_users t). enabledAdmin u" if "sy_users t \<noteq> []"
  proof -
    have "sy_users s \<noteq> []" using that by (auto simp: t(1) modifyBy_def)
    then obtain u where u: "u \<in> set (sy_users s)" "enabledAdmin u" "(\<forall>u. enabledAdmin u \<longrightarrow> enabledAdmin (f u)) \<or> ur_Username u \<noteq> username"
      using ok s unfolding otherAdmin_def rolesOK_def usersOK_def by blast
    then have "(if ur_Username u = username then f u else u) \<in> set (sy_users t)" by (simp add: t(1) modifyBy_def)
    with u show ?thesis by (metis (full_types))
  qed
  ultimately have "usersOK (sy_users t)" using s names by (simp add: rolesOK_def usersOK_def)
  then show ?thesis using s en t(2-4) unfolding rolesOK_def by (simp add: superOf_def standbyName_def keyHolders_def)
qed

lemma updateUser_roles:
  assumes "rolesOK s" and "updateUser username f s = (r, t)" and "\<And>u. ur_Username (f u) = ur_Username u"
    and "(\<forall>u. enabledAdmin u \<longrightarrow> enabledAdmin (f u)) \<or> (username \<notin> keyHolders s \<and> otherAdmin username s)"
  shows "rolesOK t"
  using update_users [OF assms(2)] rolesOK_same [OF assms(1), of t] modify_roles [OF assms(1) _ _ _ _ assms(3,4), of t]
    rolesOK_grants [OF assms(1)] by auto

lemma other_admin:
  assumes s: "rolesOK s" and row: "userRow username s = Some u"
    and guard: "guardLastEnabledAdmin (ur_IsAdmin u) (ur_Disabled u) s = (Inr x, t)"
  shows "otherAdmin username s" "t = s"
proof -
  have u: "u \<in> set (sy_users s)" "ur_Username u = username" using row by (auto dest: rowBy_SomeD)
  have dist: "distinct (map ur_Username (sy_users s))" using s by (simp add: rolesOK_def usersOK_def)
  then have inj: "inj_on ur_Username (set (sy_users s))" "distinct (sy_users s)" by (simp_all add: distinct_map)
  show "t = s" using guard by (auto simp: guardLastEnabledAdmin_def enabledAdminCount_def andThen_Inr split: if_splits)
  show "otherAdmin username s"
  proof (cases "enabledAdmin u")
    case False
    obtain v where "v \<in> set (sy_users s)" "enabledAdmin v" using s u by (force simp: rolesOK_def usersOK_def)
    then show ?thesis using False u inj(1) by (auto simp: otherAdmin_def dest: inj_onD)
  next
    case True
    then have "2 \<le> length (filter enabledAdmin (sy_users s))"
      using guard by (auto simp: guardLastEnabledAdmin_def enabledAdminCount_def enabledAdmin_def andThen_Inr split: if_splits)
    then have "2 \<le> card (set (filter enabledAdmin (sy_users s)))" using inj(2) by (metis distinct_card distinct_filter)
    then have "set (filter enabledAdmin (sy_users s)) \<noteq> {u}" by auto
    then obtain v where "v \<in> set (filter enabledAdmin (sy_users s))" "v \<noteq> u" using True u(1) by auto
    then show ?thesis using u inj(1) by (auto simp: otherAdmin_def dest: inj_onD)
  qed
qed

text \<open>The administrator an action is allowed on is not the super administrator.\<close>

lemma action_Inr:
  assumes s: "rolesOK s" and row: "userRow username s = Some u"
    and "requireAccountActionTx env actor username adm s = (Inr x, t)" and "ur_IsAdmin u \<Longrightarrow> adm"
  shows "rolesOK t" "superOf t \<noteq> Some username" "sy_users t = sy_users s"
proof -
  have "rolesOK t \<and> superOf t \<noteq> Some username \<and> sy_users t = sy_users s"
  proof (cases adm)
    case True
    then have r: "requireSuperTx env actor s = (Inr (), t)" "username \<noteq> actor"
      using assms(3) by (auto simp: requireAccountActionTx_def andThen_Inr split: if_splits)
    show ?thesis using requireSuper_Inr [OF s r(1)] r(2) by simp
  next
    case False
    then have "\<not> enabledAt username s" "t = s" using assms(3,4) row
      by (auto simp: enabledAt_def enabledAdmin_def requireAccountActionTx_def)
    then show ?thesis using s by (auto simp: rolesOK_def)
  qed
  then show "rolesOK t" "superOf t \<noteq> Some username" "sy_users t = sy_users s" by simp_all
qed

lemma recordAccountEvent_Inr: "recordAccountEvent env a u act d s = (Inr x, t) \<Longrightarrow>
    t = s\<lparr>sy_events := sy_events s @ [\<lparr>av_ID = sy_nextEvent s, av_OccurredAt = Some (en_Now env), av_Actor = a, av_Username = u,
          av_Action = act, av_Detail = d\<rparr>], sy_nextEvent := sy_nextEvent s + 1\<rparr>"
  by (auto simp: recordAccountEvent_def split: if_splits)

lemma revokeGrant_Inr:
  assumes "revokeGrantTx env u why s = (Inr x, t)"
  shows "sy_users t = sy_users s" "sy_super t = sy_super s" "sy_succession t = sy_succession s" "admins (sy_grants t) = admins (sy_grants s) - {u}"
proof -
  have "rowBy eg_Admin u (sy_grants s) = None \<Longrightarrow> u \<notin> admins (sy_grants s)" by (simp add: rowBy_None admins_def)
  then show "sy_users t = sy_users s" "sy_super t = sy_super s" "sy_succession t = sy_succession s" "admins (sy_grants t) = admins (sy_grants s) - {u}"
    using assms by (auto simp: revokeGrantTx_def holdsAnyGrantTx_def removeGrantTx_def markRotationPendingTx_def activeEscrowKey_def
        andThen_Inr split: if_splits)
qed

lemma clearStandby_Inr:
  assumes "clearStandbyTx env a u d s = (Inr x, t)"
  shows "sy_users t = sy_users s" "sy_super t = sy_super s" "sy_grants t = sy_grants s"
    "standbyName t = (if standbyName s = Some u then None else standbyName s)"
  using assms by (auto simp: clearStandbyTx_def andThen_Inr standbyName_def split: option.splits if_splits dest!: recordAccountEvent_Inr)

text \<open>Someone who is not the super administrator loses the key and the standby's place.\<close>

lemma stepDown:
  assumes s: "rolesOK s" and "superOf s \<noteq> Some u" and t: "sy_users t = sy_users s" "sy_super t = sy_super s"
    "admins (sy_grants t) = admins (sy_grants s) - {u}" "standbyName t = (if standbyName s = Some u then None else standbyName s)"
  shows "rolesOK t" "u \<notin> keyHolders t"
proof -
  show "u \<notin> keyHolders t" using assms by (auto simp: keyHolders_def superOf_def)
  have "superOf t = superOf s" "\<And>v. enabledAt v t = enabledAt v s" using t by (simp_all add: superOf_def enabledAt_def)
  then show "rolesOK t" using s t by (auto simp: rolesOK_def keyHolders_def)
qed

lemma event_roles: "recordAccountEvent env a u act d s = (Inr x, t) \<Longrightarrow> rolesOK s \<Longrightarrow> rolesOK t"
  by (erule rolesOK_quiet) (auto dest!: recordAccountEvent_Inr)

text \<open>The guards of disabling, demoting and deleting, and what they clear first.\<close>

lemma stepDown_Inr:
  assumes s: "rolesOK s" and row: "userRow username s = Some u" and "superOf s \<noteq> Some username"
    and run: "requireUnprotectedTx env username s = (Inr x1, s1)" "guardLastEnabledAdmin (ur_IsAdmin u) (ur_Disabled u) s1 = (Inr x2, s2)"
      "revokeGrantTx env username why s2 = (Inr x3, s3)" "clearStandbyTx env actor username detail s3 = (Inr x4, s4)"
  shows "rolesOK s4" "username \<notin> keyHolders s4" "otherAdmin username s4" "sy_users s4 = sy_users s"
proof -
  have s1: "s1 = s" using run(1) by (rule requireUnprotected_Inr)
  note other = other_admin [OF s row run(2) [unfolded s1]]
  note rg = revokeGrant_Inr [OF run(3), unfolded other(2)] and cs = clearStandby_Inr [OF run(4)]
  have t: "sy_users s4 = sy_users s" "sy_super s4 = sy_super s" "admins (sy_grants s4) = admins (sy_grants s) - {username}"
    "standbyName s4 = (if standbyName s = Some username then None else standbyName s)"
    using rg cs by (simp_all add: standbyName_def)
  show "rolesOK s4" "username \<notin> keyHolders s4" using stepDown [OF s assms(3) t] by simp_all
  show "otherAdmin username s4" "sy_users s4 = sy_users s" using other(1) t(1) by (simp_all add: otherAdmin_def)
qed

lemma runs_event: "runs rolesOK (recordAccountEvent env a u act d) (\<lambda>_. rolesOK)"
  using event_roles by (rule runsI)

lemma runs_accountRole:
  "runs rolesOK (accountRole username) (\<lambda>p s. \<exists>u. p = (ur_IsAdmin u, ur_Disabled u) \<and> rolesOK s \<and> userRow username s = Some u)"
  by (rule runsI) auto

lemma runs_action:
  "(ur_IsAdmin u \<Longrightarrow> adm) \<Longrightarrow> runs (\<lambda>s. rolesOK s \<and> userRow username s = Some u) (requireAccountActionTx env actor username adm)
     (\<lambda>_ s. rolesOK s \<and> userRow username s = Some u \<and> superOf s \<noteq> Some username)"
  by (rule runsI) (metis action_Inr)

lemma runs_stepDown:
  "runs (\<lambda>s. rolesOK s \<and> userRow username s = Some u \<and> superOf s \<noteq> Some username)
     (andThen (requireUnprotectedTx env username) (\<lambda>_. andThen (guardLastEnabledAdmin (ur_IsAdmin u) (ur_Disabled u)) (\<lambda>_.
      andThen (revokeGrantTx env username why) (\<lambda>_. clearStandbyTx env actor username detail))))
     (\<lambda>_ s. rolesOK s \<and> username \<notin> keyHolders s \<and> otherAdmin username s)"
  unfolding runs_def andThen_Inr by (metis stepDown_Inr)

lemma runs_update:
  assumes "\<And>u. ur_Username (f u) = ur_Username u"
    and "\<And>s. P s \<Longrightarrow> rolesOK s \<and> ((\<forall>u. enabledAdmin u \<longrightarrow> enabledAdmin (f u)) \<or> username \<notin> keyHolders s \<and> otherAdmin username s)"
  shows "runs P (updateUser username f) (\<lambda>_. rolesOK)"
  using assms updateUser_roles by (intro runsI) blast

lemma commits_setDisabled: "commits rolesOK (setDisabledTx env actor username off)"
  unfolding setDisabledTx_def runs_commits [symmetric]
  apply (rule runs_andThen, rule runs_keeps, intro keeps_rules)
  apply (rule runs_andThen, rule runs_accountRole, rule runs_ex, rule runs_fact, simp only: prod.case)
  apply (rule runs_andThen, rule runs_action, assumption)
  apply (rule runs_if, rule runs_succeed, simp)
  apply (rule runs_andThen [where Q = "\<lambda>_ s. rolesOK s \<and> (off \<longrightarrow> username \<notin> keyHolders s \<and> otherAdmin username s)"])
   apply (rule runs_if, rule runs_succeed, simp, rule runs_weaken [OF runs_stepDown], assumption, simp)
  apply (rule runs_andThen, rule runs_update, simp, auto simp: enabledAdmin_def intro: runs_event)
  done

lemma commits_setAdmin: "commits rolesOK (setAdminTx env actor username isAdmin)"
  unfolding setAdminTx_def runs_commits [symmetric]
  apply (rule runs_andThen, rule runs_keeps, intro keeps_rules)
  apply (rule runs_andThen, rule runs_accountRole, rule runs_ex, rule runs_fact, simp only: prod.case)
  apply (rule runs_if, rule runs_succeed, simp)
  apply (rule runs_andThen, rule runs_action, simp)
  apply (rule runs_andThen [where Q = "\<lambda>_ s. rolesOK s \<and> (\<not> isAdmin \<longrightarrow> username \<notin> keyHolders s \<and> otherAdmin username s)"])
   apply (rule runs_if, rule runs_succeed, simp, rule runs_weaken [OF runs_stepDown], assumption, simp)
  apply (rule runs_andThen, rule runs_update, simp, auto simp: enabledAdmin_def intro: runs_event)
  done

lemma keeps_tx_roles: "commits rolesOK m \<Longrightarrow> keeps rolesOK (inWriteTx env m)"
  by (rule commits_inWriteTx) (auto elim: rolesOK_quiet)

lemma keeps_PromoteAdmin: "keeps rolesOK (PromoteAdmin env actor username)"
  unfolding PromoteAdmin_def
  apply (rule keeps_tx_roles, unfold runs_commits [symmetric])
  apply (rule runs_andThen, rule runs_keeps, intro keeps_rules)
  apply (rule runs_andThen, rule runs_keeps, intro keeps_rules)
  apply (rule runs_prod, rule runs_if, rule runs_succeed, assumption)
  apply (rule runs_andThen, rule runs_keeps, intro keeps_rules)
  apply (rule runs_andThen, rule runs_update, auto simp: enabledAdmin_def intro: runs_event)
  done

lemma keeps_ClaimAdmin: "keeps rolesOK (ClaimAdmin env username)"
  unfolding ClaimAdmin_def
  apply (rule keeps_tx_roles, unfold runs_commits [symmetric])
  apply (rule runs_andThen, rule runs_keeps, intro keeps_rules)
  apply (rule runs_if, rule runs_fail)
  apply (rule runs_andThen, rule runs_keeps, intro keeps_rules)
  apply (rule runs_prod, rule runs_if, rule runs_fail)
  apply (rule runs_andThen [where Q = "\<lambda>_. rolesOK"], rule runs_update)
    apply (simp_all add: enabledAdmin_def)
  apply (rule runs_keeps, intro keeps_rules)
  done

subsection \<open>Deleting and creating accounts\<close>

lemma purge_clear:
  "runs (\<lambda>s. rolesOK s \<and> userRow username s = Some u \<and> superOf s \<noteq> Some username)
     (andThen (requireUnprotectedTx env username) (\<lambda>_. andThen (guardLastEnabledAdmin (ur_IsAdmin u) (ur_Disabled u)) (\<lambda>_.
      andThen (clearStandbyTx env actor username detail) (\<lambda>_. revokeGrantTx env username why))))
     (\<lambda>_ s. rolesOK s \<and> username \<notin> keyHolders s \<and> otherAdmin username s)"
proof (rule runsI)
  fix s x t
  assume s: "rolesOK s \<and> userRow username s = Some u \<and> superOf s \<noteq> Some username"
    and "andThen (requireUnprotectedTx env username) (\<lambda>_. andThen (guardLastEnabledAdmin (ur_IsAdmin u) (ur_Disabled u)) (\<lambda>_.
      andThen (clearStandbyTx env actor username detail) (\<lambda>_. revokeGrantTx env username why))) s = (Inr x, t)"
  then obtain x1 s1 x2 s2 x3 s3 where run: "requireUnprotectedTx env username s = (Inr x1, s1)"
    "guardLastEnabledAdmin (ur_IsAdmin u) (ur_Disabled u) s1 = (Inr x2, s2)"
    "clearStandbyTx env actor username detail s2 = (Inr x3, s3)" "revokeGrantTx env username why s3 = (Inr x, t)"
    unfolding andThen_Inr by blast
  have s1: "s1 = s" using run(1) by (rule requireUnprotected_Inr)
  have other: "otherAdmin username s" "s2 = s" using other_admin [OF _ _ run(2) [unfolded s1]] s by auto
  have t: "sy_users t = sy_users s" "sy_super t = sy_super s" "admins (sy_grants t) = admins (sy_grants s) - {username}"
    "standbyName t = (if standbyName s = Some username then None else standbyName s)"
    using clearStandby_Inr [OF run(3)] revokeGrant_Inr [OF run(4)] other(2) by (simp_all add: standbyName_def)
  then show "rolesOK t \<and> username \<notin> keyHolders t \<and> otherAdmin username t"
    using stepDown [OF _ _ t] s other(1) by (auto simp: otherAdmin_def)
qed

lemma deleteUser_roles:
  assumes s: "rolesOK s" and no: "username \<notin> keyHolders s" and other: "otherAdmin username s" and t: "deleteUser username s = (Inr x, t)"
  shows "rolesOK t"
proof -
  have f: "sy_users t = deleteBy ur_Username username (sy_users s)" "sy_super t = sy_super s" "admins (sy_grants t) = admins (sy_grants s) - {username}"
    "standbyName t = standbyName s"
    using t no by (cases "sy_succession s"; auto simp: deleteUser_def andThen_Inr standbyName_def keyHolders_def split: if_splits)+
  have "distinct (map ur_Username (sy_users t))" using s by (simp add: f(1) rolesOK_def usersOK_def distinct_deleteBy)
  moreover have "[] \<notin> ur_Username ` set (sy_users t)" using s by (auto simp: f(1) rolesOK_def usersOK_def set_deleteBy)
  moreover have "\<exists>u \<in> set (sy_users t). enabledAdmin u" using other by (auto simp: otherAdmin_def f(1) set_deleteBy)
  ultimately have "usersOK (sy_users t)" by (simp add: usersOK_def)
  moreover have "enabledAt v t = enabledAt v s" if "v \<noteq> username" for v using that by (simp add: enabledAt_def f(1) rowBy_deleteBy)
  ultimately show ?thesis using s no f(2-4) by (auto simp: rolesOK_def keyHolders_def superOf_def)
qed

lemma commits_purge: "commits rolesOK (purgeTx env actor username)"
proof -
  have "runs (\<lambda>s. rolesOK s \<and> username \<notin> keyHolders s \<and> otherAdmin username s)
      (andThen (deleteUser username) (\<lambda>_. recordAccountEvent env actor username AccountPurged [])) (\<lambda>_. rolesOK)"
    by (rule runs_andThen [OF runsI runs_event]) (metis deleteUser_roles)
  from runs_andThen [OF purge_clear this] show ?thesis
    unfolding purgeTx_def runs_commits [symmetric]
    apply -
    apply (rule runs_andThen, rule runs_keeps, intro keeps_rules)
    apply (rule runs_andThen, rule runs_accountRole, rule runs_ex, rule runs_fact, simp only: prod.case)
    apply (rule runs_andThen, rule runs_action, assumption)
    apply (rule runs_andThen, rule runs_keeps, rule keeps_query)
    apply (rule runs_if, rule runs_fail)
    apply (simp only: andThen_assoc)
    done
qed

lemma orRemove_Inr [simp]: "orRemove dir m s = (Inr x, t) \<longleftrightarrow> m s = (Inr x, t)"
  by (auto simp: orRemove_def andThen_def attempt_def removeNewUserFolder_def split: prod.splits sum.splits)

lemma insertUser_roles:
  assumes "rolesOK s" and "sy_users s = [] \<Longrightarrow> enabledAdmin u" and "ur_Username u \<noteq> []" and t: "insertUser u s = (Inr x, t)"
  shows "rolesOK t"
proof -
  have f: "userRow (ur_Username u) s = None" "sy_users t = sy_users s @ [u]" "sy_super t = sy_super s"
    "sy_succession t = sy_succession s" "sy_grants t = sy_grants s"
    using t by (auto simp: insertUser_def andThen_Inr split: if_splits)
  have "usersOK (sy_users t)" using assms(1-3) f(1) by (auto simp: f(2) rolesOK_def usersOK_def rowBy_None)
  moreover have "enabledAt v s \<Longrightarrow> enabledAt v t" for v by (auto simp: enabledAt_def f(2) rowBy_append)
  ultimately show ?thesis using assms(1) f(3-5) by (auto simp: rolesOK_def superOf_def standbyName_def keyHolders_def)
qed

lemma runs_insertAccount:
  assumes "username \<noteq> []"
  shows "runs (\<lambda>s. rolesOK s \<and> (sy_users s = [] \<longrightarrow> isAdmin)) (insertAccount env username displayName hash isAdmin) (\<lambda>_. rolesOK)"
proof -
  let ?P = "\<lambda>s. rolesOK s \<and> (sy_users s = [] \<longrightarrow> isAdmin)"
  have q: "?P t" if "?P s" "sy_users t = sy_users s" "sy_super t = sy_super s" "sy_succession t = sy_succession s" "sy_grants t = sy_grants s" for s t
    using that rolesOK_quiet [of s t] by simp
  have folder: "keeps ?P (createUserFolder env dir)" for dir
    unfolding createUserFolder_def by (intro keeps_rules keeps_exec) (erule q; simp)
  have alloc: "keeps ?P (allocateAccountIdentity env username)"
    unfolding allocateAccountIdentity_def by (intro keeps_rules keeps_exec) (erule q; simp)
  have ins: "runs ?P (insertUser u) (\<lambda>_. rolesOK)" if "ur_Username u = username" "ur_IsAdmin u = isAdmin" "\<not> ur_Disabled u" for u
    using that assms by (intro runsI) (rule insertUser_roles, auto simp: enabledAdmin_def)
  have rm: "runs P m Q \<Longrightarrow> runs P (orRemove dir m) Q" for P Q dir and m :: "unit tx" by (simp add: runs_def)
  show ?thesis
    unfolding insertAccount_def Let_def
    apply (rule runs_andThen, rule runs_keeps, rule keeps_query)
    apply (rule runs_if, rule runs_fail, rule runs_if, rule runs_fail, rule runs_if, rule runs_fail)
    apply (rule runs_andThen, rule runs_keeps, rule folder)
    apply (rule runs_andThen, rule rm, rule runs_keeps, rule alloc)
    apply (rule runs_andThen, rule rm, rule ins, simp_all)
    apply (simp add: runs_def)
    done
qed

lemma runs_accountRule:
  "runs rolesOK (accountRule env caller isAdmin) (\<lambda>(first, adm) s. rolesOK s \<and> (sy_users s = [] \<longrightarrow> adm))"
proof -
  let ?Q = "\<lambda>s. rolesOK s \<and> sy_users s \<noteq> []"
  have super: "runs ?Q (requireSuperTx env caller) (\<lambda>_. ?Q)"
    by (rule runsI) (metis requireSuper_Inr(1,3))
  have role: "runs (\<lambda>s. rolesOK s \<and> n = length (sy_users s)) (attempt (accountRole caller)) (\<lambda>_. ?Q)" if "n \<noteq> 0" for n
    using that by (intro runsI) (auto simp: attempt_run accountRole_def andThen_def split: option.splits)
  show ?thesis
    unfolding accountRule_def
    apply (rule runs_andThen [where Q = "\<lambda>n s. rolesOK s \<and> n = length (sy_users s)"], rule runs_query, simp)
    apply (rule runs_if, rule runs_succeed, simp)
    apply (rule runs_andThen, rule role, assumption)
    apply (rule runs_sum, rule runs_if, rule runs_fail, rule runs_fail)
    apply (rule runs_prod, rule runs_if, rule runs_fail)
    apply (rule runs_andThen [where Q = "\<lambda>_. ?Q"], rule runs_if, rule super, rule runs_succeed, assumption)
    apply (rule runs_succeed, simp)
    done
qed

lemma commits_createAccount:
  assumes "username \<noteq> []"
  shows "commits rolesOK (createAccountTx env caller username displayName hash dek wrap isAdmin session)"
  unfolding createAccountTx_def runs_commits [symmetric]
  apply (rule runs_andThen, rule runs_accountRule, rule runs_prod, simp only: prod.case)
  apply (rule runs_andThen, rule runs_insertAccount [OF assms])
  apply (rule runs_andThen, rule runs_event)
  apply (rule runs_andThen, rule runs_update, simp, simp add: enabledAdmin_def)
  apply (rule runs_keeps, intro keeps_rules)
  done

end
