(* ===== verification/KeyCustody.thy ===== *)
theory KeyCustody
  imports KeyHolders
begin

text \<open>
  The operations that pass the administrator key or the super administrator role on keep
  \<open>rolesOK\<close>, and with those of \<open>KeyHolders\<close> every operation does: the
  interpretation of \<open>account_commits\<close>.
\<close>

subsection \<open>Steps of someone who holds a role\<close>

abbreviation rolePart :: "Sys \<Rightarrow> UserRow list \<times> (string \<times> Stamp) option \<times> SuccessionRow option" where
  "rolePart s \<equiv> (sy_users s, sy_super s, sy_succession s)"

text \<open>A step that changes no role and gives grants to \<open>A\<close> at most.\<close>

definition grantsTo :: "string set \<Rightarrow> 'a tx \<Rightarrow> bool" where
  "grantsTo A m \<longleftrightarrow> (\<forall>k B. A \<subseteq> B \<longrightarrow> keeps (rolesAre k B) m)"

lemma grantsTo_keeps:
  assumes "grantsTo A m" and "\<And>s t. P s \<Longrightarrow> rolePart t = rolePart s \<Longrightarrow> admins (sy_grants t) \<subseteq> A \<union> admins (sy_grants s) \<Longrightarrow> P t"
  shows "keeps P m"
  unfolding keeps_def
proof (intro allI impI)
  fix s assume s: "P s"
  have "keeps (rolesAre (rolePart s) (A \<union> admins (sy_grants s))) m" using assms(1) unfolding grantsTo_def by blast
  then have "rolesAre (rolePart s) (A \<union> admins (sy_grants s)) (snd (m s))" by (rule keepsD) (simp add: rolesAre_def)
  then show "P (snd (m s))" using assms(2) [OF s, of "snd (m s)"] by (simp add: rolesAre_def)
qed

lemma grantsTo_mono: "grantsTo A m \<Longrightarrow> A \<subseteq> B \<Longrightarrow> grantsTo B m"
  unfolding grantsTo_def by blast

lemma grantsTo_quiet: "(\<And>k B. keeps (rolesAre k B) m) \<Longrightarrow> grantsTo A m"
  unfolding grantsTo_def by blast

lemma grantsTo_grantTx: "grantsTo {admin} (grantTx env session admin public)"
  unfolding grantsTo_def by (auto intro: same_roles.keeps_grant)

lemma grantsTo_passKey: "grantsTo {target} (passKeyTx env actor dek target)"
  unfolding grantsTo_def by (auto intro: same_roles.keeps_passKey)

lemma grantsTo_bootstrap: "grantsTo {admin} (bootstrapTx env admin dek)"
  unfolding grantsTo_def by (auto intro: same_roles.keeps_bootstrap)

lemma grantsTo_rotate:
  "grantsTo (insert actor (set keep - {[]})) (rotateTx env old actor dek keep reason)"
  "grantsTo (insert actor (set keep - {[]})) (rotateInSavepointTx env old actor dek keep reason)"
  "grantsTo (insert actor (set keep - {[]})) (rotateWithOwnKeyTx env actor dek keep reason)"
  unfolding grantsTo_def by (auto intro: same_roles.keeps_rotate)

lemma grantsTo_newEscrowKey: "grantsTo {actor} (newEscrowKeyTx env actor dek reason)"
  unfolding grantsTo_def by (auto intro: same_roles.keeps_newEscrowKey)

lemma rolesAre_protection:
  "keeps (rolesAre k A) (clearProtectionTx u)" "keeps (rolesAre k A) (protect env former reason nt actor)"
proof -
  have p: "rolesAre k A s \<Longrightarrow> rolesAre k A (s\<lparr>sy_protection := prs\<rparr>)" for s prs by (simp add: rolesAre_def)
  show "keeps (rolesAre k A) (clearProtectionTx u)" unfolding clearProtectionTx_def by (intro keeps_exec p)
  show "keeps (rolesAre k A) (protect env former reason nt actor)"
    unfolding protect_def by (intro keeps_rules keeps_exec p)
qed

lemma grantsTo_openGrant: "grantsTo {} (openGrantTx env actor dek)"
  by (rule grantsTo_quiet) (rule same_roles.keeps_openGrant)

text \<open>The super administrator at work, with whoever else they may give the key to.\<close>

definition acting :: "string \<Rightarrow> string set \<Rightarrow> Sys \<Rightarrow> bool" where
  "acting actor B s \<longleftrightarrow> rolesOK s \<and> superOf s = Some actor \<and> B \<subseteq> keyHolders s"

lemma acting_roles: "acting actor B s \<Longrightarrow> rolesOK s"
  by (simp add: acting_def)

lemma acting_keeps:
  assumes "grantsTo A m" and "A \<subseteq> insert actor B"
  shows "keeps (acting actor B) m"
  using assms(1)
proof (rule grantsTo_keeps)
  fix s t assume s: "acting actor B s" and t: "rolePart t = rolePart s" "admins (sy_grants t) \<subseteq> A \<union> admins (sy_grants s)"
  have "A \<subseteq> keyHolders s" using s assms(2) by (auto simp: acting_def keyHolders_def)
  then have "admins (sy_grants t) \<subseteq> keyHolders s" using s t(2) by (auto simp: acting_def dest: rolesOK_grants)
  then have "rolesOK t" using s t(1) rolesOK_same [of s t] by (simp add: acting_def)
  then show "acting actor B t" using s t(1) by (simp add: acting_def roles_defs)
qed

lemma acting_quiet: "grantsTo {} m \<Longrightarrow> keeps (acting actor B) m"
  by (rule acting_keeps [where A = "{}"]) simp_all

lemma runs_requireSuper: "runs rolesOK (requireSuperTx env actor) (\<lambda>_. acting actor {})"
  by (rule runsI) (simp add: acting_def requireSuper_Inr)

lemma runs_acting_roles: "runs P m (\<lambda>_. acting actor B) \<Longrightarrow> runs P m (\<lambda>_. rolesOK)"
  by (erule runs_weaken) (auto simp: acting_def)

subsection \<open>Replacing the key\<close>

lemma openGrant_Inr:
  assumes "openGrantTx env actor dek s = (Inr ss, t)"
  shows "t = s" "actor \<in> admins (sy_grants s)"
proof -
  have "t = s \<and> (\<exists>i < length (sy_grants s). eg_Admin (sy_grants s ! i) = actor)"
    using assms by (auto simp: openGrantTx_def activeEscrowKey_def unusable_def andThen_Inr find_Some_iff
        split: option.splits prod.splits sum.splits if_splits)
  then show "t = s" "actor \<in> admins (sy_grants s)" by (auto simp: admins_def)
qed

lemma rotator_Inr:
  assumes s: "rolesOK s" and r: "rotatorTx env actor s = (Inr True, t)" and "actor \<noteq> []"
  shows "rolesOK t \<and> actor \<in> keyHolders t"
proof -
  obtain q t' u where q: "readSuccessionTx env s = (q, t')" "rolesOK t'" "superOf t' = (if u = [] then None else Some u)"
    "sy_users t' = sy_users s" "sy_succession t' = sy_succession s" "superOf s \<noteq> None \<longrightarrow> t' = s" "\<forall>st. q = Inr st \<longrightarrow> ss_super st = u \<and> standbyName t' = (if ss_standby st = [] then None else Some (ss_standby st))"
    using readSuccession_run [OF s, of env] .
  have "t = t' \<and> (\<exists>st. q = Inr st \<and> (actor = ss_super st \<or> actor = ss_standby st))"
    using r q(1) by (auto simp: rotatorTx_def andThen_Inr holdsAnyGrantTx_def split: if_splits)
  then show ?thesis using q assms(3) by (auto simp: keyHolders_def)
qed

lemma holder_keeps:
  assumes "grantsTo A m"
  shows "keeps (\<lambda>s. rolesOK s \<and> A \<subseteq> keyHolders s) m"
  using assms
proof (rule grantsTo_keeps)
  fix s t assume s: "rolesOK s \<and> A \<subseteq> keyHolders s" and t: "rolePart t = rolePart s" "admins (sy_grants t) \<subseteq> A \<union> admins (sy_grants s)"
  then have "admins (sy_grants t) \<subseteq> keyHolders s" using rolesOK_grants by blast
  then have "rolesOK t" using s t(1) rolesOK_same [of s t] by simp
  then show "rolesOK t \<and> A \<subseteq> keyHolders t" using s t(1) by (simp add: roles_defs)
qed

lemma runs_runPending: "actor \<noteq> [] \<Longrightarrow> runs rolesOK (runPendingRotationTx env session actor dek) (\<lambda>_. rolesOK)"
  unfolding runPendingRotationTx_def
  apply (rule runs_andThen [where Q = "\<lambda>_. rolesOK"], rule runs_keeps, intro keeps_rules)
  apply (rule runs_if, rule runs_succeed, assumption)
  apply (rule runs_andThen [where Q = "\<lambda>ok s. rolesOK s \<and> (ok \<longrightarrow> {actor} \<subseteq> keyHolders s)"])
   apply (rule runsI)
   subgoal for r s ok t
     using rotator_Inr [of s env actor t] keepsD' [OF roles_read.keeps_holds(7), of env actor s "Inr ok" t] by (cases ok) auto
  apply (rule runs_if, rule runs_succeed, simp)
  apply (rule runs_andThen [where Q = "\<lambda>_. rolesOK"])
   apply (rule runs_weaken [OF runs_keeps [OF holder_keeps [OF grantsTo_rotate(2)]]], simp, simp)
  apply (rule runs_succeed, assumption)
  done

lemma holder_nonempty: "rolesOK s \<Longrightarrow> u \<in> keyHolders s \<Longrightarrow> u \<noteq> []"
  using enabledAt_nonempty [of s u] by (auto simp: rolesOK_def keyHolders_def)

text \<open>A pending replacement, by whoever opened their grant.\<close>

lemma runs_withGrant:
  assumes "\<And>session. actor \<noteq> [] \<Longrightarrow> runs rolesOK (f session) (\<lambda>_. rolesOK)" and "\<And>e. runs rolesOK (g e) (\<lambda>_. rolesOK)"
  shows "runs rolesOK (andThen (attempt (openGrantTx env actor dek)) (\<lambda>r. case r of Inl e \<Rightarrow> g e | Inr session \<Rightarrow> f session)) (\<lambda>_. rolesOK)"
proof (rule runsI)
  fix s x t
  assume s: "rolesOK s" and "andThen (attempt (openGrantTx env actor dek)) (\<lambda>r. case r of Inl e \<Rightarrow> g e | Inr session \<Rightarrow> f session) s = (Inr x, t)"
  then obtain r s1 where o: "openGrantTx env actor dek s = (r, s1)" and run: "(case r of Inl e \<Rightarrow> g e | Inr session \<Rightarrow> f session) s1 = (Inr x, t)"
    by (auto simp: andThen_Inr)
  have s1: "rolesOK s1" using keepsD' [OF roles_read.keeps_openGrant o s] .
  show "rolesOK t"
  proof (cases r)
    case (Inl e)
    then show ?thesis using runsD [OF assms(2) s1] run by auto
  next
    case (Inr session)
    then have "actor \<in> keyHolders s" using openGrant_Inr(2) o rolesOK_grants [OF s] by blast
    then show ?thesis using runsD [OF assms(1) s1] run Inr holder_nonempty [OF s] by auto
  qed
qed

lemma keeps_RunPendingRotation: "keeps rolesOK (RunPendingRotation env actor dek)"
  unfolding RunPendingRotation_def
  apply (rule keeps_tx_roles, unfold runs_commits [symmetric])
  apply (rule runs_andThen [where Q = "\<lambda>_. rolesOK"], rule runs_keeps, intro keeps_rules)
  apply (rule runs_if, rule runs_succeed, assumption)
  apply (rule runs_withGrant)
   apply (rule runs_andThen, erule runs_runPending, rule runs_succeed, assumption)
  apply (rule runs_if, rule runs_succeed, assumption, rule runs_fail)
  done

text \<open>What a read of the succession tells.\<close>

definition succeeding :: "successionState \<Rightarrow> Sys \<Rightarrow> bool" where
  "succeeding st s \<longleftrightarrow> superOf s = (if ss_super st = [] then None else Some (ss_super st))
     \<and> standbyName s = (if ss_standby st = [] then None else Some (ss_standby st))"

lemma readSuccession_Inr:
  assumes s: "rolesOK s" and "readSuccessionTx env s = (Inr st, t)"
  shows "rolesOK t" "succeeding st t" "sy_users t = sy_users s" "superOf s \<noteq> None \<longrightarrow> t = s"
proof -
  obtain q t' u where "readSuccessionTx env s = (q, t')" "rolesOK t'" "superOf t' = (if u = [] then None else Some u)"
    "sy_users t' = sy_users s" "sy_succession t' = sy_succession s" "superOf s \<noteq> None \<longrightarrow> t' = s"
    "\<forall>st. q = Inr st \<longrightarrow> ss_super st = u \<and> standbyName t' = (if ss_standby st = [] then None else Some (ss_standby st))"
    using readSuccession_run [OF s, of env] .
  with assms(2) show "rolesOK t" "succeeding st t" "sy_users t = sy_users s" "superOf s \<noteq> None \<longrightarrow> t = s" by (simp_all add: succeeding_def)
qed

lemma runs_readSuccession: "runs rolesOK (readSuccessionTx env) (\<lambda>st s. rolesOK s \<and> succeeding st s)"
  by (rule runsI) (simp add: readSuccession_Inr)

lemma runs_acting_readSuccession: "runs (acting actor {}) (readSuccessionTx env) (\<lambda>st s. acting actor {} s \<and> succeeding st s)"
proof (rule runsI)
  fix s st t assume s: "acting actor {} s" and r: "readSuccessionTx env s = (Inr st, t)"
  then show "acting actor {} t \<and> succeeding st t"
    using readSuccession_Inr [OF acting_roles [OF s] r] by (auto simp: acting_def)
qed

lemma keeps_ReplaceEscrowKey: "keeps rolesOK (ReplaceEscrowKey env actor dek standby)"
proof -
  let ?B = "{standby} - {[]}"
  have sb: "runs (acting actor {}) (if standby = [] then succeed () else andThen (readSuccessionTx env) (\<lambda>st.
      if standby \<noteq> ss_standby st then fail ErrStandbyChanged else succeed ())) (\<lambda>_. acting actor ?B)"
    apply (rule runs_if, rule runs_succeed, simp add: acting_def)
    apply (rule runs_andThen, rule runs_acting_readSuccession)
    apply (rule runs_if, rule runs_fail, rule runs_succeed)
    apply (auto simp: acting_def succeeding_def keyHolders_def)
    done
  have rot: "runs (acting actor ?B) (rotateTx env session actor dek [standby] why) (\<lambda>_. rolesOK)" for session why
    by (rule runs_acting_roles [OF runs_keeps], rule acting_keeps, rule grantsTo_rotate) auto
  have "commits rolesOK (andThen (requireSuperTx env actor) (\<lambda>_.
       andThen (if standby = [] then succeed ()
                else andThen (readSuccessionTx env) (\<lambda>st.
                     if standby \<noteq> ss_standby st then fail ErrStandbyChanged else succeed ())) (\<lambda>_.
       andThen (attempt (openGrantTx env actor dek)) (\<lambda>r.
       case r of
         Inl e \<Rightarrow> if noUsableGrant e then succeed None else fail e
       | Inr session \<Rightarrow>
           andThen (rotateTx env session actor dek [standby] ''replaced by the super administrator'') (\<lambda>(_, res).
           succeed (Some res))))))"
    unfolding runs_commits [symmetric]
    apply (rule runs_andThen, rule runs_requireSuper)
    apply (rule runs_andThen, rule sb)
    apply (rule runs_andThen, rule runs_keeps, rule keeps_attempt, rule acting_quiet, rule grantsTo_openGrant)
    apply (rule runs_sum, rule runs_if, rule runs_succeed, erule acting_roles, rule runs_fail)
    apply (rule runs_andThen, rule rot, rule runs_prod, rule runs_succeed, assumption)
    done
  then show ?thesis
    unfolding ReplaceEscrowKey_def by (intro keeps_rules keeps_tx_roles)
qed

lemma keeps_CreateNewEscrowKey: "keeps rolesOK (CreateNewEscrowKey env actor dek why)"
  unfolding CreateNewEscrowKey_def Let_def
  apply (rule keeps_if, rule keeps_fail, rule keeps_if, rule keeps_fail)
  apply (rule keeps_tx_roles, unfold runs_commits [symmetric])
  apply (rule runs_andThen, rule runs_requireSuper)
  apply (rule runs_andThen, rule runs_keeps, rule keeps_query)
  apply (rule runs_if, rule runs_fail)
  apply (rule runs_andThen, rule runs_keeps, rule keeps_attempt, rule acting_quiet, rule grantsTo_openGrant)
  apply (rule runs_sum, rule runs_if, rule runs_fail)
   apply (rule runs_andThen, rule runs_keeps, rule keeps_query)
   apply (rule runs_list)
    apply (rule runs_acting_roles [OF runs_keeps], rule acting_keeps, rule grantsTo_newEscrowKey, simp)
   apply (rule runs_andThen, rule runs_acting_readSuccession, rule runs_fail, rule runs_fail)
  done

lemma commits_recoverEscrowKey: "commits rolesOK (recoverEscrowKeyTx env actor dek typed)"
proof -
  have q: "runs (acting actor {}) m (\<lambda>_. rolesOK)" if "\<And>k B. keeps (rolesAre k B) m" for m :: "'a tx"
    using that by (intro runs_acting_roles [OF runs_keeps] acting_quiet grantsTo_quiet)
  have refuse: "keeps (rolesAre k B) (refuse env actor err d)" for k B err d
    unfolding refuse_def by (intro keeps_rules)
  have open_quiet: "keeps (rolesAre k B) (openRecoveryTx env typed)" for k B
    unfolding openRecoveryTx_def by (intro keeps_rules)
  have quiet: "runs (acting actor {}) m (\<lambda>_. acting actor {})" if "\<And>k B. keeps (rolesAre k B) m" for m :: "'a tx"
    using that by (intro runs_keeps acting_quiet grantsTo_quiet)
  have restore: "runs (acting actor {}) (restoreKeyTx env actor dek active derived priv) (\<lambda>_. rolesOK)" for active derived priv
  proof -
    have ne: "actor \<noteq> []" if "acting actor {} s" for s
      using that holder_nonempty [of s actor] by (auto simp: acting_def keyHolders_def)
    have "runs (acting actor {}) (runPendingRotationTx env session actor dek) (\<lambda>_. rolesOK)" for session
      using ne runsD [OF runs_runPending] acting_roles by (intro runsI) blast
    then show ?thesis
      unfolding restoreKeyTx_def Let_def
      apply -
      apply (rule runs_andThen, rule quiet, rule same_roles.keeps_personalKey, rule runs_prod)
      apply (rule runs_andThen, rule quiet, rule same_roles.keeps_attest)
      apply (rule runs_andThen, rule runs_keeps, rule acting_keeps, rule grantsTo_grantTx, simp)
      apply (rule runs_andThen, rule quiet, rule same_roles.keeps_event)
      apply (rule runs_andThen, assumption, rule runs_succeed, assumption)
      done
  qed
  show ?thesis
    unfolding recoverEscrowKeyTx_def runs_commits [symmetric]
    apply (rule runs_andThen, rule runs_requireSuper)
    apply (rule runs_andThen, rule quiet, rule keeps_attempt, rule open_quiet)
    apply (rule runs_sum, rule runs_if, rule q, rule refuse, rule runs_fail)
    apply (rule runs_prod, rule runs_sum, rule q, rule refuse)
    apply (rule runs_andThen, rule quiet, rule keeps_query)
    apply (rule runs_option, rule q, rule refuse)
    apply (rule runs_if, rule q, rule refuse)
    apply (rule runs_andThen, rule quiet, rule keeps_crypto)
    apply (rule runs_if, rule q, rule refuse, rule runs_if, rule q, rule refuse, rule restore)
    done
qed

lemma commits_adminSession: "commits rolesOK (enrollAdminSessionTx env admin dek)"
proof -
  have enroll: "runs rolesOK (andThen (enrollTx env admin dek None) (\<lambda>_. succeed ())) (\<lambda>_. rolesOK)"
    by (rule runs_keeps) (intro keeps_rules)
  have pend: "runs rolesOK (runPendingRotationTx env session admin dek) (\<lambda>_. rolesOK)" if "admin \<noteq> []" for session
    using that by (rule runs_runPending)
  have standby: "runs rolesOK (standbySessionTx env admin dek) (\<lambda>_. rolesOK)"
    unfolding standbySessionTx_def
    apply (rule runs_andThen [where Q = "\<lambda>_. rolesOK"], rule runs_keeps, intro keeps_rules)
    apply (rule runs_withGrant)
     apply (rule runs_andThen, erule pend, rule runs_succeed, assumption)
    apply (rule runs_if, rule runs_succeed, assumption, rule runs_fail)
    done
  have super: "runs (acting admin {}) (superSessionTx env admin dek) (\<lambda>_. rolesOK)"
    unfolding superSessionTx_def
    apply (rule runs_andThen, rule runs_keeps, rule keeps_query)
    apply (rule runs_if)
     apply (rule runs_acting_roles [OF runs_keeps], rule acting_keeps, rule grantsTo_bootstrap, simp)
    apply (rule runs_weaken [where P = rolesOK and Q = "\<lambda>_. rolesOK"])
      apply (rule runs_andThen [where Q = "\<lambda>_. rolesOK"], rule runs_keeps, intro keeps_rules)
      apply (rule runs_if, rule runs_event)
      apply (rule runs_andThen [where Q = "\<lambda>_. rolesOK"], rule runs_keeps, intro keeps_rules)
      apply (rule runs_withGrant)
       apply (rule runs_andThen, erule pend, rule runs_keeps, intro keeps_rules)
      apply (rule runs_if, rule runs_succeed, assumption, rule runs_fail)
     apply (erule acting_roles, assumption)
    done
  have role: "runs rolesOK (attempt (requireEnabledAdmin admin)) (\<lambda>r s. (\<forall>x. r = Inr x \<longrightarrow> admin \<noteq> []) \<and> rolesOK s)"
    using enabledAt_nonempty by (intro runsI) (auto simp: requireEnabledAdmin_run split: if_splits)
  show ?thesis
    unfolding enrollAdminSessionTx_def runs_commits [symmetric]
    apply (rule runs_andThen, rule role, rule runs_fact)
    apply (rule runs_sum, rule runs_if, rule enroll, rule runs_fail)
    apply (rule runs_andThen, rule runs_readSuccession)
    apply (rule runs_if, rule runs_weaken [OF standby], simp, assumption)
    apply (rule runs_if)
     apply (rule runs_weaken [where P = rolesOK and Q = "\<lambda>_. rolesOK"], rule runs_keeps, intro keeps_rules, simp, assumption)
    apply (rule runs_weaken [OF super], auto simp: acting_def succeeding_def)
    done
qed

subsection \<open>Handing over and taking over\<close>

text \<open>Before and after the role moves: who may hold a grant in between.\<close>

definition passing :: "string \<Rightarrow> string \<Rightarrow> Sys \<Rightarrow> bool" where
  "passing former u s \<longleftrightarrow> usersOK (sy_users s) \<and> superOf s = Some former \<and> enabledAt u s
     \<and> (\<forall>v. standbyName s = Some v \<longrightarrow> enabledAt v s) \<and> admins (sy_grants s) \<subseteq> insert u (keyHolders s)"

definition moved :: "string \<Rightarrow> string \<Rightarrow> Sys \<Rightarrow> bool" where
  "moved former u s \<longleftrightarrow> usersOK (sy_users s) \<and> superOf s = Some u \<and> enabledAt u s
     \<and> (\<forall>v. standbyName s = Some v \<longrightarrow> enabledAt v s) \<and> admins (sy_grants s) \<subseteq> insert former (keyHolders s)"

definition settled :: "string \<Rightarrow> string \<Rightarrow> Sys \<Rightarrow> bool" where
  "settled former u s \<longleftrightarrow> moved former u s \<and> standbyName s \<noteq> Some u"

lemma passingI: "acting former {} s \<Longrightarrow> enabledAt u s \<Longrightarrow> passing former u s"
  by (auto simp: acting_def passing_def rolesOK_def)

lemma passing_keeps: "grantsTo {u} m \<Longrightarrow> keeps (passing former u) m"
  by (erule grantsTo_keeps) (auto simp: passing_def roles_defs)

lemma settled_keeps: "grantsTo {} m \<Longrightarrow> keeps (settled former u) m"
  by (erule grantsTo_keeps) (auto simp: settled_def moved_def roles_defs)

lemma runs_moveSuper: "runs (passing former u) (moveSuper env u) (\<lambda>_. moved former u)"
  by (rule runsI)
     (auto simp: passing_def moved_def moveSuper_def references_def andThen_Inr roles_defs split: if_splits)

lemma runs_clearStandby: "runs (moved former u) (clearStandbyTx env actor u d) (\<lambda>_. settled former u)"
proof (rule runsI)
  fix s x t assume s: "moved former u s" and t: "clearStandbyTx env actor u d s = (Inr x, t)"
  note c = clearStandby_Inr [OF t]
  have "superOf t = superOf s" "\<And>v. enabledAt v t = enabledAt v s" using c by (simp_all add: superOf_def enabledAt_def)
  then show "settled former u t" using s c by (auto simp: settled_def moved_def keyHolders_def split: if_splits)
qed

lemma runs_removeGrant: "runs (settled former u) (removeGrantTx former) (\<lambda>_. acting u {})"
proof (rule runsI)
  fix s x t assume s: "settled former u s" and "removeGrantTx former s = (Inr x, t)"
  then have t: "t = s\<lparr>sy_grants := deleteBy eg_Admin former (sy_grants s)\<rparr>" by (simp add: removeGrantTx_def)
  have same: "superOf t = superOf s" "standbyName t = standbyName s" "\<And>v. enabledAt v t = enabledAt v s" "keyHolders t = keyHolders s"
    by (simp_all add: t roles_defs)
  have "admins (sy_grants t) \<subseteq> keyHolders t" using s unfolding same by (auto simp: t settled_def moved_def)
  then show "acting u {} t" using s unfolding acting_def rolesOK_def same
    by (auto simp: settled_def moved_def t)
qed

lemma commits_handOver: "commits rolesOK (handOverTx env actor dek target)"
proof -
  have target: "runs (acting actor {}) (requireTargetAdmin target) (\<lambda>_. passing actor target)"
    by (rule runsI) (auto intro: passingI)
  have personal: "runs (passing actor target) (requirePersonalKeyTx target) (\<lambda>_. passing actor target)"
    by (rule runsI) auto
  have quiet: "runs rolesOK (andThen (markRotationPendingTx env r) (\<lambda>_. andThen (recordAccountEvent env a u act d) (\<lambda>_. succeed k))) (\<lambda>_. rolesOK)"
    for r a u act d and k :: bool by (rule runs_keeps) (intro keeps_rules)
  show ?thesis
    unfolding handOverTx_def runs_commits [symmetric]
    apply (rule runs_andThen, rule runs_requireSuper)
    apply (rule runs_if, rule runs_fail)
    apply (rule runs_andThen, rule target)
    apply (rule runs_andThen, rule personal)
    apply (rule runs_andThen, rule runs_keeps, rule passing_keeps, rule grantsTo_passKey)
    apply (rule runs_andThen, unfold holdsActiveGrantTx_def, rule runs_keeps, rule keeps_query)
    apply (rule runs_andThen, rule runs_moveSuper)
    apply (rule runs_andThen, rule runs_clearStandby)
    apply (rule runs_andThen, rule runs_keeps, rule settled_keeps, rule grantsTo_quiet, rule rolesAre_protection)
    apply (rule runs_andThen, rule runs_removeGrant)
    apply (rule runs_weaken [OF quiet], erule acting_roles, assumption)
    done
qed

lemma commits_takeOver: "commits rolesOK (takeOverTx env actor dek reason nt)"
proof -
  have read: "runs (\<lambda>s. rolesOK s \<and> enabledAt actor s) (readSuccessionTx env) (\<lambda>st s. rolesOK s \<and> succeeding st s \<and> enabledAt actor s)"
    using readSuccession_Inr by (intro runsI) (auto simp: enabledAt_def)
  have refusal: "runs (\<lambda>s. rolesOK s \<and> succeeding st s \<and> enabledAt actor s) (check (takeoverRefusal st actor now)) (\<lambda>_. passing (ss_super st) actor)" for st now
    by (rule runsI) (auto simp: takeoverRefusal_def succeeding_def acting_def intro!: passingI split: if_splits)
  have quiet: "runs (acting actor {}) m (\<lambda>_. acting actor {})" if "\<And>k B. keeps (rolesAre k B) m" for m :: "'a tx"
    using that by (intro runs_keeps acting_quiet grantsTo_quiet)
  have rot: "runs (acting actor {}) (rotateInSavepointTx env ss actor dek [] why) (\<lambda>_. acting actor {})" for ss why
    by (rule runs_keeps, rule acting_keeps, rule grantsTo_rotate) simp
  show ?thesis
    unfolding takeOverTx_def runs_commits [symmetric]
    apply (rule runs_andThen [where Q = "\<lambda>_ s. rolesOK s \<and> enabledAt actor s"], rule runsI, simp)
    apply (rule runs_andThen, rule read)
    apply (rule runs_andThen, rule refusal)
    apply (rule runs_andThen, rule runs_moveSuper)
    apply (rule runs_andThen, rule runs_clearStandby)
    apply (rule runs_andThen, unfold holdsAnyGrantTx_def, rule runs_keeps, rule keeps_query)
    apply (rule runs_andThen, rule runs_removeGrant)
    apply (rule runs_andThen, rule quiet, rule rolesAre_protection)
    apply (rule runs_andThen, rule quiet, rule rolesAre_protection)
    apply (rule runs_andThen, rule quiet, rule keeps_attempt, rule same_roles.keeps_openGrant)
    apply (rule runs_andThen, rule quiet, intro keeps_rules)
    apply (rule runs_andThen, rule quiet, rule same_roles.keeps_event)
    apply (rule runs_andThen [where Q = "\<lambda>_. acting actor {}"])
     apply (rule runs_if, rule runs_succeed, assumption)
     apply (unfold Let_def, rule runs_option, rule quiet, rule same_roles.keeps_markRotationPending)
     apply (rule runs_andThen, rule rot, rule runs_succeed, assumption)
    apply (rule runs_succeed, erule acting_roles)
    done
qed

subsection \<open>Naming a standby\<close>

definition mayStandBy :: "string \<Rightarrow> string \<Rightarrow> Sys \<Rightarrow> bool" where
  "mayStandBy actor v s \<longleftrightarrow> (v \<noteq> [] \<longrightarrow> v \<noteq> actor \<and> enabledAt v s)"

text \<open>The super administrator with at most the new standby beside them.\<close>

definition naming :: "string \<Rightarrow> string \<Rightarrow> Sys \<Rightarrow> bool" where
  "naming actor v s \<longleftrightarrow> usersOK (sy_users s) \<and> superOf s = Some actor \<and> enabledAt actor s \<and> mayStandBy actor v s
     \<and> standbyName s \<in> {None, Some v} \<and> (v = [] \<longrightarrow> standbyName s = None) \<and> admins (sy_grants s) \<subseteq> insert actor ({v} - {[]})"

lemma naming_keeps: "grantsTo A m \<Longrightarrow> A \<subseteq> insert actor ({v} - {[]}) \<Longrightarrow> keeps (naming actor v) m"
  by (erule grantsTo_keeps) (auto simp: naming_def mayStandBy_def superOf_def standbyName_def enabledAt_def)

lemma runs_replaceStandby:
  "runs (\<lambda>s. acting actor {} s \<and> succeeding st s \<and> mayStandBy actor v s) (replaceStandby env actor (ss_standby st) v) (\<lambda>_. naming actor v)"
proof (rule runsI)
  fix s x t
  assume s: "acting actor {} s \<and> succeeding st s \<and> mayStandBy actor v s" and r: "replaceStandby env actor (ss_standby st) v s = (Inr x, t)"
  have ok: "usersOK (sy_users s)" "superOf s = Some actor" "enabledAt actor s" "admins (sy_grants s) \<subseteq> keyHolders s"
    "standbyName s = (if ss_standby st = [] then None else Some (ss_standby st))"
    using s by (auto simp: acting_def rolesOK_def succeeding_def)
  show "naming actor v t"
  proof (cases "ss_standby st = [] \<or> ss_standby st = v")
    case True
    then have "t = s" using r by (simp add: replaceStandby_def)
    then show ?thesis using s ok True by (auto simp: naming_def keyHolders_def split: if_splits)
  next
    case False
    obtain s1 where s1: "s1 = s\<lparr>sy_grants := deleteBy eg_Admin (ss_standby st) (sy_grants s)\<rparr>"
      and c: "\<exists>d. clearStandbyTx env actor (ss_standby st) d s1 = (Inr (), t)"
      using r False by (auto simp: replaceStandby_def andThen_Inr holdsAnyGrantTx_def removeGrantTx_def)
    from c obtain d where d: "clearStandbyTx env actor (ss_standby st) d s1 = (Inr (), t)" ..
    have t: "sy_users t = sy_users s" "sy_super t = sy_super s" "admins (sy_grants t) = admins (sy_grants s) - {ss_standby st}" "standbyName t = None"
      using clearStandby_Inr [OF d] ok(5) False by (auto simp: s1 standbyName_def)
    have "superOf t = superOf s" "\<And>v. enabledAt v t = enabledAt v s" using t by (simp_all add: superOf_def enabledAt_def)
    then show ?thesis using s ok t False by (auto simp: naming_def mayStandBy_def keyHolders_def split: if_splits)
  qed
qed

lemma runs_storeStandby: "runs (naming actor v) (storeStandby env v days n) (\<lambda>_. acting actor ({v} - {[]}))"
proof (rule runsI)
  fix s x t assume s: "naming actor v s" and "storeStandby env v days n s = (Inr x, t)"
  then have t: "sy_users t = sy_users s" "sy_super t = sy_super s" "sy_grants t = sy_grants s" "standbyName t = (if v = [] then None else Some v)"
    by (auto simp: storeStandby_def references_def andThen_Inr standbyName_def split: if_splits)
  have "superOf t = superOf s" "\<And>v. enabledAt v t = enabledAt v s" using t by (simp_all add: superOf_def enabledAt_def)
  then show "acting actor ({v} - {[]}) t"
    using s t by (auto simp: acting_def rolesOK_def naming_def mayStandBy_def keyHolders_def)
qed

lemma commits_setStandby: "commits rolesOK (setStandbyTx env actor dek standby days)"
proof -
  let ?P = "\<lambda>st s. acting actor {} s \<and> succeeding st s"
  have may: "runs (?P st) (if standby = [] then succeed ()
              else if standby = actor then fail ErrTargetIsSuper
              else andThen (requireTargetAdmin standby) (\<lambda>_. requirePersonalKeyTx standby))
              (\<lambda>_ s. acting actor {} s \<and> succeeding st s \<and> mayStandBy actor standby s)" for st
    by (rule runsI) (auto simp: mayStandBy_def andThen_Inr split: if_splits)
  have pass: "runs (naming actor standby) (if standby = [] then succeed False else passKeyTx env actor dek standby) (\<lambda>_. naming actor standby)"
    by (rule runs_if, rule runs_succeed, assumption, rule runs_keeps, rule naming_keeps, rule grantsTo_passKey) simp
  have rot: "runs (acting actor ({standby} - {[]})) (rotateWithOwnKeyTx env actor dek [standby] why) (\<lambda>_. acting actor ({standby} - {[]}))" for why
    by (rule runs_keeps, rule acting_keeps, rule grantsTo_rotate) simp
  have final: "runs rolesOK (if standby \<noteq> []
     then andThen (holdsActiveGrantTx standby) (\<lambda>keyPassed.
          andThen (recordAccountEvent env actor standby AccountStandbyNamed (d keyPassed)) (\<lambda>_. succeed keyPassed))
     else if b then andThen (recordAccountEvent env actor actor AccountTakeoverPeriodChanged d') (\<lambda>_. succeed False)
     else succeed False) (\<lambda>_. rolesOK)" for d d' b
    by (rule runs_keeps) (intro keeps_rules)
  show ?thesis
    unfolding setStandbyTx_def runs_commits [symmetric]
    apply (rule runs_andThen, rule runs_requireSuper)
    apply (rule runs_andThen, rule runs_acting_readSuccession)
    apply (rule runs_andThen, rule may)
    apply (rule runs_andThen, rule runs_replaceStandby)
    apply (rule runs_andThen, rule pass)
    apply (rule runs_andThen, rule runs_storeStandby)
    apply (rule runs_andThen [where Q = "\<lambda>_. acting actor ({standby} - {[]})"], rule runs_if, rule runs_succeed, assumption, rule rot)
    apply (rule runs_weaken [OF final], erule acting_roles, assumption)
    done
qed

subsection \<open>Every operation\<close>

lemma keeps_quietUpdate: "quietUpdate f \<Longrightarrow> keeps rolesOK (updateUser username f)"
proof -
  assume f: "quietUpdate f"
  have "rolesOK (snd (updateUser username f s))" if "rolesOK s" for s
    using updateUser_roles [OF that, of username f "fst (updateUser username f s)" "snd (updateUser username f s)"] f
    by (simp add: quietUpdate_def enabledAdmin_def)
  then show ?thesis by (simp add: keeps_def)
qed

interpretation roles: account_commits rolesOK
proof unfold_locales
  show "keeps rolesOK (updateUser username f)" if "quietUpdate f" for username f using that by (rule keeps_quietUpdate)
  show "commits rolesOK (createAccountTx env caller username displayName hash dek wrap isAdmin session)"
    if "ValidateUsername username = Inr ()" for env caller username displayName hash dek wrap isAdmin session
    using that by (intro commits_createAccount) (auto simp: ValidateUsername_def split: if_splits)
qed (rule commits_setDisabled commits_setAdmin keeps_PromoteAdmin keeps_ClaimAdmin commits_purge commits_handOver commits_setStandby
      commits_takeOver commits_adminSession keeps_RunPendingRotation keeps_ReplaceEscrowKey keeps_CreateNewEscrowKey
      commits_recoverEscrowKey | erule rolesOK_quiet; simp)+

lemma rolesOK_empty: "rolesOK emptySys"
  by (simp add: rolesOK_def usersOK_def roles_defs emptySys_def)

lemma rolesOK_reachable: "accountSteps emptySys s \<Longrightarrow> rolesOK s"
  using roles.steps_keep rolesOK_empty by blast

end
