(* ===== verification/AccountExample.thy ===== *)
theory AccountExample
  imports KeyCustody
begin

text \<open>
  A small machine to apply the properties to: a toy suite of primitives that satisfies
  \<open>SuiteLaws\<close>, and a history in which the first account is created and its owner signs
  in, which makes the administrator key and gives her the only copy.
\<close>

definition toySuite :: Suite where
  "toySuite = \<lparr>kemPublic = (\<lambda>sk. Some (''P'' @ sk)), kemValid = (\<lambda>pk. True), hpkeSeal = (\<lambda>rnd pk info pt. pt),
     hpkeOpen = (\<lambda>sk info ct. Some ct), hmacSHA256 = (\<lambda>key msg. replicate 32 (CHR ''h'')), hkdfKey = (\<lambda>code info. ''k''),
     gcmSeal = (\<lambda>key nonce pt ad. pt @ replicate 16 (CHR ''t'')), gcmOpen = (\<lambda>key nonce ct ad. Some (take (length ct - 16) ct)),
     argonIDKey = (\<lambda>pw salt t m p n. replicate n (CHR ''a''))\<rparr>"

lemma toySuite_laws: "SuiteLaws toySuite"
  by (simp add: SuiteLaws_def toySuite_def)

text \<open>Each call draws its random bytes from its own character.\<close>

definition drawLength :: "nat \<Rightarrow> nat" where
  "drawLength i = (if i \<in> {2, 6, 10} then 12 else if i \<in> {4, 9, 11} then 16 else if i = 7 then 20 else 32)"

definition toyEnv :: "char \<Rightarrow> Time \<Rightarrow> AcctEnv" where
  "toyEnv c now = \<lparr>en_Suite = toySuite, en_Now = now, en_Rand = (\<lambda>i. Some (replicate (drawLength i) c)),
     en_Begin = True, en_Commit = True, en_Root = ''root'', en_FolderError = None\<rparr>"

lemma toyEnv_simps [simp]: "en_Suite (toyEnv c t) = toySuite" "en_Now (toyEnv c t) = t" "en_Begin (toyEnv c t)" "en_Commit (toyEnv c t)"
  "en_Root (toyEnv c t) = ''root''" "en_FolderError (toyEnv c t) = None" "en_Rand (toyEnv c t) i = Some (replicate (drawLength i) c)"
  by (simp_all add: toyEnv_def)

definition annaKey :: string where "annaKey = replicate 32 (CHR ''A'')"
definition annaHash :: string where
  "annaHash = (case HashPassword toySuite (Some (replicate 16 (CHR ''A''))) ''password'' of Inr h \<Rightarrow> h | Inl _ \<Rightarrow> [])"
definition annaWrap :: string where
  "annaWrap = (case WrapKey toySuite (Some (replicate 16 (CHR ''A''))) (Some (replicate 12 (CHR ''A''))) annaKey ''password'' of
     Inr w \<Rightarrow> w | Inl _ \<Rightarrow> [])"
definition annaID :: string where "annaID = ''ac1:'' @ hexEncode (replicate 32 (CHR ''A''))"

definition annaRow :: UserRow where
  "annaRow = \<lparr>ur_Username = ''anna'', ur_DisplayName = ''Anna'', ur_PasswordHash = annaHash, ur_WrappedDEK = annaWrap,
     ur_DataDir = ''root/anna'', ur_CreatedAt = Some 10, ur_LastLogin = None, ur_IsAdmin = True, ur_Disabled = False,
     ur_LastExportDirectory = []\<rparr>"

definition annaCreated :: Sys where
  "annaCreated = emptySys\<lparr>sy_users := [annaRow],
     sy_events := [\<lparr>av_ID = 1, av_OccurredAt = Some 10, av_Actor = ''anna'', av_Username = ''anna'', av_Action = AccountCreated,
                    av_Detail = ''administrator''\<rparr>],
     sy_nextEvent := 2,
     sy_identity := [\<lparr>ai_ID = annaID, ai_Username = Some ''anna'', ai_Generation = Some 2\<rparr>],
     sy_folders := [''root/anna'']\<rparr>"

lemma anna_secrets:
  "HashPassword toySuite (Some (replicate 16 (CHR ''A''))) ''password'' = Inr annaHash"
  "WrapKey toySuite (Some (replicate 16 (CHR ''A''))) (Some (replicate 12 (CHR ''A''))) annaKey ''password'' = Inr annaWrap"
  "annaWrap \<noteq> []"
proof -
  show "HashPassword toySuite (Some (replicate 16 (CHR ''A''))) ''password'' = Inr annaHash"
    by (simp add: annaHash_def HashPassword_def Let_def)
  show w: "WrapKey toySuite (Some (replicate 16 (CHR ''A''))) (Some (replicate 12 (CHR ''A''))) annaKey ''password'' = Inr annaWrap"
    by (simp add: annaWrap_def WrapKey_def EncryptBuffer_def drawn_def annaKey_def DEKSize_def)
  then have "UnwrapKey toySuite annaWrap ''password'' = Inr annaKey"
    by (rule UnwrapKey_WrapKey [OF toySuite_laws, rotated 2]) (auto simp: saltLen_def nonceSize_def)
  moreover have "UnwrapKey toySuite [] ''password'' = Inl CiphertextTooShort" by code_simp
  ultimately show "annaWrap \<noteq> []" by auto
qed

lemma anna_identity: "identityID annaID"
  by code_simp

lemma anna_name: "\<not> list_ex (EqualFold ''anna'') reservedFolderNames" "\<not> list_ex (EqualFold ''anna'') windowsDeviceNames"
  "ValidateUsername ''anna'' = Inr ()" "TrimSpace ''Anna'' = ''Anna''"
  by code_simp+

lemma anna_created:
  "CreateAccountWithPrincipal (toyEnv (CHR ''A'') 10) [] ''anna'' ''Anna'' ''password'' True None emptySys
     = (Inr (\<lparr>ac_Username = ''anna'', ac_DisplayName = ''Anna'', ac_DataDir = ''root/anna'', ac_LastExportDirectory = [],
              ac_CreatedAt = 10, ac_LastLogin = 0, ac_IsAdmin = True, ac_Disabled = False\<rparr>,
             \<lparr>pn_id = annaID, pn_username = ''anna'', pn_generation = 2\<rparr>, annaKey), annaCreated)"
proof -
  have n: "drawLength 0 = 32" "drawLength 8 = 32" "drawLength 9 = 16" "drawLength 10 = 12" "drawLength 11 = 16" by (simp_all add: drawLength_def)
  have p: "ValidatePassword ''password'' = Inr ()" by (simp add: ValidatePassword_def MinPasswordLength_def)
  have e: "sy_users emptySys = []" "sy_events emptySys = []" "sy_nextEvent emptySys = 1" "sy_identity emptySys = []"
    "sy_folders emptySys = []" "sy_keys emptySys = []" by (simp_all add: emptySys_def)
  have k: "GenerateDEK (Some (replicate 32 (CHR ''A''))) = Inr annaKey" by (simp add: GenerateDEK_def drawn_def annaKey_def)
  have alloc: "allocateAccountIdentity (toyEnv (CHR ''A'') 10) ''anna'' s
      = (Inr (), s\<lparr>sy_identity := [\<lparr>ai_ID = annaID, ai_Username = Some ''anna'', ai_Generation = Some 1\<rparr>]\<rparr>)" if "sy_identity s = []" for s
    using that anna_identity by (simp add: allocateAccountIdentity_def n Let_def annaID_def [symmetric] andThen_def del: append_Cons)
  have ins: "insertAccount (toyEnv (CHR ''A'') 10) ''anna'' ''Anna'' annaHash True emptySys =
     (Inr \<lparr>ac_Username = ''anna'', ac_DisplayName = ''Anna'', ac_DataDir = ''root/anna'', ac_LastExportDirectory = [],
              ac_CreatedAt = 10, ac_LastLogin = 0, ac_IsAdmin = True, ac_Disabled = False\<rparr>,
      annaCreated\<lparr>sy_users := [annaRow\<lparr>ur_WrappedDEK := []\<rparr>], sy_events := [], sy_nextEvent := 1,
        sy_identity := [\<lparr>ai_ID = annaID, ai_Username = Some ''anna'', ai_Generation = Some 1\<rparr>]\<rparr>)"
    by (simp add: insertAccount_def andThen_def attempt_def orRemove_def anna_name userDir_def createUserFolder_def e alloc
        insertUser_def identityOf_def rowBy_Cons annaCreated_def annaRow_def emptySys_def Let_def)
  show ?thesis
    by (simp add: CreateAccountWithPrincipal_def anna_name p n auth_def anna_secrets k createAccountTx_def accountRule_def e ins
        andThen_def removingFolder_def attempt_def inWriteTx_def recordAccountEvent_def accountEventActions_def updateUser_def
        statement_def rowBy_Cons identityOf_def bumpGeneration_def annaCreated_def annaRow_def authState_def modifyBy_def MaxInt64_def
        enrollInSavepoint_def savepoint_def enrollTx_def activeEscrowKey_def userDir_def check_def crypto_def)
qed

subsection \<open>Her first session makes the administrator key\<close>

lemma annaKey_length [simp]: "length annaKey = 32" by (simp add: annaKey_def)

lemma toySuite_fields [simp]: "kemPublic toySuite k = Some (''P'' @ k)" "kemValid toySuite p" "hpkeSeal toySuite r p i x = x"
  "hpkeOpen toySuite k i c = Some c" "hmacSHA256 toySuite a b = replicate 32 (CHR ''h'')"
  "gcmSeal toySuite k n x a = x @ replicate 16 (CHR ''t'')" "gcmOpen toySuite k n c a = Some (take (length c - 16) c)"
  by (simp_all add: toySuite_def)

definition annaKeyID :: string where "annaKeyID = hexEncode (replicate 16 (CHR ''B''))"

definition annaSession :: Sys where
  "annaSession = annaCreated
     \<lparr>sy_super := Some (''anna'', Some 20),
      sy_events := sy_events annaCreated @ [\<lparr>av_ID = 2, av_OccurredAt = Some 20, av_Actor = ''anna'', av_Username = ''anna'',
         av_Action = AccountSuperAssigned, av_Detail = ''the earliest administrator''\<rparr>],
      sy_nextEvent := 3,
      sy_keys := [\<lparr>ek_ID = annaKeyID, ek_Public = CHR ''P'' # replicate 32 (CHR ''B''), ek_CreatedAt = Some 20, ek_RetiredAt = None\<rparr>],
      sy_pins := [\<lparr>ep_Username = ''anna'', ep_KeyID = annaKeyID, ep_Pin = replicate 32 (CHR ''h'')\<rparr>],
      sy_sealed := [\<lparr>sd_Username = ''anna'', sd_KeyID = annaKeyID, sd_Sealed = annaKey, sd_SealedAt = Some 20\<rparr>],
      sy_personal := [\<lparr>pk_Username = ''anna'', pk_Public = CHR ''P'' # replicate 32 (CHR ''B''),
         pk_Wrapped = replicate 12 (CHR ''B'') @ replicate 32 (CHR ''B'') @ replicate 16 (CHR ''t''),
         pk_Attestation = replicate 32 (CHR ''h''), pk_AttestedKeyID = annaKeyID, pk_CreatedAt = Some 20\<rparr>],
      sy_grants := [\<lparr>eg_Admin = ''anna'', eg_KeyID = annaKeyID, eg_Sealed = replicate 32 (CHR ''B''), eg_GrantedAt = Some 20\<rparr>]\<rparr>"

lemma annaKeyID_simps: "hexEncode (replicate 16 (CHR ''B'')) = annaKeyID" "annaKeyID \<noteq> []" "[] \<noteq> annaKeyID"
proof -
  show "hexEncode (replicate 16 (CHR ''B'')) = annaKeyID" by (simp add: annaKeyID_def)
  show "annaKeyID \<noteq> []" by code_simp
  then show "[] \<noteq> annaKeyID" by simp
qed

lemma draws_escrow: "drawLength 1 = 32" "drawLength (Suc 0) = 32" "drawLength 2 = 12" "drawLength 3 = 32" "drawLength 4 = 16" "drawLength 5 = 32"
  by (simp_all add: drawLength_def)

lemma annaCreated_simps: "sy_users annaCreated = [annaRow]" "sy_super annaCreated = None" "sy_succession annaCreated = None"
  "sy_keys annaCreated = []" "sy_nextEvent annaCreated = 2" "sy_personal annaCreated = []" "sy_pins annaCreated = []"
  "sy_sealed annaCreated = []" "sy_grants annaCreated = []"
  by (simp_all add: annaCreated_def emptySys_def)

lemma annaRow_simps: "ur_Username annaRow = ''anna''" "enabledAdmin annaRow" "ur_IsAdmin annaRow" "\<not> ur_Disabled annaRow"
  "ur_CreatedAt annaRow = Some 10" "ur_LastLogin annaRow = None"
  by (simp_all add: annaRow_def enabledAdmin_def)

lemmas session_defs = EnrollAdminSession_def enrollAdminSessionTx_def superSessionTx_def bootstrapTx_def requireEnabledAdmin_def
  accountRole_def readSuccessionTx_def ensureSuperTx_def assignSuper_def earliestEnabledAdmin_def earliest_def superRow_def standbyOf_def
  laterStamp_def newEscrowSession_def storeEscrowKey_def insertEscrowKey_def enrollTx_def activeEscrowKey_def ensurePersonalKey_def
  newPersonalKey_def pinTx_def sealDEKTx_def attestTx_def grantTx_def currentSession_def recordAccountEvent_def accountEventActions_def
  references_def

lemmas secret_defs = GenerateEscrowKeyPair_def NewEscrowKeyID_def WrapPersonalKey_def DeriveSubkey_def DEKSize_def drawn_def EscrowPin_def
  SealDEK_def sealTo_def SealGrant_def Attestation_def escrowPersonalKeyLabel_def escrowPinLabel_def escrowAttestKeyLabel_def

lemmas run_defs = andThen_def attempt_def check_def crypto_def auth_def inWriteTx_def Let_def rowBy_Cons rowBy_def upsertBy_def modifyBy_def
  MaxInt64_def

lemma anna_session: "EnrollAdminSession (toyEnv (CHR ''B'') 20) ''anna'' annaKey annaCreated = (Inr (), annaSession)"
  by (simp add: session_defs secret_defs run_defs annaSession_def annaKeyID_simps draws_escrow annaCreated_simps annaRow_simps)

lemma annaSession_reachable: "accountSteps emptySys annaSession"
proof -
  have "accountStep emptySys annaCreated" by (metis anna_created create snd_conv)
  moreover have "accountStep annaCreated annaSession" by (metis anna_session enroll_admin snd_conv)
  ultimately show ?thesis by (meson rtranclp.rtrancl_refl rtranclp.rtrancl_into_rtrancl)
qed

subsection \<open>She makes an account for Bob\<close>

lemma annaSession_state: "sy_users annaSession = [annaRow]" "sy_nextEvent annaSession = 3" 
  "sy_super annaSession = Some (''anna'', Some 20)" "sy_succession annaSession = None"
  "sy_identity annaSession = [\<lparr>ai_ID = annaID, ai_Username = Some ''anna'', ai_Generation = Some 2\<rparr>]"
  "sy_folders annaSession = [''root/anna'']" 
  "sy_keys annaSession = [\<lparr>ek_ID = annaKeyID, ek_Public = CHR ''P'' # replicate 32 (CHR ''B''), ek_CreatedAt = Some 20, ek_RetiredAt = None\<rparr>]"
  "sy_pins annaSession = [\<lparr>ep_Username = ''anna'', ep_KeyID = annaKeyID, ep_Pin = replicate 32 (CHR ''h'')\<rparr>]"
  "sy_sealed annaSession = [\<lparr>sd_Username = ''anna'', sd_KeyID = annaKeyID, sd_Sealed = annaKey, sd_SealedAt = Some 20\<rparr>]"
  "sy_personal annaSession = [\<lparr>pk_Username = ''anna'', pk_Public = CHR ''P'' # replicate 32 (CHR ''B''),
         pk_Wrapped = replicate 12 (CHR ''B'') @ replicate 32 (CHR ''B'') @ replicate 16 (CHR ''t''),
         pk_Attestation = replicate 32 (CHR ''h''), pk_AttestedKeyID = annaKeyID, pk_CreatedAt = Some 20\<rparr>]"
  by (simp_all add: annaSession_def annaCreated_def emptySys_def)

definition bobKey :: string where "bobKey = replicate 32 (CHR ''C'')"
definition bobHash :: string where
  "bobHash = (case HashPassword toySuite (Some (replicate 16 (CHR ''C''))) ''password'' of Inr h \<Rightarrow> h | Inl _ \<Rightarrow> [])"
definition bobWrap :: string where
  "bobWrap = (case WrapKey toySuite (Some (replicate 16 (CHR ''C''))) (Some (replicate 12 (CHR ''C''))) bobKey ''password'' of
     Inr w \<Rightarrow> w | Inl _ \<Rightarrow> [])"
definition bobID :: string where "bobID = ''ac1:'' @ hexEncode (replicate 32 (CHR ''C''))"

definition bobRow :: UserRow where
  "bobRow = \<lparr>ur_Username = ''bob'', ur_DisplayName = ''Bob'', ur_PasswordHash = bobHash, ur_WrappedDEK = bobWrap,
     ur_DataDir = ''root/bob'', ur_CreatedAt = Some 30, ur_LastLogin = None, ur_IsAdmin = False, ur_Disabled = False,
     ur_LastExportDirectory = []\<rparr>"

lemma bob_secrets:
  "HashPassword toySuite (Some (replicate 16 (CHR ''C''))) ''password'' = Inr bobHash"
  "WrapKey toySuite (Some (replicate 16 (CHR ''C''))) (Some (replicate 12 (CHR ''C''))) bobKey ''password'' = Inr bobWrap"
  "bobWrap \<noteq> []"
proof -
  show "HashPassword toySuite (Some (replicate 16 (CHR ''C''))) ''password'' = Inr bobHash"
    by (simp add: bobHash_def HashPassword_def Let_def)
  show w: "WrapKey toySuite (Some (replicate 16 (CHR ''C''))) (Some (replicate 12 (CHR ''C''))) bobKey ''password'' = Inr bobWrap"
    by (simp add: bobWrap_def WrapKey_def EncryptBuffer_def drawn_def bobKey_def DEKSize_def)
  then have "UnwrapKey toySuite bobWrap ''password'' = Inr bobKey"
    by (rule UnwrapKey_WrapKey [OF toySuite_laws, rotated 2]) (auto simp: saltLen_def nonceSize_def)
  moreover have "UnwrapKey toySuite [] ''password'' = Inl CiphertextTooShort" by code_simp
  ultimately show "bobWrap \<noteq> []" by auto
qed

lemma bob_name: "\<not> list_ex (EqualFold ''bob'') reservedFolderNames" "\<not> list_ex (EqualFold ''bob'') windowsDeviceNames"
  "ValidateUsername ''bob'' = Inr ()" "TrimSpace ''Bob'' = ''Bob''" "identityID bobID" "annaID \<noteq> bobID"
  by code_simp+

lemma bob_lower: "ToLower ''bob'' = ''bob''" "ToLower ''anna'' = ''anna''"  by code_simp+

lemma draws_account: "drawLength 0 = 32" "drawLength 8 = 32" "drawLength 9 = 16" "drawLength 10 = 12" "drawLength 11 = 16" by (simp_all add: drawLength_def)
lemma toy_password: "ValidatePassword ''password'' = Inr ()" by (simp add: ValidatePassword_def MinPasswordLength_def)
lemma bob_key: "GenerateDEK (Some (replicate 32 (CHR ''C''))) = Inr bobKey" "length bobKey = 32" by (simp_all add: GenerateDEK_def drawn_def bobKey_def)
lemma bob_alloc: "allocateAccountIdentity (toyEnv (CHR ''C'') 30) ''bob'' s
      = (Inr (), s\<lparr>sy_identity := [\<lparr>ai_ID = annaID, ai_Username = Some ''anna'', ai_Generation = Some 2\<rparr>,
           \<lparr>ai_ID = bobID, ai_Username = Some ''bob'', ai_Generation = Some 1\<rparr>]\<rparr>)"
  if "sy_identity s = [\<lparr>ai_ID = annaID, ai_Username = Some ''anna'', ai_Generation = Some 2\<rparr>]"
  using that bob_name by (simp add: allocateAccountIdentity_def draws_account Let_def bobID_def [symmetric] andThen_def run_defs del: append_Cons)
definition bobCreated :: Sys where
  "bobCreated = annaSession
     \<lparr>sy_users := [annaRow, bobRow],
      sy_events := sy_events annaSession @ [\<lparr>av_ID = 3, av_OccurredAt = Some 30, av_Actor = ''anna'', av_Username = ''bob'',
         av_Action = AccountCreated, av_Detail = ''standard''\<rparr>],
      sy_nextEvent := 4,
      sy_identity := [\<lparr>ai_ID = annaID, ai_Username = Some ''anna'', ai_Generation = Some 2\<rparr>,
                      \<lparr>ai_ID = bobID, ai_Username = Some ''bob'', ai_Generation = Some 2\<rparr>],
      sy_personal := sy_personal annaSession @ [\<lparr>pk_Username = ''bob'', pk_Public = CHR ''P'' # replicate 32 (CHR ''C''),
         pk_Wrapped = replicate 12 (CHR ''C'') @ replicate 32 (CHR ''C'') @ replicate 16 (CHR ''t''),
         pk_Attestation = [], pk_AttestedKeyID = [], pk_CreatedAt = Some 30\<rparr>],
      sy_sealed := sy_sealed annaSession @ [\<lparr>sd_Username = ''bob'', sd_KeyID = annaKeyID, sd_Sealed = bobKey, sd_SealedAt = Some 30\<rparr>],
      sy_pins := sy_pins annaSession @ [\<lparr>ep_Username = ''bob'', ep_KeyID = annaKeyID, ep_Pin = replicate 32 (CHR ''h'')\<rparr>],
      sy_folders := [''root/anna'', ''root/bob'']\<rparr>"

lemma bob_created:
  "CreateAccountWithPrincipal (toyEnv (CHR ''C'') 30) ''anna'' ''bob'' ''Bob'' ''password'' False None annaSession
     = (Inr (\<lparr>ac_Username = ''bob'', ac_DisplayName = ''Bob'', ac_DataDir = ''root/bob'', ac_LastExportDirectory = [],
              ac_CreatedAt = 30, ac_LastLogin = 0, ac_IsAdmin = False, ac_Disabled = False\<rparr>,
             \<lparr>pn_id = bobID, pn_username = ''bob'', pn_generation = 2\<rparr>, bobKey), bobCreated)"
  by (simp add: CreateAccountWithPrincipal_def bob_name toy_password draws_account bob_secrets bob_key createAccountTx_def accountRule_def
      accountRole_def removingFolder_def updateUser_def bob_lower statement_def identityOf_def bumpGeneration_def authState_def
      enrollInSavepoint_def savepoint_def userDir_def insertAccount_def orRemove_def createUserFolder_def bob_alloc
      insertUser_def session_defs secret_defs run_defs annaSession_state annaKeyID_simps draws_escrow annaRow_simps
      bobCreated_def bobRow_def)

lemma bobCreated_reachable: "accountSteps emptySys bobCreated"
proof -
  have "accountStep annaSession bobCreated" by (metis bob_created create snd_conv)
  with annaSession_reachable show ?thesis by (rule rtranclp.rtrancl_into_rtrancl)
qed

subsection \<open>She opens his data\<close>

lemma bobCreated_state: "sy_users bobCreated = [annaRow, bobRow]" "sy_super bobCreated = Some (''anna'', Some 20)" "sy_nextEvent bobCreated = 4"
  "sy_keys bobCreated = sy_keys annaSession" "sy_grants bobCreated = sy_grants annaSession"
  "sy_personal bobCreated = sy_personal annaSession @ [\<lparr>pk_Username = ''bob'', pk_Public = CHR ''P'' # replicate 32 (CHR ''C''),
         pk_Wrapped = replicate 12 (CHR ''C'') @ replicate 32 (CHR ''C'') @ replicate 16 (CHR ''t''),
         pk_Attestation = [], pk_AttestedKeyID = [], pk_CreatedAt = Some 30\<rparr>]"
  "sy_sealed bobCreated = sy_sealed annaSession @ [\<lparr>sd_Username = ''bob'', sd_KeyID = annaKeyID, sd_Sealed = bobKey, sd_SealedAt = Some 30\<rparr>]"
  "sy_pins bobCreated = sy_pins annaSession @ [\<lparr>ep_Username = ''bob'', ep_KeyID = annaKeyID, ep_Pin = replicate 32 (CHR ''h'')\<rparr>]"
  by (simp_all add: bobCreated_def annaSession_def)

lemma annaSession_grants:
  "sy_grants annaSession = [\<lparr>eg_Admin = ''anna'', eg_KeyID = annaKeyID, eg_Sealed = replicate 32 (CHR ''B''), eg_GrantedAt = Some 20\<rparr>]"
  by (simp add: annaSession_def)

lemma anna_opens: "TrimSpace ''audit'' = ''audit''" "RuneCount ''audit'' = 5" "\<not> EqualFold ''anna'' ''bob''"
  by code_simp+

definition bobOpened :: Sys where
  "bobOpened = bobCreated\<lparr>sy_events := sy_events bobCreated @ [\<lparr>av_ID = 4, av_OccurredAt = Some 40, av_Actor = ''anna'',
     av_Username = ''bob'', av_Action = AccountAdminAccess, av_Detail = ''audit''\<rparr>], sy_nextEvent := 5\<rparr>"

lemma bob_opened: "OpenUserForAdmin (toyEnv (CHR ''D'') 40) ''anna'' annaKey ''bob'' ''audit'' bobCreated = (Inr bobKey, bobOpened)"
  by (simp add: OpenUserForAdmin_def anna_opens MaxAccessReasonLength_def afterCommit_def openUserTx_def requireSuperTx_def
      openGrantTx_def UnwrapPersonalKey_def gcmUnwrap_def OpenGrant_def openWith_def EscrowPublicKey_def pinMatches_def OpenDEK_def
      session_defs secret_defs run_defs annaSession_state bobCreated_state annaSession_grants annaRow_simps bobRow_def bob_key
      nonceSize_def bobOpened_def)

subsection \<open>He becomes an administrator, and takes over when she has been away\<close>

lemma bobCreated_rest: "sy_succession bobCreated = None" "sy_pending bobCreated = None" "sy_protection bobCreated = []"
  "sy_identity bobCreated = [\<lparr>ai_ID = annaID, ai_Username = Some ''anna'', ai_Generation = Some 2\<rparr>,
     \<lparr>ai_ID = bobID, ai_Username = Some ''bob'', ai_Generation = Some 2\<rparr>]"
  by (simp_all add: bobCreated_def annaSession_def annaCreated_def emptySys_def)

definition bobPromoted :: Sys where
  "bobPromoted = bobCreated
     \<lparr>sy_users := [annaRow, bobRow\<lparr>ur_IsAdmin := True\<rparr>],
      sy_events := sy_events bobCreated @ [\<lparr>av_ID = 4, av_OccurredAt = Some 40, av_Actor = ''anna'', av_Username = ''bob'',
         av_Action = AccountPromoted, av_Detail = []\<rparr>],
      sy_nextEvent := 5,
      sy_identity := [\<lparr>ai_ID = annaID, ai_Username = Some ''anna'', ai_Generation = Some 2\<rparr>,
                      \<lparr>ai_ID = bobID, ai_Username = Some ''bob'', ai_Generation = Some 3\<rparr>]\<rparr>"

lemma bob_promoted: "SetAdmin (toyEnv (CHR ''D'') 40) ''anna'' ''bob'' True bobCreated = (Inr (), bobPromoted)"
  by (simp add: SetAdmin_def setAdminTx_def requireSuperTx_def requireAccountActionTx_def updateUser_def bumpGeneration_def
      statement_def authState_def identityOf_def session_defs run_defs annaSession_state bobCreated_state bobCreated_rest
      annaRow_simps bobRow_def bobPromoted_def)

lemma bobPromoted_reachable: "accountSteps emptySys bobPromoted"
proof -
  have "accountStep bobCreated bobPromoted" by (metis bob_promoted set_admin snd_conv)
  with bobCreated_reachable show ?thesis by (rule rtranclp.rtrancl_into_rtrancl)
qed

lemma bobPromoted_state: "sy_users bobPromoted = [annaRow, bobRow\<lparr>ur_IsAdmin := True\<rparr>]" "sy_super bobPromoted = Some (''anna'', Some 20)"
  "sy_keys bobPromoted = sy_keys bobCreated" "sy_grants bobPromoted = sy_grants bobCreated" "sy_succession bobPromoted = None"
  "sy_protection bobPromoted = []" "sy_nextEvent bobPromoted = 5"
  by (simp_all add: bobPromoted_def bobCreated_state bobCreated_rest)

lemma vacation: "takeoverReason ''vacation'' = Some \<lparr>tr_Code = ''vacation'', tr_Label = ''Vacation'', tr_Days = 30\<rparr>" "TrimSpace [] = []"
  "RuneCount [] = 0"
  by code_simp+

definition monthLater :: Time where "monthLater = addDays 20 30"

definition bobTook :: Sys where "bobTook = snd (TakeOverSuper (toyEnv (CHR ''E'') monthLater) ''bob'' bobKey ''vacation'' [] bobPromoted)"

lemma bob_took: "TakeOverSuper (toyEnv (CHR ''E'') monthLater) ''bob'' bobKey ''vacation'' [] bobPromoted = (Inr False, bobTook)"
proof -
  have "fst (TakeOverSuper (toyEnv (CHR ''E'') monthLater) ''bob'' bobKey ''vacation'' [] bobPromoted) = Inr False"
    by (simp add: TakeOverSuper_def vacation MaxTakeoverNoteLength_def takeOverTx_def takeoverRefusal_def moveSuper_def clearStandbyTx_def
        holdsAnyGrantTx_def removeGrantTx_def clearProtectionTx_def protect_def openGrantTx_def noUsableGrant_def
        markRotationPendingTx_def DefaultTakeoverDays_def MinTakeoverDays_def MaxTakeoverDays_def monthLater_def deleteBy_def
        session_defs run_defs annaSession_state bobCreated_state bobPromoted_state annaSession_grants annaRow_simps bobRow_def enabledAdmin_def)
  then show ?thesis unfolding bobTook_def by (metis prod.collapse)
qed

end
