(* ===== verification/AccountLog.thy ===== *)
theory AccountLog
  imports AccountSteps AppendLog
begin

text \<open>
  The account history of \<^verbatim>\<open>system.db\<close>: no operation changes or removes an event,
  events are numbered in the order they happened, and the sign-in notices of
  \<^verbatim>\<open>access_notice.go\<close> read from it.
\<close>

definition logExtends :: "AccountEvent list \<Rightarrow> Sys \<Rightarrow> bool" where
  "logExtends h s \<longleftrightarrow> (\<exists>new. sy_events s = h @ new)"

definition logOrdered :: "Sys \<Rightarrow> bool" where
  "logOrdered s \<longleftrightarrow> sorted_wrt (<) (map av_ID (sy_events s)) \<and> (\<forall>e \<in> set (sy_events s). 1 \<le> av_ID e \<and> av_ID e < sy_nextEvent s)
     \<and> 1 \<le> sy_nextEvent s"

text \<open>A predicate on the history alone: what no other table matters to.\<close>

lemma updateUser_events:
  "sy_events (snd (updateUser username f s)) = sy_events s \<and> sy_nextEvent (snd (updateUser username f s)) = sy_nextEvent s"
  by (auto simp: updateUser_def statement_def bumpGeneration_def andThen_def split: option.splits sum.splits prod.splits if_splits)

lemma account_rows_events:
  "sy_events (snd (deleteUser username s)) = sy_events s \<and> sy_nextEvent (snd (deleteUser username s)) = sy_nextEvent s"
  "sy_events (snd (insertUser u s)) = sy_events s \<and> sy_nextEvent (snd (insertUser u s)) = sy_nextEvent s"
  "sy_events (snd (allocateAccountIdentity env username s)) = sy_events s
   \<and> sy_nextEvent (snd (allocateAccountIdentity env username s)) = sy_nextEvent s"
  by (auto simp: deleteUser_def insertUser_def allocateAccountIdentity_def andThen_def Let_def split: option.splits)

interpretation log_extends: account_writes "logExtends h" for h
  by unfold_locales
     (auto simp: logExtends_def keeps_def updateUser_events account_rows_events)

interpretation log_ordered: account_writes logOrdered
  by unfold_locales
     (force simp: logOrdered_def sorted_wrt_append keeps_def updateUser_events account_rows_events)+

interpretation account_log: append_log sy_events accountStep
  by unfold_locales (metis log_extends.step_keeps logExtends_def append_Nil2)

end
