(* ===== verification/AccountProperties.thy ===== *)
theory AccountProperties
  imports AccountExample AccountLog
begin

text \<open>
  What the account database promises, over every sequence of operations from the empty
  database, and what the operations that use the administrator key promise on success.
\<close>

subsection \<open>Who runs the machine\<close>

text \<open>
  C6. As soon as the machine has an account it has an administrator who can sign in, and no
  operation takes that away. Account names are unique; the super administrator and the
  standby, where there are any, are administrators who can sign in, and two different ones.
\<close>
theorem machine_has_admin:
  assumes "accountSteps emptySys s"
  shows "(sy_users s \<noteq> [] \<longrightarrow> list_ex enabledAdmin (sy_users s)) \<and> distinct (map ur_Username (sy_users s))
     \<and> (\<forall>u. superOf s = Some u \<longrightarrow> enabledAt u s)
     \<and> (\<forall>v. standbyName s = Some v \<longrightarrow> enabledAt v s \<and> superOf s \<noteq> None \<and> superOf s \<noteq> Some v)"
  using rolesOK_reachable [OF assms] by (auto simp: rolesOK_def usersOK_def list_ex_iff)

lemma annaSession_simps: "sy_users annaSession = [annaRow]" "superOf annaSession = Some ''anna''" "standbyName annaSession = None"
  by (simp_all add: annaSession_def annaCreated_simps superOf_def standbyName_def)

theorem machine_has_admin_witness: "list_ex enabledAdmin (sy_users annaSession) \<and> enabledAt ''anna'' annaSession"
  using machine_has_admin [OF annaSession_reachable] by (simp add: annaSession_simps)

text \<open>
  C7. The administrator key stays with the two people it is meant for: whoever has a copy of
  it on disk is the super administrator or the standby, and can sign in.
\<close>
theorem key_custody:
  assumes "accountSteps emptySys s" and "g \<in> set (sy_grants s)"
  shows "(superOf s = Some (eg_Admin g) \<or> standbyName s = Some (eg_Admin g)) \<and> enabledAt (eg_Admin g) s"
proof -
  from assms(2) have "eg_Admin g \<in> admins (sy_grants s)" by (simp add: admins_def)
  then have "eg_Admin g \<in> keyHolders s" using rolesOK_grants [OF rolesOK_reachable [OF assms(1)]] by blast
  then show ?thesis using rolesOK_reachable [OF assms(1)] by (auto simp: keyHolders_def rolesOK_def)
qed

theorem key_custody_witness: "enabledAt (eg_Admin (hd (sy_grants annaSession))) annaSession"
proof -
  have "hd (sy_grants annaSession) \<in> set (sy_grants annaSession)" by (simp add: annaSession_def)
  then show ?thesis using key_custody [OF annaSession_reachable] by blast
qed

subsection \<open>Identities\<close>

lemma authOf_None: "authOf u s = None \<longleftrightarrow> userRow u s = None"
  by (simp add: authOf_def)

text \<open>
  C13. A signed-in session stands for one account for good: if an identity read at one time
  belongs to an account at a later time, it is the same account, its generation has not
  gone back, and if the generation is the same then so are the role, the status, the
  password and the wrapped key.
\<close>
theorem identity_is_for_good:
  assumes "accountSteps emptySys s0" and "accountSteps s0 s"
    and "identityOf u s0 = Some r0" and "identityOf v s = Some r" and "ai_ID r = ai_ID r0"
  shows "v = u \<and> (\<exists>g0 g. ai_Generation r0 = Some g0 \<and> ai_Generation r = Some g \<and> g0 \<le> g
           \<and> (g = g0 \<and> userRow u s0 \<noteq> None \<longrightarrow> authOf u s = authOf u s0))"
proof -
  have since: "identitySince s0 s" using identities_since assms(1,2) by blast
  have ok: "identityOK s0" "identityOK s" using identityOK_reachable assms(1,2) by (blast intro: rtranclp_trans)+
  have r0: "r0 \<in> set (sy_identity s0)" "ai_Username r0 = Some u" using assms(3) identityOf_row ok(1) by blast+
  have r: "r \<in> set (sy_identity s)" "ai_Username r = Some v" using assms(4) identityOf_row ok(2) by blast+
  obtain r' where r': "r' \<in> set (sy_identity s)" "follows r0 s0 r' s" using since r0(1) unfolding identitySince_def by blast
  then have "ai_ID r' = ai_ID r" using assms(5) by (simp add: follows_def)
  moreover have "inj_on ai_ID (set (sy_identity s))" using ok(2) by (simp add: identityOK_def distinct_map)
  ultimately have "r' = r" using r(1) r'(1) by (simp add: inj_on_def)
  with r'(2) r(2) r0(2) show ?thesis by (auto simp: follows_def)
qed

lemma anna_identityOf: "identityOf ''anna'' annaCreated = Some \<lparr>ai_ID = annaID, ai_Username = Some ''anna'', ai_Generation = Some 2\<rparr>"
  "identityOf ''anna'' annaSession = Some \<lparr>ai_ID = annaID, ai_Username = Some ''anna'', ai_Generation = Some 2\<rparr>"
  by (simp_all add: identityOf_def annaSession_def annaCreated_def rowBy_Cons)

theorem identity_is_for_good_witness: "authOf ''anna'' annaSession = authOf ''anna'' annaCreated"
proof -
  have "accountStep emptySys annaCreated" by (metis anna_created create snd_conv)
  then have 1: "accountSteps emptySys annaCreated" by blast
  have "accountStep annaCreated annaSession" by (metis anna_session enroll_admin snd_conv)
  then have 2: "accountSteps annaCreated annaSession" by blast
  from identity_is_for_good [OF 1 2 anna_identityOf] show ?thesis by (simp add: annaCreated_simps rowBy_Cons annaRow_simps)
qed

subsection \<open>Access to another account's data\<close>

definition accessEvent :: "AcctEnv \<Rightarrow> string \<Rightarrow> string \<Rightarrow> string \<Rightarrow> AccountEvent \<Rightarrow> bool" where
  "accessEvent env actor target reason e \<longleftrightarrow> av_Actor e = actor \<and> av_Username e = target \<and> av_Action e = AccountAdminAccess
     \<and> av_Detail e = TrimSpace reason \<and> av_OccurredAt e = Some (en_Now env)"

definition openedBy :: "AcctEnv \<Rightarrow> string \<Rightarrow> string \<Rightarrow> string \<Rightarrow> Sys \<Rightarrow> string \<Rightarrow> Sys \<Rightarrow> bool" where
  "openedBy env actor dek target s key u \<longleftrightarrow> requireSuperTx env actor s = (Inr (), u)
     \<and> (\<exists>ss. openGrantTx env actor dek u = (Inr ss, u)
         \<and> (\<exists>row \<in> set (sy_sealed u). sd_Username row = target
              \<and> OpenDEK (en_Suite env) (es_private ss) (es_id ss) target (sd_Sealed row) = Inr key))"

lemma runs_openUser:
  "runs (\<lambda>s'. s' = s) (openUserTx env actor dek target reason)
     (\<lambda>r t. \<forall>key. r = Inr key \<longrightarrow> (\<exists>u. openedBy env actor dek target s key u
        \<and> recordAccountEvent env actor target AccountAdminAccess reason u = (Inr (), t)))"
  unfolding openUserTx_def activeEscrowKey_def
  apply (rule runs_andThen [where Q = "\<lambda>_ u. requireSuperTx env actor s = (Inr (), u)"], rule runsI, simp)
  apply (rule runs_andThen [where Q = "\<lambda>_ u. requireSuperTx env actor s = (Inr (), u)"], rule runsI, simp)
  apply (rule runs_andThen, rule runs_keeps, rule keeps_query)
  apply (rule runs_option, rule runs_fail)
  apply (rule runs_andThen [where Q = "\<lambda>row u. requireSuperTx env actor s = (Inr (), u) \<and> (\<forall>r. row = Some r \<longrightarrow> r \<in> set (sy_sealed u) \<and> sd_Username r = target)"])
   apply (rule runs_query, auto simp: find_Some_iff) [1]
  apply (rule runs_option, rule runs_fail)
  subgoal for a b c d e r
    apply (rule runs_andThen [where Q = "\<lambda>g v. \<exists>u. requireSuperTx env actor s = (Inr (), u) \<and> r \<in> set (sy_sealed u)
       \<and> sd_Username r = target \<and> openGrantTx env actor dek u = (g, v)"])
     apply (rule runsI, auto) [1]
    apply (rule runs_sum, rule runs_if, rule runs_succeed, simp, rule runs_fail)
    apply (rule runs_sum, rule runsI, auto simp: andThen_Inr) [1]
    apply (rule runsI)
    apply (clarsimp simp: andThen_Inr openedBy_def)
    apply (frule openGrant_Inr(1))
    apply auto
    done
  done

text \<open>
  C8. Nobody opens another account's data unrecorded. A successful \<^verbatim>\<open>OpenUserForAdmin\<close>
  returns what the account's sealed key opens to with the administrator key of the caller's own
  copy; the caller is the super administrator, who can sign in, with a reason and for an
  account other than their own; its last act is the event that says who, whose, when and why. And the
  event is there for good: after any later operations it is in the account's access history,
  and among the unread notices of the account until the owner has acknowledged that far.
\<close>
theorem access_is_recorded:
  assumes "accountSteps emptySys s" and "OpenUserForAdmin env actor dek target reason s = (Inr key, t)" and "accountSteps t u"
  shows "(\<exists>s'. openedBy env actor dek target s key s') \<and> superOf t = Some actor \<and> enabledAt actor t
     \<and> \<not> EqualFold actor target \<and> TrimSpace reason \<noteq> []
     \<and> (\<exists>e. accessEvent env actor target reason e \<and> last (sy_events t) = e \<and> e \<in> set (AccessHistory target u)
          \<and> (acknowledged target u < av_ID e \<longrightarrow> e \<in> set (UnreadAccessNotices target u)))"
proof -
  let ?reason = "TrimSpace reason"
  note roles = rolesOK_reachable [OF assms(1)]
  have c: "?reason \<noteq> []" "\<not> EqualFold actor target" and tx: "openUserTx env actor dek target ?reason s = (Inr (Inr key), t)"
    using assms(2) by (auto simp: OpenUserForAdmin_def Let_def afterCommit_def andThen_Inr inWriteTx_Inr split: if_splits)
  obtain s' where o: "openedBy env actor dek target s key s'"
    and s': "requireSuperTx env actor s = (Inr (), s')" "recordAccountEvent env actor target AccountAdminAccess ?reason s' = (Inr (), t)"
    using runsD [OF runs_openUser refl tx] by (auto simp: openedBy_def)
  have super: "superOf s' = Some actor" "enabledAt actor s'" using requireSuper_Inr [OF roles s'(1)] by (auto simp: enabledAt_def)
  have "\<exists>e. accessEvent env actor target reason e \<and> sy_events t = sy_events s' @ [e] \<and> sy_users t = sy_users s' \<and> sy_super t = sy_super s'"
    using s'(2) by (auto simp: recordAccountEvent_def accessEvent_def split: if_splits)
  then obtain e where t: "accessEvent env actor target reason e" "sy_events t = sy_events s' @ [e]" "sy_users t = sy_users s'"
    "sy_super t = sy_super s'" by blast
  have "e \<in> set (sy_events u)" using account_log.history_appends [OF assms(3)] t(2) by auto
  with t(1) have "e \<in> set (AccessHistory target u)" "acknowledged target u < av_ID e \<longrightarrow> e \<in> set (UnreadAccessNotices target u)"
    by (auto simp: AccessHistory_def UnreadAccessNotices_def noticeFilter_def accessEvent_def)
  moreover have "superOf t = Some actor" "enabledAt actor t" using super t(3,4) by (simp_all add: superOf_def enabledAt_def)
  ultimately show ?thesis using o c t(1,2) by auto
qed

theorem access_is_recorded_witness:
  "superOf bobOpened = Some ''anna'' \<and> av_Detail (last (sy_events bobOpened)) = ''audit'' \<and> last (sy_events bobOpened) \<in> set (UnreadAccessNotices ''bob'' bobOpened)"
proof -
  have n: "acknowledged ''bob'' bobOpened = 0"
    by (simp add: acknowledged_def bobOpened_def bobCreated_def annaSession_def annaCreated_def emptySys_def)
  obtain e where "superOf bobOpened = Some ''anna''" "accessEvent (toyEnv (CHR ''D'') 40) ''anna'' ''bob'' ''audit'' e"
    "last (sy_events bobOpened) = e" "acknowledged ''bob'' bobOpened < av_ID e \<longrightarrow> e \<in> set (UnreadAccessNotices ''bob'' bobOpened)"
    using access_is_recorded [OF bobCreated_reachable bob_opened rtranclp.rtrancl_refl] by metis
  moreover have "av_ID (last (sy_events bobOpened)) = 4" by (simp add: bobOpened_def)
  ultimately show ?thesis using n by (auto simp: accessEvent_def anna_opens)
qed

subsection \<open>Taking over\<close>

definition takeoverDays :: "Sys \<Rightarrow> int" where
  "takeoverDays s = min (max (case sy_succession s of None \<Rightarrow> DefaultTakeoverDays | Some r \<Rightarrow> sr_Days r) MinTakeoverDays) MaxTakeoverDays"

definition inactive :: "string \<Rightarrow> Stamp \<Rightarrow> Time \<Rightarrow> Sys \<Rightarrow> bool" where
  "inactive username since now s \<longleftrightarrow>
     (\<exists>u. userRow username s = Some u \<and> addDays (laterStamp [ur_LastLogin u, since]) (takeoverDays s) \<le> now)"

lemma readSuccession_Some:
  assumes s: "rolesOK s" and su: "sy_super s = Some (former, since)" and r: "readSuccessionTx env s = (Inr st, t)"
  shows "t = s" "ss_super st = former" "ss_days st = takeoverDays s"
    "\<exists>u. userRow former s = Some u \<and> ss_lastActive st = laterStamp [ur_LastLogin u, since]"
    "sy_succession s = None \<longrightarrow> ss_standby st = []"
    "sy_succession s = Some row \<longrightarrow> sr_Standby row = Some v \<longrightarrow> ss_standby st = v
       \<and> (\<exists>u. userRow v s = Some u \<and> ss_standbyLastActive st = laterStamp [ur_LastLogin u, sr_NamedAt row])"
proof -
  have sup: "superOf s = Some former" using su by (simp add: superOf_def)
  obtain u t' where "ensureSuperTx env s = (Inr u, t')" "superOf t' = (if u = [] then None else Some u)" "superOf s \<noteq> None \<longrightarrow> t' = s"
    using ensureSuper_run [OF s, of env] .
  then have e: "ensureSuperTx env s = (Inr former, s)" using sup by (auto split: if_splits)
  obtain f where f: "userRow former s = Some f" "former \<noteq> []"
    using s sup enabledAt_nonempty [OF s] by (auto simp: rolesOK_def enabledAt_def)
  have sb: "standbyOf env former (case sr_Standby row of None \<Rightarrow> [] | Some u \<Rightarrow> u) (sr_NamedAt row) s
      = (Inr (case sr_Standby row of None \<Rightarrow> ([], 0) | Some v \<Rightarrow>
           (v, laterStamp [ur_LastLogin (the (userRow v s)), sr_NamedAt row])), s)"
    if row: "sy_succession s = Some row" for row
  proof (cases "sr_Standby row")
    case (Some v)
    then have "standbyName s = Some v" using row by (simp add: standbyName_def)
    then have "enabledAt v s" "v \<noteq> former" using s sup by (auto simp: rolesOK_def)
    then show ?thesis using Some enabledAt_nonempty [OF s]
      by (auto simp: standbyOf_def andThen_def attempt_run requireEnabledAdmin_run enabledAt_def)
  qed (simp add: standbyOf_def)
  have alone: "standbyOf env former [] None s = (Inr ([], 0), s)" by (simp add: standbyOf_def)
  have v: "userRow v s \<noteq> None \<and> v \<noteq> []" if "sy_succession s = Some row" "sr_Standby row = Some v" for row v
    using that s enabledAt_nonempty [OF s] by (auto simp: rolesOK_def standbyName_def enabledAt_def)
  show "t = s" "ss_super st = former" "ss_days st = takeoverDays s"
    "\<exists>u. userRow former s = Some u \<and> ss_lastActive st = laterStamp [ur_LastLogin u, since]"
    "sy_succession s = None \<longrightarrow> ss_standby st = []"
    "sy_succession s = Some row \<longrightarrow> sr_Standby row = Some v \<longrightarrow> ss_standby st = v
       \<and> (\<exists>u. userRow v s = Some u \<and> ss_standbyLastActive st = laterStamp [ur_LastLogin u, sr_NamedAt row])"
    using r sb [of row] sb alone v [of row v] f su
    by (auto simp: readSuccessionTx_def andThen_def e Let_def takeoverDays_def split: option.splits)
qed

definition tookOver :: "string \<Rightarrow> string \<Rightarrow> ProtectionRow \<Rightarrow> Sys \<Rightarrow> bool" where
  "tookOver former actor p s \<longleftrightarrow> former \<noteq> actor \<and> superOf s = Some actor \<and> former \<notin> admins (sy_grants s)
     \<and> rowBy pr_Username former (sy_protection s) = Some p"

interpretation took_over: escrow_writes "tookOver former actor p" "{actor}" for former actor p
  by unfold_locales (auto simp: tookOver_def superOf_def admins_def)

definition protectionFor :: "AcctEnv \<Rightarrow> string \<Rightarrow> TakeoverReason \<Rightarrow> string \<Rightarrow> string \<Rightarrow> ProtectionRow" where
  "protectionFor env former reason note0 actor = \<lparr>pr_Username = former, pr_Reason = tr_Code reason, pr_Note = note0,
     pr_Until = Some (addDays (en_Now env) (tr_Days reason)), pr_TakenOverBy = actor, pr_CreatedAt = Some (en_Now env)\<rparr>"

definition mayTakeOver :: "AcctEnv \<Rightarrow> string \<Rightarrow> Sys \<Rightarrow> bool" where
  "mayTakeOver env actor s \<longleftrightarrow> enabledAt actor s
     \<and> (\<exists>st. readSuccessionTx env s = (Inr st, s) \<and> takeoverRefusal st actor (en_Now env) = Inr ())"

lemma runs_takeOver:
  assumes s: "rolesOK s" and su: "sy_super s = Some (former, since)"
  shows "runs (\<lambda>s'. s' = s) (takeOverTx env actor dek reason note0)
     (\<lambda>_ t. mayTakeOver env actor s \<and> tookOver former actor (protectionFor env former reason note0 actor) t)"
proof -
  let ?p = "protectionFor env former reason note0 actor"
  let ?I = "tookOver former actor ?p"
  have moved: "runs (\<lambda>u. u = s) (moveSuper env actor) (\<lambda>_ u. superOf u = Some actor)"
    using su by (intro runsI) (auto simp: moveSuper_def references_def andThen_Inr superOf_def split: if_splits)
  have cleared: "runs (\<lambda>u. superOf u = Some actor) (clearStandbyTx env actor actor why) (\<lambda>_ u. superOf u = Some actor)" for why
    by (intro runsI) (auto simp: superOf_def dest: clearStandby_Inr(2))
  have removed: "runs (\<lambda>u. superOf u = Some actor) (removeGrantTx former) (\<lambda>_ u. superOf u = Some actor \<and> former \<notin> admins (sy_grants u))"
    by (intro runsI) (auto simp: removeGrantTx_def superOf_def)
  have unprotected: "runs (\<lambda>u. superOf u = Some actor \<and> former \<notin> admins (sy_grants u)) (clearProtectionTx actor)
      (\<lambda>_ u. superOf u = Some actor \<and> former \<notin> admins (sy_grants u))"
    by (intro runsI) (auto simp: clearProtectionTx_def superOf_def)
  have protected: "runs (\<lambda>u. superOf u = Some actor \<and> former \<notin> admins (sy_grants u)) (protect env former reason note0 actor) (\<lambda>_. ?I)"
    if "actor \<noteq> former"
    using that by (intro runsI)
      (auto simp: protect_def references_def andThen_Inr tookOver_def superOf_def protectionFor_def rowBy_upsertBy split: if_splits)
  have rot: "keeps ?I (rotateInSavepointTx env ss actor dek [] why)" for ss why by (rule took_over.keeps_rotate) simp
  show ?thesis
    unfolding takeOverTx_def holdsAnyGrantTx_def
    apply (rule runs_andThen [where Q = "\<lambda>_ u. u = s \<and> enabledAt actor s"], rule runsI, simp)
    apply (rule runs_andThen [where Q = "\<lambda>st u. (enabledAt actor s \<and> readSuccessionTx env s = (Inr st, s) \<and> ss_super st = former) \<and> u = s"])
     apply (rule runsI, use readSuccession_Some(1,2) [OF s su] in \<open>force\<close>) [1]
    apply (rule runs_fact, elim conjE)
    subgoal for a st
      apply (rule runs_andThen [where Q = "\<lambda>_ u. (mayTakeOver env actor s \<and> actor \<noteq> former) \<and> u = s"])
       apply (rule runsI, auto simp: mayTakeOver_def takeoverRefusal_def split: if_splits) [1]
      apply (rule runs_fact, elim conjE)
      apply (simp only:)
      apply (rule runs_weaken [where P = "\<lambda>u. u = s" and Q = "\<lambda>_. ?I"])
        apply (rule runs_andThen, rule moved)
        apply (rule runs_andThen, rule cleared)
        apply (rule runs_andThen, rule runs_keeps, rule keeps_query)
        apply (rule runs_andThen, rule removed)
        apply (rule runs_andThen, rule unprotected)
        apply (rule runs_andThen, rule protected, assumption)
        apply (rule runs_keeps, unfold Let_def, intro keeps_rules rot)
       apply simp_all
      done
    done
qed

text \<open>
  C11. The super administrator role is taken over only when it is due: by another administrator
  who can sign in, after the super administrator, and the standby unless it is the standby
  who takes over, has not signed in for the takeover period since they got the role. It then
  belongs to the one who took over; the former super administrator has no copy of the
  administrator key left and is protected from the new one for the days of the reason given.
\<close>
theorem takeover_only_when_due:
  assumes "accountSteps emptySys s" and "sy_super s = Some (former, since)"
    and "TakeOverSuper env actor dek code note0 s = (Inr held, t)"
  shows "actor \<noteq> former \<and> enabledAt actor s \<and> inactive former since (en_Now env) s
     \<and> (\<forall>row v. sy_succession s = Some row \<and> sr_Standby row = Some v \<and> v \<noteq> actor \<longrightarrow> inactive v (sr_NamedAt row) (en_Now env) s)
     \<and> superOf t = Some actor \<and> former \<notin> admins (sy_grants t)
     \<and> (\<exists>reason. takeoverReason code = Some reason
          \<and> rowBy pr_Username former (sy_protection t) = Some (protectionFor env former reason (TrimSpace note0) actor))"
proof -
  note roles = rolesOK_reachable [OF assms(1)]
  obtain reason where reason: "takeoverReason code = Some reason" and tx: "takeOverTx env actor dek reason (TrimSpace note0) s = (Inr held, t)"
    using assms(3) by (auto simp: TakeOverSuper_def Let_def inWriteTx_Inr split: option.split_asm if_split_asm)
  from runsD [OF runs_takeOver [OF roles assms(2)] refl tx]
  obtain st where due: "enabledAt actor s" "readSuccessionTx env s = (Inr st, s)" "takeoverRefusal st actor (en_Now env) = Inr ()"
    and t: "tookOver former actor (protectionFor env former reason (TrimSpace note0) actor) t"
    by (auto simp: mayTakeOver_def)
  note st = readSuccession_Some [OF roles assms(2) due(2)]
  have "inactive v (sr_NamedAt row) (en_Now env) s" if row: "sy_succession s = Some row" "sr_Standby row = Some v" "v \<noteq> actor" for row v
  proof -
    have "v \<noteq> []" using roles row enabledAt_nonempty [OF roles] by (auto simp: rolesOK_def standbyName_def)
    then show ?thesis using st(3) st(6) [of row v] row due(3) by (auto simp: takeoverRefusal_def inactive_def split: if_split_asm)
  qed
  moreover have "inactive former since (en_Now env) s"
    using st(3,4) due(3) by (auto simp: takeoverRefusal_def inactive_def split: if_split_asm)
  ultimately show ?thesis using due(1) reason t by (auto simp: tookOver_def)
qed

theorem takeover_only_when_due_witness:
  "inactive ''anna'' (Some 20) monthLater bobPromoted \<and> superOf bobTook = Some ''bob'' \<and> sy_grants bobPromoted \<noteq> [] \<and> ''anna'' \<notin> admins (sy_grants bobTook)"
  using takeover_only_when_due [OF bobPromoted_reachable bobPromoted_state(2) bob_took]
  by (simp add: bobPromoted_state bobCreated_state annaSession_grants)

subsection \<open>Signing in\<close>

text \<open>
  What the transaction of a sign-in committed on state \<open>w\<close>: the password was the account's
  there, its key is the one returned, and the session is of its identity.
\<close>

definition signedIn :: "AcctEnv \<Rightarrow> string \<Rightarrow> string \<Rightarrow> Principal \<Rightarrow> string \<Rightarrow> Sys \<Rightarrow> Sys \<Rightarrow> bool" where
  "signedIn env username password who dek w t \<longleftrightarrow> (\<exists>u row. userRow username w = Some u \<and> \<not> ur_Disabled u
     \<and> VerifyPassword (en_Suite env) password (ur_PasswordHash u) = Inr ()
     \<and> (ur_WrappedDEK u = [] \<or> UnwrapKey (en_Suite env) (ur_WrappedDEK u) password = Inr dek)
     \<and> identityOf username w = Some row \<and> pn_id who = ai_ID row \<and> pn_username who = username)
     \<and> (\<exists>row. identityOf username t = Some row \<and> ai_Generation row = Some (pn_generation who))"

lemma readCredentialRow_Inr:
  "readCredentialRow env username s = (Inr snapshot, t) \<longleftrightarrow>
     t = s \<and> (\<exists>u. userRow username s = Some u \<and> snapshot = credentialOf env u (identityOf username s))"
  by (auto simp: readCredentialRow_def andThen_Inr split: option.splits)

lemma prepareSignIn_Inr:
  assumes "prepareSignIn env snapshot password = Inr work"
  shows "VerifyPassword (en_Suite env) password (cw_hash snapshot) = Inr ()" "cw_id snapshot \<noteq> []"
    "cw_wrapped snapshot = [] \<or> UnwrapKey (en_Suite env) (cw_wrapped snapshot) password = Inr (wk_dek work)"
  using assms
  by (auto simp: prepareSignIn_def checkPassword_def unlockKey_def cryptoErr_def and_then_Inr_iff split: sum.split_asm if_split_asm)

lemma signInTx_Inr:
  assumes "signInTx env username snapshot work b s = (Inr (acc, who), t)" and "ac_Username (cw_account snapshot) = username"
    and prep: "prepareSignIn env snapshot password = Inr work"
  shows "signedIn env username password who (wk_dek work) s t"
proof -
  have "\<exists>now u v. requireSameCredentialsTx env snapshot s = (Inr now, u) \<and> pn_id who = cw_id now \<and> pn_username who = username
      \<and> generationTx username v = (Inr (pn_generation who), t)"
    using assms(1) unfolding signInTx_def by (fastforce simp: andThen_Inr split: if_split_asm)
  then obtain now u' v where now: "requireSameCredentialsTx env snapshot s = (Inr now, u')"
    and w: "pn_id who = cw_id now" "pn_username who = username" and g: "generationTx username v = (Inr (pn_generation who), t)" by blast
  from now assms(2) obtain u where u: "userRow username s = Some u" "now = credentialOf env u (identityOf username s)"
    and same: "cw_id now = cw_id snapshot" "cw_hash now = cw_hash snapshot" "cw_wrapped now = cw_wrapped snapshot" "\<not> ac_Disabled (cw_account now)"
    by (auto simp: requireSameCredentialsTx_def andThen_Inr readCredentialRow_Inr split: if_split_asm)
  note p = prepareSignIn_Inr [OF prep]
  obtain row where "identityOf username s = Some row" using p(2) same(1) u(2) by (cases "identityOf username s") (auto simp: credentialOf_def)
  moreover have "\<exists>row. identityOf username t = Some row \<and> ai_Generation row = Some (pn_generation who)"
    using g by (auto simp: generationTx_def andThen_Inr bind_eq_Some_conv split: option.split_asm)
  ultimately show ?thesis using u same p w by (auto simp: signedIn_def credentialOf_def accountOf_def)
qed

lemma signInLoop_Inr:
  assumes "signInLoop n i envs other username password b s = (Inr (acc, who, dek), t)"
  shows "\<exists>j w. i \<le> j \<and> j < i + n \<and> signedIn (envs j) username password who dek w t"
  using assms
proof (induction n arbitrary: i s)
  case (Suc n)
  from Suc.prems obtain snapshot work r v where snap: "readCredentialRow (envs i) username s = (Inr snapshot, s)"
    and work: "prepareSignIn (envs i) snapshot password = Inr work"
    and tx: "inWriteTx (envs i) (signInTx (envs i) username snapshot work b) (other i s) = (r, v)"
    and rest: "(case r of Inr (acc, who) \<Rightarrow> succeed (acc, who, wk_dek work)
     | Inl e \<Rightarrow> if e = ErrStaleCredentials then signInLoop n (Suc i) envs other username password b else fail e) v = (Inr (acc, who, dek), t)"
    by (auto simp: andThen_Inr readCredentialRow_Inr)
  show ?case
  proof (cases r)
    case (Inl e)
    then have "signInLoop n (Suc i) envs other username password b v = (Inr (acc, who, dek), t)" using rest by (auto split: if_split_asm)
    from Suc.IH [OF this] show ?thesis by (metis Suc_leD add_Suc_shift)
  next
    case (Inr q)
    then have q: "q = (acc, who)" "dek = wk_dek work" "v = t" using rest by (auto split: prod.split_asm)
    then have "signInTx (envs i) username snapshot work b (other i s) = (Inr (acc, who), t)" using tx Inr by (simp add: inWriteTx_Inr)
    moreover have "ac_Username (cw_account snapshot) = username"
      using snap by (auto simp: readCredentialRow_Inr credentialOf_def accountOf_def dest: rowBy_SomeD)
    ultimately have "signedIn (envs i) username password who dek (other i s) t" using signInTx_Inr [OF _ _ work] q(2) by simp
    then show ?thesis by (metis le_refl less_add_Suc1 add_Suc_right)
  qed
qed simp

text \<open>
  C14. A sign-in that succeeds, with other processes at work between its reads and its commit,
  is one of the three attempts, and on the state its transaction committed on: the account
  was not disabled, the password was its password, the key returned is what its wrap opens
  to (where it has one), and the session it returns is of the account's identity and its
  current generation.
\<close>
theorem sign_in_checks_the_password:
  assumes "SignIn envs other username password s = (Inr (acc, who, dek), t)"
  shows "\<exists>i w. i < 3 \<and> signedIn (envs i) username password who dek w t"
  using assms signInLoop_Inr [of signInAttempts 0 envs other username password True s acc who dek t]
  by (auto simp: SignIn_def signIn_def signInAttempts_def split: if_split_asm)

definition annaSignedIn :: Sys where
  "annaSignedIn = snd (SignIn (\<lambda>_. toyEnv (CHR ''B'') 20) (\<lambda>_ s. s) ''anna'' ''password'' annaCreated)"

lemma anna_credentials: "VerifyPassword toySuite ''password'' annaHash = Inr ()" "\<not> NeedsRehash annaHash" "UnwrapKey toySuite annaWrap ''password'' = Inr annaKey"
proof -
  have "replicate 16 (CHR ''A'') \<noteq> []" by simp
  from hash_verifies [OF toySuite_laws anna_secrets(1) this]
  show "VerifyPassword toySuite ''password'' annaHash = Inr ()" "\<not> NeedsRehash annaHash" by simp_all
  show "UnwrapKey toySuite annaWrap ''password'' = Inr annaKey"
    using anna_secrets(2) by (rule UnwrapKey_WrapKey [OF toySuite_laws, rotated 2]) (auto simp: saltLen_def nonceSize_def)
qed

lemma anna_signs_in:
  "SignIn (\<lambda>_. toyEnv (CHR ''B'') 20) (\<lambda>_ s. s) ''anna'' ''password'' annaCreated
     = (Inr (accountOf (toyEnv (CHR ''B'') 20) annaRow, \<lparr>pn_id = annaID, pn_username = ''anna'', pn_generation = 2\<rparr>, annaKey), annaSignedIn)"
proof -
  have i: "sy_identity annaCreated = [\<lparr>ai_ID = annaID, ai_Username = Some ''anna'', ai_Generation = Some 2\<rparr>]" "annaID \<noteq> []"
    by (simp_all add: annaCreated_def annaID_def)
  have r: "annaRow = \<lparr>ur_Username = ''anna'', ur_DisplayName = ''Anna'', ur_PasswordHash = annaHash, ur_WrappedDEK = annaWrap,
     ur_DataDir = ''root/anna'', ur_CreatedAt = Some 10, ur_LastLogin = None, ur_IsAdmin = True, ur_Disabled = False,
     ur_LastExportDirectory = []\<rparr>" by (rule annaRow_def)
  have "fst (SignIn (\<lambda>_. toyEnv (CHR ''B'') 20) (\<lambda>_ s. s) ''anna'' ''password'' annaCreated)
     = Inr (accountOf (toyEnv (CHR ''B'') 20) annaRow, \<lparr>pn_id = annaID, pn_username = ''anna'', pn_generation = 2\<rparr>, annaKey)"
    by (simp add: SignIn_def signIn_def anna_name signInAttempts_def numeral_3_eq_3 readCredentialRow_def prepareSignIn_def checkPassword_def
        unlockKey_def cryptoErr_def credentialOf_def accountOf_def signInTx_def requireSameCredentialsTx_def storeCredentialWorkTx_def
        generationTx_def updateUser_def statement_def authState_def identityOf_def savepoint_def i r anna_secrets anna_credentials enabledAdmin_def
        session_defs secret_defs run_defs annaKeyID_simps draws_escrow annaCreated_simps)
  then show ?thesis unfolding annaSignedIn_def by (metis prod.collapse)
qed

theorem sign_in_checks_the_password_witness: "\<exists>w. signedIn (toyEnv (CHR ''B'') 20) ''anna'' ''password'' \<lparr>pn_id = annaID, pn_username = ''anna'', pn_generation = 2\<rparr> annaKey w annaSignedIn"
  using sign_in_checks_the_password [OF anna_signs_in] by blast

end
