(* ===== verification/EscrowProperties.thy ===== *)
theory EscrowProperties
  imports AccountExample
begin

text \<open>
  What keeps an account's data within reach, and within the right reach: replacing the
  administrator key, sealing to one account, recovery codes and passwords.
\<close>

subsection \<open>Replacing the administrator key\<close>

text \<open>The row of an account that the old key opened, after it was sealed to the new one.\<close>

definition resealed :: "AcctEnv \<Rightarrow> EscrowSession \<Rightarrow> string \<Rightarrow> string \<Rightarrow> SealedDEK list \<Rightarrow> bool" where
  "resealed env nxt username dek rows \<longleftrightarrow> (\<exists>row. rowBy sd_Username username rows = Some row \<and> sd_KeyID row = es_id nxt
     \<and> SealDEK (en_Suite env) (en_Rand env 3) (es_public nxt) (es_id nxt) username dek = Inr (sd_Sealed row))"

abbreviation opensTo :: "AcctEnv \<Rightarrow> EscrowSession \<Rightarrow> SealedDEK \<Rightarrow> string \<Rightarrow> bool" where
  "opensTo env ss r dek \<equiv> OpenDEK (en_Suite env) (es_private ss) (es_id ss) (sd_Username r) (sd_Sealed r) = Inr dek"

lemma resealRow_Inr:
  assumes "resealRow env old nxt r s = (Inr n, t)"
  shows "u \<noteq> sd_Username r \<Longrightarrow> rowBy sd_Username u (sy_sealed t) = rowBy sd_Username u (sy_sealed s)"
    and "opensTo env old r dek \<Longrightarrow> rowBy sd_Username (sd_Username r) (sy_sealed s) \<noteq> None \<Longrightarrow> resealed env nxt (sd_Username r) dek (sy_sealed t)"
    and "sy_keys t = sy_keys s"
  using assms by (auto simp: resealRow_def recordAccountEvent_def andThen_Inr resealed_def table_simps split: sum.split_asm if_split_asm)

lemma resealRows_Inr:
  assumes "resealRows env old nxt rs s = (Inr n, t)" and "distinct (map sd_Username rs)"
  shows "(\<forall>u. u \<notin> sd_Username ` set rs \<longrightarrow> rowBy sd_Username u (sy_sealed t) = rowBy sd_Username u (sy_sealed s))
    \<and> (\<forall>r dek. r \<in> set rs \<longrightarrow> opensTo env old r dek \<longrightarrow> rowBy sd_Username (sd_Username r) (sy_sealed s) \<noteq> None
         \<longrightarrow> resealed env nxt (sd_Username r) dek (sy_sealed t))
    \<and> sy_keys t = sy_keys s"
  using assms
proof (induction rs arbitrary: s n)
  case (Cons r rs)
  then obtain m k u where u: "resealRow env old nxt r s = (Inr m, u)" and rest: "resealRows env old nxt rs u = (Inr k, t)"
    by (auto simp: andThen_Inr)
  note head = resealRow_Inr [OF u] and tail = Cons.IH [OF rest]
  have d: "distinct (map sd_Username rs)" "sd_Username r \<notin> sd_Username ` set rs" using Cons.prems(2) by auto
  have "resealed env nxt (sd_Username q) dek (sy_sealed t)"
    if q: "q \<in> set (r # rs)" "opensTo env old q dek" "rowBy sd_Username (sd_Username q) (sy_sealed s) \<noteq> None" for q dek
  proof (cases "q = r")
    case True
    then have "resealed env nxt (sd_Username r) dek (sy_sealed u)" using head(2) q by simp
    then show ?thesis using tail d True by (simp add: resealed_def)
  next
    case False
    then have "q \<in> set rs" using q(1) by simp
    then have "sd_Username q \<noteq> sd_Username r" using d(2) by (metis imageI)
    then show ?thesis using tail d(1) head(1) q \<open>q \<in> set rs\<close> by simp
  qed
  then show ?case using tail d head by auto
qed simp

lemma resealTx_Inr:
  assumes "resealTx env old nxt s = (Inr res, t)" and d: "distinct (map sd_Username (sy_sealed s))"
  shows "r \<in> set (sy_sealed s) \<Longrightarrow> sd_KeyID r = es_id old \<Longrightarrow> opensTo env old r dek \<Longrightarrow>
      \<exists>row \<in> set (sy_sealed t). sd_Username row = sd_Username r
        \<and> SealDEK (en_Suite env) (en_Rand env 3) (es_public nxt) (es_id nxt) (sd_Username r) dek = Inr (sd_Sealed row)"
    and "\<forall>row \<in> set (sy_sealed t). sd_KeyID row = es_id nxt"
    and "sy_keys t = sy_keys s"
proof -
  let ?rs = "filter (\<lambda>r. sd_KeyID r = es_id old) (sy_sealed s)"
  obtain n u where u: "resealRows env old nxt ?rs s = (Inr n, u)"
    and t: "sy_sealed t = filter (\<lambda>r. sd_KeyID r = es_id nxt) (sy_sealed u)" "sy_keys t = sy_keys u"
    using assms(1) by (auto simp: resealTx_def andThen_Inr)
  have "distinct (map sd_Username ?rs)" using d by (rule distinct_map_filter)
  note rows = resealRows_Inr [OF u this]
  show "sy_keys t = sy_keys s" using rows t by simp
  show "\<forall>row \<in> set (sy_sealed t). sd_KeyID row = es_id nxt" using t by simp
  assume r: "r \<in> set (sy_sealed s)" "sd_KeyID r = es_id old" "opensTo env old r dek"
  then have "rowBy sd_Username (sd_Username r) (sy_sealed s) \<noteq> None" by (auto simp: rowBy_None)
  then have "resealed env nxt (sd_Username r) dek (sy_sealed u)" using rows r by simp
  then show "\<exists>row \<in> set (sy_sealed t). sd_Username row = sd_Username r
        \<and> SealDEK (en_Suite env) (en_Rand env 3) (es_public nxt) (es_id nxt) (sd_Username r) dek = Inr (sd_Sealed row)"
    using t by (auto simp: resealed_def dest!: rowBy_SomeD)
qed

text \<open>After the sealed rows are done: they and the keys stay, and every grant is of the new key.\<close>

definition rekeyed :: "string \<Rightarrow> SealedDEK list \<Rightarrow> EscrowKey list \<Rightarrow> Sys \<Rightarrow> bool" where
  "rekeyed i deks keys s \<longleftrightarrow> sy_sealed s = deks \<and> sy_keys s = keys \<and> (\<forall>g \<in> set (sy_grants s). eg_KeyID g = i)"

lemma keeps_rekeyed:
  "keeps (rekeyed i deks keys) (recordAccountEvent env actor username action detail)"
  "keeps (rekeyed i deks keys) (references username)"
  "es_id ss = i \<Longrightarrow> keeps (rekeyed i deks keys) (grantTx env ss admin public)"
  "keeps (rekeyed i deks keys) (attestTx env ss' username public)"
proof -
  show e: "keeps (rekeyed i deks keys) (recordAccountEvent env actor username action detail)"
    unfolding recordAccountEvent_def by (intro keeps_rules keeps_exec) (simp_all add: rekeyed_def)
  show r: "keeps (rekeyed i deks keys) (references username)" for username
    unfolding references_def by (intro keeps_rules)
  show "keeps (rekeyed i deks keys) (grantTx env ss admin public)" if "es_id ss = i"
    unfolding grantTx_def using that
    by (intro keeps_rules keeps_exec r) (auto simp: rekeyed_def dest!: subsetD [OF set_upsertBy])
  show "keeps (rekeyed i deks keys) (attestTx env ss' username public)"
    unfolding attestTx_def by (intro keeps_rules keeps_exec) (simp add: rekeyed_def)
qed

lemma keeps_rekeyed_rotation:
  "es_id nxt = i \<Longrightarrow> keeps (rekeyed i deks keys) (grantRecipient env nxt actor name)"
  "keeps (rekeyed i deks keys) (openGrantTx env actor dek)"
  unfolding grantRecipient_def attestAndGrantTx_def Let_def openGrantTx_def unusable_def removeGrantTx_def activeEscrowKey_def
  by (intro keeps_rules keeps_rekeyed keeps_exec; simp add: rekeyed_def deleteBy_def)+

lemma keeps_reattest_tables: "keeps (\<lambda>s. sy_sealed s = deks \<and> sy_keys s = keys) (reattestTx env old nxt)"
  unfolding reattestTx_def attestTx_def recordAccountEvent_def by (intro keeps_rules keeps_exec; simp)

definition rotated :: "AcctEnv \<Rightarrow> EscrowSession \<Rightarrow> Sys \<Rightarrow> EscrowSession \<Rightarrow> Sys \<Rightarrow> bool" where
  "rotated env old s nxt t \<longleftrightarrow> kemPublic (en_Suite env) (es_private nxt) = Some (es_public nxt)
     \<and> (\<forall>r dek. r \<in> set (sy_sealed s) \<and> sd_KeyID r = es_id old \<and> opensTo env old r dek \<longrightarrow>
          (\<exists>row \<in> set (sy_sealed t). sd_Username row = sd_Username r
             \<and> SealDEK (en_Suite env) (en_Rand env 3) (es_public nxt) (es_id nxt) (sd_Username r) dek = Inr (sd_Sealed row)))
     \<and> (\<forall>row \<in> set (sy_sealed t). sd_KeyID row = es_id nxt)
     \<and> (\<exists>k. rowBy ek_RetiredAt None (sy_keys t) = Some k \<and> ek_ID k = es_id nxt \<and> ek_Public k = es_public nxt)"

lemma storeEscrowKey_Inr:
  assumes "storeEscrowKey env ss s = (Inr x, t)"
  shows "\<exists>k. rowBy ek_RetiredAt None (sy_keys t) = Some k \<and> ek_ID k = es_id ss \<and> ek_Public k = es_public ss"
    and "sy_sealed t = sy_sealed s"
  using assms by (auto simp: storeEscrowKey_def insertEscrowKey_def andThen_Inr table_simps rowBy_Cons split: if_splits)

lemma runs_rotate:
  assumes d: "distinct (map sd_Username (sy_sealed s))"
  shows "runs (\<lambda>s'. s' = s) (rotateTx env old actor dek keep reason)
     (\<lambda>(nxt, _) t. rotated env old s nxt t \<and> (\<forall>g \<in> set (sy_grants t). eg_KeyID g = es_id nxt))"
proof -
  let ?pair = "\<lambda>nxt. kemPublic (en_Suite env) (es_private nxt) = Some (es_public nxt)"
  let ?key = "\<lambda>nxt u. \<exists>k. rowBy ek_RetiredAt None (sy_keys u) = Some k \<and> ek_ID k = es_id nxt \<and> ek_Public k = es_public nxt"
  let ?R = "\<lambda>nxt. rotated env old s nxt"
  let ?J = "\<lambda>nxt t. ?R nxt t \<and> (\<forall>g \<in> set (sy_grants t). eg_KeyID g = es_id nxt)"
  have frame: "runs (?J nxt) m (\<lambda>_. ?J nxt)" if m: "\<And>deks keys. keeps (rekeyed (es_id nxt) deks keys) m" for nxt and m :: "'a tx"
  proof (rule runsI)
    fix u t :: Sys and x assume u: "?J nxt u" and r: "m u = (Inr x, t)"
    then have "rekeyed (es_id nxt) (sy_sealed u) (sy_keys u) t" using keepsD' [OF m r] by (simp add: rekeyed_def)
    then show "?J nxt t" using u by (simp add: rekeyed_def rotated_def)
  qed
  have reseal: "runs (\<lambda>u. sy_sealed u = sy_sealed s \<and> ?key nxt u) (resealTx env old nxt) (\<lambda>_. ?R nxt)" if "?pair nxt" for nxt
  proof (rule runsI)
    fix u t x assume u: "sy_sealed u = sy_sealed s \<and> ?key nxt u" and r: "resealTx env old nxt u = (Inr x, t)"
    have "distinct (map sd_Username (sy_sealed u))" using d u by simp
    note tab = resealTx_Inr [OF r this]
    show "?R nxt t" using that u tab(1,2,3) by (simp add: rotated_def)
  qed
  have reattest: "runs (?R nxt) (reattestTx env old nxt) (\<lambda>_. ?R nxt)" for nxt
  proof (rule runsI)
    fix u t :: Sys and x assume u: "?R nxt u" and r: "reattestTx env old nxt u = (Inr x, t)"
    have "sy_sealed t = sy_sealed u \<and> sy_keys t = sy_keys u"
      using keepsD' [OF keeps_reattest_tables r, of "sy_sealed u" "sy_keys u"] by simp
    then show "?R nxt t" using u by (simp add: rotated_def)
  qed
  show ?thesis
    unfolding rotateTx_def
    apply (rule runs_andThen [where Q = "\<lambda>nxt u. ?pair nxt \<and> u = s"], rule runsI)
     apply (auto simp: newEscrowSession_def andThen_Inr GenerateEscrowKeyPair_def and_then_Inr_iff split: option.splits) [1]
    apply (rule runs_fact)
    apply (rule runs_andThen [where Q = "\<lambda>_ u. sy_sealed u = sy_sealed s"], rule runs_exec, simp)
    subgoal for nxt
      apply (rule runs_andThen [where Q = "\<lambda>_ u. sy_sealed u = sy_sealed s \<and> ?key nxt u"], rule runsI)
       using storeEscrowKey_Inr apply metis
      apply (rule runs_andThen [where Q = "\<lambda>_. ?R nxt"], rule reseal, assumption)
      apply (rule runs_andThen [where Q = "\<lambda>_. ?R nxt"], rule reattest)
      apply (rule runs_andThen [where Q = "\<lambda>_. ?J nxt"], rule runs_exec, simp add: rotated_def)
      apply (rule runs_andThen, rule frame, intro keeps_rules keeps_rekeyed_rotation refl)
      apply (rule runs_andThen, rule frame, rule keeps_rekeyed_rotation)
      apply (rule runs_andThen, rule frame, rule keeps_exec, simp add: rekeyed_def)
      apply (rule runs_andThen, rule frame, rule keeps_exec, simp add: rekeyed_def)
      apply (rule runs_andThen, rule frame, rule keeps_rekeyed)
      apply (rule runs_succeed, simp)
      done
    done
qed

text \<open>
  C12. Replacing the administrator key loses nobody's data and leaves nothing to the old key:
  every account's sealed key that the old key opened is sealed to the new key and opens to the
  same account key, every sealed key and every grant is of the new key, and the new key is
  the one in use.
\<close>
theorem rotation_keeps_access:
  assumes "SuiteLaws (en_Suite env)" and "distinct (map sd_Username (sy_sealed s))"
    and "rotateTx env old actor dek keep reason s = (Inr (nxt, res), t)"
  shows "(\<forall>r d. r \<in> set (sy_sealed s) \<and> sd_KeyID r = es_id old \<and> opensTo env old r d \<longrightarrow>
       (\<exists>row \<in> set (sy_sealed t). sd_Username row = sd_Username r \<and> opensTo env nxt row d))
     \<and> (\<forall>row \<in> set (sy_sealed t). sd_KeyID row = es_id nxt) \<and> (\<forall>g \<in> set (sy_grants t). eg_KeyID g = es_id nxt)
     \<and> (\<exists>k. rowBy ek_RetiredAt None (sy_keys t) = Some k \<and> ek_ID k = es_id nxt)"
proof -
  from runsD [OF runs_rotate [OF assms(2)] refl assms(3)]
  have t: "rotated env old s nxt t" "\<forall>g \<in> set (sy_grants t). eg_KeyID g = es_id nxt" by auto
  have "\<exists>row \<in> set (sy_sealed t). sd_Username row = sd_Username r \<and> opensTo env nxt row d"
    if "r \<in> set (sy_sealed s)" "sd_KeyID r = es_id old" "opensTo env old r d" for r d
    using t(1) that OpenDEK_SealDEK [OF assms(1)] unfolding rotated_def by metis
  with t show ?thesis unfolding rotated_def by metis
qed

definition annaEscrow :: EscrowSession where
  "annaEscrow = \<lparr>es_id = annaKeyID, es_public = CHR ''P'' # replicate 32 (CHR ''B''), es_private = replicate 32 (CHR ''B'')\<rparr>"

definition nextEscrow :: EscrowSession where
  "nextEscrow = \<lparr>es_id = hexEncode (replicate 16 (CHR ''F'')), es_public = CHR ''P'' # replicate 32 (CHR ''F''), es_private = replicate 32 (CHR ''F'')\<rparr>"

lemma nextKeyID: "hexEncode (replicate 16 (CHR ''F'')) \<noteq> annaKeyID" "annaKeyID \<noteq> hexEncode (replicate 16 (CHR ''F''))"
proof -
  show "hexEncode (replicate 16 (CHR ''F'')) \<noteq> annaKeyID" by code_simp
  then show "annaKeyID \<noteq> hexEncode (replicate 16 (CHR ''F''))" by simp
qed

lemma anna_rotates:
  "fst (rotateTx (toyEnv (CHR ''F'') 50) annaEscrow ''anna'' annaKey [] [] annaSession) = Inr (nextEscrow, \<lparr>rr_Resealed = 1, rr_Reenroll = 0\<rparr>)"
  by (simp add: rotateTx_def resealTx_def resealRow_def reattestTx_def recipients_def grantRecipient_def attestAndGrantTx_def
      openGrantTx_def UnwrapPersonalKey_def gcmUnwrap_def OpenGrant_def openWith_def EscrowPublicKey_def pinMatches_def OpenDEK_def
      VerifyAttestation_def nonceSize_def annaEscrow_def nextEscrow_def nextKeyID
      session_defs secret_defs run_defs annaSession_state annaSession_grants annaRow_simps draws_escrow)

theorem rotation_keeps_access_witness:
  "list_ex (\<lambda>row. sd_Username row = ''anna'' \<and> opensTo (toyEnv (CHR ''F'') 50) nextEscrow row annaKey)
     (sy_sealed (snd (rotateTx (toyEnv (CHR ''F'') 50) annaEscrow ''anna'' annaKey [] [] annaSession)))"
proof -
  let ?r = "\<lparr>sd_Username = ''anna'', sd_KeyID = annaKeyID, sd_Sealed = annaKey, sd_SealedAt = Some 20\<rparr>"
  have 1: "rotateTx (toyEnv (CHR ''F'') 50) annaEscrow ''anna'' annaKey [] [] annaSession
     = (Inr (nextEscrow, \<lparr>rr_Resealed = 1, rr_Reenroll = 0\<rparr>), snd (rotateTx (toyEnv (CHR ''F'') 50) annaEscrow ''anna'' annaKey [] [] annaSession))"
    using anna_rotates by (metis prod.collapse)
  have 2: "SuiteLaws (en_Suite (toyEnv (CHR ''F'') 50))" "distinct (map sd_Username (sy_sealed annaSession))"
    by (simp_all add: toySuite_laws annaSession_state)
  have 3: "?r \<in> set (sy_sealed annaSession)" "sd_KeyID ?r = es_id annaEscrow" "opensTo (toyEnv (CHR ''F'') 50) annaEscrow ?r annaKey"
    by (simp_all add: annaSession_state annaEscrow_def OpenDEK_def openWith_def DEKSize_def)
  from rotation_keeps_access [OF 2 1] 3
  obtain row where "row \<in> set (sy_sealed (snd (rotateTx (toyEnv (CHR ''F'') 50) annaEscrow ''anna'' annaKey [] [] annaSession)))"
    "sd_Username row = sd_Username ?r" "opensTo (toyEnv (CHR ''F'') 50) nextEscrow row annaKey" by blast
  then show ?thesis by (auto simp: list_ex_iff)
qed

subsection \<open>Reading a recovery code back\<close>

text \<open>How a symbol of a code may be typed: in either case, or as the digit it looks like.\<close>

definition typedFor :: "char \<Rightarrow> char \<Rightarrow> bool" where
  "typedFor t c \<longleftrightarrow> upper_byte t = c \<or> (t, c) \<in> {(CHR ''0'', CHR ''O''), (CHR ''1'', CHR ''I''), (CHR ''8'', CHR ''B'')}"

definition separator :: "char \<Rightarrow> bool" where "separator c \<longleftrightarrow> c = CHR ''-'' \<or> [c] \<in> set space_encodings"

lemma canonicalise_ascii:
  assumes "list_all (\<lambda>c. byte c < 0x80) s"
  shows "canonicalise s = map upper_byte (filter (\<lambda>c. \<not> separator c) s)"
proof -
  have "concat (map canonicalChunk (map Ascii s)) = map upper_byte (filter (\<lambda>c. \<not> separator c) s)"
    by (induction s) (simp_all add: separator_def)
  then show ?thesis using ascii_chunks [OF assms] by (simp add: canonicalise_def)
qed

lemma symbols: "list_all (\<lambda>c. \<not> separator c \<and> lookalike c = c \<and> upper_byte c = c \<and> byte c < 0x80) base32Alphabet"
  by code_simp

lemma lookalike_typed: "typedFor t c \<Longrightarrow> c \<in> set base32Alphabet \<Longrightarrow> lookalike (upper_byte t) = c"
  using symbols by (auto simp: typedFor_def list_all_iff lookalike_def upper_byte_def)

lemma set_rawBase32: "set (rawBase32 s) \<subseteq> set base32Alphabet"
  unfolding rawBase32_def by (rule set_encodeWith [OF base32Alphabet_facts(2)]) simp

lemma canonical_typed:
  assumes "list_all2 typedFor ts cs" and "set cs \<subseteq> set base32Alphabet"
  shows "map lookalike (map upper_byte ts) = cs"
  using assms by (induction rule: list_all2_induct) (auto simp: lookalike_typed)

lemma parse_typed:
  assumes raw: "length raw = EscrowRecoveryCodeSize" and ascii: "list_all (\<lambda>c. byte c < 0x80) typed"
    and typed: "list_all2 typedFor (filter (\<lambda>c. \<not> separator c) typed) (rawBase32 raw)"
  shows "parseEscrowRecoveryCode typed = Inr raw"
proof -
  have "map lookalike (canonicalise typed) = rawBase32 raw"
    using canonical_typed [OF typed set_rawBase32] canonicalise_ascii [OF ascii] by simp
  moreover have "length (rawBase32 raw) = 32" using raw by (simp add: rawBase32_def length_encodeWith EscrowRecoveryCodeSize_def)
  moreover have "fromRawBase32 (rawBase32 raw) = Some raw" using raw by (intro fromRawBase32_raw) (simp add: EscrowRecoveryCodeSize_def)
  ultimately show ?thesis using raw by (simp add: parseEscrowRecoveryCode_def Let_def)
qed

text \<open>
  C34. The recovery code of the administrator key, as shown, reads back to the bytes it stands
  for, and so does every way to type it: in upper or lower case, with spaces and dashes
  anywhere, and with 0, 1 or 8 for the letters they look like.
\<close>
theorem recovery_code_reads_back:
  assumes "newEscrowRecoveryCode draw = Inr (raw, display)" and "length raw = EscrowRecoveryCodeSize"
  shows "parseEscrowRecoveryCode display = Inr raw
     \<and> (list_all (\<lambda>c. byte c < 0x80) typed \<and> list_all2 typedFor (filter (\<lambda>c. \<not> separator c) typed) (rawBase32 raw)
          \<longrightarrow> parseEscrowRecoveryCode typed = Inr raw)"
proof -
  let ?e = "rawBase32 raw"
  have d: "display = showCode ?e" using assms(1) by (auto simp: newEscrowRecoveryCode_def and_then_Inr_iff)
  have n: "length ?e = 32" using assms(2) by (simp add: rawBase32_def length_encodeWith EscrowRecoveryCodeSize_def)
  have sym: "\<not> separator c \<and> upper_byte c = c \<and> byte c < 0x80" if "c \<in> set ?e" for c
    using symbols set_rawBase32 [of raw] that by (auto simp: list_all_iff)
  have dash: "separator (CHR ''-'')" "byte (CHR ''-'') < 0x80" by (simp_all add: separator_def)
  have split: "take 8 ?e @ take 8 (drop 8 ?e) @ take 8 (drop 16 ?e) @ take 8 (drop 24 ?e) = ?e"
    using append_take_drop_id [of 8 ?e] append_take_drop_id [of 8 "drop 8 ?e"] append_take_drop_id [of 8 "drop 16 ?e"] n by simp
  have part: "filter (\<lambda>c. \<not> separator c) (take 8 (drop k ?e)) = take 8 (drop k ?e)" "filter (\<lambda>c. \<not> separator c) (take 8 ?e) = take 8 ?e" for k
    using sym by (auto intro!: filter_True dest: in_set_takeD in_set_dropD)
  have ascii: "list_all (\<lambda>c. byte c < 0x80) display"
    using sym dash by (auto simp: d showCode_def list_all_iff dest!: in_set_takeD in_set_dropD)
  have "filter (\<lambda>c. \<not> separator c) display = ?e"
    using split by (simp add: d showCode_def part dash)
  then have "list_all2 typedFor (filter (\<lambda>c. \<not> separator c) display) ?e"
    using sym by (auto simp: list_all2_conv_all_nth typedFor_def)
  then show ?thesis using parse_typed [OF assms(2)] ascii by blast
qed

lemma block_of_As: "rawBase32 (''AAAAA'' @ s) = ''IFAUCQKB'' @ rawBase32 s"
proof -
  have b: "valBits 8 (of_char (CHR ''A'')) = [False, True, False, False, False, False, False, True]" by code_simp
  have g: "groups 5 (x # xs) = take 5 (x # xs) # groups 5 (drop 5 (x # xs))" for x and xs :: "bool list"
    by (subst groups.simps) simp
  show ?thesis
    unfolding rawBase32_def encodeWith_def byteBits_def
    by (simp add: b g padTo_def bitsVal_def base32Alphabet_def del: of_char_Char)
qed

lemma code_of_As: "rawBase32 (replicate 20 (CHR ''A'')) = ''IFAUCQKBIFAUCQKBIFAUCQKBIFAUCQKB''"
proof -
  have "replicate 20 (CHR ''A'') = ''AAAAA'' @ ''AAAAA'' @ ''AAAAA'' @ ''AAAAA'' @ []" by (simp add: numeral_eq_Suc)
  moreover have "rawBase32 [] = []" by (simp add: rawBase32_def encodeWith_def byteBits_def groups.simps)
  ultimately show ?thesis by (simp only: block_of_As) simp
qed

theorem recovery_code_reads_back_witness:
  "parseEscrowRecoveryCode ''IFAUCQKB-IFAUCQKB-IFAUCQKB-IFAUCQKB'' = Inr (replicate 20 (CHR ''A''))
   \<and> parseEscrowRecoveryCode ''ifaucqk8 1fAUCQKB--IFAUCQKBIFAUCQK8'' = Inr (replicate 20 (CHR ''A''))"
proof -
  have n: "newEscrowRecoveryCode (Some (replicate 20 (CHR ''A''))) = Inr (replicate 20 (CHR ''A''), ''IFAUCQKB-IFAUCQKB-IFAUCQKB-IFAUCQKB'')"
    by (simp add: newEscrowRecoveryCode_def drawn_def code_of_As showCode_def del: replicate.simps)
  have l: "length (replicate 20 (CHR ''A'')) = EscrowRecoveryCodeSize" by (simp add: EscrowRecoveryCodeSize_def)
  have "list_all2 typedFor (filter (\<lambda>c. \<not> separator c) ''ifaucqk8 1fAUCQKB--IFAUCQKBIFAUCQK8'') ''IFAUCQKBIFAUCQKBIFAUCQKBIFAUCQKB''"
    "list_all (\<lambda>c. byte c < 0x80) ''ifaucqk8 1fAUCQKB--IFAUCQKBIFAUCQK8''"
    by code_simp+
  then show ?thesis using recovery_code_reads_back [OF n l] unfolding code_of_As by blast
qed

subsection \<open>Resetting a password\<close>

lemma updateUser_row:
  assumes "updateUser username f s = (Inr x, t)" and "userRow username s = Some u" and "\<And>v. ur_Username (f v) = ur_Username v"
  shows "userRow username t = Some (f u)" and "sy_codes t = sy_codes s"
  using assms by (auto simp: updateUser_def bumpGeneration_def andThen_Inr table_simps split: option.split_asm if_split_asm)

definition redeemed :: "AcctEnv \<Rightarrow> string \<Rightarrow> string \<Rightarrow> string \<Rightarrow> RecoveryCodeRow \<Rightarrow> Sys \<Rightarrow> bool" where
  "redeemed env username canon newPassword c t \<longleftrightarrow> (\<forall>c' \<in> set (sy_codes t). rc_ID c' = rc_ID c \<longrightarrow> rc_Used c')
     \<and> (\<exists>u newHash. userRow username t = Some u \<and> ur_PasswordHash u = newHash
          \<and> HashPassword (en_Suite env) (en_Rand env 11) newPassword = Inr newHash
          \<and> (rc_WrappedDEK c \<noteq> [] \<longrightarrow> (\<exists>dek. UnwrapKey (en_Suite env) (rc_WrappedDEK c) canon = Inr dek
               \<and> WrapKey (en_Suite env) (en_Rand env 9) (en_Rand env 10) dek newPassword = Inr (ur_WrappedDEK u))))"

lemma runs_reset:
  "runs (\<lambda>s'. s' = s \<and> userRow username s \<noteq> None) (resetTx env username canon newPassword)
     (\<lambda>_ t. \<exists>c \<in> set (unusedCodes username s). VerifyPassword (en_Suite env) canon (rc_Hash c) = Inr () \<and> redeemed env username canon newPassword c t)"
proof -
  let ?P = "\<lambda>u. u = s \<and> userRow username s \<noteq> None"
  let ?wrap = "\<lambda>c w. rc_WrappedDEK c \<noteq> [] \<longrightarrow> (\<exists>dek. UnwrapKey (en_Suite env) (rc_WrappedDEK c) canon = Inr dek
               \<and> WrapKey (en_Suite env) (en_Rand env 9) (en_Rand env 10) dek newPassword = Inr w)"
  let ?used = "\<lambda>c u. userRow username u \<noteq> None \<and> (\<forall>c' \<in> set (sy_codes u). rc_ID c' = rc_ID c \<longrightarrow> rc_Used c')"
  have wrap: "runs ?P (if rc_WrappedDEK c \<noteq> []
            then (case UnwrapKey (en_Suite env) (rc_WrappedDEK c) canon of
                    Inl _ \<Rightarrow> fail ErrRecoveryWrapCorrupt
                  | Inr dek \<Rightarrow> crypto (WrapKey (en_Suite env) (en_Rand env 9) (en_Rand env 10) dek newPassword))
            else andThen (query (userRow username)) (\<lambda>u.
                 case u of None \<Rightarrow> fail SchemaRefused
                         | Some u \<Rightarrow> if ur_WrappedDEK u \<noteq> [] then fail ErrLegacyRecoveryCode else succeed []))
        (\<lambda>w u. ?wrap c w \<and> ?P u)" for c
    by (rule runsI) (auto simp: andThen_Inr split: sum.split_asm option.split_asm if_split_asm)
  have store: "runs (?used c) (if rc_WrappedDEK c \<noteq> []
         then updateUser username (\<lambda>u. u\<lparr>ur_PasswordHash := newHash, ur_WrappedDEK := w\<rparr>)
         else updateUserIf username (\<lambda>u. ur_WrappedDEK u = []) (\<lambda>u. u\<lparr>ur_PasswordHash := newHash\<rparr>) ErrLegacyRecoveryCode)
        (\<lambda>_. redeemed env username canon newPassword c)"
    if "?wrap c w" "HashPassword (en_Suite env) (en_Rand env 11) newPassword = Inr newHash" for c w newHash
  proof (rule runsI)
    fix u t :: Sys and x assume u: "?used c u" and r: "(if rc_WrappedDEK c \<noteq> []
         then updateUser username (\<lambda>u. u\<lparr>ur_PasswordHash := newHash, ur_WrappedDEK := w\<rparr>)
         else updateUserIf username (\<lambda>u. ur_WrappedDEK u = []) (\<lambda>u. u\<lparr>ur_PasswordHash := newHash\<rparr>) ErrLegacyRecoveryCode) u = (Inr x, t)"
    obtain row where row: "userRow username u = Some row" using u by auto
    show "redeemed env username canon newPassword c t"
    proof (cases "rc_WrappedDEK c = []")
      case True
      then have "updateUser username (\<lambda>u. u\<lparr>ur_PasswordHash := newHash\<rparr>) u = (Inr x, t)"
        using r by (auto simp: updateUserIf_def andThen_Inr split: if_split_asm)
      from updateUser_row [OF this row] show ?thesis using u that True by (simp add: redeemed_def)
    next
      case False
      then have "updateUser username (\<lambda>u. u\<lparr>ur_PasswordHash := newHash, ur_WrappedDEK := w\<rparr>) u = (Inr x, t)" using r by simp
      from updateUser_row [OF this row] show ?thesis using u that False by (simp add: redeemed_def)
    qed
  qed
  show ?thesis
    unfolding resetTx_def
    apply (rule runs_andThen [where Q = "\<lambda>m u. (\<forall>c. m = Some c \<longrightarrow> c \<in> set (unusedCodes username s)
        \<and> VerifyPassword (en_Suite env) canon (rc_Hash c) = Inr ()) \<and> ?P u"])
     apply (rule runs_query, auto simp: find_Some_iff) [1]
    apply (rule runs_fact, rule runs_option, rule runs_fail)
    subgoal for m c
      apply (rule runs_andThen, rule wrap, rule runs_fact)
      apply (rule runs_andThen [where Q = "\<lambda>_. ?used c"], rule runs_exec)
       apply (auto simp: modifyBy_def) [1]
      apply (rule runs_andThen [where Q = "\<lambda>h u. HashPassword (en_Suite env) (en_Rand env 11) newPassword = Inr h \<and> ?used c u"])
       apply (rule runsI, auto simp: auth_def split: sum.split_asm) [1]
      apply (rule runs_fact, rule runs_weaken, rule store, assumption, assumption, assumption)
      apply auto
      done
    done
qed

text \<open>
  C15. Resetting a password with a recovery code takes an unused code of the account that the
  typed text matches, and uses it up; the new password is then the account's, and where the
  code carries the account's key the key is kept: the new password opens the very key that
  the code opens.
\<close>
theorem reset_keeps_the_key:
  assumes "SuiteLaws (en_Suite env)" and "en_Rand env 9 = Some salt" "length salt = saltLen"
    and "en_Rand env 10 = Some nonce" "length nonce = nonceSize" and "en_Rand env 11 = Some hashSalt" "hashSalt \<noteq> []"
    and "userRow username s \<noteq> None" and "ResetWithRecoveryCode env username code newPassword s = (Inr (), t)"
  shows "\<exists>c u. c \<in> set (unusedCodes username s) \<and> VerifyPassword (en_Suite env) (canonicalise code) (rc_Hash c) = Inr ()
     \<and> list_all (\<lambda>c'. rc_ID c' \<noteq> rc_ID c) (unusedCodes username t)
     \<and> userRow username t = Some u \<and> VerifyPassword (en_Suite env) newPassword (ur_PasswordHash u) = Inr ()
     \<and> (rc_WrappedDEK c = [] \<or> (\<exists>dek. UnwrapKey (en_Suite env) (rc_WrappedDEK c) (canonicalise code) = Inr dek
          \<and> UnwrapKey (en_Suite env) (ur_WrappedDEK u) newPassword = Inr dek))"
proof -
  have tx: "resetTx env username (canonicalise code) newPassword s = (Inr (), t)"
    using assms(9) by (auto simp: ResetWithRecoveryCode_def andThen_Inr inWriteTx_Inr split: if_split_asm)
  obtain c where c: "c \<in> set (unusedCodes username s)" "VerifyPassword (en_Suite env) (canonicalise code) (rc_Hash c) = Inr ()"
    and t: "redeemed env username (canonicalise code) newPassword c t"
    using runsD [OF runs_reset _ tx] assms(8) by blast
  from t obtain u where u: "userRow username t = Some u" "HashPassword (en_Suite env) (Some hashSalt) newPassword = Inr (ur_PasswordHash u)"
    and w: "rc_WrappedDEK c \<noteq> [] \<longrightarrow> (\<exists>dek. UnwrapKey (en_Suite env) (rc_WrappedDEK c) (canonicalise code) = Inr dek
               \<and> WrapKey (en_Suite env) (en_Rand env 9) (en_Rand env 10) dek newPassword = Inr (ur_WrappedDEK u))"
    using assms(6) by (auto simp: redeemed_def)
  have "list_all (\<lambda>c'. rc_ID c' \<noteq> rc_ID c) (unusedCodes username t)"
    using t by (auto simp: redeemed_def unusedCodes_def list_all_iff)
  moreover have "VerifyPassword (en_Suite env) newPassword (ur_PasswordHash u) = Inr ()"
    using hash_verifies(1) [OF assms(1) u(2) assms(7)] by simp
  moreover have "rc_WrappedDEK c = [] \<or> (\<exists>dek. UnwrapKey (en_Suite env) (rc_WrappedDEK c) (canonicalise code) = Inr dek
          \<and> UnwrapKey (en_Suite env) (ur_WrappedDEK u) newPassword = Inr dek)"
    using w UnwrapKey_WrapKey [OF assms(1)] assms(2-5) by (metis option.inject)
  ultimately show ?thesis using c u(1) by blast
qed

definition codeWrap :: string where
  "codeWrap = (case WrapKey toySuite (Some (replicate 16 (CHR ''A''))) (Some (replicate 12 (CHR ''A''))) annaKey ''ABCD'' of
     Inr w \<Rightarrow> w | Inl _ \<Rightarrow> [])"

definition annaCode :: RecoveryCodeRow where
  "annaCode = \<lparr>rc_ID = 1, rc_Username = ''anna'', rc_Hash = annaHash, rc_Used = False, rc_UsedAt = None, rc_CreatedAt = Some 15,
     rc_WrappedDEK = codeWrap\<rparr>"

lemma annaCreated_identity: "sy_identity annaCreated = [\<lparr>ai_ID = annaID, ai_Username = Some ''anna'', ai_Generation = Some 2\<rparr>]"
  by (simp add: annaCreated_def)

definition annaWithCode :: Sys where "annaWithCode = annaCreated\<lparr>sy_codes := [annaCode], sy_nextCode := 2\<rparr>"

lemma code_secrets: "UnwrapKey toySuite codeWrap ''ABCD'' = Inr annaKey" "codeWrap \<noteq> []" "VerifyPassword toySuite ''ABCD'' annaHash = Inr ()"
proof -
  have "WrapKey toySuite (Some (replicate 16 (CHR ''A''))) (Some (replicate 12 (CHR ''A''))) annaKey ''ABCD'' = Inr codeWrap"
    by (simp add: codeWrap_def WrapKey_def EncryptBuffer_def drawn_def DEKSize_def)
  then show k: "UnwrapKey toySuite codeWrap ''ABCD'' = Inr annaKey"
    by (rule UnwrapKey_WrapKey [OF toySuite_laws, rotated 2]) (auto simp: saltLen_def nonceSize_def)
  moreover have "UnwrapKey toySuite [] ''ABCD'' = Inl CiphertextTooShort" by code_simp
  ultimately show "codeWrap \<noteq> []" by auto
  have "replicate 16 (CHR ''A'') \<noteq> []" by simp
  from hash_verifies(1) [OF toySuite_laws anna_secrets(1) this] show "VerifyPassword toySuite ''ABCD'' annaHash = Inr ()"
    by (simp add: toySuite_def)
qed

definition annaReset :: Sys where
  "annaReset = snd (ResetWithRecoveryCode (toyEnv (CHR ''R'') 60) ''anna'' ''abcd'' ''new password'' annaWithCode)"

lemma anna_resets: "ResetWithRecoveryCode (toyEnv (CHR ''R'') 60) ''anna'' ''abcd'' ''new password'' annaWithCode = (Inr (), annaReset)"
proof -
  have n: "drawLength 9 = 16" "drawLength 10 = 12" "drawLength 11 = 16" by (simp_all add: drawLength_def)
  have c: "canonicalise ''abcd'' = ''ABCD''" "ValidatePassword ''new password'' = Inr ()"
    by code_simp (simp add: ValidatePassword_def MinPasswordLength_def)
  obtain w h where s: "WrapKey toySuite (Some (replicate 16 (CHR ''R''))) (Some (replicate 12 (CHR ''R''))) annaKey ''new password'' = Inr w"
    "HashPassword toySuite (Some (replicate 16 (CHR ''R''))) ''new password'' = Inr h"
    by (simp add: WrapKey_def EncryptBuffer_def drawn_def DEKSize_def HashPassword_def Let_def)
  have "fst (ResetWithRecoveryCode (toyEnv (CHR ''R'') 60) ''anna'' ''abcd'' ''new password'' annaWithCode) = Inr ()"
    by (simp add: ResetWithRecoveryCode_def resetTx_def c n s unusedCodes_def annaWithCode_def annaCode_def code_secrets annaCreated_simps
        annaRow_simps updateUser_def bumpGeneration_def statement_def identityOf_def run_defs anna_name annaCreated_identity)
  then show ?thesis unfolding annaReset_def by (metis prod.collapse)
qed

theorem reset_keeps_the_key_witness:
  "\<exists>u. userRow ''anna'' annaReset = Some u \<and> VerifyPassword toySuite ''new password'' (ur_PasswordHash u) = Inr ()
     \<and> UnwrapKey toySuite (ur_WrappedDEK u) ''new password'' = Inr annaKey"
proof -
  let ?env = "toyEnv (CHR ''R'') 60"
  have d: "SuiteLaws (en_Suite ?env)" "en_Rand ?env 9 = Some (replicate 16 (CHR ''R''))" "length (replicate 16 (CHR ''R'')) = saltLen"
    "en_Rand ?env 10 = Some (replicate 12 (CHR ''R''))" "length (replicate 12 (CHR ''R'')) = nonceSize"
    "en_Rand ?env 11 = Some (replicate 16 (CHR ''R''))" "replicate 16 (CHR ''R'') \<noteq> []" "userRow ''anna'' annaWithCode \<noteq> None"
    by (simp_all add: toySuite_laws drawLength_def saltLen_def nonceSize_def annaWithCode_def annaCreated_simps rowBy_Cons annaRow_simps)
  have u: "unusedCodes ''anna'' annaWithCode = [annaCode]" by (simp add: unusedCodes_def annaWithCode_def annaCode_def)
  have c: "canonicalise ''abcd'' = ''ABCD''" by code_simp
  obtain c u' where "c \<in> set (unusedCodes ''anna'' annaWithCode)"
    and r: "userRow ''anna'' annaReset = Some u'" "VerifyPassword toySuite ''new password'' (ur_PasswordHash u') = Inr ()"
    "rc_WrappedDEK c = [] \<or> (\<exists>dek. UnwrapKey toySuite (rc_WrappedDEK c) ''ABCD'' = Inr dek \<and> UnwrapKey toySuite (ur_WrappedDEK u') ''new password'' = Inr dek)"
    using reset_keeps_the_key [OF d anna_resets] by (auto simp: c)
  then have "c = annaCode" using u by simp
  show ?thesis using r \<open>c = annaCode\<close> code_secrets by (auto simp: annaCode_def)
qed

subsection \<open>One account, one purpose\<close>

text \<open>
  C35. What is sealed to the administrator key for one account opens for that account and for
  no other, nor under another key's identifier, where the suite binds the context string
  into a sealed value and names and identifiers are shorter than 4 GiB.
\<close>
theorem sealed_for_one_account:
  assumes "SuiteLaws S" and "SuiteBinds S" and "kemPublic S sk = Some pk" and "SealDEK S rnd pk i u dek = Inr sealed"
    and "length i < 2 ^ 32" "length u < 2 ^ 32" "length j < 2 ^ 32" "length v < 2 ^ 32"
  shows "OpenDEK S sk j v sealed = (if j = i \<and> v = u then Inr dek else Inl ErrEscrowOpen)"
proof (cases "j = i \<and> v = u")
  case True
  then show ?thesis using OpenDEK_SealDEK [OF assms(1,3,4)] by simp
next
  case False
  have "length escrowDEKLabel < 2 ^ 32" by (simp add: escrowDEKLabel_def)
  then have "bindFields escrowDEKLabel [j, v] \<noteq> bindFields escrowDEKLabel [i, u]"
    using False assms(5-8) bindFields_inj [of escrowDEKLabel "[j, v]" escrowDEKLabel "[i, u]"] by auto
  moreover obtain r where "sealed = hpkeSeal S r pk (bindFields escrowDEKLabel [i, u]) dek"
    using assms(4) by (auto simp: SealDEK_def sealTo_def and_then_Inr_iff split: if_splits)
  ultimately have "hpkeOpen S sk (bindFields escrowDEKLabel [j, v]) sealed = None"
    using assms(2) assms(3) unfolding SuiteBinds_def by metis
  then show ?thesis using assms(3) False by (auto simp: OpenDEK_def openWith_def)
qed

text \<open>A suite that binds: the context string, spelled so that no other is a prefix of it, goes first.\<close>

definition tagged :: "string \<Rightarrow> string" where "tagged info = replicate (length info) (CHR ''i'') @ CHR ''.'' # info"

definition bindingSuite :: Suite where
  "bindingSuite = toySuite\<lparr>hpkeSeal := (\<lambda>rnd pk info pt. tagged info @ pt),
     hpkeOpen := (\<lambda>sk info ct. if take (length (tagged info)) ct = tagged info then Some (drop (length (tagged info)) ct) else None)\<rparr>"

lemma tagged_prefix: "take (length (tagged j)) (tagged i @ pt) = tagged j \<Longrightarrow> i = j"
proof -
  assume "take (length (tagged j)) (tagged i @ pt) = tagged j"
  then obtain r where r: "tagged i @ pt = tagged j @ r" by (metis append_take_drop_id)
  have cut: "length i = length j" if "replicate (length i) (CHR ''i'') @ CHR ''.'' # x = replicate (length j) (CHR ''i'') @ CHR ''.'' # y" for x y
  proof -
    have "length (takeWhile (\<lambda>c. c = CHR ''i'') (replicate n (CHR ''i'') @ CHR ''.'' # z)) = n" for n z by (induction n) simp_all
    with that show ?thesis by metis
  qed
  then have "length i = length j" using r unfolding tagged_def by (metis append.assoc append_Cons)
  with r show "i = j" by (simp add: tagged_def)
qed

lemma bindingSuite_fields: "kemPublic bindingSuite = kemPublic toySuite" "kemValid bindingSuite = kemValid toySuite"
  "gcmOpen bindingSuite = gcmOpen toySuite" "gcmSeal bindingSuite = gcmSeal toySuite" "hmacSHA256 bindingSuite = hmacSHA256 toySuite"
  "argonIDKey bindingSuite = argonIDKey toySuite" "hpkeSeal bindingSuite rnd pk info pt = tagged info @ pt"
  "hpkeOpen bindingSuite sk info ct = (if take (length (tagged info)) ct = tagged info then Some (drop (length (tagged info)) ct) else None)"
  by (simp_all add: bindingSuite_def)

lemma bindingSuite_ok: "SuiteLaws bindingSuite" "SuiteBinds bindingSuite"
proof -
  show "SuiteLaws bindingSuite"
    using toySuite_laws unfolding SuiteLaws_def bindingSuite_fields by simp
  show "SuiteBinds bindingSuite"
    unfolding SuiteBinds_def bindingSuite_fields using tagged_prefix by (metis (full_types))
qed

theorem sealed_for_one_account_witness:
  "OpenDEK bindingSuite ''k'' ''id'' ''bob'' (tagged (bindFields escrowDEKLabel [''id'', ''anna'']) @ annaKey) = Inl ErrEscrowOpen
   \<and> OpenDEK bindingSuite ''k'' ''id'' ''anna'' (tagged (bindFields escrowDEKLabel [''id'', ''anna'']) @ annaKey) = Inr annaKey"
proof -
  have s: "kemPublic bindingSuite ''k'' = Some ''Pk''"
    "SealDEK bindingSuite (Some ''r'') ''Pk'' ''id'' ''anna'' annaKey = Inr (tagged (bindFields escrowDEKLabel [''id'', ''anna'']) @ annaKey)"
    by (simp_all add: bindingSuite_def SealDEK_def sealTo_def drawn_def DEKSize_def)
  show ?thesis
    using sealed_for_one_account [OF bindingSuite_ok s, of "''id''" "''bob''"] sealed_for_one_account [OF bindingSuite_ok s, of "''id''" "''anna''"]
    by simp
qed

subsection \<open>Passwords\<close>

text \<open>
  C36. A stored password hash is readable by its own checker: it accepts exactly the passwords
  with the same Argon2id key under its salt, its own password among them, and refuses the
  others as a mismatch; and it is not due for strengthening.
\<close>
theorem password_hash_verifies:
  assumes "SuiteLaws S" and "HashPassword S (Some salt) password = Inr h" and "salt \<noteq> []"
  shows "VerifyPassword S password h = Inr () \<and> \<not> NeedsRehash h
     \<and> VerifyPassword S other h =
         (if argonIDKey S other salt pwTime pwMemory pwThreads pwKeyLen = argonIDKey S password salt pwTime pwMemory pwThreads pwKeyLen
          then Inr () else Inl ErrMismatch)"
  using hash_verifies [OF assms] by simp

theorem password_hash_verifies_witness: "VerifyPassword toySuite ''password'' annaHash = Inr () \<and> \<not> NeedsRehash annaHash"
proof -
  have "replicate 16 (CHR ''A'') \<noteq> []" by simp
  from password_hash_verifies [OF toySuite_laws anna_secrets(1) this] show ?thesis by blast
qed

end
